(* ===== verification/Prelude.thy ===== *)
theory Prelude
  imports Complex_Main "HOL-Library.Multiset"
begin

section \<open>Shared vocabulary of the development\<close>

text \<open>
  The prelude fixes what every component of the model uses: the exceptions of the Python
  code as values, a result type with its bind, the lookup of dictionaries kept as
  association lists, and the list lemmas the components share. Facts go into three
  collections: \<open>res_simps\<close> for the error monad, \<open>dec_simps\<close> for the evaluation of decimal
  arithmetic, \<open>frame_simps\<close> for the fields that an operation leaves alone.
\<close>

named_theorems res_simps "elimination of binds in the error monad"
named_theorems dec_simps "evaluation of decimal operations on concrete numbers"
named_theorems frame_simps "fields an operation does not write"

subsection \<open>Exceptions and results\<close>

text \<open>
  A Python call either returns or raises. The exceptions that the modelled code raises,
  catches or lets through are one datatype; \<open>ValueError\<close> keeps its message because the
  callers tell its uses apart.
\<close>

datatype py_error =
    InvalidOperation
  | DivisionByZero
  | DecimalException
  | ValueError string
  | KeyError
  | IndexError
  | AttributeError
  | TypeError
  | DataError
  | AssertionError
  | IntegrityError string
  | PermissionError
  | DoesNotExist
  | MatchingError string
  | ApiError string
  | ParseError string
  | Ratelimited

type_synonym 'a result = "py_error + 'a"

definition rbind :: "'e + 'a \<Rightarrow> ('a \<Rightarrow> 'e + 'b) \<Rightarrow> 'e + 'b" where
  "rbind m f = (case m of Inl e \<Rightarrow> Inl e | Inr x \<Rightarrow> f x)"

lemma rbind_Inl [simp, res_simps]: "rbind (Inl e) f = Inl e"
  by (simp add: rbind_def)

lemma rbind_Inr [simp, res_simps]: "rbind (Inr x) f = f x"
  by (simp add: rbind_def)

lemma rbind_eq_Inr_iff [res_simps]:
  "rbind m f = Inr y \<longleftrightarrow> (\<exists>x. m = Inr x \<and> f x = Inr y)"
  by (cases m) simp_all

lemma rbind_eq_Inl_iff [res_simps]:
  "rbind m f = Inl e \<longleftrightarrow> m = Inl e \<or> (\<exists>x. m = Inr x \<and> f x = Inl e)"
  by (cases m) simp_all

lemma rbind_cong [fundef_cong]:
  "m = m' \<Longrightarrow> (\<And>x. m' = Inr x \<Longrightarrow> f x = f' x) \<Longrightarrow> rbind m f = rbind m' f'"
  by (cases m') simp_all

text \<open>With this congruence the simplifier evaluates a bind from its first action on.\<close>

lemma rbind_weak_cong: "m = m' \<Longrightarrow> rbind m f = rbind m' f"
  by simp

definition guard_else :: "bool \<Rightarrow> 'e \<Rightarrow> 'e + unit" where
  "guard_else b e = (if b then Inr () else Inl e)"

lemma guard_else_simps [simp, res_simps]:
  "guard_else True e = Inr ()" "guard_else False e = Inl e"
  by (simp_all add: guard_else_def)

lemma guard_else_Inr [res_simps]: "guard_else b e = Inr u \<longleftrightarrow> b"
  by (simp add: guard_else_def)

lemma guard_else_Inl [res_simps]: "guard_else b e = Inl e' \<longleftrightarrow> \<not> b \<and> e' = e"
  by (auto simp: guard_else_def)

fun is_ok :: "'e + 'a \<Rightarrow> bool" where
  "is_ok (Inl e) = False"
| "is_ok (Inr x) = True"

text \<open>A loop whose body may raise.\<close>

fun fold_result :: "('s \<Rightarrow> 'a \<Rightarrow> 'e + 's) \<Rightarrow> 's \<Rightarrow> 'a list \<Rightarrow> 'e + 's" where
  "fold_result f s [] = Inr s"
| "fold_result f s (x # xs) = rbind (f s x) (\<lambda>s'. fold_result f s' xs)"

lemma fold_result_append [res_simps]:
  "fold_result f s (xs @ ys) = rbind (fold_result f s xs) (\<lambda>s'. fold_result f s' ys)"
proof (induction xs arbitrary: s)
  case (Cons x xs)
  then show ?case by (cases "f s x") simp_all
qed simp

lemma fold_result_invariant:
  "fold_result f s xs = Inr s' \<Longrightarrow> I s
   \<Longrightarrow> (\<And>s x s'. x \<in> set xs \<Longrightarrow> I s \<Longrightarrow> f s x = Inr s' \<Longrightarrow> I s') \<Longrightarrow> I s'"
proof (induction xs arbitrary: s)
  case (Cons x xs)
  from Cons.prems(1) obtain t where "f s x = Inr t" "fold_result f t xs = Inr s'"
    by (auto simp: rbind_eq_Inr_iff)
  with Cons.prems show ?case
    by (intro Cons.IH [of t]) (auto intro: Cons.prems(3) [of x s t])
qed simp

subsection \<open>State machines\<close>

text \<open>What every step keeps, every run keeps.\<close>

locale invariant_machine =
  fixes machine_step :: "'s \<Rightarrow> 's \<Rightarrow> bool" and machine_inv :: "'s \<Rightarrow> bool"
  assumes step_keeps: "machine_step s s' \<Longrightarrow> machine_inv s \<Longrightarrow> machine_inv s'"
begin

lemma run_keeps: "machine_step\<^sup>*\<^sup>* s s' \<Longrightarrow> machine_inv s \<Longrightarrow> machine_inv s'"
  by (induction rule: rtranclp_induct) (auto intro: step_keeps)

end

subsection \<open>Dictionaries\<close>

text \<open>
  Literal dictionaries of the source are association lists, looked up with \<^const>\<open>map_of\<close>;
  \<open>d[k]\<close> raises \<open>KeyError\<close> on a missing key and \<open>xs[i]\<close> raises \<open>IndexError\<close>.
\<close>

definition dict_get :: "('k \<times> 'v) list \<Rightarrow> 'k \<Rightarrow> 'v result" where
  "dict_get d k = (case map_of d k of None \<Rightarrow> Inl KeyError | Some v \<Rightarrow> Inr v)"

definition list_get :: "'a list \<Rightarrow> nat \<Rightarrow> 'a result" where
  "list_get xs i = (if i < length xs then Inr (xs ! i) else Inl IndexError)"

lemma list_get_Inr: "list_get xs i = Inr v \<longleftrightarrow> i < length xs \<and> v = xs ! i"
  by (auto simp: list_get_def)

lemma list_get_in_set: "list_get xs i = Inr v \<Longrightarrow> v \<in> set xs"
  by (simp add: list_get_Inr)

subsection \<open>Sums over lists\<close>

lemma sum_list_nonneg_map:
  "(\<And>x. x \<in> set xs \<Longrightarrow> 0 \<le> f x) \<Longrightarrow> (0::'a::ordered_comm_monoid_add) \<le> sum_list (map f xs)"
  by (rule sum_list_nonneg) auto

lemma sum_list_map_mono:
  fixes f g :: "'b \<Rightarrow> 'a::ordered_comm_monoid_add"
  shows "(\<And>x. x \<in> set xs \<Longrightarrow> f x \<le> g x) \<Longrightarrow> sum_list (map f xs) \<le> sum_list (map g xs)"
  by (induction xs) (auto intro: add_mono)

end
