(* ===== verification/Decimals.thy ===== *)
theory Decimals
  imports Prelude
begin

section \<open>Python decimals\<close>

text \<open>
  Amounts, prices and balances are \<open>decimal.Decimal\<close> values under the default context:
  28 significant digits, \<open>ROUND_HALF_EVEN\<close>. A finite decimal is modelled by its value, a
  rational; every arithmetic operation rounds its exact result with \<open>ctx\<close> to 28
  significant digits, and \<open>quantize\<close> rounds to a fixed exponent and raises
  \<open>InvalidOperation\<close> when the coefficient does not fit the context. The trailing zeros of
  a decimal, its infinities and NaNs and the exponent limits of the context are not part
  of the model: where the source compares with \<open>Decimal('Inf')\<close> the component says so
  with an option type.
\<close>

subsection \<open>Powers of ten and the number of digits\<close>

definition pow10 :: "int \<Rightarrow> rat" where
  "pow10 e = (if 0 \<le> e then 10 ^ nat e else 1 / 10 ^ nat (- e))"

lemma pow10_eval [dec_simps]:
  "pow10 0 = 1" "pow10 1 = 10" "pow10 (numeral n) = 10 ^ numeral n"
  "pow10 (- numeral n) = 1 / 10 ^ numeral n" "pow10 (- 1) = 1 / 10"
  by (simp_all add: pow10_def)

lemma pow10_powi: "pow10 e = 10 powi e"
  by (simp add: pow10_def power_int_def inverse_eq_divide power_one_over)

lemma pow10_pos [simp]: "0 < pow10 e"
  by (simp add: pow10_def)

lemma pow10_nonneg [simp]: "0 \<le> pow10 e" and pow10_nonzero [simp]: "pow10 e \<noteq> 0"
  using pow10_pos [of e] by linarith+

lemma pow10_add: "pow10 (a + b) = pow10 a * pow10 b"
  by (simp add: pow10_powi power_int_add)

lemma pow10_nat: "pow10 (int n) = 10 ^ n"
  by (simp add: pow10_def)

lemma pow10_mono: "a \<le> b \<Longrightarrow> pow10 a \<le> pow10 b"
  by (simp add: pow10_powi power_int_increasing)

lemma pow10_strict_mono: "a < b \<Longrightarrow> pow10 a < pow10 b"
  by (simp add: pow10_powi power_int_strict_increasing)

lemma pow10_less_iff [simp]: "pow10 a < pow10 b \<longleftrightarrow> a < b"
  by (metis linorder_not_less pow10_mono pow10_strict_mono)

fun ndigits :: "nat \<Rightarrow> nat" where
  "ndigits n = (if n < 10 then 1 else Suc (ndigits (n div 10)))"

declare ndigits.simps [simp del]

lemma ndigits_pos [simp]: "0 < ndigits n"
  by (subst ndigits.simps) simp

lemma ndigits_bounds: "n < 10 ^ ndigits n \<and> (0 < n \<longrightarrow> 10 ^ (ndigits n - 1) \<le> n)"
proof (induction n rule: ndigits.induct)
  case (1 n)
  show ?case
  proof (cases "n < 10")
    case True
    then show ?thesis by (simp add: ndigits.simps [of n])
  next
    case False
    then have IH: "n div 10 < 10 ^ ndigits (n div 10)" "10 ^ (ndigits (n div 10) - 1) \<le> n div 10"
      using "1.IH" by auto
    have "10 ^ (ndigits (n div 10) - 1) * 10 \<le> n"
      using IH(2) by (simp add: less_eq_div_iff_mult_less_eq)
    moreover have "Suc (ndigits (n div 10) - 1) = ndigits (n div 10)"
      by simp
    ultimately have "10 ^ ndigits (n div 10) \<le> n"
      by (metis mult.commute power_Suc)
    moreover have "n < 10 * 10 ^ ndigits (n div 10)"
      using IH(1) by linarith
    ultimately show ?thesis using False by (simp add: ndigits.simps [of n])
  qed
qed

text \<open>
  \<open>adjusted x\<close> is the exponent of the leading digit of \<open>x\<close> (\<open>Decimal.adjusted\<close>).
\<close>

definition adjusted :: "rat \<Rightarrow> int" where
  "adjusted x =
     (if 1 \<le> \<bar>x\<bar> then int (ndigits (nat \<lfloor>\<bar>x\<bar>\<rfloor>)) - 1
      else - int (ndigits (nat (\<lceil>1 / \<bar>x\<bar>\<rceil> - 1))))"

text \<open>For evaluation the digits are counted on binary integers.\<close>

function digits_int :: "int \<Rightarrow> int" where
  "digits_int n = (if n < 10 then 1 else 1 + digits_int (n div 10))"
  by pat_completeness auto
termination by (relation "measure nat") auto

declare digits_int.simps [simp del]

lemma digits_int_eq: "0 \<le> n \<Longrightarrow> digits_int n = int (ndigits (nat n))"
proof (induction n rule: digits_int.induct)
  case (1 n)
  show ?case
  proof (cases "n < 10")
    case True
    then have "nat n < 10" by simp
    with True show ?thesis by (simp add: digits_int.simps [of n] ndigits.simps [of "nat n"])
  next
    case False
    then have "nat n div 10 = nat (n div 10)" "\<not> nat n < 10" by (simp_all add: nat_div_distrib)
    with False 1 show ?thesis
      by (simp add: digits_int.simps [of n] ndigits.simps [of "nat n"])
  qed
qed

lemma adjusted_code [code]:
  "adjusted x = (if 1 \<le> \<bar>x\<bar> then digits_int \<lfloor>\<bar>x\<bar>\<rfloor> - 1 else - digits_int (\<lceil>1 / \<bar>x\<bar>\<rceil> - 1))"
proof (cases "1 \<le> \<bar>x\<bar>")
  case True
  then show ?thesis by (simp add: adjusted_def digits_int_eq)
next
  case False
  show ?thesis
  proof (cases "x = 0")
    case True
    then show ?thesis by (simp add: adjusted_def digits_int.simps ndigits.simps)
  next
    case False
    then have "0 < 1 / \<bar>x\<bar>" by simp
    then have "0 \<le> \<lceil>1 / \<bar>x\<bar>\<rceil> - 1" by linarith
    with \<open>\<not> 1 \<le> \<bar>x\<bar>\<close> show ?thesis by (simp add: adjusted_def digits_int_eq)
  qed
qed

lemma adjusted_bounds:
  assumes "x \<noteq> 0"
  shows "pow10 (adjusted x) \<le> \<bar>x\<bar>" and "\<bar>x\<bar> < pow10 (adjusted x + 1)"
proof -
  have "pow10 (adjusted x) \<le> \<bar>x\<bar> \<and> \<bar>x\<bar> < pow10 (adjusted x + 1)"
  proof (cases "1 \<le> \<bar>x\<bar>")
    case True
    define n where "n = nat \<lfloor>\<bar>x\<bar>\<rfloor>"
    have n: "0 < n" "of_nat n \<le> \<bar>x\<bar>" "\<bar>x\<bar> < of_nat n + 1"
      using True by (auto simp: n_def) linarith+
    define d where "d = ndigits n"
    have d: "n < 10 ^ d" "10 ^ (d - 1) \<le> n" "0 < d"
      using ndigits_bounds [of n] n(1) by (auto simp: d_def)
    have "adjusted x = int d - 1"
      using True by (simp add: adjusted_def d_def n_def)
    with d(3) have "adjusted x = int (d - 1)" "adjusted x + 1 = int d"
      by auto
    then have adj: "pow10 (adjusted x) = of_nat (10 ^ (d - 1))" "pow10 (adjusted x + 1) = of_nat (10 ^ d)"
      by (auto simp only: pow10_nat of_nat_power of_nat_numeral)
    have "(of_nat (10 ^ (d - 1)) :: rat) \<le> of_nat n" "(of_nat n + 1 :: rat) \<le> of_nat (10 ^ d)"
      using d by (auto simp del: of_nat_power simp: Suc_le_eq simp flip: of_nat_Suc)
    with n show ?thesis unfolding adj by linarith
  next
    case False
    define y where "y = 1 / \<bar>x\<bar>"
    have y: "1 < y" "\<bar>x\<bar> = 1 / y"
      using False assms by (auto simp: y_def)
    define n where "n = nat (\<lceil>y\<rceil> - 1)"
    have n: "0 < n" "of_nat n < y" "y \<le> of_nat n + 1"
      using y(1) by (auto simp: n_def) linarith+
    define d where "d = ndigits n"
    have d: "n < 10 ^ d" "10 ^ (d - 1) \<le> n" "0 < d"
      using ndigits_bounds [of n] n(1) by (auto simp: d_def)
    have adj: "adjusted x = - int d"
      using False by (simp add: adjusted_def d_def n_def y_def)
    have le: "y \<le> 10 ^ d" and less: "10 ^ (d - 1) < y"
    proof -
      have "(of_nat n + 1 :: rat) \<le> of_nat (10 ^ d)" "(of_nat (10 ^ (d - 1)) :: rat) \<le> of_nat n"
        using d by (auto simp del: of_nat_power simp: Suc_le_eq simp flip: of_nat_Suc)
      with n have "y \<le> of_nat (10 ^ d)" "of_nat (10 ^ (d - 1)) < y" by linarith+
      then show "y \<le> 10 ^ d" "10 ^ (d - 1) < y" by simp_all
    qed
    have "pow10 (- int d) = 1 / 10 ^ d"
      using d(3) by (simp add: pow10_def)
    moreover have "pow10 (- int d + 1) = 1 / 10 ^ (d - 1)"
    proof (cases "d = 1")
      case False
      with d(3) show ?thesis
        by (simp add: pow10_def nat_diff_distrib' Suc_diff_Suc)
    qed (simp add: pow10_def)
    moreover have "1 / 10 ^ d \<le> 1 / y" "1 / y < 1 / 10 ^ (d - 1)"
      using le less y(1) by (auto intro!: divide_left_mono divide_strict_left_mono)
    ultimately show ?thesis
      unfolding adj y(2) by simp
  qed
  then show "pow10 (adjusted x) \<le> \<bar>x\<bar>" "\<bar>x\<bar> < pow10 (adjusted x + 1)" by auto
qed

lemma adjusted_unique:
  assumes "pow10 e \<le> \<bar>x\<bar>" "\<bar>x\<bar> < pow10 (e + 1)"
  shows "adjusted x = e"
proof -
  have "x \<noteq> 0" using assms(1) pow10_pos [of e] by (auto simp del: pow10_pos)
  from adjusted_bounds [OF this] assms have "pow10 e < pow10 (adjusted x + 1)"
    "pow10 (adjusted x) < pow10 (e + 1)" by linarith+
  then show ?thesis by simp
qed

subsection \<open>Rounding to an integer\<close>

datatype rounding = ROUND_HALF_EVEN | ROUND_DOWN | ROUND_UP | ROUND_HALF_UP

fun round_int :: "rounding \<Rightarrow> rat \<Rightarrow> int" where
  "round_int ROUND_HALF_EVEN x =
     (let f = \<lfloor>x\<rfloor>; r = x - of_int f
      in if r < 1 / 2 then f else if 1 / 2 < r then f + 1 else if even f then f else f + 1)"
| "round_int ROUND_DOWN x = (if 0 \<le> x then \<lfloor>x\<rfloor> else \<lceil>x\<rceil>)"
| "round_int ROUND_UP x = (if 0 \<le> x then \<lceil>x\<rceil> else \<lfloor>x\<rfloor>)"
| "round_int ROUND_HALF_UP x = (if 0 \<le> x then \<lfloor>x + 1 / 2\<rfloor> else \<lceil>x - 1 / 2\<rceil>)"

text \<open>
  What the arithmetic needs of a rounding mode: it is monotone and leaves integers alone.
  Everything else the components use follows from these two laws.
\<close>

locale integer_rounding =
  fixes rnd :: "rat \<Rightarrow> int"
  assumes rnd_mono: "x \<le> y \<Longrightarrow> rnd x \<le> rnd y"
    and rnd_of_int: "rnd (of_int n) = n"
begin

lemma rnd_ge_int: "of_int n \<le> x \<Longrightarrow> n \<le> rnd x"
  using rnd_mono [of "of_int n" x] by (simp add: rnd_of_int)

lemma rnd_le_int: "x \<le> of_int n \<Longrightarrow> rnd x \<le> n"
  using rnd_mono [of x "of_int n"] by (simp add: rnd_of_int)

lemma rnd_floor_ceiling: "\<lfloor>x\<rfloor> \<le> rnd x \<and> rnd x \<le> \<lceil>x\<rceil>"
  by (simp add: rnd_ge_int rnd_le_int)

lemma rnd_error: "\<bar>of_int (rnd x) - x\<bar> < 1"
  using rnd_floor_ceiling [of x] by linarith

lemma rnd_0: "rnd 0 = 0"
  using rnd_of_int [of 0] by simp

lemma rnd_nonneg: "0 \<le> x \<Longrightarrow> 0 \<le> rnd x"
  using rnd_mono [of 0 x] by (simp add: rnd_0)

lemma rnd_nonpos: "x \<le> 0 \<Longrightarrow> rnd x \<le> 0"
  using rnd_mono [of x 0] by (simp add: rnd_0)

end

lemma round_half_even_mono: "x \<le> y \<Longrightarrow> round_int ROUND_HALF_EVEN x \<le> round_int ROUND_HALF_EVEN y"
proof -
  assume xy: "x \<le> y"
  then have f: "\<lfloor>x\<rfloor> \<le> \<lfloor>y\<rfloor>" by (rule floor_mono)
  show ?thesis
  proof (cases "\<lfloor>x\<rfloor> = \<lfloor>y\<rfloor>")
    case True
    with xy show ?thesis by (auto simp: Let_def)
  next
    case False
    with f have "\<lfloor>x\<rfloor> + 1 \<le> \<lfloor>y\<rfloor>" by linarith
    then show ?thesis by (auto simp: Let_def)
  qed
qed

lemma round_int_mono: "round_int m x \<le> round_int m y" if "x \<le> y"
proof -
  have mono: "\<lfloor>x\<rfloor> \<le> \<lfloor>y\<rfloor>" "\<lceil>x\<rceil> \<le> \<lceil>y\<rceil>"
    "\<lfloor>x + 1 / 2\<rfloor> \<le> \<lfloor>y + 1 / 2\<rfloor>" "\<lceil>x - 1 / 2\<rceil> \<le> \<lceil>y - 1 / 2\<rceil>"
    using that by (auto intro: floor_mono ceiling_mono)
  have sign: "\<lceil>x\<rceil> \<le> 0" "\<lfloor>x\<rfloor> \<le> 0" "\<lceil>x - 1 / 2\<rceil> \<le> 0" if "\<not> 0 \<le> x"
    using that by (auto simp: ceiling_le_iff floor_le_iff)
  have sign': "0 \<le> \<lceil>y\<rceil>" "0 \<le> \<lfloor>y\<rfloor>" "0 \<le> \<lfloor>y + 1 / 2\<rfloor>" if "0 \<le> y"
    using that by (auto simp: le_floor_iff le_ceiling_iff)
  have cross: "\<lceil>x\<rceil> \<le> \<lfloor>y\<rfloor>" "\<lfloor>x\<rfloor> \<le> \<lceil>y\<rceil>" "\<lceil>x - 1 / 2\<rceil> \<le> \<lfloor>y + 1 / 2\<rfloor>"
    if "\<not> 0 \<le> x" "0 \<le> y"
    using sign [OF that(1)] sign' [OF that(2)] by (blast intro: order_trans)+
  note facts = mono cross that
  show ?thesis
  proof (cases m)
    case ROUND_HALF_EVEN
    then show ?thesis by (simp only: round_half_even_mono that)
  next
    case ROUND_DOWN
    then show ?thesis using facts by (auto intro: order_trans)
  next
    case ROUND_UP
    then show ?thesis using facts by (auto intro: order_trans)
  next
    case ROUND_HALF_UP
    then show ?thesis using facts by (auto intro: order_trans)
  qed
qed

interpretation round_int: integer_rounding "round_int m" for m
proof
  show "round_int m (of_int n) = n" for n
    by (cases m; simp add: Let_def floor_eq_iff ceiling_eq_iff)
qed (rule round_int_mono)

lemma round_down_abs_le: "\<bar>of_int (round_int ROUND_DOWN x)\<bar> \<le> \<bar>x\<bar>"
  by (cases "0 \<le> x") (simp_all add: abs_of_nonpos abs_of_nonneg)

lemma round_up_ge: "x \<le> of_int (round_int ROUND_UP x)" if "0 \<le> x"
  using that by auto

lemma round_down_le: "of_int (round_int ROUND_DOWN x) \<le> x" if "0 \<le> x"
  using that by auto

lemma round_half_even_error: "\<bar>of_int (round_int ROUND_HALF_EVEN x) - x\<bar> \<le> 1 / 2"
proof -
  have "of_int \<lfloor>x\<rfloor> \<le> x" "x < of_int \<lfloor>x\<rfloor> + 1" by linarith+
  then show ?thesis by (auto simp: Let_def abs_le_iff field_simps)
qed

lemma round_int_minus_half_even: "round_int ROUND_HALF_EVEN (- x) = - round_int ROUND_HALF_EVEN x"
proof (cases "x = of_int \<lfloor>x\<rfloor>")
  case True
  then show ?thesis
    by (metis of_int_minus round_int.rnd_of_int)
next
  case False
  then have "\<lfloor>- x\<rfloor> = - \<lfloor>x\<rfloor> - 1"
    by linarith
  then show ?thesis
    by (auto simp: Let_def)
qed

declare round_int.simps [simp del]

subsection \<open>Rounding to an exponent and to the context\<close>

definition quantize_value :: "rounding \<Rightarrow> int \<Rightarrow> rat \<Rightarrow> rat" where
  "quantize_value m e x = of_int (round_int m (x / pow10 e)) * pow10 e"

definition ctx :: "rat \<Rightarrow> rat" where
  "ctx x = (if x = 0 then 0 else quantize_value ROUND_HALF_EVEN (adjusted x - 27) x)"

definition on_grid :: "int \<Rightarrow> rat \<Rightarrow> bool" where
  "on_grid e x \<longleftrightarrow> of_int \<lfloor>x / pow10 e\<rfloor> = x / pow10 e"

lemma on_grid_iff: "on_grid e x \<longleftrightarrow> (\<exists>n. x = of_int n * pow10 e)"
proof
  assume "on_grid e x"
  then have "of_int \<lfloor>x / pow10 e\<rfloor> * pow10 e = x / pow10 e * pow10 e"
    by (simp only: on_grid_def)
  then have "x = of_int \<lfloor>x / pow10 e\<rfloor> * pow10 e"
    by simp
  then show "\<exists>n. x = of_int n * pow10 e" ..
qed (auto simp: on_grid_def)

lemma on_gridE: "on_grid e x \<Longrightarrow> (\<And>n. x = of_int n * pow10 e \<Longrightarrow> P) \<Longrightarrow> P"
  by (auto simp: on_grid_iff)

lemma on_grid_0 [simp]: "on_grid e 0"
  by (simp add: on_grid_def)

lemma on_grid_add [intro]: "on_grid e x \<Longrightarrow> on_grid e y \<Longrightarrow> on_grid e (x + y)"
  unfolding on_grid_iff by (metis distrib_right of_int_add)

lemma on_grid_minus [simp]: "on_grid e (- x) \<longleftrightarrow> on_grid e x"
  unfolding on_grid_iff by (metis minus_mult_left minus_minus of_int_minus)

lemma on_grid_diff [intro]: "on_grid e x \<Longrightarrow> on_grid e y \<Longrightarrow> on_grid e (x - y)"
  using on_grid_add [of e x "- y"] by simp

lemma on_grid_coarser: "on_grid e' x \<Longrightarrow> e \<le> e' \<Longrightarrow> on_grid e x"
proof -
  assume x: "on_grid e' x" and e: "e \<le> e'"
  then obtain n where n: "x = of_int n * pow10 e'" by (auto simp: on_grid_iff)
  have "pow10 e' = of_int (10 ^ nat (e' - e)) * pow10 e"
    using e pow10_add [of "e' - e" e] pow10_nat [of "nat (e' - e)"] by simp
  with n have "x = of_int (n * 10 ^ nat (e' - e)) * pow10 e" by simp
  then show ?thesis unfolding on_grid_iff by blast
qed

lemma on_grid_quantize_value [simp]: "on_grid e (quantize_value m e x)"
  by (auto simp: on_grid_iff quantize_value_def)

lemma quantize_value_fix: "on_grid e x \<Longrightarrow> quantize_value m e x = x"
  by (auto simp: on_grid_iff quantize_value_def round_int.rnd_of_int)

lemma quantize_value_mono: "x \<le> y \<Longrightarrow> quantize_value m e x \<le> quantize_value m e y"
  by (simp add: quantize_value_def round_int.rnd_mono divide_right_mono mult_right_mono)

lemma quantize_value_error: "\<bar>quantize_value m e x - x\<bar> < pow10 e"
proof -
  have "quantize_value m e x - x = (of_int (round_int m (x / pow10 e)) - x / pow10 e) * pow10 e"
    by (simp add: quantize_value_def algebra_simps)
  then show ?thesis
    using round_int.rnd_error [of m "x / pow10 e"] by (simp add: abs_mult)
qed

lemma quantize_half_even_error: "\<bar>quantize_value ROUND_HALF_EVEN e x - x\<bar> \<le> pow10 e / 2"
proof -
  have eq: "quantize_value ROUND_HALF_EVEN e x - x
      = (of_int (round_int ROUND_HALF_EVEN (x / pow10 e)) - x / pow10 e) * pow10 e"
    by (simp add: quantize_value_def algebra_simps)
  have "\<bar>of_int (round_int ROUND_HALF_EVEN (x / pow10 e)) - x / pow10 e\<bar> * pow10 e \<le> 1 / 2 * pow10 e"
    by (rule mult_right_mono [OF round_half_even_error]) simp
  then show ?thesis unfolding eq by (simp add: abs_mult)
qed

lemma quantize_down_le: "0 \<le> x \<Longrightarrow> quantize_value ROUND_DOWN e x \<le> x"
  using round_down_le [of "x / pow10 e"]
  by (simp add: quantize_value_def pos_le_divide_eq)

lemma quantize_up_ge: "0 \<le> x \<Longrightarrow> x \<le> quantize_value ROUND_UP e x"
  using round_up_ge [of "x / pow10 e"]
  by (simp add: quantize_value_def pos_divide_le_eq)

lemma quantize_half_even_minus:
  "quantize_value ROUND_HALF_EVEN e (- x) = - quantize_value ROUND_HALF_EVEN e x"
  using round_int_minus_half_even [of "x / pow10 e"]
  by (simp add: quantize_value_def)

lemma adjusted_minus [simp]: "adjusted (- x) = adjusted x"
  by (simp add: adjusted_def)

lemma ctx_minus [simp]: "ctx (- x) = - ctx x"
  by (simp add: ctx_def quantize_half_even_minus)

lemma ctx_exact:
  assumes "on_grid e x" "\<bar>x\<bar> < pow10 (e + 28)"
  shows "ctx x = x"
proof (cases "x = 0")
  case False
  from adjusted_bounds(1) [OF False] assms(2) have "pow10 (adjusted x) < pow10 (e + 28)"
    by linarith
  then have "adjusted x - 27 \<le> e" by simp
  with assms(1) have "on_grid (adjusted x - 27) x" by (rule on_grid_coarser)
  then show ?thesis by (simp add: ctx_def quantize_value_fix)
qed (simp add: ctx_def)

lemma on_grid_pow10: "e \<le> e' \<Longrightarrow> on_grid e (pow10 e')"
proof -
  have "on_grid e' (pow10 e')" unfolding on_grid_iff by (rule exI [of _ 1]) simp
  then show "e \<le> e' \<Longrightarrow> ?thesis" by (rule on_grid_coarser)
qed

lemma ctx_pos_bounds:
  assumes "0 < x"
  shows "pow10 (adjusted x) \<le> ctx x" and "ctx x \<le> pow10 (adjusted x + 1)"
proof -
  have *: "pow10 (adjusted x) \<le> x" "x \<le> pow10 (adjusted x + 1)"
    using adjusted_bounds [of x] assms by auto
  have "quantize_value ROUND_HALF_EVEN (adjusted x - 27) (pow10 (adjusted x)) = pow10 (adjusted x)"
    "quantize_value ROUND_HALF_EVEN (adjusted x - 27) (pow10 (adjusted x + 1)) = pow10 (adjusted x + 1)"
    by (rule quantize_value_fix, rule on_grid_pow10, simp)+
  with quantize_value_mono [OF *(1)] quantize_value_mono [OF *(2)]
  show "pow10 (adjusted x) \<le> ctx x" "ctx x \<le> pow10 (adjusted x + 1)"
    using assms by (metis ctx_def less_irrefl)+
qed

lemma ctx_0 [simp]: "ctx 0 = 0"
  by (simp add: ctx_def)

lemma ctx_mono_pos:
  assumes "0 < x" "x \<le> y"
  shows "ctx x \<le> ctx y"
proof (cases "adjusted x = adjusted y")
  case True
  with assms show ?thesis by (simp add: ctx_def quantize_value_mono)
next
  case False
  have "pow10 (adjusted x) < pow10 (adjusted y + 1)"
    using adjusted_bounds [of x] adjusted_bounds [of y] assms by linarith
  with False have "adjusted x + 1 \<le> adjusted y" by simp
  then have "pow10 (adjusted x + 1) \<le> pow10 (adjusted y)" by (rule pow10_mono)
  with ctx_pos_bounds [of x] ctx_pos_bounds [of y] assms show ?thesis by linarith
qed

lemma ctx_pos: "0 < x \<Longrightarrow> 0 < ctx x"
  using ctx_pos_bounds(1) [of x] pow10_pos [of "adjusted x"] by linarith

lemma ctx_mono: "x \<le> y \<Longrightarrow> ctx x \<le> ctx y"
proof -
  assume xy: "x \<le> y"
  consider "0 < x" | "x \<le> 0" "0 \<le> y" | "y < 0" by linarith
  then show ?thesis
  proof cases
    case 1
    with xy show ?thesis by (simp add: ctx_mono_pos)
  next
    case 2
    then have "ctx x \<le> 0" using ctx_pos [of "- x"] by (cases "x = 0") auto
    moreover have "0 \<le> ctx y" using 2 ctx_pos [of y] by (cases "y = 0") auto
    ultimately show ?thesis by simp
  next
    case 3
    with ctx_mono_pos [of "- y" "- x"] xy show ?thesis by simp
  qed
qed

lemma on_grid_ctx: "on_grid e x \<Longrightarrow> on_grid e (ctx x)"
proof (cases "x = 0 \<or> e < adjusted x - 27")
  case True
  then show ?thesis
    by (auto simp: ctx_def intro: on_grid_coarser [OF on_grid_quantize_value])
next
  case False
  moreover assume "on_grid e x"
  ultimately have "on_grid (adjusted x - 27) x"
    by (auto intro: on_grid_coarser)
  with False \<open>on_grid e x\<close> show ?thesis
    by (simp add: ctx_def quantize_value_fix)
qed

lemma ctx_pow10: "ctx (pow10 k) = pow10 k"
proof (rule ctx_exact [of k])
  have "pow10 k = of_int 1 * pow10 k" by simp
  then show "on_grid k (pow10 k)" unfolding on_grid_iff by blast
  show "\<bar>pow10 k\<bar> < pow10 (k + 28)" by simp
qed

lemma ctx_idem [simp]: "ctx (ctx x) = ctx x"
proof (cases "x = 0")
  case True
  then show ?thesis by (simp add: ctx_def)
next
  case False
  define e where "e = adjusted x - 27"
  have grid: "on_grid e (ctx x)" using False by (simp add: ctx_def e_def)
  have e28: "e + 28 = adjusted x + 1" by (simp add: e_def)
  have "\<bar>x\<bar> \<le> pow10 (e + 28)" using adjusted_bounds(2) [OF False] unfolding e28 by simp
  then have "x \<le> pow10 (e + 28)" "- x \<le> pow10 (e + 28)" by linarith+
  from this [THEN ctx_mono] have le: "\<bar>ctx x\<bar> \<le> pow10 (e + 28)"
    by (simp add: ctx_pow10 ctx_minus)
  show ?thesis
  proof (cases "\<bar>ctx x\<bar> = pow10 (e + 28)")
    case True
    then have "ctx x = pow10 (e + 28) \<or> ctx x = - pow10 (e + 28)" by linarith
    then show ?thesis by (auto simp: ctx_minus ctx_pow10)
  next
    case False
    with le grid show ?thesis by (intro ctx_exact [of e]) auto
  qed
qed

lemma ctx_error: "\<bar>ctx x - x\<bar> \<le> \<bar>x\<bar> * (5 * pow10 (- 28))"
proof (cases "x = 0")
  case False
  have "\<bar>ctx x - x\<bar> \<le> pow10 (adjusted x - 27) / 2"
    using False quantize_half_even_error [of "adjusted x - 27" x] by (simp add: ctx_def)
  also have "\<dots> = pow10 (adjusted x) * (5 * pow10 (- 28))"
    using pow10_add [of "adjusted x" "- 27"] pow10_add [of 1 "- 28"] by (simp add: dec_simps)
  also have "\<dots> \<le> \<bar>x\<bar> * (5 * pow10 (- 28))"
    using adjusted_bounds(1) [OF False] by (intro mult_right_mono) auto
  finally show ?thesis .
qed simp

text \<open>
  The interface the components rely on: an operation on values that is monotone, odd
  about zero only in sign, and fixes zero. Both the context and \<open>quantize\<close> provide it.
\<close>

locale value_rounding =
  fixes rv :: "rat \<Rightarrow> rat"
  assumes rv_mono: "x \<le> y \<Longrightarrow> rv x \<le> rv y"
    and rv_zero: "rv 0 = 0"
begin

lemma rv_nonneg: "0 \<le> x \<Longrightarrow> 0 \<le> rv x"
  using rv_mono [of 0 x] by (simp add: rv_zero)

lemma rv_nonpos: "x \<le> 0 \<Longrightarrow> rv x \<le> 0"
  using rv_mono [of x 0] by (simp add: rv_zero)

lemma rv_le_fixed: "x \<le> y \<Longrightarrow> rv y = y \<Longrightarrow> rv x \<le> y"
  using rv_mono [of x y] by simp

lemma rv_ge_fixed: "y \<le> x \<Longrightarrow> rv y = y \<Longrightarrow> y \<le> rv x"
  using rv_mono [of y x] by simp

lemma rv_pos_iff: "0 < rv x \<Longrightarrow> 0 < x"
  using rv_nonpos [of x] by linarith

lemma rv_mult_nonneg: "0 \<le> x \<Longrightarrow> 0 \<le> y \<Longrightarrow> 0 \<le> rv (x * y)"
  by (simp add: rv_nonneg)

end

interpretation ctx: value_rounding ctx
  by unfold_locales (auto intro: ctx_mono)

interpretation qv: value_rounding "quantize_value m e" for m e
  by unfold_locales (auto intro: quantize_value_mono simp: quantize_value_fix)

subsection \<open>The operations of the source\<close>

definition quantize :: "rounding \<Rightarrow> int \<Rightarrow> rat \<Rightarrow> rat result" where
  "quantize m e x =
     (if \<bar>round_int m (x / pow10 e)\<bar> < 10 ^ 28 then Inr (quantize_value m e x)
      else Inl InvalidOperation)"

definition dadd :: "rat \<Rightarrow> rat \<Rightarrow> rat" where "dadd a b = ctx (a + b)"
definition dsub :: "rat \<Rightarrow> rat \<Rightarrow> rat" where "dsub a b = ctx (a - b)"
definition dmul :: "rat \<Rightarrow> rat \<Rightarrow> rat" where "dmul a b = ctx (a * b)"
definition dneg :: "rat \<Rightarrow> rat" where "dneg a = ctx (- a)"

definition ddiv :: "rat \<Rightarrow> rat \<Rightarrow> rat result" where
  "ddiv a b =
     (if b = 0 then Inl (if a = 0 then InvalidOperation else DivisionByZero)
      else Inr (ctx (a / b)))"

definition to_integral :: "rounding \<Rightarrow> rat \<Rightarrow> rat" where
  "to_integral m x = of_int (round_int m x)"

text \<open>Python's \<open>sum(xs, ZERO)\<close>: a left fold of the context addition.\<close>

fun dsum :: "rat \<Rightarrow> rat list \<Rightarrow> rat" where
  "dsum acc [] = acc"
| "dsum acc (x # xs) = dsum (dadd acc x) xs"

text \<open>
  A column \<open>DecimalField(max_digits, decimal_places)\<close> holds multiples of
  \<open>10 ^ - decimal_places\<close> with at most \<open>max_digits\<close> digits.
\<close>

definition fits :: "nat \<Rightarrow> nat \<Rightarrow> rat \<Rightarrow> bool" where
  "fits max_digits places x \<longleftrightarrow>
     on_grid (- int places) x \<and> \<bar>x\<bar> < pow10 (int max_digits - int places)"

lemma quantize_Inr:
  "quantize m e x = Inr y \<longleftrightarrow> \<bar>round_int m (x / pow10 e)\<bar> < 10 ^ 28 \<and> y = quantize_value m e x"
  by (auto simp: quantize_def)

lemma quantize_cases:
  "quantize m e x = Inr (quantize_value m e x) \<or> quantize m e x = Inl InvalidOperation"
  by (simp add: quantize_def)

lemma quantize_on_grid: "quantize m e x = Inr y \<Longrightarrow> on_grid e y"
  by (simp add: quantize_Inr)

lemma quantize_value_less_iff:
  "\<bar>quantize_value m e x\<bar> < pow10 (e + 28) \<longleftrightarrow> \<bar>round_int m (x / pow10 e)\<bar> < 10 ^ 28"
proof -
  have "\<bar>quantize_value m e x\<bar> = of_int \<bar>round_int m (x / pow10 e)\<bar> * pow10 e"
    by (simp add: quantize_value_def abs_mult)
  moreover have "pow10 (e + 28) = of_int (10 ^ 28) * pow10 e"
    by (simp add: pow10_add dec_simps)
  ultimately have "\<bar>quantize_value m e x\<bar> < pow10 (e + 28)
      \<longleftrightarrow> (of_int \<bar>round_int m (x / pow10 e)\<bar> :: rat) < of_int (10 ^ 28)"
    by simp
  then show ?thesis by (simp only: of_int_less_iff)
qed

text \<open>A value on the grid that fits the context is quantized to itself without error.\<close>

lemma quantize_fix: "on_grid e x \<Longrightarrow> \<bar>x\<bar> < pow10 (e + 28) \<Longrightarrow> quantize m e x = Inr x"
  using quantize_value_less_iff [of m e x] by (simp add: quantize_def quantize_value_fix)

lemma quantize_nonneg: "quantize m e x = Inr y \<Longrightarrow> 0 \<le> x \<Longrightarrow> 0 \<le> y"
  by (simp add: quantize_Inr qv.rv_nonneg)

lemma quantize_nonpos: "quantize m e x = Inr y \<Longrightarrow> x \<le> 0 \<Longrightarrow> y \<le> 0"
  by (simp add: quantize_Inr qv.rv_nonpos)

lemma quantize_ctx_fixed: "quantize m e x = Inr y \<Longrightarrow> ctx y = y"
  using ctx_exact [of e y] quantize_value_less_iff [of m e x] by (simp add: quantize_Inr)

text \<open>
  Stored balances have 25 digits and 10 decimals, transaction amounts 22 and 10: adding or
  subtracting two of them never needs more than 28 digits, so the context does not round.
\<close>

lemma fits_abs_less: "fits d p x \<Longrightarrow> \<bar>x\<bar> < pow10 (int d - int p)"
  by (simp add: fits_def)

lemma ctx_fits: "fits d p x \<Longrightarrow> d \<le> 28 \<Longrightarrow> ctx x = x"
proof -
  assume x: "fits d p x" and d: "d \<le> 28"
  have "pow10 (int d - int p) \<le> pow10 (- int p + 28)" using d by (intro pow10_mono) simp
  with x show ?thesis by (intro ctx_exact [of "- int p"]) (auto simp: fits_def)
qed

lemma dadd_exact:
  assumes "fits d p a" "fits d' p b" "d \<le> 27" "d' \<le> 27"
  shows "dadd a b = a + b"
proof -
  have "\<bar>a\<bar> < pow10 (27 - int p)" "\<bar>b\<bar> < pow10 (27 - int p)"
    using assms fits_abs_less [of d p a] fits_abs_less [of d' p b]
      pow10_mono [of "int d - int p" "27 - int p"] pow10_mono [of "int d' - int p" "27 - int p"]
    by linarith+
  then have "\<bar>a + b\<bar> < 2 * pow10 (27 - int p)" by linarith
  also have "\<dots> \<le> 10 * pow10 (27 - int p)" by simp
  also have "\<dots> = pow10 (- int p + 28)"
    using pow10_add [of 1 "27 - int p"] by (simp add: dec_simps algebra_simps)
  finally show ?thesis
    unfolding dadd_def using assms by (intro ctx_exact [of "- int p"]) (auto simp: fits_def)
qed

lemma fits_minus [simp]: "fits d p (- x) \<longleftrightarrow> fits d p x"
  by (simp add: fits_def)

lemma dsub_eq_dadd: "dsub a b = dadd a (- b)"
  by (simp add: dsub_def dadd_def)

lemma dsub_exact:
  "fits d p a \<Longrightarrow> fits d' p b \<Longrightarrow> d \<le> 27 \<Longrightarrow> d' \<le> 27 \<Longrightarrow> dsub a b = a - b"
  using dadd_exact [of d p a d' "- b"] by (simp add: dsub_eq_dadd)

lemma dmul_nonneg [intro]: "0 \<le> a \<Longrightarrow> 0 \<le> b \<Longrightarrow> 0 \<le> dmul a b"
  by (simp add: dmul_def ctx.rv_nonneg)

lemma dmul_mono: "0 \<le> c \<Longrightarrow> a \<le> b \<Longrightarrow> dmul a c \<le> dmul b c"
  unfolding dmul_def by (intro ctx_mono mult_right_mono)

lemma dadd_nonneg [intro]: "0 \<le> a \<Longrightarrow> 0 \<le> b \<Longrightarrow> 0 \<le> dadd a b"
  by (simp add: dadd_def ctx.rv_nonneg)

lemma dsub_nonneg [intro]: "b \<le> a \<Longrightarrow> 0 \<le> dsub a b"
  by (simp add: dsub_def ctx.rv_nonneg)

lemma dsub_nonpos: "a \<le> b \<Longrightarrow> dsub a b \<le> 0"
  by (simp add: dsub_def ctx.rv_nonpos)

lemma dsub_pos_iff: "0 < dsub a b \<longleftrightarrow> b < a"
  using ctx_pos [of "a - b"] dsub_nonpos [of a b] by (fastforce simp: dsub_def)

lemma ddiv_Inr: "ddiv a b = Inr q \<longleftrightarrow> b \<noteq> 0 \<and> q = ctx (a / b)"
  by (auto simp: ddiv_def)

lemma dsum_nonneg: "0 \<le> acc \<Longrightarrow> (\<And>x. x \<in> set xs \<Longrightarrow> 0 \<le> x) \<Longrightarrow> 0 \<le> dsum acc xs"
  by (induction xs arbitrary: acc) (auto intro!: dadd_nonneg)

lemma dsum_mono: "a \<le> b \<Longrightarrow> dsum a xs \<le> dsum b xs"
proof (induction xs arbitrary: a b)
  case (Cons x xs)
  have "dadd a x \<le> dadd b x" unfolding dadd_def using Cons.prems by (intro ctx_mono) simp
  then show ?case using Cons.IH by simp
qed simp

subsection \<open>Evaluation of closed terms\<close>

lemma ndigits_eval [dec_simps]:
  "n < 10 \<Longrightarrow> ndigits n = 1" "10 \<le> n \<Longrightarrow> ndigits n = Suc (ndigits (n div 10))"
  by (simp_all add: ndigits.simps [of n])

lemma floor_rat_eval [dec_simps]:
  "\<lfloor>numeral a / numeral b :: rat\<rfloor> = numeral a div numeral b"
  "\<lfloor>1 / numeral b :: rat\<rfloor> = 1 div numeral b"
  "\<lfloor>- (numeral a / numeral b) :: rat\<rfloor> = - numeral a div numeral b"
  "\<lfloor>- (1 / numeral b) :: rat\<rfloor> = - 1 div numeral b"
  using floor_divide_of_int_eq [where ?'a = rat, of "numeral a" "numeral b"]
    floor_divide_of_int_eq [where ?'a = rat, of 1 "numeral b"]
    floor_divide_of_int_eq [where ?'a = rat, of "- numeral a" "numeral b"]
    floor_divide_of_int_eq [where ?'a = rat, of "- 1" "numeral b"]
  by simp_all

lemma ceiling_rat_eval [dec_simps]:
  "\<lceil>numeral a / numeral b :: rat\<rceil> = - (- numeral a div numeral b)"
  "\<lceil>1 / numeral b :: rat\<rceil> = - (- 1 div numeral b)"
  "\<lceil>- (numeral a / numeral b) :: rat\<rceil> = - (numeral a div numeral b)"
  "\<lceil>- (1 / numeral b) :: rat\<rceil> = - (1 div numeral b)"
  by (simp_all add: ceiling_def floor_rat_eval)

lemmas dec_eval =
  dec_simps quantize_value_def ctx_def adjusted_def round_int.simps Let_def
  dadd_def dsub_def dmul_def dneg_def ddiv_def quantize_def to_integral_def

end
