(* ===== verification/Money.thy ===== *)
theory Money
  imports Decimals
begin

section \<open>Money helpers\<close>

text \<open>
  The helpers of \<^verbatim>\<open>src/core/exchange/base/money.py\<close> and the monetary constants of
  \<^verbatim>\<open>base/constants.py\<close> and \<^verbatim>\<open>wallet/constants.py\<close>: when two amounts count as equal, when an
  amount counts as nothing, and the rounding of amounts to a precision. The lemmas show
  that on values of a money column the 1E-8 threshold is exact, and what the rounding
  helpers may change.
\<close>

subsection \<open>Constants\<close>

definition ZERO :: rat where "ZERO = 0"

text \<open>\<open>MAX_PRECISION = Decimal('1E-10')\<close>: the exponent to which amounts are quantized.\<close>

definition MAX_PRECISION :: int where "MAX_PRECISION = - 10"

definition MONETARY_DECIMAL_PLACES :: nat where "MONETARY_DECIMAL_PLACES = nat (- MAX_PRECISION)"

definition PRICE_GUARD_RANGE :: rat where "PRICE_GUARD_RANGE = 2 / 10"

definition TRANSACTION_MAX :: rat where "TRANSACTION_MAX = dsub (10 ^ 12) (pow10 MAX_PRECISION)"

definition TRANSACTION_MAX_DIGITS :: nat where
  "TRANSACTION_MAX_DIGITS = nat (adjusted TRANSACTION_MAX + 1) + MONETARY_DECIMAL_PLACES"

definition BALANCE_MAX_DIGITS :: nat where "BALANCE_MAX_DIGITS = TRANSACTION_MAX_DIGITS + 3"

definition ORDER_MAX_DIGITS :: nat where "ORDER_MAX_DIGITS = TRANSACTION_MAX_DIGITS"

definition FEE_MAX_DIGITS :: nat where "FEE_MAX_DIGITS = ORDER_MAX_DIGITS - 2"

lemma money_constants:
  "MONETARY_DECIMAL_PLACES = 10" "TRANSACTION_MAX_DIGITS = 22" "BALANCE_MAX_DIGITS = 25"
  "ORDER_MAX_DIGITS = 22" "FEE_MAX_DIGITS = 20"
  by (simp_all add: MONETARY_DECIMAL_PLACES_def TRANSACTION_MAX_DIGITS_def BALANCE_MAX_DIGITS_def
      ORDER_MAX_DIGITS_def FEE_MAX_DIGITS_def TRANSACTION_MAX_def MAX_PRECISION_def dec_eval)

lemma TRANSACTION_MAX_eq: "TRANSACTION_MAX = 9999999999999999999999 / 10 ^ 10"
  by (simp add: TRANSACTION_MAX_def MAX_PRECISION_def dec_eval)

text \<open>The values of an amount column and of a balance column.\<close>

definition money_field :: "rat \<Rightarrow> bool" where
  "money_field x \<longleftrightarrow> fits ORDER_MAX_DIGITS MONETARY_DECIMAL_PLACES x"

definition balance_field :: "rat \<Rightarrow> bool" where
  "balance_field x \<longleftrightarrow> fits BALANCE_MAX_DIGITS MONETARY_DECIMAL_PLACES x"

lemma money_field_grid: "money_field x \<Longrightarrow> on_grid MAX_PRECISION x"
  by (simp add: money_field_def fits_def money_constants MAX_PRECISION_def)

lemma balance_field_grid: "balance_field x \<Longrightarrow> on_grid MAX_PRECISION x"
  by (simp add: balance_field_def fits_def money_constants MAX_PRECISION_def)

lemma money_field_ctx [simp]: "money_field x \<Longrightarrow> ctx x = x"
  by (simp add: money_field_def ctx_fits money_constants)

lemma balance_field_ctx [simp]: "balance_field x \<Longrightarrow> ctx x = x"
  by (simp add: balance_field_def ctx_fits money_constants)

lemma money_is_balance_field: "money_field x \<Longrightarrow> balance_field x"
proof -
  assume "money_field x"
  then have "\<bar>x\<bar> < pow10 12" "on_grid (- 10) x"
    by (simp_all add: money_field_def fits_def money_constants)
  moreover have "pow10 12 \<le> pow10 15" by (rule pow10_mono) simp
  ultimately show ?thesis
    unfolding balance_field_def fits_def money_constants by auto
qed

text \<open>Arithmetic on stored values is exact.\<close>

lemma balance_dadd: "balance_field a \<Longrightarrow> balance_field b \<Longrightarrow> dadd a b = a + b"
  by (rule dadd_exact [of 25 10 a 25]) (simp_all add: balance_field_def money_constants)

lemma balance_dsub: "balance_field a \<Longrightarrow> balance_field b \<Longrightarrow> dsub a b = a - b"
  by (rule dsub_exact [of 25 10 a 25]) (simp_all add: balance_field_def money_constants)

lemma money_dadd: "money_field a \<Longrightarrow> money_field b \<Longrightarrow> dadd a b = a + b"
  by (simp add: balance_dadd money_is_balance_field)

lemma money_dsub: "money_field a \<Longrightarrow> money_field b \<Longrightarrow> dsub a b = a - b"
  by (simp add: balance_dsub money_is_balance_field)

subsection \<open>Comparisons\<close>

definition money_is_close :: "rat \<Rightarrow> rat \<Rightarrow> bool" where
  "money_is_close a b \<longleftrightarrow> \<bar>dsub a b\<bar> < pow10 (- 8)"

definition money_is_close_decimal :: "rat option \<Rightarrow> rat option \<Rightarrow> nat \<Rightarrow> bool" where
  "money_is_close_decimal a b decimals =
     (case (a, b) of
        (Some x, Some y) \<Rightarrow> \<bar>dsub x y\<bar> < pow10 (- int decimals)
      | _ \<Rightarrow> False)"

definition money_is_zero :: "rat \<Rightarrow> bool" where
  "money_is_zero a = (if a < 0 then True else money_is_close a 0)"

lemma money_is_zero_iff: "ctx x = x \<Longrightarrow> money_is_zero x \<longleftrightarrow> x < pow10 (- 8)"
proof -
  assume x: "ctx x = x"
  have "0 < pow10 (- 8)" by simp
  with x show ?thesis
    by (cases "x < 0") (auto simp: money_is_zero_def money_is_close_def dsub_def simp del: pow10_pos)
qed

lemma money_is_zero_nonpos: "x \<le> 0 \<Longrightarrow> money_is_zero x"
  by (auto simp: money_is_zero_def money_is_close_def dsub_def)

lemma not_money_is_zero_pos: "\<not> money_is_zero x \<Longrightarrow> 0 < x"
  using money_is_zero_nonpos [of x] by linarith

lemma money_is_close_sym: "money_is_close a b \<longleftrightarrow> money_is_close b a"
proof -
  have "dsub b a = - dsub a b"
    unfolding dsub_def by (metis ctx_minus minus_diff_eq)
  then show ?thesis by (simp add: money_is_close_def)
qed

subsection \<open>Rounding helpers\<close>

text \<open>
  \<open>quantize\<close> reads the exponent of its argument, so a precision is kept with its
  representation: \<open>DecRep c e\<close> is the decimal \<open>c * 10 ^ e\<close>.
\<close>

datatype decrep = DecRep (coeff: int) (dexp: int)

definition rep_value :: "decrep \<Rightarrow> rat" where
  "rep_value d = of_int (coeff d) * pow10 (dexp d)"

definition normalize :: "rat \<Rightarrow> int option \<Rightarrow> rounding \<Rightarrow> rat result" where
  "normalize x ex rounding =
     rbind (case ex of Some e \<Rightarrow> quantize rounding e x | None \<Rightarrow> Inr x)
       (\<lambda>x. if x = to_integral ROUND_HALF_EVEN x then quantize ROUND_HALF_EVEN 0 x else Inr (ctx x))"

definition quantize_number :: "rat \<Rightarrow> decrep \<Rightarrow> rounding \<Rightarrow> rat result" where
  "quantize_number number precision rounding =
     (if 1 \<le> rep_value precision
      then rbind (ddiv number (rep_value precision))
             (\<lambda>q. Inr (dmul (to_integral rounding q) (rep_value precision)))
      else quantize rounding (dexp precision) number)"

text \<open>
  \<open>x % t\<close> of decimals truncates towards zero and needs the quotient to fit the context.
  \<open>humanize_number\<close> is modelled for calls without a multiplier.
\<close>

definition dmod :: "rat \<Rightarrow> rat \<Rightarrow> rat result" where
  "dmod x t =
     (if t = 0 then Inl InvalidOperation
      else let q = round_int ROUND_DOWN (x / t)
           in if \<bar>q\<bar> < 10 ^ 28 then Inr (ctx (x - of_int q * t)) else Inl InvalidOperation)"

definition natural_precision :: "rat \<Rightarrow> decrep" where
  "natural_precision y =
     (if 100000 \<le> y then DecRep 100 0
      else if 10000 \<le> y then DecRep 10 0
      else if 1000 \<le> y then DecRep 1 0
      else if 100 \<le> y then DecRep 1 (- 1)
      else if 10 \<le> y then DecRep 1 (- 2)
      else if 1 \<le> y then DecRep 1 (- 3)
      else if 1 / 10 \<le> y then DecRep 1 (- 4)
      else DecRep 1 (- 5))"

definition humanize_number :: "rat \<Rightarrow> decrep option \<Rightarrow> rat result" where
  "humanize_number x precision =
     (let trivial = natural_precision (dmul x 1);
          trivial = (case precision of
                       Some p \<Rightarrow> if rep_value p \<noteq> 0 \<and> rep_value trivial < rep_value p then p else trivial
                     | None \<Rightarrow> trivial);
          t = rep_value trivial
      in if 1 < t
         then rbind (dmod x t)
                (\<lambda>rem. let x = dsub x rem
                       in Inr (if t < dmul 2 rem then dadd x t else x))
         else quantize ROUND_HALF_EVEN (dexp trivial) x)"

lemma quantize_number_down_le:
  assumes "quantize_number x p ROUND_DOWN = Inr y" and "0 \<le> x" and "rep_value p < 1"
  shows "0 \<le> y \<and> y \<le> x \<and> on_grid (dexp p) y"
  using assms
  by (auto simp: quantize_number_def quantize_Inr quantize_down_le qv.rv_nonneg)

lemma natural_precision_pos: "0 < rep_value (natural_precision y)"
  by (simp add: natural_precision_def rep_value_def)

end
