(* ===== verification/Fees.thy ===== *)
theory Fees
  imports Money
begin

section \<open>Trade fees and VIP levels\<close>

text \<open>
  The fee schedule of \<^verbatim>\<open>settings.NOBITEX_OPTIONS['tradingFees']\<close>, the VIP level of a user
  (\<^verbatim>\<open>market/models.py\<close>, \<open>UserTradeStatus.vip_level\<close>; \<^verbatim>\<open>accounts/userstats.py\<close>,
  \<open>UserStatsManager\<close>) and the zero-fee promotions of \<^verbatim>\<open>market/marketmanager.py\<close>. A point in
  time is an integer, the microseconds since \<open>datetime.min\<close>. The lemmas show which level
  a volume gives, that levels and fees stay in range, and that a higher level never
  pays more.
\<close>

type_synonym datetime = int

definition days :: "int \<Rightarrow> int" where "days n = n * 86400 * 1000000"

subsection \<open>The schedule\<close>

definition levelVolumes :: "rat list" where
  "levelVolumes = [0, 1000000000, 3000000000, 10000000000, 50000000000, 200000000000, 800000000000]"

definition takerFees :: "rat list" where
  "takerFees = [25/100, 2/10, 19/100, 175/1000, 155/1000, 145/1000, 135/1000]"

definition makerFees :: "rat list" where
  "makerFees = [25/100, 17/100, 15/100, 125/1000, 1/10, 9/100, 8/100]"

definition takerFeesTether :: "rat list" where
  "takerFeesTether = [13/100, 12/100, 11/100, 1/10, 1/10, 95/1000, 9/100]"

definition makerFeesTether :: "rat list" where
  "makerFeesTether = [1/10, 95/1000, 9/100, 8/100, 7/100, 65/1000, 6/100]"

lemmas fee_tables = takerFees_def makerFees_def takerFeesTether_def makerFeesTether_def

definition tradingFees :: "bool \<Rightarrow> bool \<Rightarrow> rat list" where
  "tradingFees is_maker is_usdt =
     (if is_maker then if is_usdt then makerFeesTether else makerFees
      else if is_usdt then takerFeesTether else takerFees)"

subsection \<open>VIP level\<close>

definition SYSTEM_USERS_VIP_LEVEL :: nat where "SYSTEM_USERS_VIP_LEVEL = 0"

function vip_loop :: "rat list \<Rightarrow> rat \<Rightarrow> nat \<Rightarrow> nat" where
  "vip_loop vols vol i =
     (if i < length vols \<and> \<not> vol < vols ! i then vip_loop vols vol (Suc i) else i)"
  by pat_completeness auto
termination by (relation "measure (\<lambda>(vols, vol, i). length vols - i)") auto

declare vip_loop.simps [simp del]

definition vip_level :: "nat option \<Rightarrow> rat \<Rightarrow> nat" where
  "vip_level user_id month_trades_total =
     (case user_id of
        Some uid \<Rightarrow> if uid \<noteq> 0 \<and> uid < 1000 then SYSTEM_USERS_VIP_LEVEL
                    else vip_loop levelVolumes month_trades_total 1 - 1
      | None \<Rightarrow> vip_loop levelVolumes month_trades_total 1 - 1)"

text \<open>
  \<open>get_user_vip_level\<close> answers from the cache when it may and stores what it computed;
  the database row of the user is absent for a user without trades.
\<close>

definition get_user_vip_level ::
    "bool \<Rightarrow> bool \<Rightarrow> nat \<Rightarrow> (nat \<rightharpoonup> nat) \<Rightarrow> (nat \<rightharpoonup> rat) \<Rightarrow> nat \<times> (nat \<rightharpoonup> nat)" where
  "get_user_vip_level CACHE_VIP_LEVEL force_update user_id cache trade_status =
     (case (if CACHE_VIP_LEVEL \<and> \<not> force_update then cache user_id else None) of
        Some v \<Rightarrow> if v \<le> 6 then (v, cache)
                  else let lvl = (case trade_status user_id of
                                    Some vol \<Rightarrow> vip_level (Some user_id) vol | None \<Rightarrow> 0)
                       in (lvl, cache(user_id \<mapsto> lvl))
      | None \<Rightarrow> let lvl = (case trade_status user_id of
                             Some vol \<Rightarrow> vip_level (Some user_id) vol | None \<Rightarrow> 0)
                in (lvl, cache(user_id \<mapsto> lvl)))"

lemma vip_loop_bounds: "i \<le> length vols \<Longrightarrow> i \<le> vip_loop vols vol i \<and> vip_loop vols vol i \<le> length vols"
proof (induction vols vol i rule: vip_loop.induct)
  case (1 vols vol i)
  then show ?case
    by (cases "i < length vols \<and> \<not> vol < vols ! i") (auto simp: vip_loop.simps [of vols vol i])
qed

lemma vip_loop_passed: "i \<le> j \<Longrightarrow> j < vip_loop vols vol i \<Longrightarrow> vols ! j \<le> vol"
proof (induction vols vol i rule: vip_loop.induct)
  case (1 vols vol i)
  show ?case
  proof (cases "i < length vols \<and> \<not> vol < vols ! i")
    case True
    with 1 show ?thesis by (cases "i = j") (auto simp: vip_loop.simps [of vols vol i])
  next
    case False
    with "1.prems" show ?thesis by (auto simp: vip_loop.simps [of vols vol i])
  qed
qed

lemma vip_loop_stop:
  "vip_loop vols vol i < length vols \<Longrightarrow> i \<le> length vols \<Longrightarrow> vol < vols ! vip_loop vols vol i"
proof (induction vols vol i rule: vip_loop.induct)
  case (1 vols vol i)
  then show ?case
    by (cases "i < length vols \<and> \<not> vol < vols ! i") (auto simp: vip_loop.simps [of vols vol i])
qed

lemma vip_loop_mono: "t \<le> t' \<Longrightarrow> i \<le> length vols \<Longrightarrow> vip_loop vols t i \<le> vip_loop vols t' i"
proof (induction vols t i rule: vip_loop.induct)
  case (1 vols t i)
  show ?case
  proof (cases "i < length vols \<and> \<not> t < vols ! i")
    case True
    with "1.prems" have "i < length vols \<and> \<not> t' < vols ! i" by auto
    with True 1 show ?thesis by (simp add: vip_loop.simps [of vols _ i])
  next
    case False
    then show ?thesis
      using vip_loop_bounds [OF "1.prems"(2), of t'] by (auto simp: vip_loop.simps [of vols t i])
  qed
qed

lemma length_levelVolumes: "length levelVolumes = 7"
  by (simp add: levelVolumes_def)

lemma vip_level_le_6: "vip_level u vol \<le> 6"
  using vip_loop_bounds [of 1 levelVolumes vol]
  by (auto simp: vip_level_def SYSTEM_USERS_VIP_LEVEL_def length_levelVolumes split: option.splits)

subsection \<open>Promotions\<close>

record currency_info =
  promote_date :: "datetime option"
  launch_date :: "datetime option"

definition get_market_promotion_end_date :: "(nat \<rightharpoonup> currency_info) \<Rightarrow> nat \<Rightarrow> datetime" where
  "get_market_promotion_end_date CURRENCY_INFO src_currency =
     (case CURRENCY_INFO src_currency of
        None \<Rightarrow> 0
      | Some info \<Rightarrow>
          (case promote_date info of
             Some d \<Rightarrow> d
           | None \<Rightarrow> (case launch_date info of Some d \<Rightarrow> d | None \<Rightarrow> 0) + days 3))"

definition is_market_in_promotion ::
    "(nat \<rightharpoonup> currency_info) \<Rightarrow> nat list \<Rightarrow> nat list \<Rightarrow> nat \<Rightarrow> bool \<Rightarrow> datetime \<Rightarrow> bool" where
  "is_market_in_promotion CURRENCY_INFO LAUNCHING_CURRENCIES BUY_PROMOTION_CURRENCIES src_currency is_buy nw =
     (let promoted_date = get_market_promotion_end_date CURRENCY_INFO src_currency
      in if src_currency \<in> set LAUNCHING_CURRENCIES \<and> nw < promoted_date then True
         else if src_currency \<in> set BUY_PROMOTION_CURRENCIES \<and> is_buy \<and> nw < promoted_date then True
         else False)"

subsection \<open>The fee of a trade\<close>

record user_fees =
  base_fee :: "rat option"
  base_fee_usdt :: "rat option"
  base_maker_fee :: "rat option"
  base_maker_fee_usdt :: "rat option"

definition get_user_fee_rate :: "bool \<Rightarrow> bool \<Rightarrow> nat \<Rightarrow> user_fees option \<Rightarrow> rat result" where
  "get_user_fee_rate is_maker is_usdt user_vip_level user =
     rbind (list_get (tradingFees is_maker is_usdt) user_vip_level) (\<lambda>fee_rate.
       let user_fee = Option.bind user base_fee;
           user_fee_usdt = Option.bind user base_fee_usdt;
           user_maker_fee = Option.bind user base_maker_fee;
           user_maker_fee_usdt = Option.bind user base_maker_fee_usdt
       in Inr (if is_usdt
               then if is_maker \<and> user_maker_fee_usdt \<noteq> None then min fee_rate (the user_maker_fee_usdt)
                    else if user_fee_usdt \<noteq> None then min fee_rate (the user_fee_usdt)
                    else fee_rate
               else if is_maker \<and> user_maker_fee \<noteq> None then min fee_rate (the user_maker_fee)
                    else if user_fee \<noteq> None then min fee_rate (the user_fee)
                    else fee_rate))"

definition get_user_fee_by_fields ::
    "rat \<Rightarrow> bool \<Rightarrow> bool \<Rightarrow> nat \<Rightarrow> user_fees option \<Rightarrow> rat result" where
  "get_user_fee_by_fields amount is_maker is_usdt user_vip_level user =
     rbind (get_user_fee_rate is_maker is_usdt user_vip_level user) (\<lambda>fee_rate.
       quantize ROUND_HALF_EVEN MAX_PRECISION (dmul (dmul fee_rate (1/100)) amount))"

definition get_user_fee ::
    "nat \<Rightarrow> rat option \<Rightarrow> bool \<Rightarrow> bool \<Rightarrow> user_fees option \<Rightarrow> rat result" where
  "get_user_fee user_vip_level amount is_maker is_usdt user =
     get_user_fee_by_fields (case amount of Some a \<Rightarrow> if a \<noteq> 0 then a else 1 | None \<Rightarrow> 1)
       is_maker is_usdt (if user = None then 0 else user_vip_level) user"

definition get_trade_fee ::
    "bool \<Rightarrow> nat \<Rightarrow> rat option \<Rightarrow> bool \<Rightarrow> bool \<Rightarrow> user_fees option \<Rightarrow> rat result" where
  "get_trade_fee in_promotion user_vip_level amount is_maker dst_is_usdt user =
     (if in_promotion then Inr 0 else get_user_fee user_vip_level amount is_maker dst_is_usdt user)"

definition valid_user_fees :: "user_fees option \<Rightarrow> bool" where
  "valid_user_fees u \<longleftrightarrow>
     (case u of None \<Rightarrow> True
      | Some f \<Rightarrow> (\<forall>x. base_fee f = Some x \<longrightarrow> 0 \<le> x) \<and> (\<forall>x. base_fee_usdt f = Some x \<longrightarrow> 0 \<le> x)
                  \<and> (\<forall>x. base_maker_fee f = Some x \<longrightarrow> 0 \<le> x)
                  \<and> (\<forall>x. base_maker_fee_usdt f = Some x \<longrightarrow> 0 \<le> x))"

lemma tradingFees_length: "length (tradingFees m u) = 7"
  by (simp add: tradingFees_def fee_tables)

lemma tradingFees_range: "r \<in> set (tradingFees m u) \<Longrightarrow> 0 < r \<and> r \<le> 1/4"
  by (auto simp: tradingFees_def fee_tables split: if_splits)

lemma tradingFees_sorted: "sorted (rev (tradingFees m u))"
  by (simp add: tradingFees_def fee_tables)

lemma fee_rate_range:
  assumes "get_user_fee_rate is_maker is_usdt lvl user = Inr r" "valid_user_fees user"
  shows "0 \<le> r \<and> r \<le> 1/4"
proof -
  from assms(1) obtain t where t: "list_get (tradingFees is_maker is_usdt) lvl = Inr t"
    by (auto simp: get_user_fee_rate_def rbind_eq_Inr_iff)
  from tradingFees_range [OF list_get_in_set [OF t]] have "0 < t" "t \<le> 1/4" by auto
  with t assms show ?thesis
    by (cases user)
      (auto simp: get_user_fee_rate_def Let_def valid_user_fees_def min_def split: if_splits)
qed

text \<open>The fee of a level exists for exactly the seven levels the schedule has.\<close>

lemma fee_rate_defined: "is_ok (get_user_fee_rate m u lvl user) \<longleftrightarrow> lvl \<le> 6"
  by (auto simp: get_user_fee_rate_def list_get_def tradingFees_length Let_def)

lemma fee_rate_antimono:
  assumes "l \<le> l'" "l' \<le> 6"
    and "get_user_fee_rate m u l user = Inr r" "get_user_fee_rate m u l' user = Inr r'"
  shows "r' \<le> r"
proof -
  have "tradingFees m u ! l' \<le> tradingFees m u ! l"
    using tradingFees_sorted [of m u] assms(1,2)
    by (auto simp: sorted_rev_iff_nth_mono tradingFees_length)
  with assms(3,4) show ?thesis
    by (auto simp: get_user_fee_rate_def list_get_def tradingFees_length Let_def min_def
        split: if_splits)
qed

lemma fee_nonneg:
  assumes "get_user_fee_by_fields amount m u lvl user = Inr f" "valid_user_fees user" "0 \<le> amount"
  shows "0 \<le> f \<and> on_grid MAX_PRECISION f"
proof -
  from assms(1) obtain r where r: "get_user_fee_rate m u lvl user = Inr r"
    and f: "quantize ROUND_HALF_EVEN MAX_PRECISION (dmul (dmul r (1/100)) amount) = Inr f"
    by (auto simp: get_user_fee_by_fields_def rbind_eq_Inr_iff)
  from fee_rate_range [OF r assms(2)] assms(3) have "0 \<le> dmul (dmul r (1/100)) amount"
    by (intro dmul_nonneg) auto
  with f show ?thesis by (auto simp: quantize_nonneg quantize_on_grid)
qed

end
