(* ===== verification/Orders.thy ===== *)
theory Orders
  imports Fees
begin

section \<open>Orders\<close>

text \<open>
  The \<open>Order\<close> model of \<^verbatim>\<open>src/core/exchange/market/models.py\<close>: its choices as datatypes, its
  columns as a record, its properties as functions, and \<open>update_status\<close>, the only method
  of the model that moves an order between states. The orders table is a list of rows
  with distinct ids. Publishing an order on the websocket is left out: it changes no
  state. The lemmas show which transitions \<open>update_status\<close> makes, that it cancels the
  OCO pair, that it terminates, and the \<open>order_inv\<close> the matcher keeps.
\<close>

subsection \<open>Data\<close>

datatype order_type = Sell | Buy

datatype execution_type = Limit | MarketExec | StopLimit | StopMarket

datatype trade_type = Spot | Margin | Credit | Debit

datatype order_status = New | Active | Done | Canceled | Inactive

definition OPEN_STATUSES :: "order_status list" where
  "OPEN_STATUSES = [New, Active, Inactive]"

definition STOP_EXECUTION_TYPES :: "execution_type list" where
  "STOP_EXECUTION_TYPES = [StopLimit, StopMarket]"

definition MARKET_EXECUTION_TYPES :: "execution_type list" where
  "MARKET_EXECUTION_TYPES = [MarketExec, StopMarket]"

text \<open>The channel codes that the modelled code names.\<close>

definition CHANNEL_unknown :: nat where "CHANNEL_unknown = 0"
definition CHANNEL_web :: nat where "CHANNEL_web = 1"
definition CHANNEL_android :: nat where "CHANNEL_android = 11"
definition CHANNEL_ios :: nat where "CHANNEL_ios = 21"
definition CHANNEL_api :: nat where "CHANNEL_api = 31"
definition CHANNEL_api_internal :: nat where "CHANNEL_api_internal = 32"
definition CHANNEL_system_margin :: nat where "CHANNEL_system_margin = 51"
definition CHANNEL_system_abc_liquidate :: nat where "CHANNEL_system_abc_liquidate = 53"
definition CHANNEL_locket :: nat where "CHANNEL_locket = 61"

definition CHANNEL_SYSTEM_RANGE :: "nat \<times> nat" where "CHANNEL_SYSTEM_RANGE = (50, 60)"

record order =
  o_id :: nat
  o_user :: nat
  o_created_at :: datetime
  o_src :: nat
  o_dst :: nat
  o_channel :: "nat option"
  o_client_order_id :: "string option"
  o_type :: order_type
  o_execution :: execution_type
  o_trade :: trade_type
  o_price :: rat
  o_amount :: rat
  o_param1 :: "rat option"
  o_status :: order_status
  o_matched_amount :: rat
  o_matched_total_price :: rat
  o_fee :: rat
  o_pair :: "nat option"

subsection \<open>Properties of an order\<close>

definition is_buy :: "order \<Rightarrow> bool" where "is_buy o1 \<longleftrightarrow> o_type o1 = Buy"

definition is_sell :: "order \<Rightarrow> bool" where "is_sell o1 \<longleftrightarrow> o_type o1 = Sell"

definition is_market :: "order \<Rightarrow> bool" where
  "is_market o1 \<longleftrightarrow> o_execution o1 \<in> set MARKET_EXECUTION_TYPES"

definition is_active :: "order \<Rightarrow> bool" where "is_active o1 \<longleftrightarrow> o_status o1 = Active"

definition is_closed :: "order \<Rightarrow> bool" where
  "is_closed o1 \<longleftrightarrow> o_status o1 \<in> {Done, Canceled}"

definition blocks_balance :: "order \<Rightarrow> bool" where
  "blocks_balance o1 =
     (if o_pair o1 \<noteq> None
      then if o_type o1 = Buy
           then if o_execution o1 = Limit then 0 < o_matched_amount o1 else \<not> is_closed o1
           else is_active o1
      else \<not> is_closed o1)"

definition is_margin :: "order \<Rightarrow> bool" where "is_margin o1 \<longleftrightarrow> o_trade o1 = Margin"
definition is_spot :: "order \<Rightarrow> bool" where "is_spot o1 \<longleftrightarrow> o_trade o1 = Spot"
definition is_credit :: "order \<Rightarrow> bool" where "is_credit o1 \<longleftrightarrow> o_trade o1 = Credit"
definition is_debit :: "order \<Rightarrow> bool" where "is_debit o1 \<longleftrightarrow> o_trade o1 = Debit"

definition is_placed_by_system :: "order \<Rightarrow> bool" where
  "is_placed_by_system o1 =
     (case o_channel o1 of
        None \<Rightarrow> False
      | Some c \<Rightarrow> c \<noteq> 0 \<and> fst CHANNEL_SYSTEM_RANGE < c \<and> c < snd CHANNEL_SYSTEM_RANGE)"

definition unmatched_amount :: "order \<Rightarrow> rat" where
  "unmatched_amount o1 = dsub (o_amount o1) (o_matched_amount o1)"

definition unmatched_total_price :: "order \<Rightarrow> rat" where
  "unmatched_total_price o1 = dmul (o_price o1) (unmatched_amount o1)"

definition net_matched_total_price :: "order \<Rightarrow> rat" where
  "net_matched_total_price o1 = dsub (o_matched_total_price o1) (o_fee o1)"

definition is_matched :: "order \<Rightarrow> bool" where "is_matched o1 \<longleftrightarrow> unmatched_amount o1 \<le> 0"

definition is_partial :: "order \<Rightarrow> bool" where
  "is_partial o1 \<longleftrightarrow> 0 < o_matched_amount o1 \<and> \<not> is_matched o1"

definition is_trivial :: "order \<Rightarrow> bool" where "is_trivial o1 \<longleftrightarrow> money_is_zero (unmatched_amount o1)"

definition average_price :: "order \<Rightarrow> rat result" where
  "average_price o1 =
     (if money_is_zero (o_matched_amount o1) then Inr 0
      else ddiv (o_matched_total_price o1) (o_matched_amount o1))"

definition selling_currency :: "order \<Rightarrow> nat" where
  "selling_currency o1 = (if is_sell o1 then o_src o1 else o_dst o1)"

text \<open>
  \<open>total_price\<close> values a sell at the better of its price and the estimator's buy price;
  a stop order without stop price raises (\<open>max(None, \<dots>)\<close>).
\<close>

definition total_price :: "rat \<Rightarrow> order \<Rightarrow> rat result" where
  "total_price buy_price o1 =
     (if is_sell o1
      then if o_execution o1 \<in> set STOP_EXECUTION_TYPES
           then (case o_param1 o1 of
                   None \<Rightarrow> Inl AttributeError
                 | Some p \<Rightarrow> Inr (dmul (max p (o_price o1)) (o_amount o1)))
           else Inr (dmul (max buy_price (o_price o1)) (o_amount o1))
      else Inr (dmul (o_price o1) (o_amount o1)))"

datatype wallet_type = WSpot | WMargin | WCredit | WDebit

definition wallet_type_of :: "order \<Rightarrow> wallet_type" where
  "wallet_type_of o1 = (if is_credit o1 then WCredit else if is_debit o1 then WDebit else WSpot)"

lemmas order_props = is_buy_def is_sell_def is_market_def is_active_def is_closed_def

lemma is_sell_iff: "is_sell o1 \<longleftrightarrow> \<not> is_buy o1"
  by (cases "o_type o1") (simp_all add: order_props)

lemma active_not_closed: "is_active o1 \<Longrightarrow> \<not> is_closed o1"
  by (auto simp: order_props)

lemma blocks_balance_closed: "is_closed o1 \<Longrightarrow> o_pair o1 = None \<or> o_type o1 = Sell \<or> o_execution o1 \<noteq> Limit
    \<Longrightarrow> \<not> blocks_balance o1"
  by (cases "o_type o1") (auto simp: blocks_balance_def order_props)

subsection \<open>The orders table\<close>

definition find_order :: "order list \<Rightarrow> nat \<Rightarrow> order option" where
  "find_order os i = find (\<lambda>x. o_id x = i) os"

definition put_order :: "(order \<Rightarrow> order) \<Rightarrow> nat \<Rightarrow> order list \<Rightarrow> order list" where
  "put_order f i os = map (\<lambda>x. if o_id x = i then f x else x) os"

definition set_status :: "order_status \<Rightarrow> order \<Rightarrow> order" where
  "set_status st x = x\<lparr>o_status := st\<rparr>"

lemma set_status_sel [simp, frame_simps]:
  "o_id (set_status st x) = o_id x" "o_status (set_status st x) = st"
  "o_pair (set_status st x) = o_pair x" "o_amount (set_status st x) = o_amount x"
  "o_matched_amount (set_status st x) = o_matched_amount x" "o_type (set_status st x) = o_type x"
  "o_price (set_status st x) = o_price x" "o_execution (set_status st x) = o_execution x"
  "o_matched_total_price (set_status st x) = o_matched_total_price x"
  "o_created_at (set_status st x) = o_created_at x" "o_fee (set_status st x) = o_fee x"
  "o_user (set_status st x) = o_user x" "o_channel (set_status st x) = o_channel x"
  "o_src (set_status st x) = o_src x" "o_dst (set_status st x) = o_dst x"
  "o_trade (set_status st x) = o_trade x"
  by (simp_all add: set_status_def)

lemma unmatched_amount_set_status [simp]: "unmatched_amount (set_status st x) = unmatched_amount x"
  by (simp add: unmatched_amount_def)

lemma is_matched_set_status [simp]: "is_matched (set_status st x) = is_matched x"
  "is_trivial (set_status st x) = is_trivial x"
  by (simp_all add: is_matched_def is_trivial_def)

lemma find_order_Some: "find_order os i = Some x \<Longrightarrow> x \<in> set os \<and> o_id x = i"
  by (auto simp: find_order_def find_Some_iff)

lemma find_order_None: "find_order os i = None \<longleftrightarrow> i \<notin> o_id ` set os"
  by (auto simp: find_order_def find_None_iff)

lemma ids_put_order [simp]: "(\<And>x. o_id (f x) = o_id x) \<Longrightarrow> map o_id (put_order f i os) = map o_id os"
  by (induction os) (simp_all add: put_order_def)

lemma find_put_order_other:
  "(\<And>x. o_id (f x) = o_id x) \<Longrightarrow> i \<noteq> j \<Longrightarrow> find_order (put_order f i os) j = find_order os j"
  by (induction os) (auto simp: put_order_def find_order_def)

lemma find_put_order_same:
  "(\<And>x. o_id (f x) = o_id x) \<Longrightarrow> find_order (put_order f i os) i = map_option f (find_order os i)"
  by (induction os) (auto simp: put_order_def find_order_def)

subsection \<open>Changing the status\<close>

definition is_valid_transition :: "order_status \<Rightarrow> order_status \<Rightarrow> bool" where
  "is_valid_transition old new \<longleftrightarrow>
     new = Active \<and> old = New \<or> new = Canceled \<and> old \<in> {New, Active, Inactive}"

text \<open>
  \<open>self\<close> is the object the method is called on; its \<open>pair\<close> attribute is the object
  \<open>pair_obj\<close> where the caller has set it, and else the row its foreign key names. The
  recursive call is made on the pair, whose own pair is read from the table. Every call
  that recurses has closed one more open row, which is why the recursion ends.
\<close>

definition open_rows :: "order list \<Rightarrow> nat" where
  "open_rows os = length (filter (\<lambda>x. o_status x \<in> {New, Active, Inactive}) os)"

lemma open_rows_cancel_le: "open_rows (put_order (set_status Canceled) i os) \<le> open_rows os"
  by (induction os) (auto simp: open_rows_def put_order_def)

lemma open_rows_cancel_less:
  assumes "find_order os i = Some x" "o_status x \<in> {New, Active, Inactive}"
  shows "open_rows (put_order (set_status Canceled) i os) < open_rows os"
  using assms
proof (induction os)
  case (Cons y os)
  have "open_rows (put_order (set_status Canceled) i os) \<le> open_rows os"
    by (rule open_rows_cancel_le)
  with Cons show ?case
    by (cases "o_id y = i") (auto simp: open_rows_def put_order_def find_order_def)
qed (simp add: find_order_def)

definition pair_of :: "order list \<Rightarrow> order \<Rightarrow> order option" where
  "pair_of os o1 = (case o_pair o1 of None \<Rightarrow> None | Some j \<Rightarrow> find_order os j)"

function update_status_row :: "order list \<Rightarrow> nat \<Rightarrow> order_status \<Rightarrow> bool \<Rightarrow> bool \<times> order list" where
  "update_status_row os i st manual =
     (case find_order os i of
        None \<Rightarrow> (False, os)
      | Some self \<Rightarrow>
          if manual \<and> is_placed_by_system self then (False, os)
          else if \<not> is_valid_transition (o_status self) st then (False, os)
          else let os' = put_order (set_status st) i os
               in case (if st = Canceled then pair_of os' self else None) of
                    None \<Rightarrow> (True, os')
                  | Some p \<Rightarrow>
                      if o_matched_amount p = 0
                      then (True, snd (update_status_row os' (o_id p) st manual))
                      else (True, os'))"
  by pat_completeness auto
termination
proof (relation "measure (\<lambda>(os, i, st, manual). open_rows os)", simp)
  fix os i st manual self os' p
  assume "find_order os i = Some self" "\<not> \<not> is_valid_transition (o_status self) st"
    "os' = put_order (set_status st) i os"
    "(if st = Canceled then pair_of os' self else None) = Some p"
  then show "((os', o_id p, st, manual), os, i, st, manual) \<in> measure (\<lambda>(os, i, st, manual). open_rows os)"
    by (auto split: if_splits simp: is_valid_transition_def intro: open_rows_cancel_less)
qed

declare update_status_row.simps [simp del]

text \<open>A pair object that was loaded before is taken to agree with its row in all but the matched
  amount; the view that hands one over has just read and locked it.\<close>

definition update_status ::
    "order list \<Rightarrow> order \<Rightarrow> order option \<Rightarrow> order_status \<Rightarrow> bool \<Rightarrow> bool \<times> order \<times> order list" where
  "update_status os self pair_obj st manual =
     (if manual \<and> is_placed_by_system self then (False, self, os)
      else if \<not> is_valid_transition (o_status self) st then (False, self, os)
      else let self' = set_status st self;
               os' = put_order (set_status st) (o_id self) os;
               p = (case pair_obj of Some q \<Rightarrow> Some q | None \<Rightarrow> pair_of os' self)
           in case (if st = Canceled then p else None) of
                None \<Rightarrow> (True, self', os')
              | Some q \<Rightarrow> (True, self',
                           if o_matched_amount q = 0
                           then snd (update_status_row os' (o_id q) st manual) else os'))"

definition do_cancel :: "order list \<Rightarrow> order \<Rightarrow> order option \<Rightarrow> bool \<Rightarrow> bool \<times> order \<times> order list" where
  "do_cancel os self pair_obj manual = update_status os self pair_obj Canceled manual"

text \<open>Every row either keeps its status or makes a valid transition; nothing else changes.\<close>

definition status_step :: "order \<Rightarrow> order \<Rightarrow> bool" where
  "status_step x y \<longleftrightarrow> y = x \<or> (\<exists>st. is_valid_transition (o_status x) st \<and> y = set_status st x)"

lemma status_step_refl [simp]: "status_step x x"
  by (simp add: status_step_def)

definition cancel_step :: "order \<Rightarrow> order \<Rightarrow> bool" where
  "cancel_step x y \<longleftrightarrow> y = x \<or> o_status x \<in> {New, Active, Inactive} \<and> y = set_status Canceled x"

lemma cancel_step_trans: "cancel_step x y \<Longrightarrow> cancel_step y z \<Longrightarrow> cancel_step x z"
  by (auto simp: cancel_step_def)

lemma cancel_step_status_step: "cancel_step x y \<Longrightarrow> status_step x y"
  by (auto simp: cancel_step_def status_step_def is_valid_transition_def)

lemma list_all2_put_order:
  assumes "distinct (map o_id os)" "find_order os i = Some x" "R x (f x)" "\<And>y. R y y"
  shows "list_all2 R os (put_order f i os)"
  using assms
proof (induction os)
  case (Cons y os)
  show ?case
  proof (cases "o_id y = i")
    case True
    with Cons.prems have "put_order f i os = os"
      by (auto simp: put_order_def image_iff intro!: map_idI)
    with True Cons.prems show ?thesis
      by (simp add: put_order_def find_order_def list.rel_refl)
  next
    case False
    with Cons show ?thesis by (auto simp: put_order_def find_order_def)
  qed
qed (simp add: put_order_def)

lemma update_status_row_ids: "map o_id (snd (update_status_row os i st manual)) = map o_id os"
proof (induction os i st manual rule: update_status_row.induct)
  case (1 os i st manual)
  show ?case
  proof (cases "find_order os i")
    case (Some x)
    define os' where "os' = put_order (set_status st) i os"
    have ids: "map o_id os' = map o_id os" by (simp add: os'_def)
    have "map o_id (snd (update_status_row os' (o_id p) st manual)) = map o_id os'"
      if "\<not> (manual \<and> is_placed_by_system x)" "is_valid_transition (o_status x) st"
        "(if st = Canceled then pair_of os' x else None) = Some p" "o_matched_amount p = 0" for p
      using 1 [OF Some that(1) _ os'_def that(3,4)] that(2) by simp
    then show ?thesis
      by (auto simp: update_status_row.simps [of os i] Some Let_def os'_def [symmetric] ids
          split: option.splits if_splits)
  qed (simp add: update_status_row.simps [of os i])
qed

text \<open>Nothing but statuses changes.\<close>

lemma map_set_status_put [simp]:
  "map (set_status New) (put_order (set_status st) i os) = map (set_status New) os"
  by (induction os) (simp_all add: put_order_def set_status_def)

lemma update_status_row_only_status:
  "map (set_status New) (snd (update_status_row os i st manual)) = map (set_status New) os"
proof (induction os i st manual rule: update_status_row.induct)
  case (1 os i st manual)
  show ?case
  proof (cases "find_order os i")
    case (Some x)
    define os' where "os' = put_order (set_status st) i os"
    have same: "map (set_status New) os' = map (set_status New) os" by (simp add: os'_def)
    have "map (set_status New) (snd (update_status_row os' (o_id p) st manual)) = map (set_status New) os'"
      if "\<not> (manual \<and> is_placed_by_system x)" "is_valid_transition (o_status x) st"
        "(if st = Canceled then pair_of os' x else None) = Some p" "o_matched_amount p = 0" for p
      using 1 [OF Some that(1) _ os'_def that(3,4)] that(2) by simp
    then show ?thesis
      by (auto simp: update_status_row.simps [of os i] Some Let_def os'_def [symmetric] same
          split: option.splits if_splits)
  qed (simp add: update_status_row.simps [of os i])
qed

lemma do_cancel_only_status:
  "map (set_status New) (snd (snd (do_cancel os self p manual))) = map (set_status New) os"
  by (auto simp: do_cancel_def update_status_def Let_def update_status_row_only_status
      split: option.split)

lemma update_status_row_cancel_step:
  "distinct (map o_id os) \<Longrightarrow> list_all2 cancel_step os (snd (update_status_row os i Canceled manual))"
proof (induction os i Canceled manual rule: update_status_row.induct)
  case (1 os i manual)
  have refl: "list_all2 cancel_step os os"
    by (simp add: list.rel_refl cancel_step_def)
  show ?case
  proof (cases "find_order os i")
    case None
    with refl show ?thesis by (simp add: update_status_row.simps [of os i])
  next
    case (Some x)
    show ?thesis
    proof (cases "(manual \<and> is_placed_by_system x) \<or> \<not> is_valid_transition (o_status x) Canceled")
      case True
      with Some refl show ?thesis by (auto simp: update_status_row.simps [of os i])
    next
      case False
      define os' where "os' = put_order (set_status Canceled) i os"
      have step: "list_all2 cancel_step os os'"
        unfolding os'_def using False
        by (intro list_all2_put_order [OF "1.prems" Some])
          (auto simp: cancel_step_def is_valid_transition_def)
      have dist: "distinct (map o_id os')"
        using "1.prems" by (simp add: os'_def)
      have IH: "list_all2 cancel_step os' (snd (update_status_row os' (o_id p) Canceled manual))"
        if "pair_of os' x = Some p" "o_matched_amount p = 0" for p
        using "1.hyps" [OF Some _ _ os'_def _ that(2)] False that dist by simp
      have "list_all2 cancel_step os (snd (update_status_row os' (o_id p) Canceled manual))"
        if "pair_of os' x = Some p" "o_matched_amount p = 0" for p
        using cancel_step_trans by (rule list_all2_trans [OF _ step IH [OF that]])
      with step Some False show ?thesis
        by (auto simp: update_status_row.simps [of os i] Let_def os'_def [symmetric] split: option.splits)
    qed
  qed
qed

text \<open>The effect of a cancellation on a row that may be cancelled.\<close>

lemma update_status_row_cancels:
  assumes "find_order os i = Some x" "o_status x \<in> {New, Active, Inactive}"
    and "\<not> (manual \<and> is_placed_by_system x)" and dist: "distinct (map o_id os)"
  shows "find_order (snd (update_status_row os i Canceled manual)) i = Some (set_status Canceled x)"
proof -
  define os' where "os' = put_order (set_status Canceled) i os"
  have here: "find_order os' i = Some (set_status Canceled x)"
    by (simp add: os'_def find_put_order_same assms)
  have keep: "find_order us i = Some (set_status Canceled x)" if "list_all2 cancel_step os' us" for us
    using that here
  proof (induction rule: list_all2_induct)
    case (Cons a as b bs)
    then show ?case
      by (auto simp: find_order_def cancel_step_def split: if_splits)
  qed (simp add: find_order_def)
  have "distinct (map o_id os')" using dist by (simp add: os'_def)
  then have rec: "find_order (snd (update_status_row os' j Canceled manual)) i = Some (set_status Canceled x)" for j
    by (intro keep update_status_row_cancel_step)
  have "is_valid_transition (o_status x) Canceled"
    using assms(2) by (simp add: is_valid_transition_def)
  with assms here rec show ?thesis
    by (auto simp: update_status_row.simps [of os i] Let_def os'_def [symmetric] split: option.splits)
qed

subsection \<open>The invariant of an order\<close>

text \<open>
  What the columns of a stored order satisfy: amounts are money values, an order is never
  filled beyond its amount, and a done order is filled.
\<close>

definition order_inv :: "order \<Rightarrow> bool" where
  "order_inv x \<longleftrightarrow>
     money_field (o_amount x) \<and> money_field (o_matched_amount x)
     \<and> 0 \<le> o_matched_amount x \<and> o_matched_amount x \<le> o_amount x
     \<and> 0 \<le> o_price x \<and> money_field (o_price x)"

lemma unmatched_amount_eq: "order_inv x \<Longrightarrow> unmatched_amount x = o_amount x - o_matched_amount x"
  by (simp add: order_inv_def unmatched_amount_def money_dsub)

lemma is_matched_iff: "order_inv x \<Longrightarrow> is_matched x \<longleftrightarrow> o_matched_amount x = o_amount x"
  by (auto simp: is_matched_def unmatched_amount_eq order_inv_def)

lemma order_inv_set_status [simp]: "order_inv (set_status st x) = order_inv x"
  by (simp add: order_inv_def)

lemma order_inv_same_but_status:
  assumes "map (set_status New) os' = map (set_status New) os" "list_all order_inv os"
  shows "list_all order_inv os'"
proof -
  have eq: "list_all order_inv xs \<longleftrightarrow> list_all order_inv (map (set_status New) xs)" for xs
    by (simp add: list_all_iff)
  show ?thesis using assms eq by metis
qed

end
