(* ===== verification/Wallets.thy ===== *)
theory Wallets
  imports Orders
begin

section \<open>Wallets and transactions\<close>

text \<open>
  \<open>Wallet\<close> and \<open>Transaction\<close> of \<^verbatim>\<open>src/core/exchange/wallet/models.py\<close>, with the two SQL
  statements they run, and the \<open>BalanceBlockManager\<close> of
  \<^verbatim>\<open>src/core/exchange/usermanagement/block.py\<close>. The database is a record of tables, lists of
  rows; a wallet object in memory is a copy of a row and may be stale, so every operation
  says whether it reads the object or the row. An exception inside an atomic block
  undoes its writes: the error case of a result carries no database. SQL arithmetic on
  numeric columns is exact. Messages, metrics and reports to the admins are left out.

  The lemmas show that a committed transaction changes one row by exactly its amount,
  never below zero unless the caller asked for that, that the balances stay the sums of
  their transactions, and that blocking keeps the blocked part within the balance.
\<close>

subsection \<open>Data\<close>

record wallet =
  w_id :: nat
  w_user :: nat
  w_currency :: nat
  w_type :: wallet_type
  w_balance :: rat
  w_blocked :: rat
  w_active :: bool

datatype tx_type =
    TxDeposit | TxWithdraw | TxBuy | TxSell | TxFee | TxManual | TxGateway | TxConvert
  | TxExSrc | TxExDst | TxTransfer | TxDelegate | TxPnl | TxDiscount | TxStaking | TxCredit
  | TxYieldFarming | TxSocialTrade | TxAssetBackedCredit | TxDirectDebit | TxRefund
  | TxReward | TxReferral | TxBotCharge | TxDebit | TxExternalLiquidation

fun tx_type_code :: "tx_type \<Rightarrow> nat" where
  "tx_type_code TxDeposit = 10"
| "tx_type_code TxWithdraw = 20"
| "tx_type_code TxBuy = 30"
| "tx_type_code TxSell = 40"
| "tx_type_code TxFee = 50"
| "tx_type_code TxManual = 60"
| "tx_type_code TxGateway = 70"
| "tx_type_code TxConvert = 80"
| "tx_type_code TxExSrc = 81"
| "tx_type_code TxExDst = 82"
| "tx_type_code TxTransfer = 90"
| "tx_type_code TxDelegate = 100"
| "tx_type_code TxPnl = 110"
| "tx_type_code TxDiscount = 120"
| "tx_type_code TxStaking = 130"
| "tx_type_code TxCredit = 150"
| "tx_type_code TxYieldFarming = 160"
| "tx_type_code TxSocialTrade = 170"
| "tx_type_code TxAssetBackedCredit = 180"
| "tx_type_code TxDirectDebit = 190"
| "tx_type_code TxRefund = 200"
| "tx_type_code TxReward = 210"
| "tx_type_code TxReferral = 220"
| "tx_type_code TxBotCharge = 230"
| "tx_type_code TxDebit = 240"
| "tx_type_code TxExternalLiquidation = 250"

record transaction =
  tx_id :: nat
  tx_wallet :: nat
  tx_tp :: tx_type
  tx_amount :: rat
  tx_balance :: rat
  tx_created_at :: datetime
  tx_ref_module :: "int option"
  tx_ref_id :: "nat option"

definition REF_MODULES :: "(string \<times> int) list" where
  "REF_MODULES = [
    (''ConfirmedWalletDeposit'', 30), (''ShetabDeposit'', 31), (''WithdrawRequest'', 32),
    (''InternalTransferDeposit'', 33), (''BankDeposit'', 34), (''WithdrawDoubleSpend'', 35),
    (''TradeSellA'', 41), (''TradeSellB'', 42), (''TradeBuyA'', 43), (''TradeBuyB'', 44),
    (''TradeFeeA'', 45), (''TradeFeeB'', 46), (''FeeAggregate'', 47),
    (''ReverseTransaction'', 51), (''Credit'', 52), (''ShetabBlock'', 53),
    (''RedeemRequest'', 54), (''TransferSrc'', 61), (''TransferDst'', 62), (''ExchangeSrc'', 81),
    (''ExchangeDst'', 82), (''BotDst'', 83), (''ExchangeSystemSrc'', 84),
    (''ExchangeSystemDst'', 85), (''PositionFeeSrc'', 91), (''PositionFeeAggregate'', 92),
    (''DelegationSrc'', 101), (''DelegationDst'', 102), (''DelegationRevokeSrc'', 103),
    (''DelegationRevokeDst'', 104), (''DelegationProfitSrc'', 105),
    (''DelegationProfitDst'', 106), (''DelegationProfitSrc+'', 107),
    (''DelegationProfitDst+'', 108), (''RecoveryFeeSrc'', 111), (''RecoveryFeeDst'', 112),
    (''ReturnRecoveryFeeSrc'', 109), (''ReturnRecoveryFeeDst'', 110), (''PositionUserPNL'', 113),
    (''PositionPoolPNL'', 114), (''PositionAdjustPNL'', 115),
    (''PositionCollateralRestitution'', 116), (''DiscountDst'', 121), (''StakingFee'', 131),
    (''StakingRequest'', 132), (''StakingReward'', 133), (''StakingRelease'', 134),
    (''BlockedOrder'', 141), (''CreditLend'', 151), (''CreditSystemLend'', 152),
    (''CreditRepay'', 153), (''CreditSystemRepay'', 154), (''YieldFarmingReward'', 661537800),
    (''YieldFarmingRequest'', 162), (''YieldFarmingRelease'', 163),
    (''CampaignLevel2Reward1402'', 164), (''SocialTradeUserTransaction'', 171),
    (''SocialTradeLeaderTransaction'', 172), (''SocialTradeSystemTransaction'', 173),
    (''AssetBackedCreditUserSettlement'', 181), (''AssetBackedCreditProviderSettlement'', 182),
    (''AssetBackedCreditInsuranceSettlement'', 183),
    (''AssetBackedCreditUserSettlementReverse'', 184),
    (''AssetBackedCreditProviderSettlementReverse'', 185),
    (''AssetBackedCreditInsuranceSettlementReverse'', 186),
    (''AssetBackedCreditUserFeeSettlement'', 187),
    (''AssetBackedCreditUserFeeSettlementReverse'', 188),
    (''AssetBackedCreditFeeSettlement'', 189), (''AssetBackedCreditFeeSettlementReverse'', 190),
    (''CampaignReferral1402'', 201), (''VIPCharge'', 301), (''DirectDebitUserTransaction'', 302),
    (''CampaignGiveawaySrc'', 311), (''CampaignGiveawayDst'', 312),
    (''CampaignGiveawayAzadUni1403Src'', 401), (''CampaignGiveawayAzadUni1403Dst'', 402),
    (''CampaignGiveawayLevelUp1403Src'', 403), (''CampaignGiveawayLevelUp1403Dst'', 404),
    (''CampaignGiveawayHamsterPreLaunchSrc'', 405),
    (''CampaignGiveawayHamsterPreLaunchDst'', 406), (''ManualDepositRequest'', 501),
    (''ManualDepositRequestFee'', 502), (''CoBankDeposit'', 601),
    (''LiquidationRequestSrc'', 701), (''LiquidationRequestDst'', 702), (''LiquidationSrc'', 703),
    (''LiquidationDst'', 704), (''ExchangeSmallAssetSrc'', 710), (''ExchangeSmallAssetDst'', 711),
    (''ExchangeSmallAssetSystemSrc'', 712), (''ExchangeSmallAssetSystemDst'', 713)]"

text \<open>
  The tables the modelled code reads and writes. \<open>withdraws\<close> holds what the blocked
  balance needs of a withdraw request (its wallet, its amount, whether it is in an
  inactive status, whether it has a transaction), \<open>position_rows\<close> the user, the
  destination currency, the settled profit and the collateral of the margin positions.
\<close>

record withdraw_row =
  wr_wallet :: nat
  wr_amount :: rat
  wr_inactive :: bool
  wr_has_transaction :: bool

record position_row =
  pr_user :: nat
  pr_dst :: nat
  pr_pnl :: "rat option"
  pr_collateral :: rat

record db =
  wallets :: "wallet list"
  transactions :: "transaction list"
  next_tx_id :: nat
  next_wallet_id :: nat
  orders :: "order list"
  withdraws :: "withdraw_row list"
  position_rows :: "position_row list"

definition find_wallet :: "wallet list \<Rightarrow> nat \<Rightarrow> wallet option" where
  "find_wallet ws i = find (\<lambda>w. w_id w = i) ws"

definition put_wallet :: "(wallet \<Rightarrow> wallet) \<Rightarrow> nat \<Rightarrow> wallet list \<Rightarrow> wallet list" where
  "put_wallet f i ws = map (\<lambda>w. if w_id w = i then f w else w) ws"

subsection \<open>Blocked and active balance\<close>

definition get_financially_pending_requests :: "withdraw_row list \<Rightarrow> nat \<Rightarrow> withdraw_row list" where
  "get_financially_pending_requests rows wid =
     filter (\<lambda>r. \<not> wr_has_transaction r \<and> \<not> wr_inactive r \<and> wr_wallet r = wid) rows"

definition get_blocked_balance :: "'a db_scheme \<Rightarrow> wallet \<Rightarrow> rat" where
  "get_blocked_balance d w =
     (case w_type w of
        WSpot \<Rightarrow> dadd 0 (sum_list (map wr_amount (get_financially_pending_requests (withdraws d) (w_id w))))
      | WMargin \<Rightarrow> dadd 0 (sum_list (map pr_collateral
            (filter (\<lambda>r. pr_dst r = w_currency w \<and> pr_user r = w_user w \<and> pr_pnl r = None) (position_rows d))))
      | _ \<Rightarrow> 0)"

text \<open>The amount one open order takes from a wallet (the SQL \<open>CASE\<close> of the aggregate).\<close>

definition order_in_wallet :: "nat \<Rightarrow> order \<Rightarrow> rat" where
  "order_in_wallet currency o1 =
     (if o_type o1 = Buy \<and> o_dst o1 = currency then (o_amount o1 - o_matched_amount o1) * o_price o1
      else if o_type o1 = Sell \<and> o_src o1 = currency then o_amount o1 - o_matched_amount o1
      else 0)"

definition in_order_rows :: "order list \<Rightarrow> nat \<Rightarrow> order list" where
  "in_order_rows os user =
     filter (\<lambda>o1. o_user o1 = user \<and> o_status o1 \<in> {Active, Inactive} \<and> o_trade o1 = Spot
        \<and> \<not> (o_pair o1 \<noteq> None \<and> o_matched_amount o1 = 0 \<and> o_execution o1 = Limit)) os"

text \<open>
  The two cache flags of the user: \<open>no_order\<close> may answer zero at once, unless
  \<open>recent_order\<close> says that the flag cannot be trusted, which also clears it.
\<close>

record order_flags =
  no_order :: bool
  recent_order :: bool

definition get_balance_in_order :: "'a db_scheme \<Rightarrow> wallet \<Rightarrow> bool \<Rightarrow> order_flags \<Rightarrow> rat \<times> order_flags" where
  "get_balance_in_order d w use_cache fl =
     (let in_order = sum_list (map (order_in_wallet (w_currency w)) (in_order_rows (orders d) (w_user w)))
      in if w_type w \<noteq> WSpot then (0, fl)
         else if no_order fl \<and> use_cache
         then if recent_order fl then (in_order, fl\<lparr>no_order := False\<rparr>) else (0, fl)
         else (in_order, fl))"

definition blocked_balance :: "'a db_scheme \<Rightarrow> wallet \<Rightarrow> order_flags \<Rightarrow> rat" where
  "blocked_balance d w fl =
     (if w_type w \<in> {WMargin, WCredit, WDebit} then w_blocked w
      else dadd (get_blocked_balance d w) (fst (get_balance_in_order d w True fl)))"

definition active_balance :: "'a db_scheme \<Rightarrow> wallet \<Rightarrow> order_flags \<Rightarrow> rat" where
  "active_balance d w fl = dsub (w_balance w) (blocked_balance d w fl)"

definition change_balance_blocked :: "'a db_scheme \<Rightarrow> nat \<Rightarrow> rat \<Rightarrow> ('a db_scheme \<times> wallet) result" where
  "change_balance_blocked d wid amount =
     rbind (quantize ROUND_HALF_EVEN MAX_PRECISION amount) (\<lambda>a.
       case find_wallet (wallets d) wid of
         None \<Rightarrow> Inl (ValueError ''InsufficientBalance'')
       | Some w \<Rightarrow>
           if 0 \<le> w_blocked w + a \<and> w_blocked w + a \<le> w_balance w
           then let w' = w\<lparr>w_blocked := w_blocked w + a\<rparr>
                in Inr (d\<lparr>wallets := put_wallet (\<lambda>_. w') wid (wallets d)\<rparr>, w')
           else Inl (ValueError ''InsufficientBalance''))"

definition block :: "'a db_scheme \<Rightarrow> nat \<Rightarrow> rat \<Rightarrow> ('a db_scheme \<times> wallet) result" where
  "block d wid amount = change_balance_blocked d wid amount"

definition unblock :: "'a db_scheme \<Rightarrow> nat \<Rightarrow> rat \<Rightarrow> ('a db_scheme \<times> wallet) result" where
  "unblock d wid amount = change_balance_blocked d wid (dneg amount)"

subsection \<open>Transactions\<close>

definition is_balance_allowed :: "rat \<Rightarrow> bool" where "is_balance_allowed b \<longleftrightarrow> 0 \<le> b"

definition check_transaction :: "transaction \<Rightarrow> wallet \<Rightarrow> bool" where
  "check_transaction tx w =
     (if \<not> w_active w then False
      else if tx_tp tx \<in> {TxDeposit, TxBuy} \<and> tx_amount tx < 0 then False
      else if tx_tp tx \<in> {TxWithdraw, TxSell} \<and> 0 < tx_amount tx then False
      else if tx_tp tx \<in> {TxWithdraw, TxSell}
              \<and> \<not> is_balance_allowed (dadd (w_balance w) (tx_amount tx)) then False
      else True)"

text \<open>
  \<open>w\<close> is the wallet object; \<open>None\<close> is the method's refusal, an error its exception. The
  new transaction has no id yet.
\<close>

definition create_transaction ::
    "wallet \<Rightarrow> tx_type \<Rightarrow> rat \<Rightarrow> datetime \<Rightarrow> int option \<Rightarrow> nat option \<Rightarrow> bool
     \<Rightarrow> transaction option result" where
  "create_transaction w tp amount created_at ref_module ref_id allow_negative_balance =
     (if \<not> w_active w then Inr None
      else rbind (quantize ROUND_HALF_EVEN MAX_PRECISION amount) (\<lambda>amount.
        let balance_after_tx = dadd (w_balance w) amount
        in if \<not> is_balance_allowed balance_after_tx \<and> \<not> allow_negative_balance then Inr None
           else let tx = \<lparr>tx_id = 0, tx_wallet = w_id w, tx_tp = tp, tx_amount = amount,
                          tx_balance = balance_after_tx, tx_created_at = created_at,
                          tx_ref_module = ref_module, tx_ref_id = ref_id\<rparr>
                in if check_transaction tx w then Inr (Some tx)
                   else Inl (ValueError ''Invalid Transaction'')))"

text \<open>\<open>deterministic_hash\<close> is SHA-256 of the name: a parameter.\<close>

definition set_ref :: "(string \<Rightarrow> int) \<Rightarrow> (string \<times> nat) option \<Rightarrow> transaction \<Rightarrow> transaction" where
  "set_ref deterministic_hash obj tx =
     (case obj of
        None \<Rightarrow> tx
      | Some (ref_module, ref_id) \<Rightarrow>
          tx\<lparr>tx_ref_module := Some (case map_of REF_MODULES ref_module of
                                      Some c \<Rightarrow> c
                                    | None \<Rightarrow> deterministic_hash ref_module mod 2 ^ 30),
             tx_ref_id := Some ref_id\<rparr>)"

definition ref_taken :: "transaction list \<Rightarrow> transaction \<Rightarrow> bool" where
  "ref_taken txs tx \<longleftrightarrow>
     tx_ref_module tx \<noteq> None \<and> tx_ref_id tx \<noteq> None
     \<and> list_ex (\<lambda>t. tx_ref_module t = tx_ref_module tx \<and> tx_ref_id t = tx_ref_id tx) txs"

text \<open>
  \<open>commit\<close> adds the amount to the row, whatever the object says, checks the new balance
  and inserts the transaction; the unique pair \<open>(ref_module, ref_id)\<close> may refuse it. The
  result is the database and the transaction with its id and balance; the caller sets
  the balance of its wallet object to \<open>tx_balance\<close>.
\<close>

definition commit ::
    "'a db_scheme \<Rightarrow> transaction \<Rightarrow> bool \<Rightarrow> ('a db_scheme \<times> transaction) result" where
  "commit d tx allow_negative_balance =
     (case find_wallet (wallets d) (tx_wallet tx) of
        None \<Rightarrow> Inl AttributeError
      | Some row \<Rightarrow>
          let updated_balance = w_balance row + tx_amount tx;
              tx' = tx\<lparr>tx_id := next_tx_id d, tx_balance := updated_balance\<rparr>
          in if updated_balance < 0 \<and> \<not> allow_negative_balance
             then Inl (ValueError ''Balance Error In Commiting Transaction'')
             else if ref_taken (transactions d) tx
             then Inl (IntegrityError ''unique_ref'')
             else Inr (d\<lparr>wallets := put_wallet (\<lambda>w. w\<lparr>w_balance := updated_balance\<rparr>) (tx_wallet tx) (wallets d),
                         transactions := transactions d @ [tx'],
                         next_tx_id := Suc (next_tx_id d)\<rparr>, tx'))"

definition update_balance_from_transactions :: "'a db_scheme \<Rightarrow> nat \<Rightarrow> rat" where
  "update_balance_from_transactions d wid =
     sum_list (map tx_amount (filter (\<lambda>t. tx_wallet t = wid) (transactions d)))"

subsection \<open>Finding and creating wallets\<close>

definition wallet_for :: "wallet list \<Rightarrow> nat \<Rightarrow> nat \<Rightarrow> wallet_type \<Rightarrow> wallet option" where
  "wallet_for ws user currency tp =
     find (\<lambda>w. w_user w = user \<and> w_currency w = currency \<and> w_type w = tp) ws"

definition get_user_wallet ::
    "nat list \<Rightarrow> 'a db_scheme \<Rightarrow> nat \<Rightarrow> nat \<Rightarrow> wallet_type \<Rightarrow> bool \<Rightarrow> wallet option \<times> 'a db_scheme" where
  "get_user_wallet DST_CURRENCIES d user currency tp create =
     (if tp = WMargin \<and> currency \<notin> set DST_CURRENCIES then (None, d)
      else case wallet_for (wallets d) user currency tp of
             Some w \<Rightarrow> (Some w, d)
           | None \<Rightarrow>
               if \<not> create then (None, d)
               else let w = \<lparr>w_id = next_wallet_id d, w_user = user, w_currency = currency, w_type = tp,
                             w_balance = 0, w_blocked = 0, w_active = True\<rparr>
                    in (Some w, d\<lparr>wallets := wallets d @ [w], next_wallet_id := Suc (next_wallet_id d)\<rparr>))"

lemma get_user_wallet_found:
  "get_user_wallet D d user c tp create = (Some w, d') \<Longrightarrow> wallet_for (wallets d') user c tp = Some w"
proof -
  have "find P (xs @ [y]) = (case find P xs of None \<Rightarrow> if P y then Some y else None | Some z \<Rightarrow> Some z)" for P xs and y :: wallet
    by (induction xs) auto
  then show "get_user_wallet D d user c tp create = (Some w, d') \<Longrightarrow> wallet_for (wallets d') user c tp = Some w"
    by (auto simp: get_user_wallet_def wallet_for_def Let_def split: if_splits option.split_asm)
qed

subsection \<open>Order validation\<close>

text \<open>
  \<open>Wallet.validate_order\<close>: \<open>pair\<close> is the pair object of the order and \<open>w\<close> the wallet it
  pays from. \<open>active\<close> is the wallet's active balance, read only when asked for.
\<close>

definition validate_order :: "order \<Rightarrow> order option \<Rightarrow> wallet \<Rightarrow> rat \<Rightarrow> bool \<Rightarrow> bool \<times> string" where
  "validate_order o1 pair w active only_active_balance =
     (let has_shared_fund = only_active_balance
            \<and> (case pair of None \<Rightarrow> False | Some p \<Rightarrow> o_pair p = None \<and> is_active p);
          order_required_funds = (if is_buy o1 then unmatched_total_price o1 else unmatched_amount o1);
          shared_funds = (if has_shared_fund
                          then (if is_buy o1 then unmatched_total_price (the pair)
                                else unmatched_amount (the pair)) else 0);
          available_funds = (if only_active_balance then dadd active shared_funds else w_balance w);
          range_allowance = (if is_market o1 \<and> is_buy o1 then 11/10 else 1)
      in if \<not> w_active w then (False, ''InactiveWallet'')
         else if dmul available_funds range_allowance < order_required_funds then (False, ''OverValueOrder'')
         else (True, ''ok''))"

subsection \<open>What a commit does\<close>

lemma find_wallet_Some: "find_wallet ws i = Some w \<Longrightarrow> w \<in> set ws \<and> w_id w = i"
  by (auto simp: find_wallet_def find_Some_iff)

lemma find_put_wallet:
  "(\<And>w. w_id (f w) = w_id w)
   \<Longrightarrow> find_wallet (put_wallet f i ws) j
        = (if i = j then map_option f (find_wallet ws j) else find_wallet ws j)"
  by (induction ws) (auto simp: put_wallet_def find_wallet_def)

lemma ids_put_wallet [simp]:
  "(\<And>w. w_id (f w) = w_id w) \<Longrightarrow> map w_id (put_wallet f i ws) = map w_id ws"
  by (induction ws) (simp_all add: put_wallet_def)

lemma set_put_wallet:
  "x \<in> set (put_wallet f i ws) \<longleftrightarrow> (\<exists>w \<in> set ws. x = (if w_id w = i then f w else w))"
  unfolding put_wallet_def set_map by blast

lemma find_wallet_in_set:
  "distinct (map w_id ws) \<Longrightarrow> w \<in> set ws \<Longrightarrow> find_wallet ws (w_id w) = Some w"
  by (induction ws) (auto simp: find_wallet_def image_iff)

lemma commit_Inr:
  "commit d tx neg = Inr (d', tx') \<longleftrightarrow>
     (\<exists>row. find_wallet (wallets d) (tx_wallet tx) = Some row
        \<and> (0 \<le> w_balance row + tx_amount tx \<or> neg)
        \<and> \<not> ref_taken (transactions d) tx
        \<and> tx' = tx\<lparr>tx_id := next_tx_id d, tx_balance := w_balance row + tx_amount tx\<rparr>
        \<and> d' = d\<lparr>wallets := put_wallet (\<lambda>w. w\<lparr>w_balance := w_balance row + tx_amount tx\<rparr>)
                              (tx_wallet tx) (wallets d),
                 transactions := transactions d @ [tx'], next_tx_id := Suc (next_tx_id d)\<rparr>)"
  by (auto simp: commit_def Let_def not_less split: option.splits)

definition balance_of :: "'a db_scheme \<Rightarrow> nat \<Rightarrow> rat option" where
  "balance_of d i = map_option w_balance (find_wallet (wallets d) i)"

lemma commit_balance_of:
  assumes "commit d tx neg = Inr (d', tx')"
  shows "balance_of d' i
         = (if i = tx_wallet tx then map_option (\<lambda>b. b + tx_amount tx) (balance_of d i) else balance_of d i)"
  using assms by (auto simp: commit_Inr balance_of_def find_put_wallet)

lemma commit_frame [frame_simps]:
  assumes "commit d tx neg = Inr (d', tx')"
  shows "orders d' = orders d" "withdraws d' = withdraws d" "position_rows d' = position_rows d"
    "next_wallet_id d' = next_wallet_id d" "map w_id (wallets d') = map w_id (wallets d)"
    "db.more d' = db.more d"
  using assms by (auto simp: commit_Inr)

subsection \<open>The interface of a ledger\<close>

text \<open>
  What the callers of \<open>commit\<close> rely on: posting an entry moves the balance of its target
  by exactly the amount and leaves the rest alone; a guarded posting, one that checks the
  new balance, never leaves a negative one. The client lemmas are proved for sequences of postings.
\<close>

locale ledger =
  fixes bal :: "'s \<Rightarrow> 'k \<Rightarrow> rat option"
    and post :: "'s \<Rightarrow> 't \<Rightarrow> 's result"
    and target :: "'t \<Rightarrow> 'k"
    and delta :: "'t \<Rightarrow> rat"
  assumes post_target: "post s t = Inr s' \<Longrightarrow> bal s (target t) \<noteq> None"
    and post_bal: "post s t = Inr s'
      \<Longrightarrow> bal s' k = (if k = target t then map_option (\<lambda>b. b + delta t) (bal s k) else bal s k)"
begin

lemma posts_bal:
  "fold_result post s ts = Inr s'
   \<Longrightarrow> bal s' k = map_option (\<lambda>b. b + sum_list (map delta (filter (\<lambda>t. target t = k) ts))) (bal s k)"
proof (induction ts arbitrary: s)
  case (Cons t ts)
  then obtain s1 where s1: "post s t = Inr s1" "fold_result post s1 ts = Inr s'"
    by (auto simp: rbind_eq_Inr_iff)
  show ?case
    using Cons.IH [OF s1(2)] post_bal [OF s1(1), of k]
    by (cases "bal s k") (auto simp: algebra_simps)
qed (simp add: option.map_ident)

text \<open>A balanced pair of postings is a transfer: what one side loses the other gains.\<close>

lemma transfer_conserves:
  assumes "post s t = Inr s1" "post s1 u = Inr s2" "delta u = - delta t" "target t \<noteq> target u"
    and "bal s (target t) = Some a" "bal s (target u) = Some b"
  shows "\<exists>a' b'. bal s2 (target t) = Some a' \<and> bal s2 (target u) = Some b' \<and> a' + b' = a + b
           \<and> a' = a + delta t"
  using assms post_bal [OF assms(1)] post_bal [OF assms(2)] by auto

text \<open>The order of the postings does not matter for the balances.\<close>

lemma posts_reordered:
  assumes "fold_result post s ts = Inr s1" "fold_result post s us = Inr s2" "mset ts = mset us"
  shows "bal s1 k = bal s2 k"
proof -
  have "sum_list (map delta (filter (\<lambda>t. target t = k) ts))
      = sum_list (map delta (filter (\<lambda>t. target t = k) us))"
    unfolding sum_mset_sum_list [symmetric] mset_map mset_filter assms(3) by (rule refl)
  then show ?thesis using posts_bal [OF assms(1)] posts_bal [OF assms(2)] by simp
qed

end

locale guarded_ledger = ledger +
  assumes post_nonneg: "post s t = Inr s' \<Longrightarrow> bal s' (target t) = Some b \<Longrightarrow> 0 \<le> b"
begin

lemma posts_keep_nonneg:
  "fold_result post s ts = Inr s' \<Longrightarrow> (\<And>k b. bal s k = Some b \<Longrightarrow> 0 \<le> b)
   \<Longrightarrow> bal s' k = Some b \<Longrightarrow> 0 \<le> b"
proof (induction ts arbitrary: s)
  case (Cons t ts)
  then obtain s1 where s1: "post s t = Inr s1" "fold_result post s1 ts = Inr s'"
    by (auto simp: rbind_eq_Inr_iff)
  have "0 \<le> c" if "bal s1 j = Some c" for j c
  proof (cases "j = target t")
    case True
    with that post_nonneg [OF s1(1)] show ?thesis by metis
  next
    case False
    with that post_bal [OF s1(1), of j] Cons.prems(2) show ?thesis by simp
  qed
  then show ?case using Cons.IH [OF s1(2)] Cons.prems(3) by blast
qed simp

end

definition post :: "'a db_scheme \<Rightarrow> transaction \<Rightarrow> 'a db_scheme result" where
  "post d tx = rbind (commit d tx False) (\<lambda>(d', tx'). Inr d')"

lemma post_Inr: "post d tx = Inr d' \<longleftrightarrow> (\<exists>tx'. commit d tx False = Inr (d', tx'))"
  by (auto simp: post_def rbind_eq_Inr_iff)

interpretation wl: guarded_ledger balance_of post tx_wallet tx_amount
proof
  fix d :: "'a db_scheme" and d' tx k b
  assume p: "post d tx = Inr d'"
  then show "balance_of d (tx_wallet tx) \<noteq> None"
    by (auto simp: post_Inr commit_Inr balance_of_def)
  from p show "balance_of d' k
      = (if k = tx_wallet tx then map_option (\<lambda>b. b + tx_amount tx) (balance_of d k) else balance_of d k)"
    unfolding post_Inr using commit_balance_of by blast
  from p show "0 \<le> b" if "balance_of d' (tx_wallet tx) = Some b"
    using that by (auto simp: post_Inr commit_Inr balance_of_def find_put_wallet)
qed

subsection \<open>The invariant of the tables\<close>

text \<open>
  Ids are fresh, every balance is the sum of its transactions, and no two transactions
  carry the same reference.
\<close>

definition tx_ref :: "transaction \<Rightarrow> (int \<times> nat) option" where
  "tx_ref t = (case (tx_ref_module t, tx_ref_id t) of (Some m, Some i) \<Rightarrow> Some (m, i) | _ \<Rightarrow> None)"

definition refs_unique :: "transaction list \<Rightarrow> bool" where
  "refs_unique txs \<longleftrightarrow> distinct (filter (\<lambda>r. r \<noteq> None) (map tx_ref txs))"

definition ledger_inv :: "'a db_scheme \<Rightarrow> bool" where
  "ledger_inv d \<longleftrightarrow>
     distinct (map w_id (wallets d)) \<and> (\<forall>w \<in> set (wallets d). w_id w < next_wallet_id d)
     \<and> distinct (map tx_id (transactions d)) \<and> (\<forall>t \<in> set (transactions d). tx_id t < next_tx_id d)
     \<and> (\<forall>t \<in> set (transactions d). tx_wallet t < next_wallet_id d)
     \<and> refs_unique (transactions d)
     \<and> (\<forall>w \<in> set (wallets d). w_balance w = update_balance_from_transactions d (w_id w))"

lemma ref_taken_iff: "ref_taken txs tx \<longleftrightarrow> tx_ref tx \<noteq> None \<and> tx_ref tx \<in> tx_ref ` set txs"
  by (auto simp: ref_taken_def tx_ref_def list_ex_iff image_iff split: option.splits)

lemma refs_unique_snoc: "refs_unique txs \<Longrightarrow> \<not> ref_taken txs tx \<Longrightarrow> tx_ref tx' = tx_ref tx
    \<Longrightarrow> refs_unique (txs @ [tx'])"
  by (auto simp: refs_unique_def ref_taken_iff)

lemma commit_keeps_ledger_inv:
  assumes inv: "ledger_inv d" and c: "commit d tx neg = Inr (d', tx')"
  shows "ledger_inv d'"
proof -
  from c obtain row where row: "find_wallet (wallets d) (tx_wallet tx) = Some row"
    and free: "\<not> ref_taken (transactions d) tx"
    and tx': "tx' = tx\<lparr>tx_id := next_tx_id d, tx_balance := w_balance row + tx_amount tx\<rparr>"
    and d': "d' = d\<lparr>wallets := put_wallet (\<lambda>w. w\<lparr>w_balance := w_balance row + tx_amount tx\<rparr>)
                              (tx_wallet tx) (wallets d),
                 transactions := transactions d @ [tx'], next_tx_id := Suc (next_tx_id d)\<rparr>"
    by (auto simp: commit_Inr)
  have rowin: "row \<in> set (wallets d)" "w_id row = tx_wallet tx"
    using find_wallet_Some [OF row] by auto
  have bal: "w_balance w = update_balance_from_transactions d' (w_id w)" if "w \<in> set (wallets d')" for w
  proof -
    from that obtain v where v: "v \<in> set (wallets d)"
      "w = (if w_id v = tx_wallet tx then v\<lparr>w_balance := w_balance row + tx_amount tx\<rparr> else v)"
      by (auto simp: d' set_put_wallet)
    have "update_balance_from_transactions d' i
        = update_balance_from_transactions d i + (if i = tx_wallet tx then tx_amount tx else 0)" for i
      by (simp add: update_balance_from_transactions_def d' tx')
    moreover have "w_balance v = update_balance_from_transactions d (w_id v)"
      "w_balance row = update_balance_from_transactions d (tx_wallet tx)"
      using inv v(1) rowin by (auto simp: ledger_inv_def)
    ultimately show ?thesis using v(2) by auto
  qed
  have "refs_unique (transactions d')"
    unfolding d' using inv free
    by (auto simp: ledger_inv_def tx' tx_ref_def intro!: refs_unique_snoc)
  moreover have "distinct (map tx_id (transactions d'))"
    using inv by (fastforce simp: ledger_inv_def d' tx')
  moreover have "tx_wallet tx < next_wallet_id d"
    using inv rowin by (auto simp: ledger_inv_def)
  moreover have "w_id w < next_wallet_id d'" if "w \<in> set (wallets d')" for w
    using inv that by (auto simp: ledger_inv_def d' set_put_wallet)
  moreover have "tx_id t < next_tx_id d' \<and> tx_wallet t < next_wallet_id d'"
    if "t \<in> set (transactions d')" for t
    using inv that calculation(3) by (auto simp: ledger_inv_def d' tx' less_SucI)
  moreover have "distinct (map w_id (wallets d'))"
    using inv commit_frame(5) [OF c] by (simp add: ledger_inv_def)
  ultimately show ?thesis
    using bal unfolding ledger_inv_def by blast
qed

definition solvent :: "'a db_scheme \<Rightarrow> bool" where
  "solvent d \<longleftrightarrow> list_all (\<lambda>w. 0 \<le> w_balance w) (wallets d)"

lemma commit_keeps_solvent:
  "solvent d \<Longrightarrow> commit d tx False = Inr (d', tx') \<Longrightarrow> solvent d'"
  by (auto simp: solvent_def commit_Inr list_all_iff set_put_wallet)

lemma get_user_wallet_keeps_ledger_inv:
  assumes inv: "ledger_inv d" and g: "get_user_wallet D d u c tp cr = (w, d')"
  shows "ledger_inv d'"
proof -
  have "filter (\<lambda>t. tx_wallet t = next_wallet_id d) (transactions d) = []"
    using inv by (auto simp: ledger_inv_def filter_empty_conv)
  then have fresh: "update_balance_from_transactions d (next_wallet_id d) = 0"
    by (simp add: update_balance_from_transactions_def)
  have upd: "update_balance_from_transactions (d\<lparr>wallets := ws, next_wallet_id := n\<rparr>) i
      = update_balance_from_transactions d i" for ws n i
    by (simp add: update_balance_from_transactions_def)
  have "next_wallet_id d \<notin> w_id ` set (wallets d)"
    using inv by (auto simp: ledger_inv_def)
  with inv g show ?thesis
    by (auto simp: get_user_wallet_def ledger_inv_def upd fresh Let_def less_SucI
        split: if_splits option.splits)
qed

lemma get_user_wallet_keeps_solvent:
  "solvent d \<Longrightarrow> get_user_wallet D d u c tp cr = (w, d') \<Longrightarrow> solvent d'"
  by (auto simp: get_user_wallet_def solvent_def Let_def split: if_splits option.splits)

subsection \<open>Creating a transaction\<close>

lemma create_transaction_Some:
  "create_transaction w tp amount created rm ri neg = Inr (Some tx) \<Longrightarrow>
     w_active w \<and> tx_wallet tx = w_id w \<and> tx_tp tx = tp \<and> tx_ref_module tx = rm \<and> tx_ref_id tx = ri
     \<and> quantize ROUND_HALF_EVEN MAX_PRECISION amount = Inr (tx_amount tx)
     \<and> tx_balance tx = dadd (w_balance w) (tx_amount tx)
     \<and> (0 \<le> tx_balance tx \<or> neg) \<and> check_transaction tx w"
  by (auto simp: create_transaction_def Let_def rbind_eq_Inr_iff is_balance_allowed_def split: if_splits)

text \<open>An amount of a money column is stored as it is.\<close>

lemma money_quantize: "money_field a \<Longrightarrow> quantize m MAX_PRECISION a = Inr a"
proof (rule quantize_fix)
  assume a: "money_field a"
  then show "on_grid MAX_PRECISION a" by (rule money_field_grid)
  have "\<bar>a\<bar> < pow10 12" using a by (simp add: money_field_def fits_def money_constants)
  also have "\<dots> \<le> pow10 (MAX_PRECISION + 28)" by (rule pow10_mono) (simp add: MAX_PRECISION_def)
  finally show "\<bar>a\<bar> < pow10 (MAX_PRECISION + 28)" .
qed

end
