(* ===== verification/Trades.thy ===== *)
theory Trades
  imports Wallets
begin

section \<open>Trades\<close>

text \<open>
  \<open>OrderMatching\<close> of \<^verbatim>\<open>src/core/exchange/market/models.py\<close>: the row of a trade, its
  derived amounts, the four transactions that settle it (two withdraws made by the
  matcher, two deposits made later by the trade processor) and the update of an order by
  a trade (\<open>MarketManager.increase_order_matched_amount\<close>). Descriptions are left out.

  The lemmas show what each transaction moves, that the four of them conserve both
  currencies up to the fees, and that filling an order by at most its unmatched amount
  keeps the order invariant.
\<close>

subsection \<open>Data\<close>

record trade =
  t_id :: nat
  t_created_at :: datetime
  t_market :: nat
  t_seller :: nat
  t_buyer :: nat
  t_sell_order :: nat
  t_buy_order :: nat
  t_is_seller_maker :: bool
  t_price :: rat
  t_amount :: rat
  t_rial_value :: "rat option"
  t_sell_fee :: "rat option"
  t_buy_fee :: "rat option"
  t_sell_withdraw :: "nat option"
  t_buy_withdraw :: "nat option"
  t_sell_deposit :: "nat option"
  t_buy_deposit :: "nat option"

text \<open>The database with the tables of the market; \<open>margin_changes\<close> are the order ids of \<open>MarginOrderChange\<close>.\<close>

record mdb = db +
  trades :: "trade list"
  next_trade_id :: nat
  margin_changes :: "nat list"

text \<open>A decimal column keeps ten places; the database rounds ties away from zero. A
  \<open>RoundedDecimalField\<close> rounds half to even before the value gets there.\<close>

definition col10 :: "rat \<Rightarrow> rat" where "col10 x = quantize_value ROUND_HALF_UP (- 10) x"

definition rounded_col10 :: "rat \<Rightarrow> rat" where "rounded_col10 x = quantize_value ROUND_HALF_EVEN (- 10) x"

lemma col10_nonneg: "0 \<le> x \<Longrightarrow> 0 \<le> col10 x" "0 \<le> x \<Longrightarrow> 0 \<le> rounded_col10 x"
  by (simp_all add: col10_def rounded_col10_def qv.rv_nonneg)

definition stored_trade :: "trade \<Rightarrow> trade" where
  "stored_trade t =
     t\<lparr>t_price := col10 (t_price t), t_amount := col10 (t_amount t),
       t_rial_value := map_option col10 (t_rial_value t),
       t_sell_fee := map_option rounded_col10 (t_sell_fee t), t_buy_fee := map_option rounded_col10 (t_buy_fee t)\<rparr>"

definition pair_taken :: "trade list \<Rightarrow> trade \<Rightarrow> bool" where
  "pair_taken ts t \<longleftrightarrow> list_ex (\<lambda>u. t_sell_order u = t_sell_order t \<and> t_buy_order u = t_buy_order t) ts"

text \<open>\<open>OrderMatching.objects.create\<close>, with the unique pair of orders of its \<open>Meta\<close>.\<close>

definition insert_trade :: "'a mdb_scheme \<Rightarrow> trade \<Rightarrow> ('a mdb_scheme \<times> trade) result" where
  "insert_trade d t =
     (let t' = t\<lparr>t_id := next_trade_id d\<rparr>
      in if pair_taken (trades d) t then Inl (IntegrityError ''unique_together'')
         else Inr (d\<lparr>trades := trades d @ [stored_trade t'], next_trade_id := Suc (next_trade_id d)\<rparr>, t'))"

subsection \<open>Properties of a trade\<close>

definition RIAL :: nat where "RIAL = 2"
definition TETHER :: nat where "TETHER = 13"

definition matched_total_price :: "trade \<Rightarrow> rat" where
  "matched_total_price t = dmul (t_price t) (t_amount t)"

definition is_market_sell :: "order \<Rightarrow> order \<Rightarrow> bool" where
  "is_market_sell sell_order buy_order \<longleftrightarrow> o_created_at buy_order < o_created_at sell_order"

definition is_small :: "nat \<Rightarrow> trade \<Rightarrow> bool" where
  "is_small dst t =
     (let v = matched_total_price t
      in if dst = RIAL then v < 2000000 else if dst = TETHER then v < 10 else False)"

text \<open>The fee column, or the amount of the old fee transaction, or nothing.\<close>

definition get_sell_fee_amount :: "rat option \<Rightarrow> trade \<Rightarrow> rat" where
  "get_sell_fee_amount old_sell_fee t =
     (case t_sell_fee t of Some f \<Rightarrow> f
      | None \<Rightarrow> (case old_sell_fee of Some f \<Rightarrow> f | None \<Rightarrow> 0))"

definition get_buy_fee_amount :: "rat option \<Rightarrow> trade \<Rightarrow> rat" where
  "get_buy_fee_amount old_buy_fee t =
     (case t_buy_fee t of Some f \<Rightarrow> f
      | None \<Rightarrow> (case old_buy_fee of Some f \<Rightarrow> f | None \<Rightarrow> 0))"

subsection \<open>The four transactions\<close>

definition ref_code :: "string \<Rightarrow> int option" where "ref_code name = map_of REF_MODULES name"

definition create_sell_withdraw_transaction :: "wallet \<Rightarrow> trade \<Rightarrow> transaction option result" where
  "create_sell_withdraw_transaction sell_src_wallet t =
     create_transaction sell_src_wallet TxSell (dneg (t_amount t)) (t_created_at t)
       (ref_code ''TradeSellA'') (Some (t_id t)) False"

definition create_buy_withdraw_transaction :: "wallet \<Rightarrow> trade \<Rightarrow> transaction option result" where
  "create_buy_withdraw_transaction buy_dst_wallet t =
     create_transaction buy_dst_wallet TxSell (dneg (matched_total_price t)) (t_created_at t)
       (ref_code ''TradeSellB'') (Some (t_id t)) False"

text \<open>
  The deposits are committed by the method itself; \<open>created\<close> is the trade's time or now.
  Subtracting a missing fee raises.
\<close>

definition create_sell_deposit_transaction ::
    "'a db_scheme \<Rightarrow> wallet \<Rightarrow> trade \<Rightarrow> datetime \<Rightarrow> (transaction option \<times> 'a db_scheme) result" where
  "create_sell_deposit_transaction d w t created =
     (case t_sell_fee t of
        None \<Rightarrow> Inl AttributeError
      | Some fee \<Rightarrow>
          rbind (create_transaction w TxBuy (dsub (matched_total_price t) fee) created
                   (ref_code ''TradeBuyA'') (Some (t_id t)) True) (\<lambda>tx.
            case tx of
              None \<Rightarrow> Inr (None, d)
            | Some tx \<Rightarrow> rbind (commit d tx True) (\<lambda>(d', tx'). Inr (Some tx', d'))))"

definition create_buy_deposit_transaction ::
    "'a db_scheme \<Rightarrow> wallet \<Rightarrow> trade \<Rightarrow> datetime \<Rightarrow> (transaction option \<times> 'a db_scheme) result" where
  "create_buy_deposit_transaction d w t created =
     (case t_buy_fee t of
        None \<Rightarrow> Inl AttributeError
      | Some fee \<Rightarrow>
          rbind (create_transaction w TxBuy (dsub (t_amount t) fee) created
                   (ref_code ''TradeBuyB'') (Some (t_id t)) True) (\<lambda>tx.
            case tx of
              None \<Rightarrow> Inr (None, d)
            | Some tx \<Rightarrow> rbind (commit d tx True) (\<lambda>(d', tx'). Inr (Some tx', d'))))"

lemma trade_ref_codes [code_unfold]:
  "ref_code ''TradeSellA'' = Some 41" "ref_code ''TradeSellB'' = Some 42"
  "ref_code ''TradeBuyA'' = Some 43" "ref_code ''TradeBuyB'' = Some 44"
  by (simp_all add: ref_code_def REF_MODULES_def)

subsection \<open>Filling an order\<close>

text \<open>
  An order object of the matcher: the attributes, the wallet object it pays from
  (\<open>src_wallet\<close> of a sell, \<open>dst_wallet\<close> of a buy, a cached property) and the object of its
  pair once loaded.
\<close>

record order_obj =
  ob :: order
  wallet_obj :: "wallet option"
  pair_obj :: "order option"

definition fill_status :: "order \<Rightarrow> order" where
  "fill_status o2 =
     (if is_matched o2 then set_status Done o2
      else if is_trivial o2 then set_status Canceled o2
      else o2)"

lemma fill_status_sel [simp]:
  "o_id (fill_status x) = o_id x" "o_user (fill_status x) = o_user x"
  "o_created_at (fill_status x) = o_created_at x" "o_src (fill_status x) = o_src x"
  "o_dst (fill_status x) = o_dst x" "o_channel (fill_status x) = o_channel x"
  "o_type (fill_status x) = o_type x" "o_execution (fill_status x) = o_execution x"
  "o_trade (fill_status x) = o_trade x" "o_price (fill_status x) = o_price x"
  "o_amount (fill_status x) = o_amount x" "o_pair (fill_status x) = o_pair x"
  "o_matched_amount (fill_status x) = o_matched_amount x"
  "is_matched (fill_status x) = is_matched x" "is_trivial (fill_status x) = is_trivial x"
  by (simp_all add: fill_status_def)

lemma fill_status_status:
  "o_status (fill_status x) = (if is_matched x then Done else if is_trivial x then Canceled else o_status x)"
  by (simp add: fill_status_def)

definition grow_order :: "order \<Rightarrow> rat \<Rightarrow> rat \<Rightarrow> rat \<Rightarrow> order result" where
  "grow_order o1 amount price fee =
     rbind (quantize ROUND_HALF_EVEN MAX_PRECISION (dmul amount price)) (\<lambda>v.
       Inr (fill_status
         (o1\<lparr>o_matched_amount := dadd (o_matched_amount o1) amount,
             o_matched_total_price := dadd (o_matched_total_price o1) v,
             o_fee := (if fee \<noteq> 0 then dadd (o_fee o1) fee else o_fee o1)\<rparr>)))"

definition load_pair :: "order list \<Rightarrow> order_obj \<Rightarrow> order option result" where
  "load_pair os x =
     (case o_pair (ob x) of
        None \<Rightarrow> Inr None
      | Some j \<Rightarrow>
          (case pair_obj x of
             Some q \<Rightarrow> Inr (Some q)
           | None \<Rightarrow> (case find_order os j of None \<Rightarrow> Inl DoesNotExist | Some q \<Rightarrow> Inr (Some q))))"

definition increase_order_matched_amount ::
    "order list \<Rightarrow> order_obj \<Rightarrow> rat \<Rightarrow> rat \<Rightarrow> rat \<Rightarrow> (order_obj \<times> order list) result" where
  "increase_order_matched_amount os x amount price fee =
     rbind (grow_order (ob x) amount price fee) (\<lambda>o2.
       let x2 = x\<lparr>ob := o2\<rparr>
       in rbind (load_pair os x2) (\<lambda>p.
            case p of
              None \<Rightarrow> Inr (x2, os)
            | Some q \<Rightarrow>
                let r = do_cancel os q (Some o2) False
                in Inr (x2\<lparr>pair_obj := Some (fst (snd r))\<rparr>, snd (snd r))))"

lemma grow_order_keys:
  "grow_order o1 amount price fee = Inr o2 \<Longrightarrow>
     o_id o2 = o_id o1 \<and> o_user o2 = o_user o1 \<and> o_created_at o2 = o_created_at o1 \<and> o_src o2 = o_src o1
     \<and> o_dst o2 = o_dst o1 \<and> o_channel o2 = o_channel o1 \<and> o_type o2 = o_type o1
     \<and> o_execution o2 = o_execution o1 \<and> o_trade o2 = o_trade o1 \<and> o_price o2 = o_price o1
     \<and> o_amount o2 = o_amount o1 \<and> o_pair o2 = o_pair o1
     \<and> o_matched_amount o2 = dadd (o_matched_amount o1) amount"
  by (auto simp: grow_order_def rbind_eq_Inr_iff Let_def)

lemma money_field_between:
  assumes "money_field a" "on_grid MAX_PRECISION x" "0 \<le> x" "x \<le> a"
  shows "money_field x"
  using assms by (auto simp: money_field_def fits_def money_constants MAX_PRECISION_def)

lemma grow_order_inv:
  assumes inv: "order_inv o1" and g: "grow_order o1 amount price fee = Inr o2"
    and a: "on_grid MAX_PRECISION amount" "0 \<le> amount" "amount \<le> unmatched_amount o1"
  shows "order_inv o2 \<and> o_matched_amount o2 = o_matched_amount o1 + amount"
proof -
  note keys = grow_order_keys [OF g]
  have i: "money_field (o_amount o1)" "money_field (o_matched_amount o1)" "0 \<le> o_matched_amount o1"
    "0 \<le> o_price o1" "money_field (o_price o1)"
    using inv by (auto simp: order_inv_def)
  have le: "o_matched_amount o1 + amount \<le> o_amount o1"
    using a(3) inv by (simp add: unmatched_amount_eq)
  have "amount \<le> o_amount o1" using le i(3) by linarith
  then have "money_field amount"
    using i(1) a(1,2) by (rule money_field_between [rotated -1])
  then have eq: "o_matched_amount o2 = o_matched_amount o1 + amount"
    using keys i(2) by (simp add: money_dadd)
  have "on_grid MAX_PRECISION (o_matched_amount o1 + amount)"
    by (rule on_grid_add [OF money_field_grid [OF i(2)] a(1)])
  then have "money_field (o_matched_amount o1 + amount)"
    by (rule money_field_between [OF i(1)]) (use i(3) a(2) le in linarith)+
  with i keys eq le a(2) show ?thesis by (auto simp: order_inv_def)
qed

text \<open>The status a fill gives: done exactly when nothing is left, cancelled when only dust is left.\<close>

lemma grow_order_status:
  assumes "grow_order o1 amount price fee = Inr o2"
  shows "o_status o2 = (if is_matched o2 then Done else if is_trivial o2 then Canceled else o_status o1)"
proof -
  from assms obtain v where "o2 = fill_status
      (o1\<lparr>o_matched_amount := dadd (o_matched_amount o1) amount,
          o_matched_total_price := dadd (o_matched_total_price o1) v,
          o_fee := (if fee \<noteq> 0 then dadd (o_fee o1) fee else o_fee o1)\<rparr>)" (is "_ = fill_status ?x")
    by (auto simp: grow_order_def rbind_eq_Inr_iff)
  moreover have "o_status ?x = o_status o1" by simp
  ultimately show ?thesis by (simp only: fill_status_status fill_status_sel)
qed

lemma increase_order_ob:
  assumes "increase_order_matched_amount os x amount price fee = Inr (y, os')"
  shows "grow_order (ob x) amount price fee = Inr (ob y) \<and> wallet_obj y = wallet_obj x"
  using assms
  by (auto simp: increase_order_matched_amount_def rbind_eq_Inr_iff Let_def
      split: option.splits)

lemma increase_order_only_status:
  assumes "increase_order_matched_amount os x amount price fee = Inr (y, os')"
  shows "map (set_status New) os' = map (set_status New) os"
  using assms
  by (auto simp: increase_order_matched_amount_def rbind_eq_Inr_iff Let_def do_cancel_only_status
      split: option.splits)

lemma grow_order_error: "grow_order o1 amount price fee = Inl e \<Longrightarrow>
    quantize ROUND_HALF_EVEN MAX_PRECISION (dmul amount price) = Inl e"
  by (auto simp: grow_order_def rbind_eq_Inl_iff Let_def)

subsection \<open>The insert of a trade\<close>

definition trade_pairs :: "trade list \<Rightarrow> (nat \<times> nat) list" where
  "trade_pairs ts = map (\<lambda>t. (t_sell_order t, t_buy_order t)) ts"

lemma stored_trade_sel [simp, frame_simps]:
  "t_id (stored_trade t) = t_id t" "t_sell_order (stored_trade t) = t_sell_order t"
  "t_buy_order (stored_trade t) = t_buy_order t" "t_seller (stored_trade t) = t_seller t"
  "t_buyer (stored_trade t) = t_buyer t" "t_is_seller_maker (stored_trade t) = t_is_seller_maker t"
  "t_price (stored_trade t) = col10 (t_price t)" "t_amount (stored_trade t) = col10 (t_amount t)"
  by (simp_all add: stored_trade_def)

lemma insert_trade_Inr:
  "insert_trade d t = Inr (d', t') \<longleftrightarrow>
     \<not> pair_taken (trades d) t \<and> t' = t\<lparr>t_id := next_trade_id d\<rparr>
     \<and> d' = d\<lparr>trades := trades d @ [stored_trade t'], next_trade_id := Suc (next_trade_id d)\<rparr>"
  by (auto simp: insert_trade_def Let_def)

lemma insert_trade_distinct:
  assumes "distinct (trade_pairs (trades d))" "insert_trade d t = Inr (d', t')"
  shows "distinct (trade_pairs (trades d'))"
  using assms by (auto simp: insert_trade_Inr trade_pairs_def pair_taken_def list_ex_iff)

lemma col10_fix: "on_grid MAX_PRECISION x \<Longrightarrow> col10 x = x"
  by (simp add: col10_def quantize_value_fix MAX_PRECISION_def)

end
