(* ===== verification/Matcher.thy ===== *)
theory Matcher
  imports Trades "HOL-Library.Product_Lexorder"
begin

section \<open>The matching engine\<close>

text \<open>
  \<open>Matcher\<close> of \<^verbatim>\<open>src/core/exchange/matcher/matcher.py\<close>, one definition per method, for the
  asynchronous commit mode of production (\<open>ASYNC_TRADE_COMMIT\<close>). \<open>menv\<close> holds what a round
  reads and never writes: the market, settings, caches loaded by the constructor, and the
  parameters that live outside the repository (\<open>AMOUNT_PRECISIONS\<close>, \<open>PRICE_PRECISIONS\<close>).
  \<open>mstate\<close> is the matcher object with the objects it has loaded and the database.

  An order object is a cell of the heap \<open>objs\<close>, named by its index: two loads of one row
  are two objects. Model equality and the sets of pending orders go by primary key. Every
  order object has a wallet object of its own, so the balance the matcher reads may be
  older than the row. An exception that leaves a round rolls back all of it, so such an
  error carries no state; the exceptions caught in \<open>match_two_orders\<close> undo the writes to the
  database but not to the objects. Logs, metrics, notifications, websocket messages and
  overflow of a decimal column are left out.
\<close>

subsection \<open>Constants\<close>

definition MAX_TRADE_PER_ROUND :: nat where "MAX_TRADE_PER_ROUND = 5 * 40"
definition EXPANSION_THRESHOLD :: nat where "EXPANSION_THRESHOLD = 200"
definition EXPANSION_STEP :: nat where "EXPANSION_STEP = 20"
definition MARKET_ORDER_MAX_PRICE_DIFF :: rat where "MARKET_ORDER_MAX_PRICE_DIFF = 1 / 10"
definition STOPLOSS_ACTIVATION_MARK_PRICE_GUARD_RATE :: rat where
  "STOPLOSS_ACTIVATION_MARK_PRICE_GUARD_RATE = 1 / 100"
definition MARGIN_SYSTEM_ORDERS_MAX_AGE :: int where "MARGIN_SYSTEM_ORDERS_MAX_AGE = 120 * 1000000"
definition ORDERBOOK_CRITERIA_AGE_VALIDITY :: int where "ORDERBOOK_CRITERIA_AGE_VALIDITY = 2 * 1000000"

lemmas matcher_constants =
  MAX_TRADE_PER_ROUND_def EXPANSION_THRESHOLD_def EXPANSION_STEP_def MARKET_ORDER_MAX_PRICE_DIFF_def
  STOPLOSS_ACTIVATION_MARK_PRICE_GUARD_RATE_def MARGIN_SYSTEM_ORDERS_MAX_AGE_def
  ORDERBOOK_CRITERIA_AGE_VALIDITY_def

subsection \<open>State\<close>

record menv =
  market_id :: nat
  src_currency :: nat
  dst_currency :: nat
  amount_precision :: "int option"
  MIN_PRICE_PRECISION :: rat
  buy_in_promotion :: bool
  sell_in_promotion :: bool
  manual_fee :: "nat \<Rightarrow> user_fees option"
  user_vip :: "nat \<Rightarrow> nat"
  PREVENT_INTERNAL_TRADE :: bool
  TRADER_BOT_IDS :: "nat list"
  price_range_low :: rat
  price_range_high :: rat
  orderbook_best_buy_price :: rat
  orderbook_best_sell_price :: rat
  orderbook_update_datetime :: datetime
  use_runtime_limit :: bool
  do_expansion :: bool
  tether_market_id :: "nat option"
  tether_price :: "rat option"
  MARGIN_DST_CURRENCIES :: "nat list"
  pool_manager :: "nat \<Rightarrow> nat option"
  side_is_sell :: "nat \<Rightarrow> bool"
  locked_rows :: "nat list"
  effective_date :: datetime
  clock :: datetime

record mstate =
  objs :: "order_obj list"
  mdb :: mdb
  validated :: "nat list"
  last_price_range :: "(rat \<times> rat) option"
  matches :: nat
  failures :: nat
  skipped :: nat
  pending_update :: "nat list"
  pending_canceled :: "nat list"
  pending_txids :: "(nat \<times> nat list) list"
  shared_tether_price :: "rat option"
  expansion_sells_len :: nat
  expansion_buys_len :: nat
  last_expanded_sell :: "order option"
  last_expanded_buy :: "order option"
  is_orderbook_outdated :: "bool option"

definition obj :: "mstate \<Rightarrow> nat \<Rightarrow> order_obj" where "obj s r = objs s ! r"

definition the_order :: "mstate \<Rightarrow> nat \<Rightarrow> order" where "the_order s r = ob (obj s r)"

definition set_obj :: "nat \<Rightarrow> order_obj \<Rightarrow> mstate \<Rightarrow> mstate" where
  "set_obj r x s = s\<lparr>objs := (objs s)[r := x]\<rparr>"

text \<open>Adding to a set of model objects: an object with the same key stays.\<close>

definition add_by_key :: "mstate \<Rightarrow> nat \<Rightarrow> nat list \<Rightarrow> nat list" where
  "add_by_key s r rs =
     (if list_ex (\<lambda>q. o_id (the_order s q) = o_id (the_order s r)) rs then rs else rs @ [r])"

subsection \<open>Small steps\<close>

definition cancel_order :: "nat \<Rightarrow> mstate \<Rightarrow> mstate" where
  "cancel_order r s =
     (let s1 = set_obj r ((obj s r)\<lparr>ob := set_status Canceled (the_order s r)\<rparr>) s
      in s1\<lparr>pending_canceled := add_by_key s1 r (pending_canceled s1)\<rparr>)"

text \<open>\<open>Order._get_providing_wallet\<close>: the pool manager pays for a margin order.\<close>

definition provider_id :: "menv \<Rightarrow> order \<Rightarrow> nat option" where
  "provider_id env o1 =
     (if is_margin o1
      then pool_manager env (if side_is_sell env (o_id o1) then o_src o1 else o_dst o1)
      else Some (o_user o1))"

definition get_providing_wallet :: "menv \<Rightarrow> mdb \<Rightarrow> order \<Rightarrow> nat \<Rightarrow> wallet option \<times> mdb" where
  "get_providing_wallet env d o1 currency =
     (case provider_id env o1 of
        None \<Rightarrow> (None, d)
      | Some u \<Rightarrow> get_user_wallet (MARGIN_DST_CURRENCIES env) d u currency (wallet_type_of o1) True)"

text \<open>The cached property \<open>src_wallet\<close> of a sell or \<open>dst_wallet\<close> of a buy; \<open>None\<close> has no attributes.\<close>

definition load_wallet :: "menv \<Rightarrow> nat \<Rightarrow> mstate \<Rightarrow> (wallet \<times> mstate) result" where
  "load_wallet env r s =
     (let x = obj s r; o1 = ob x
      in case wallet_obj x of
           Some w \<Rightarrow> Inr (w, s)
         | None \<Rightarrow>
             (case get_providing_wallet env (mdb s) o1 (if is_sell o1 then o_src o1 else o_dst o1) of
                (None, d) \<Rightarrow> Inl AttributeError
              | (Some w, d) \<Rightarrow> Inr (w, (set_obj r (x\<lparr>wallet_obj := Some w\<rparr>) s)\<lparr>mdb := d\<rparr>)))"

definition set_wallet :: "nat \<Rightarrow> wallet \<Rightarrow> mstate \<Rightarrow> mstate" where
  "set_wallet r w s = set_obj r ((obj s r)\<lparr>wallet_obj := Some w\<rparr>) s"

definition matcher_validate_order :: "menv \<Rightarrow> nat \<Rightarrow> mstate \<Rightarrow> (bool \<times> mstate) result" where
  "matcher_validate_order env r s =
     (if o_id (the_order s r) \<in> set (validated s) then Inr (True, s)
      else rbind (load_wallet env r s) (\<lambda>(w, s1).
        let o1 = the_order s1 r
        in if fst (validate_order o1 None w 0 False)
           then Inr (True, s1\<lparr>validated := o_id o1 # validated s1\<rparr>)
           else Inr (False, (cancel_order r s1)
                       \<lparr>validated := filter (\<lambda>i. i \<noteq> o_id o1) (validated s1)\<rparr>)))"

definition update_blocked_balance :: "menv \<Rightarrow> mdb \<Rightarrow> wallet \<Rightarrow> wallet" where
  "update_blocked_balance env d w =
     (if w_user w \<in> set (TRADER_BOT_IDS env) then w else w\<lparr>w_blocked := get_blocked_balance d w\<rparr>)"

definition check_for_forbidden_matching :: "menv \<Rightarrow> nat \<Rightarrow> nat \<Rightarrow> mstate \<Rightarrow> bool \<times> mstate" where
  "check_for_forbidden_matching env sell buy s =
     (if \<not> PREVENT_INTERNAL_TRADE env then (True, s)
      else if o_user (the_order s sell) \<in> set (TRADER_BOT_IDS env)
              \<and> o_user (the_order s buy) \<in> set (TRADER_BOT_IDS env)
      then (False, cancel_order buy (cancel_order sell s))
      else (True, s))"

definition update_last_price :: "menv \<Rightarrow> rat \<Rightarrow> mstate \<Rightarrow> mstate" where
  "update_last_price env new_price s =
     (let lower_bound = dmul (orderbook_best_buy_price env) (dsub 1 PRICE_GUARD_RANGE);
          upper_bound = dmul (orderbook_best_sell_price env) (dadd 1 PRICE_GUARD_RANGE)
      in if new_price = 0 \<or> new_price < MIN_PRICE_PRECISION env then s
         else if (lower_bound \<noteq> 0 \<and> new_price < lower_bound)
                 \<or> (upper_bound \<noteq> 0 \<and> upper_bound < new_price) then s
         else let s1 = s\<lparr>last_price_range :=
                     (case last_price_range s of
                        None \<Rightarrow> Some (new_price, new_price)
                      | Some (lo, hi) \<Rightarrow>
                          if new_price < lo then Some (new_price, hi)
                          else if hi < new_price then Some (lo, new_price)
                          else Some (lo, hi))\<rparr>
              in if tether_market_id env = Some (market_id env)
                 then s1\<lparr>shared_tether_price := Some new_price\<rparr> else s1)"

definition validate_price_range :: "menv \<Rightarrow> rat \<Rightarrow> rat \<Rightarrow> bool" where
  "validate_price_range env min_price max_price =
     (if max_price < min_price then False else \<not> min_price < MIN_PRICE_PRECISION env)"

subsection \<open>Committing a trade\<close>

text \<open>
  The steps of \<open>create_exchange_transactions\<close> that may raise, each with the state it
  leaves behind: an error comes with the objects as they are at that moment.
\<close>

definition estimate_rial_value :: "menv \<Rightarrow> rat \<Rightarrow> rat option" where
  "estimate_rial_value env v =
     (if dst_currency env = RIAL then Some v
      else if dst_currency env = TETHER \<and> tether_price env \<noteq> None \<and> tether_price env \<noteq> Some 0
      then Some (dmul v (the (tether_price env)))
      else None)"

definition new_trade ::
    "menv \<Rightarrow> order \<Rightarrow> order \<Rightarrow> rat \<Rightarrow> rat \<Rightarrow> bool \<Rightarrow> rat \<Rightarrow> rat \<Rightarrow> rat option \<Rightarrow> trade" where
  "new_trade env sell buy amount price is_seller_maker sell_fee buy_fee rial_value =
     \<lparr>t_id = 0, t_created_at = effective_date env, t_market = market_id env,
      t_seller = o_user sell, t_buyer = o_user buy, t_sell_order = o_id sell, t_buy_order = o_id buy,
      t_is_seller_maker = is_seller_maker, t_price = price, t_amount = amount,
      t_rial_value = rial_value, t_sell_fee = Some sell_fee, t_buy_fee = Some buy_fee,
      t_sell_withdraw = None, t_buy_withdraw = None, t_sell_deposit = None, t_buy_deposit = None\<rparr>"

text \<open>Committing a transaction writes the new balance into the wallet object of the order.\<close>

definition commit_from :: "nat \<Rightarrow> transaction \<Rightarrow> mstate \<Rightarrow> (transaction \<times> mstate) result" where
  "commit_from r tx s =
     rbind (commit (mdb s) tx False) (\<lambda>(d, tx').
       Inr (tx', (set_wallet r ((the (wallet_obj (obj s r)))\<lparr>w_balance := tx_balance tx'\<rparr>) s)\<lparr>mdb := d\<rparr>))"

definition fill_object :: "nat \<Rightarrow> rat \<Rightarrow> rat \<Rightarrow> rat \<Rightarrow> mstate \<Rightarrow> mstate result" where
  "fill_object r amount price fee s =
     rbind (increase_order_matched_amount (orders (mdb s)) (obj s r) amount price fee) (\<lambda>(x, os).
       Inr ((set_obj r x s)\<lparr>mdb := (mdb s)\<lparr>orders := os\<rparr>\<rparr>))"

definition commit_trade :: "trade \<Rightarrow> nat \<Rightarrow> nat \<Rightarrow> mstate \<Rightarrow> unit result \<times> mstate" where
  "commit_trade t sell buy s =
     (case fill_object sell (t_amount t) (t_price t) (get_sell_fee_amount None t) s of
        Inl e \<Rightarrow> (Inl e, s)
      | Inr s1 \<Rightarrow>
          (case fill_object buy (t_amount t) (t_price t) (get_buy_fee_amount None t) s1 of
             Inl e \<Rightarrow> (Inl e, s1)
           | Inr s2 \<Rightarrow> (Inr (), s2)))"

definition make_trade_transactions :: "wallet \<Rightarrow> wallet \<Rightarrow> trade \<Rightarrow> (transaction \<times> transaction) result" where
  "make_trade_transactions seller_wallet buyer_wallet t =
     rbind (create_sell_withdraw_transaction seller_wallet t) (\<lambda>a.
     rbind (create_buy_withdraw_transaction buyer_wallet t) (\<lambda>b.
       case (a, b) of
         (Some x, Some y) \<Rightarrow> Inr (x, y)
       | _ \<Rightarrow> Inl (MatchingError ''Invalid Transactions'')))"

definition record_pending :: "trade \<Rightarrow> transaction \<Rightarrow> transaction \<Rightarrow> nat \<Rightarrow> nat \<Rightarrow> mstate \<Rightarrow> mstate" where
  "record_pending t tx1 tx2 sell buy s =
     s\<lparr>pending_txids := pending_txids s @ [(t_id t, [tx_id tx1, tx_id tx2])],
       pending_update := add_by_key s buy (add_by_key s sell (pending_update s))\<rparr>"

definition create_exchange_transactions ::
    "menv \<Rightarrow> nat \<Rightarrow> nat \<Rightarrow> rat \<Rightarrow> rat \<Rightarrow> bool \<Rightarrow> rat \<Rightarrow> rat \<Rightarrow> mstate \<Rightarrow> trade result \<times> mstate" where
  "create_exchange_transactions env sell buy amount price is_seller_maker sell_fee buy_fee s =
     (case quantize ROUND_HALF_EVEN MAX_PRECISION (dmul amount price) of
        Inl e \<Rightarrow> (Inl e, s)
      | Inr v \<Rightarrow>
      case insert_trade (mdb s)
             (new_trade env (the_order s sell) (the_order s buy) amount price is_seller_maker
                sell_fee buy_fee (estimate_rial_value env v)) of
        Inl e \<Rightarrow> (Inl e, s)
      | Inr (d1, t) \<Rightarrow>
      case make_trade_transactions (the (wallet_obj (obj s sell))) (the (wallet_obj (obj s buy))) t of
        Inl e \<Rightarrow> (Inl e, s\<lparr>mdb := d1\<rparr>)
      | Inr (tx1, tx2) \<Rightarrow>
      case commit_from sell tx1 (s\<lparr>mdb := d1\<rparr>) of
        Inl e \<Rightarrow> (Inl e, s\<lparr>mdb := d1\<rparr>)
      | Inr (tx1', s2) \<Rightarrow>
      case commit_from buy tx2 s2 of
        Inl e \<Rightarrow> (Inl e, s2)
      | Inr (tx2', s3) \<Rightarrow>
      case commit_trade t sell buy (record_pending t tx1' tx2' sell buy s3) of
        (Inl e, s7) \<Rightarrow> (Inl e, s7)
      | (Inr _, s7) \<Rightarrow> (Inr t, s7))"

subsection \<open>Matching two orders\<close>

definition seller_is_maker :: "order \<Rightarrow> order \<Rightarrow> bool" where
  "seller_is_maker sell buy =
     (if is_market sell then False
      else if is_market buy then True
      else o_created_at sell \<le> o_created_at buy)"

definition match_price :: "order \<Rightarrow> order \<Rightarrow> rat" where
  "match_price sell buy = (if seller_is_maker sell buy then o_price sell else o_price buy)"

definition affordable_amount :: "int \<Rightarrow> rat \<Rightarrow> rat \<Rightarrow> (bool + rat) result" where
  "affordable_amount amount_prec matched_price buyer_available =
     rbind (ddiv buyer_available matched_price) (\<lambda>q.
     rbind (quantize ROUND_DOWN amount_prec q) (\<lambda>a.
       Inr (if money_is_zero a \<or> a < 0 then Inl True else Inr a)))"

text \<open>
  The amount of the trade: the smaller rest, cut down to what the buyer can pay and to
  what the seller has. \<open>Inr (Inl b)\<close> is a side without balance, the buyer when \<open>b\<close>.
\<close>

definition match_amount ::
    "int \<Rightarrow> rat \<Rightarrow> order \<Rightarrow> order \<Rightarrow> wallet \<Rightarrow> wallet \<Rightarrow> (bool + rat) result" where
  "match_amount amount_prec matched_price sell buy seller_wallet buyer_wallet =
     (let amount = min (unmatched_amount buy) (unmatched_amount sell);
          trade_total = dmul amount matched_price;
          buyer_available = dsub (w_balance buyer_wallet) (w_blocked buyer_wallet);
          seller_available = dsub (w_balance seller_wallet) (w_blocked seller_wallet)
      in rbind (if buyer_available < trade_total
                then affordable_amount amount_prec matched_price buyer_available
                else Inr (Inr amount)) (\<lambda>m.
           Inr (case m of
                  Inl b \<Rightarrow> Inl b
                | Inr a \<Rightarrow>
                    if seller_available < a
                    then if money_is_zero seller_available then Inl False else Inr seller_available
                    else Inr a)))"

datatype match_guard = GuardZeroPrice | GuardZeroAmount | GuardBuyPrice | GuardSellPrice | GuardOk

definition match_guards :: "order \<Rightarrow> order \<Rightarrow> rat \<Rightarrow> rat \<Rightarrow> match_guard" where
  "match_guards sell buy amount price =
     (if money_is_zero price then GuardZeroPrice
      else if money_is_zero amount then GuardZeroAmount
      else if is_market buy \<and> o_price buy \<noteq> 0
              \<and> dmul (dadd 1 MARKET_ORDER_MAX_PRICE_DIFF) (o_price buy) < price then GuardBuyPrice
      else if is_market sell \<and> o_price sell \<noteq> 0
              \<and> price < dmul (dsub 1 MARKET_ORDER_MAX_PRICE_DIFF) (o_price sell) then GuardSellPrice
      else GuardOk)"

definition match_fees :: "menv \<Rightarrow> order \<Rightarrow> order \<Rightarrow> rat \<Rightarrow> rat \<Rightarrow> (rat \<times> rat) result" where
  "match_fees env sell buy amount price =
     (let maker = seller_is_maker sell buy; is_usdt = (dst_currency env = TETHER)
      in rbind (if buy_in_promotion env then Inr 0
                else get_user_fee_by_fields amount (\<not> maker) is_usdt
                       (user_vip env (o_user buy)) (manual_fee env (o_user buy))) (\<lambda>buy_fee.
         rbind (if sell_in_promotion env then Inr 0
                else get_user_fee_by_fields (dmul amount price) maker is_usdt
                       (user_vip env (o_user sell)) (manual_fee env (o_user sell))) (\<lambda>sell_fee.
           Inr (sell_fee, buy_fee))))"

definition cancel_trivial :: "nat \<Rightarrow> mstate \<Rightarrow> mstate" where
  "cancel_trivial r s = (if is_trivial (the_order s r) then cancel_order r s else s)"

definition refresh_wallet :: "menv \<Rightarrow> nat \<Rightarrow> mstate \<Rightarrow> mstate result" where
  "refresh_wallet env r s =
     rbind (load_wallet env r s) (\<lambda>(w, s1). Inr (set_wallet r (update_blocked_balance env (mdb s1) w) s1))"

text \<open>The nested atomic block: an error restores the database and keeps the objects.\<close>

definition try_trade :: "menv \<Rightarrow> nat \<Rightarrow> nat \<Rightarrow> rat \<Rightarrow> rat \<Rightarrow> rat \<times> rat \<Rightarrow> mstate \<Rightarrow> trade option \<times> mstate" where
  "try_trade env sell buy amount price fees s =
     (case create_exchange_transactions env sell buy amount price
             (seller_is_maker (the_order s sell) (the_order s buy)) (fst fees) (snd fees) s of
        (Inl e, s') \<Rightarrow> (None, s'\<lparr>mdb := mdb s\<rparr>)
      | (Inr t, s') \<Rightarrow> (Some t, update_last_price env (t_price t) s'))"

text \<open>What follows once the amount is fixed: the last guards, the fees and the trade.\<close>

definition settle_match :: "menv \<Rightarrow> nat \<Rightarrow> nat \<Rightarrow> rat \<Rightarrow> bool + rat \<Rightarrow> mstate \<Rightarrow> (trade option \<times> mstate) result" where
  "settle_match env sell buy price m s =
     (case m of
        Inl is_buyer \<Rightarrow> Inr (None, cancel_order (if is_buyer then buy else sell) s)
      | Inr amount \<Rightarrow>
          (case match_guards (the_order s sell) (the_order s buy) amount price of
             GuardZeroPrice \<Rightarrow> Inr (None, cancel_order buy (cancel_order sell s))
           | GuardZeroAmount \<Rightarrow> Inr (None, cancel_trivial buy (cancel_trivial sell s))
           | GuardBuyPrice \<Rightarrow> Inr (None, cancel_order buy s)
           | GuardSellPrice \<Rightarrow> Inr (None, cancel_order sell s)
           | GuardOk \<Rightarrow>
               rbind (match_fees env (the_order s sell) (the_order s buy) amount price) (\<lambda>fees.
                 Inr (try_trade env sell buy amount price fees s))))"

definition match_two_orders :: "menv \<Rightarrow> nat \<Rightarrow> nat \<Rightarrow> mstate \<Rightarrow> (trade option \<times> mstate) result" where
  "match_two_orders env sell buy s0 =
     rbind (refresh_wallet env sell s0) (\<lambda>s1.
     rbind (refresh_wallet env buy s1) (\<lambda>s.
       let so = the_order s sell; bo = the_order s buy; price = match_price so bo
       in if is_market bo \<and> is_market so then Inl (ValueError ''DualMarketOrderMatching'')
          else case amount_precision env of
            None \<Rightarrow> Inl KeyError
          | Some prec \<Rightarrow>
              rbind (match_amount prec price so bo (the (wallet_obj (obj s sell))) (the (wallet_obj (obj s buy))))
                (\<lambda>m. settle_match env sell buy price m s)))"

subsection \<open>The loops\<close>

datatype flow = Next | Break | Return

definition same_order :: "mstate \<Rightarrow> nat \<Rightarrow> nat option \<Rightarrow> bool" where
  "same_order s r lst = (case lst of None \<Rightarrow> False | Some l \<Rightarrow> o_id (the_order s r) = o_id (the_order s l))"

definition newer_than :: "mstate \<Rightarrow> nat \<Rightarrow> nat option \<Rightarrow> bool" where
  "newer_than s r lst =
     (case lst of None \<Rightarrow> False | Some l \<Rightarrow> o_created_at (the_order s l) < o_created_at (the_order s r))"

definition is_spent :: "order \<Rightarrow> bool" where "is_spent o1 \<longleftrightarrow> is_matched o1 \<or> \<not> is_active o1"

definition count_match :: "trade option \<Rightarrow> mstate \<Rightarrow> mstate" where
  "count_match m s =
     (if m = None then s\<lparr>skipped := Suc (skipped s)\<rparr> else s\<lparr>matches := Suc (matches s)\<rparr>)"

text \<open>The last part of the loop body, once the pair is known to cross.\<close>

definition attempt_match :: "menv \<Rightarrow> nat \<Rightarrow> nat \<Rightarrow> mstate \<Rightarrow> (flow \<times> mstate) result" where
  "attempt_match env sell buy s =
     (case check_for_forbidden_matching env sell buy s of
        (False, s1) \<Rightarrow> Inr (Return, s1\<lparr>failures := Suc (failures s1)\<rparr>)
      | (True, s1) \<Rightarrow>
          rbind (matcher_validate_order env buy s1) (\<lambda>(ok_buy, s2).
            if \<not> ok_buy then Inr (Next, s2)
            else rbind (matcher_validate_order env sell s2) (\<lambda>(ok_sell, s3).
              if \<not> ok_sell then Inr (Break, s3)
              else rbind (match_two_orders env sell buy s3) (\<lambda>(m, s4).
                Inr (Next, count_match m s4)))))"

definition pair_step :: "menv \<Rightarrow> nat option \<Rightarrow> nat \<Rightarrow> nat \<Rightarrow> mstate \<Rightarrow> (flow \<times> mstate) result" where
  "pair_step env lst sell buy s =
     (let so = the_order s sell; bo = the_order s buy
      in if newer_than s buy lst then Inr (Next, s)
         else if is_spent so then Inr (if same_order s sell lst then Return else Break, s)
         else if is_spent bo then Inr (if same_order s buy lst then Return else Next, s)
         else if is_market bo \<and> is_market so then Inr (Next, s)
         else if o_price bo < o_price so \<and> \<not> (is_market bo \<or> is_market so) then Inr (Return, s)
         else attempt_match env sell buy s)"

fun buys_loop :: "menv \<Rightarrow> nat option \<Rightarrow> nat \<Rightarrow> nat list \<Rightarrow> mstate \<Rightarrow> (flow \<times> mstate) result" where
  "buys_loop env lst sell [] s = Inr (Next, s)"
| "buys_loop env lst sell (buy # buys) s =
     rbind (pair_step env lst sell buy s) (\<lambda>(fl, s').
       case fl of
         Next \<Rightarrow> buys_loop env lst sell buys s'
       | Break \<Rightarrow> Inr (Next, s')
       | Return \<Rightarrow> Inr (Return, s'))"

fun sells_loop :: "menv \<Rightarrow> nat option \<Rightarrow> nat list \<Rightarrow> nat list \<Rightarrow> mstate \<Rightarrow> (flow \<times> mstate) result" where
  "sells_loop env lst [] buys s = Inr (Next, s)"
| "sells_loop env lst (sell # sells) buys s =
     (if newer_than s sell lst then sells_loop env lst sells buys s
      else rbind (buys_loop env lst sell buys s) (\<lambda>(fl, s').
        if fl = Return then Inr (Return, s') else sells_loop env lst sells buys s'))"

subsection \<open>Fetching orders\<close>

definition in_market :: "menv \<Rightarrow> order \<Rightarrow> bool" where
  "in_market env o1 \<longleftrightarrow> o_src o1 = src_currency env \<and> o_dst o1 = dst_currency env \<and> is_active o1
     \<and> o_id o1 \<notin> set (locked_rows env)"

definition outdated :: "menv \<Rightarrow> bool" where
  "outdated env \<longleftrightarrow> orderbook_update_datetime env + ORDERBOOK_CRITERIA_AGE_VALIDITY < clock env"

definition orderbook_criteria :: "menv \<Rightarrow> order \<Rightarrow> bool" where
  "orderbook_criteria env o1 \<longleftrightarrow>
     is_market o1
     \<or> (if is_sell o1 then o_price o1 \<le> price_range_high env else price_range_low env \<le> o_price o1)
        \<and> (use_runtime_limit env \<and> \<not> outdated env \<longrightarrow> o_created_at o1 \<le> orderbook_update_datetime env)"

definition uses_orderbook_criteria :: "menv \<Rightarrow> bool" where
  "uses_orderbook_criteria env \<longleftrightarrow> price_range_low env \<noteq> 0 \<and> price_range_high env \<noteq> 0"

definition get_orders :: "menv \<Rightarrow> order list \<Rightarrow> order list" where
  "get_orders env os =
     sort_key o_created_at
       (filter (\<lambda>o1. in_market env o1 \<and> (uses_orderbook_criteria env \<longrightarrow> orderbook_criteria env o1)) os)"

text \<open>New objects for the rows; the result names them.\<close>

definition load_orders :: "order list \<Rightarrow> mstate \<Rightarrow> nat list \<times> mstate" where
  "load_orders os s =
     ([length (objs s) ..< length (objs s) + length os],
      s\<lparr>objs := objs s @ map (\<lambda>o1. \<lparr>ob = o1, wallet_obj = None, pair_obj = None\<rparr>) os\<rparr>)"

text \<open>
  Market orders first on both sides, then the best price; the sorts are stable and the
  rows come by creation time. A reversed sort keeps equal elements in their order.
\<close>

definition sell_key :: "order \<Rightarrow> nat \<times> rat" where
  "sell_key o1 = (if is_market o1 then 0 else 1, o_price o1)"

definition buy_key :: "order \<Rightarrow> nat \<times> rat" where
  "buy_key o1 = (if is_market o1 then 1 else 0, o_price o1)"

definition sort_sells :: "order list \<Rightarrow> order list" where
  "sort_sells os = sort_key sell_key os"

definition sort_buys :: "order list \<Rightarrow> order list" where
  "sort_buys os = rev (sort_key buy_key (rev os))"

definition get_market_orders :: "menv \<Rightarrow> mstate \<Rightarrow> nat list \<times> nat list \<times> mstate" where
  "get_market_orders env s0 =
     (let s = (if uses_orderbook_criteria env \<and> use_runtime_limit env
               then s0\<lparr>is_orderbook_outdated := Some (outdated env)\<rparr> else s0);
          os = get_orders env (orders (mdb s));
          (sells, s1) = load_orders (sort_sells (filter is_sell os)) s;
          (buys, s2) = load_orders (sort_buys (filter is_buy os)) s1
      in (sells, buys, s2))"

definition expansion_filter :: "menv \<Rightarrow> bool \<Rightarrow> mstate \<Rightarrow> order \<Rightarrow> bool" where
  "expansion_filter env is_buy_order s o1 \<longleftrightarrow>
     in_market env o1 \<and> o_type o1 = (if is_buy_order then Sell else Buy) \<and> \<not> is_market o1
     \<and> (if is_buy_order
        then (case last_expanded_sell s of
                None \<Rightarrow> price_range_high env < o_price o1
              | Some l \<Rightarrow> o_price l < o_price o1 \<or> o_price o1 = o_price l \<and> o_created_at l < o_created_at o1)
        else (case last_expanded_buy s of
                None \<Rightarrow> o_price o1 < price_range_low env
              | Some l \<Rightarrow> o_price o1 < o_price l \<or> o_price o1 = o_price l \<and> o_created_at l < o_created_at o1))
     \<and> (use_runtime_limit env \<and> is_orderbook_outdated s \<noteq> Some True
          \<longrightarrow> o_created_at o1 \<le> orderbook_update_datetime env)"

definition get_orders_for_expansion :: "menv \<Rightarrow> bool \<Rightarrow> mstate \<Rightarrow> order list \<times> mstate" where
  "get_orders_for_expansion env is_buy_order s =
     (if (is_buy_order \<and> EXPANSION_THRESHOLD \<le> expansion_sells_len s)
         \<or> (\<not> is_buy_order \<and> EXPANSION_THRESHOLD \<le> expansion_buys_len s) then ([], s)
      else if \<not> uses_orderbook_criteria env then ([], s)
      else let rows = sort_key o_created_at (filter (expansion_filter env is_buy_order s) (orders (mdb s)))
           in if is_buy_order
              then let q = take EXPANSION_STEP (sort_key o_price rows)
                   in (q, s\<lparr>expansion_sells_len := (if length q < EXPANSION_STEP then EXPANSION_THRESHOLD
                                                    else expansion_sells_len s + EXPANSION_STEP),
                            last_expanded_sell := (if q = [] then last_expanded_sell s else Some (List.last q))\<rparr>)
              else let q = take EXPANSION_STEP (sort_key (\<lambda>o1. - o_price o1) rows)
                   in (q, s\<lparr>expansion_buys_len := (if length q < EXPANSION_STEP then EXPANSION_THRESHOLD
                                                   else expansion_buys_len s + EXPANSION_STEP),
                            last_expanded_buy := (if q = [] then last_expanded_buy s else Some (List.last q))\<rparr>))"

definition get_market_orders_with_expansion :: "menv \<Rightarrow> bool \<Rightarrow> mstate \<Rightarrow> nat list \<times> mstate" where
  "get_market_orders_with_expansion env is_buy_order s =
     (case get_orders_for_expansion env is_buy_order s of (q, s1) \<Rightarrow> load_orders q s1)"

subsection \<open>The step relation\<close>

text \<open>
  Everything a round does to its state before it saves the orders is a sequence of these
  steps. A trade is made only for a sell and a buy that are open and cross, for the
  amount \<open>match_amount\<close> gives and past the guards.
\<close>

definition sell_ref :: "mstate \<Rightarrow> nat \<Rightarrow> bool" where
  "sell_ref s r \<longleftrightarrow> r < length (objs s) \<and> is_sell (the_order s r)"

definition buy_ref :: "mstate \<Rightarrow> nat \<Rightarrow> bool" where
  "buy_ref s r \<longleftrightarrow> r < length (objs s) \<and> is_buy (the_order s r)"

definition crosses :: "order \<Rightarrow> order \<Rightarrow> bool" where
  "crosses so bo \<longleftrightarrow>
     \<not> (is_market bo \<and> is_market so) \<and> (is_market bo \<or> is_market so \<or> o_price so \<le> o_price bo)"

definition trade_ready :: "menv \<Rightarrow> nat \<Rightarrow> nat \<Rightarrow> rat \<Rightarrow> rat \<Rightarrow> mstate \<Rightarrow> bool" where
  "trade_ready env sell buy amount price s \<longleftrightarrow>
     (let so = the_order s sell; bo = the_order s buy
      in sell_ref s sell \<and> buy_ref s buy \<and> \<not> is_spent so \<and> \<not> is_spent bo \<and> crosses so bo
         \<and> price = match_price so bo \<and> match_guards so bo amount price = GuardOk
         \<and> wallet_obj (obj s sell) \<noteq> None \<and> wallet_obj (obj s buy) \<noteq> None
         \<and> amount_precision env \<noteq> None
         \<and> match_amount (the (amount_precision env)) price so bo (the (wallet_obj (obj s sell)))
             (the (wallet_obj (obj s buy))) = Inr (Inr amount))"

inductive mstep :: "menv \<Rightarrow> mstate \<Rightarrow> mstate \<Rightarrow> bool" for env where
  step_cancel: "r < length (objs s) \<Longrightarrow> mstep env s (cancel_order r s)"
| step_load: "r < length (objs s) \<Longrightarrow> load_wallet env r s = Inr (w, s') \<Longrightarrow> mstep env s s'"
| step_blocked: "r < length (objs s) \<Longrightarrow> wallet_obj (obj s r) = Some w
    \<Longrightarrow> mstep env s (set_wallet r (update_blocked_balance env (mdb s) w) s)"
| step_validated: "mstep env s (s\<lparr>validated := v\<rparr>)"
| step_failures: "mstep env s (s\<lparr>failures := n\<rparr>)"
| step_count: "mstep env s (count_match m s)"
| step_trade: "trade_ready env sell buy amount price s
    \<Longrightarrow> match_fees env (the_order s sell) (the_order s buy) amount price = Inr fees
    \<Longrightarrow> try_trade env sell buy amount price fees s = (m, s') \<Longrightarrow> mstep env s s'"
| step_expand: "get_market_orders_with_expansion env b s = (q, s') \<Longrightarrow> mstep env s s'"

inductive_cases mstepE: "mstep env s s'"

abbreviation msteps :: "menv \<Rightarrow> mstate \<Rightarrow> mstate \<Rightarrow> bool" where
  "msteps env \<equiv> (mstep env)\<^sup>*\<^sup>*"

text \<open>What no step changes of an order object, and that objects are only added.\<close>

definition order_key ::
    "order \<Rightarrow> nat \<times> nat \<times> datetime \<times> nat \<times> nat \<times> order_type \<times> execution_type \<times> trade_type
     \<times> rat \<times> rat \<times> nat option" where
  "order_key o1 = (o_id o1, o_user o1, o_created_at o1, o_src o1, o_dst o1, o_type o1, o_execution o1,
     o_trade o1, o_price o1, o_amount o1, o_pair o1)"

definition heap_le :: "mstate \<Rightarrow> mstate \<Rightarrow> bool" where
  "heap_le s s' \<longleftrightarrow> length (objs s) \<le> length (objs s')
     \<and> (\<forall>r < length (objs s). order_key (the_order s' r) = order_key (the_order s r))"

lemma heap_le_refl [simp]: "heap_le s s"
  by (simp add: heap_le_def)

lemma heap_le_trans: "heap_le s s' \<Longrightarrow> heap_le s' s'' \<Longrightarrow> heap_le s s''"
  by (fastforce simp: heap_le_def)

lemma order_key_eqD:
  assumes "order_key a = order_key b"
  shows "o_id a = o_id b" "o_type a = o_type b" "o_price a = o_price b" "o_execution a = o_execution b"
    "o_created_at a = o_created_at b" "o_user a = o_user b" "o_amount a = o_amount b" "o_pair a = o_pair b"
    "is_market a = is_market b" "is_sell a = is_sell b" "is_buy a = is_buy b"
  using assms by (simp_all add: order_key_def order_props)

lemma heap_le_the_order: "heap_le s s' \<Longrightarrow> r < length (objs s) \<Longrightarrow> order_key (the_order s' r) = order_key (the_order s r)"
  by (simp add: heap_le_def)

lemma heap_le_refs:
  "heap_le s s' \<Longrightarrow> sell_ref s r \<Longrightarrow> sell_ref s' r" "heap_le s s' \<Longrightarrow> buy_ref s r \<Longrightarrow> buy_ref s' r"
  by (auto simp: heap_le_def sell_ref_def buy_ref_def dest!: order_key_eqD(10,11))
     (metis order_key_eqD(10,11) order_less_le_trans)+

lemma set_obj_sel [simp]:
  "length (objs (set_obj r x s)) = length (objs s)" "mdb (set_obj r x s) = mdb s"
  "r < length (objs s) \<Longrightarrow> obj (set_obj r x s) q = (if q = r then x else obj s q)"
  "r < length (objs s) \<Longrightarrow> the_order (set_obj r x s) q = (if q = r then ob x else the_order s q)"
  by (auto simp: set_obj_def obj_def the_order_def)

end
