(* ===== verification/Matcher_Steps.thy ===== *)
theory Matcher_Steps
  imports Matcher
begin

section \<open>What the steps of a round keep\<close>

text \<open>
  Effects of the operations of the matcher and the invariant of a round: no order object
  is filled beyond its amount, the ledger is consistent, no stored balance is negative,
  the same two orders trade at most once, and every trade respects the limits of both its
  orders. Each is proved for every step, so it holds along any sequence of steps,
  whatever the stale wallet objects say and wherever an exception is caught.
\<close>

subsection \<open>Effect of the commit steps\<close>

lemma commit_from_Inr:
  "commit_from r tx s = Inr (tx', s') \<longleftrightarrow>
     (\<exists>d. commit (mdb s) tx False = Inr (d, tx')
        \<and> s' = (set_wallet r ((the (wallet_obj (obj s r)))\<lparr>w_balance := tx_balance tx'\<rparr>) s)\<lparr>mdb := d\<rparr>)"
  by (auto simp: commit_from_def rbind_eq_Inr_iff)

lemma obj_mdb_upd [simp]:
  "obj (s\<lparr>mdb := d\<rparr>) = obj s" "the_order (s\<lparr>mdb := d\<rparr>) = the_order s"
  "obj (s\<lparr>pending_txids := p\<rparr>) = obj s" "the_order (s\<lparr>pending_txids := p\<rparr>) = the_order s"
  "obj (s\<lparr>pending_update := q\<rparr>) = obj s" "the_order (s\<lparr>pending_update := q\<rparr>) = the_order s"
  by (simp_all add: obj_def the_order_def fun_eq_iff)

lemma set_wallet_sel [simp]:
  "length (objs (set_wallet r w s)) = length (objs s)" "mdb (set_wallet r w s) = mdb s"
  "r < length (objs s) \<Longrightarrow> obj (set_wallet r w s) q = (if q = r then (obj s r)\<lparr>wallet_obj := Some w\<rparr> else obj s q)"
  "r < length (objs s) \<Longrightarrow> the_order (set_wallet r w s) q = the_order s q"
  by (auto simp: set_wallet_def the_order_def)

lemma fill_object_Inr:
  "fill_object r a p f s = Inr s' \<longleftrightarrow>
     (\<exists>x os. increase_order_matched_amount (orders (mdb s)) (obj s r) a p f = Inr (x, os)
        \<and> s' = (set_obj r x s)\<lparr>mdb := (mdb s)\<lparr>orders := os\<rparr>\<rparr>)"
  by (auto simp: fill_object_def rbind_eq_Inr_iff)

lemma commit_trade_Inr:
  "commit_trade t sell buy s = (Inr u, s') \<longleftrightarrow>
     (\<exists>s1. fill_object sell (t_amount t) (t_price t) (get_sell_fee_amount None t) s = Inr s1
        \<and> fill_object buy (t_amount t) (t_price t) (get_buy_fee_amount None t) s1 = Inr s')"
  by (auto simp: commit_trade_def split: sum.split)

text \<open>What filling one object does.\<close>

lemma fill_object_effect:
  assumes "fill_object r a p f s = Inr s'" "r < length (objs s)"
  shows "grow_order (the_order s r) a p f = Inr (the_order s' r)" "wallet_obj (obj s' r) = wallet_obj (obj s r)"
    "length (objs s') = length (objs s)" "q \<noteq> r \<Longrightarrow> obj s' q = obj s q"
    "\<exists>os. mdb s' = (mdb s)\<lparr>orders := os\<rparr> \<and> map (set_status New) os = map (set_status New) (orders (mdb s))"
    "pending_txids s' = pending_txids s"
proof -
  from assms(1) obtain x os where
    i: "increase_order_matched_amount (orders (mdb s)) (obj s r) a p f = Inr (x, os)"
    and s': "s' = (set_obj r x s)\<lparr>mdb := (mdb s)\<lparr>orders := os\<rparr>\<rparr>"
    by (auto simp: fill_object_Inr)
  from increase_order_only_status [OF i]
  show "\<exists>os. mdb s' = (mdb s)\<lparr>orders := os\<rparr> \<and> map (set_status New) os = map (set_status New) (orders (mdb s))"
    unfolding s' by (intro exI [of _ os]) simp
qed (use assms in \<open>auto simp: fill_object_Inr the_order_def set_obj_def obj_def dest!: increase_order_ob\<close>)

definition trade_effect ::
    "menv \<Rightarrow> nat \<Rightarrow> nat \<Rightarrow> rat \<Rightarrow> rat \<Rightarrow> bool \<Rightarrow> rat \<Rightarrow> rat \<Rightarrow> mstate \<Rightarrow> trade \<Rightarrow> mstate \<Rightarrow> bool" where
  "trade_effect env sell buy amount price maker sf bf s t s' \<longleftrightarrow>
     (\<exists>v d1 tx1 tx2 d2 d3 tx1' tx2' os.
        quantize ROUND_HALF_EVEN MAX_PRECISION (dmul amount price) = Inr v
        \<and> insert_trade (mdb s) (new_trade env (the_order s sell) (the_order s buy) amount price maker
             sf bf (estimate_rial_value env v)) = Inr (d1, t)
        \<and> create_sell_withdraw_transaction (the (wallet_obj (obj s sell))) t = Inr (Some tx1)
        \<and> create_buy_withdraw_transaction (the (wallet_obj (obj s buy))) t = Inr (Some tx2)
        \<and> commit d1 tx1 False = Inr (d2, tx1') \<and> commit d2 tx2 False = Inr (d3, tx2')
        \<and> mdb s' = d3\<lparr>orders := os\<rparr> \<and> map (set_status New) os = map (set_status New) (orders (mdb s))
        \<and> grow_order (the_order s sell) amount price sf = Inr (the_order s' sell)
        \<and> grow_order (the_order s buy) amount price bf = Inr (the_order s' buy)
        \<and> wallet_obj (obj s' sell) = Some ((the (wallet_obj (obj s sell)))\<lparr>w_balance := tx_balance tx1'\<rparr>)
        \<and> wallet_obj (obj s' buy) = Some ((the (wallet_obj (obj s buy)))\<lparr>w_balance := tx_balance tx2'\<rparr>)
        \<and> length (objs s') = length (objs s) \<and> (\<forall>r. r \<noteq> sell \<longrightarrow> r \<noteq> buy \<longrightarrow> obj s' r = obj s r)
        \<and> pending_txids s' = pending_txids s @ [(t_id t, [tx_id tx1', tx_id tx2'])])"

lemma insert_trade_amount_price:
  assumes "insert_trade d (new_trade env so bo amount price maker sf bf rv) = Inr (d1, t)"
  shows "t_amount t = amount" "t_price t = price" "get_sell_fee_amount None t = sf"
    "get_buy_fee_amount None t = bf" "t_sell_order t = o_id so" "t_buy_order t = o_id bo"
  using assms
  by (auto simp: insert_trade_Inr new_trade_def get_sell_fee_amount_def get_buy_fee_amount_def)

lemma make_trade_transactions_Inr:
  "make_trade_transactions sw bw t = Inr (tx1, tx2) \<longleftrightarrow>
     create_sell_withdraw_transaction sw t = Inr (Some tx1) \<and> create_buy_withdraw_transaction bw t = Inr (Some tx2)"
  by (auto simp: make_trade_transactions_def rbind_eq_Inr_iff split: option.split_asm)

lemma create_exchange_transactions_Inr:
  assumes c: "create_exchange_transactions env sell buy amount price maker sf bf s = (Inr t, s')"
    and r: "sell < length (objs s)" "buy < length (objs s)" "sell \<noteq> buy"
  shows "trade_effect env sell buy amount price maker sf bf s t s'"
proof -
  from c obtain v d1 tx1 tx2 tx1' s2 tx2' s3
    where v: "quantize ROUND_HALF_EVEN MAX_PRECISION (dmul amount price) = Inr v"
      and ins: "insert_trade (mdb s) (new_trade env (the_order s sell) (the_order s buy) amount price maker
             sf bf (estimate_rial_value env v)) = Inr (d1, t)"
      and mk: "make_trade_transactions (the (wallet_obj (obj s sell))) (the (wallet_obj (obj s buy))) t = Inr (tx1, tx2)"
      and c1: "commit_from sell tx1 (s\<lparr>mdb := d1\<rparr>) = Inr (tx1', s2)"
      and c2: "commit_from buy tx2 s2 = Inr (tx2', s3)"
      and ct: "commit_trade t sell buy (record_pending t tx1' tx2' sell buy s3) = (Inr (), s')"
    unfolding create_exchange_transactions_def Let_def
    by (auto split: sum.split_asm prod.split_asm)
  define s6 where "s6 = record_pending t tx1' tx2' sell buy s3"
  have s6: "objs s6 = objs s3" "mdb s6 = mdb s3"
    "pending_txids s6 = pending_txids s3 @ [(t_id t, [tx_id tx1', tx_id tx2'])]"
    by (simp_all add: s6_def record_pending_def)
  obtain d2 where d2: "commit d1 tx1 False = Inr (d2, tx1')"
    "s2 = (set_wallet sell ((the (wallet_obj (obj s sell)))\<lparr>w_balance := tx_balance tx1'\<rparr>) (s\<lparr>mdb := d1\<rparr>))\<lparr>mdb := d2\<rparr>"
    using c1 by (auto simp: commit_from_Inr)
  obtain d3 where d3: "commit d2 tx2 False = Inr (d3, tx2')"
    "s3 = (set_wallet buy ((the (wallet_obj (obj s2 buy)))\<lparr>w_balance := tx_balance tx2'\<rparr>) s2)\<lparr>mdb := d3\<rparr>"
    using c2 by (auto simp: commit_from_Inr d2(2))
  have len: "length (objs s6) = length (objs s)"
    by (simp add: s6 d3(2) d2(2))
  have obj6: "obj s6 sell = (obj s sell)\<lparr>wallet_obj := Some ((the (wallet_obj (obj s sell)))\<lparr>w_balance := tx_balance tx1'\<rparr>)\<rparr>"
    "obj s6 buy = (obj s buy)\<lparr>wallet_obj := Some ((the (wallet_obj (obj s buy)))\<lparr>w_balance := tx_balance tx2'\<rparr>)\<rparr>"
    "q \<noteq> sell \<Longrightarrow> q \<noteq> buy \<Longrightarrow> obj s6 q = obj s q" for q
    using r by (simp_all add: obj_def s6 d3(2) d2(2) set_wallet_def set_obj_def)
  have txids: "pending_txids s3 = pending_txids s"
    by (simp add: d3(2) d2(2) set_wallet_def set_obj_def)
  note t = insert_trade_amount_price [OF ins]
  obtain s7 where s7: "fill_object sell amount price sf s6 = Inr s7" "fill_object buy amount price bf s7 = Inr s'"
    using ct [folded s6_def] unfolding commit_trade_Inr t by blast
  have r6: "sell < length (objs s6)" "buy < length (objs s7)"
    using r len fill_object_effect(3) [OF s7(1)] by auto
  note e1 = fill_object_effect [OF s7(1) r6(1)] and e2 = fill_object_effect [OF s7(2) r6(2)]
  have keep: "obj s' sell = obj s7 sell" "obj s7 buy = obj s6 buy"
    using e2(4) [of sell] e1(4) [of buy] r(3) by auto
  have "grow_order (the_order s sell) amount price sf = Inr (the_order s' sell)"
    "grow_order (the_order s buy) amount price bf = Inr (the_order s' buy)"
    using e1(1) e2(1) keep obj6 by (simp_all add: the_order_def)
  moreover have "obj s' q = obj s q" if "q \<noteq> sell" "q \<noteq> buy" for q
    using e1(4) e2(4) obj6(3) that by simp
  moreover have "orders (mdb s6) = orders (mdb s)"
    using ins commit_frame(1) [OF d2(1)] commit_frame(1) [OF d3(1)] s6(2) d3(2) by (simp add: insert_trade_Inr)
  then have "\<exists>os. mdb s' = d3\<lparr>orders := os\<rparr> \<and> map (set_status New) os = map (set_status New) (orders (mdb s))"
    using e1(5) e2(5) s6(2) d3(2) by auto
  moreover have "pending_txids s' = pending_txids s @ [(t_id t, [tx_id tx1', tx_id tx2'])]"
    using e1(6) e2(6) s6(3) txids by simp
  moreover have "wallet_obj (obj s' sell) = wallet_obj (obj s6 sell)" "wallet_obj (obj s' buy) = wallet_obj (obj s6 buy)"
    "length (objs s') = length (objs s)"
    using e1(2,3) e2(2,3) keep len by simp_all
  ultimately show ?thesis
    using v ins mk d2(1) d3(1) obj6(1,2)
    unfolding trade_effect_def make_trade_transactions_Inr by fastforce
qed

subsection \<open>Objects are only added\<close>

lemma heap_le_set_obj:
  "r < length (objs s) \<Longrightarrow> order_key (ob x) = order_key (the_order s r) \<Longrightarrow> heap_le s (set_obj r x s)"
  by (simp add: heap_le_def)

lemma heap_le_same_objs: "objs s' = objs s \<Longrightarrow> heap_le s s'"
  by (simp add: heap_le_def the_order_def obj_def)

lemma heap_le_upd:
  "heap_le s s' \<Longrightarrow> objs s'' = objs s' \<Longrightarrow> heap_le s s''"
  by (rule heap_le_trans [OF _ heap_le_same_objs])

lemma order_key_set_status [simp]: "order_key (set_status st x) = order_key x"
  by (simp add: order_key_def set_status_def)

lemma order_key_grow: "grow_order o1 a p f = Inr o2 \<Longrightarrow> order_key o2 = order_key o1"
  using grow_order_keys [of o1 a p f o2] by (simp add: order_key_def)

lemma heap_le_cancel: "r < length (objs s) \<Longrightarrow> heap_le s (cancel_order r s)"
  unfolding cancel_order_def Let_def
  by (rule heap_le_upd [OF heap_le_set_obj]) (auto simp: the_order_def)

lemma heap_le_set_wallet: "r < length (objs s) \<Longrightarrow> heap_le s (set_wallet r w s)"
  unfolding set_wallet_def by (rule heap_le_set_obj) (auto simp: the_order_def)

lemma load_wallet_cases:
  assumes "load_wallet env r s = Inr (w, s')"
  shows "wallet_obj (obj s r) = Some w \<and> s' = s
    \<or> (\<exists>d. wallet_obj (obj s r) = None \<and> s' = (set_wallet r w s)\<lparr>mdb := d\<rparr>
         \<and> get_providing_wallet env (mdb s) (the_order s r)
             (if is_sell (the_order s r) then o_src (the_order s r) else o_dst (the_order s r)) = (Some w, d))"
  using assms
  by (auto simp: load_wallet_def Let_def set_wallet_def the_order_def split: option.split_asm prod.split_asm)

lemma heap_le_load: "r < length (objs s) \<Longrightarrow> load_wallet env r s = Inr (w, s') \<Longrightarrow> heap_le s s'"
  using load_wallet_cases [of env r s w s'] by (auto intro: heap_le_upd [OF heap_le_set_wallet])

lemma load_wallet_obj:
  "r < length (objs s) \<Longrightarrow> load_wallet env r s = Inr (w, s') \<Longrightarrow> wallet_obj (obj s' r) = Some w"
  using load_wallet_cases [of env r s w s'] by auto

lemma heap_le_load_orders: "load_orders os s = (q, s') \<Longrightarrow> heap_le s s'"
  by (auto simp: load_orders_def heap_le_def the_order_def obj_def nth_append)

lemma get_orders_for_expansion_objs:
  "get_orders_for_expansion env b s = (q, s') \<Longrightarrow> objs s' = objs s \<and> mdb s' = mdb s"
  by (auto simp: get_orders_for_expansion_def Let_def split: if_splits)

lemma heap_le_expand: "get_market_orders_with_expansion env b s = (q, s') \<Longrightarrow> heap_le s s'"
  unfolding get_market_orders_with_expansion_def
  by (auto split: prod.split_asm dest!: get_orders_for_expansion_objs heap_le_load_orders
      intro: heap_le_trans [OF heap_le_same_objs])

lemma update_last_price_sel [simp]:
  "objs (update_last_price env p s) = objs s" "mdb (update_last_price env p s) = mdb s"
  "obj (update_last_price env p s) = obj s" "the_order (update_last_price env p s) = the_order s"
  "pending_txids (update_last_price env p s) = pending_txids s"
  "pending_update (update_last_price env p s) = pending_update s"
  "expansion_sells_len (update_last_price env p s) = expansion_sells_len s"
  "expansion_buys_len (update_last_price env p s) = expansion_buys_len s"
  by (auto simp: update_last_price_def Let_def obj_def the_order_def fun_eq_iff)

text \<open>The states an error inside the nested atomic block can leave: objects with a new balance.\<close>

lemma heap_le_commit_from:
  "r < length (objs s) \<Longrightarrow> commit_from r tx s = Inr (tx', s') \<Longrightarrow> heap_le s s' \<and> length (objs s') = length (objs s)"
  by (auto simp: commit_from_Inr intro: heap_le_upd [OF heap_le_set_wallet])

lemma heap_le_fill:
  assumes "r < length (objs s)" "fill_object r a p f s = Inr s'"
  shows "heap_le s s' \<and> length (objs s') = length (objs s)"
proof -
  note e = fill_object_effect [OF assms(2,1)]
  have "order_key (the_order s' q) = order_key (the_order s q)" for q
    using order_key_grow [OF e(1)] e(4) [of q] by (cases "q = r") (auto simp: the_order_def)
  with e(3) show ?thesis by (simp add: heap_le_def)
qed

text \<open>
  Every outcome of the nested block, caught error or not: first only wallet objects
  change, then the sell is filled, then the buy.
\<close>

definition wallets_only :: "mstate \<Rightarrow> mstate \<Rightarrow> bool" where
  "wallets_only s s' \<longleftrightarrow> length (objs s') = length (objs s)
     \<and> (\<forall>q < length (objs s). the_order s' q = the_order s q \<and> pair_obj (obj s' q) = pair_obj (obj s q))"

lemma wallets_only_refl [simp]: "objs s' = objs s \<Longrightarrow> wallets_only s s'"
  by (simp add: wallets_only_def obj_def the_order_def)

lemma wallets_only_trans: "wallets_only s s' \<Longrightarrow> wallets_only s' s'' \<Longrightarrow> wallets_only s s''"
  by (simp add: wallets_only_def)

lemma wallets_only_commit_from:
  "r < length (objs s) \<Longrightarrow> commit_from r tx s = Inr (tx', s') \<Longrightarrow> wallets_only s s'"
  by (auto simp: commit_from_Inr wallets_only_def)

text \<open>All stored and loaded balances are multiples of the money precision.\<close>

definition wallet_grid :: "wallet \<Rightarrow> bool" where
  "wallet_grid w \<longleftrightarrow> on_grid MAX_PRECISION (w_balance w) \<and> on_grid MAX_PRECISION (w_blocked w)"

definition db_grid :: "'a db_scheme \<Rightarrow> bool" where
  "db_grid d \<longleftrightarrow> list_all wallet_grid (wallets d)
     \<and> list_all (\<lambda>r. on_grid MAX_PRECISION (wr_amount r)) (withdraws d)
     \<and> list_all (\<lambda>r. on_grid MAX_PRECISION (pr_collateral r)) (position_rows d)"

definition obj_grid :: "order_obj \<Rightarrow> bool" where
  "obj_grid x \<longleftrightarrow> (case wallet_obj x of None \<Rightarrow> True | Some w \<Rightarrow> wallet_grid w)"

definition grid_inv :: "mstate \<Rightarrow> bool" where
  "grid_inv s \<longleftrightarrow> db_grid (mdb s) \<and> list_all obj_grid (objs s)"

lemma commit_grid:
  assumes "db_grid d" "commit d tx neg = Inr (d', tx')" "on_grid MAX_PRECISION (tx_amount tx)"
  shows "db_grid d' \<and> on_grid MAX_PRECISION (tx_balance tx')"
  using assms
  by (auto simp: commit_Inr db_grid_def list_all_iff set_put_wallet wallet_grid_def
      dest!: find_wallet_Some intro!: on_grid_add)

lemma list_all_update: "list_all P xs \<Longrightarrow> P x \<Longrightarrow> list_all P (xs[i := x])"
  by (cases "i < length xs") (auto simp: list_all_length nth_list_update)

lemma grid_set_wallet: "grid_inv s \<Longrightarrow> wallet_grid w \<Longrightarrow> grid_inv (set_wallet r w s)"
  by (auto simp: grid_inv_def set_wallet_def set_obj_def obj_grid_def intro!: list_all_update)

lemma grid_obj: "grid_inv s \<Longrightarrow> r < length (objs s) \<Longrightarrow> wallet_obj (obj s r) = Some w \<Longrightarrow> wallet_grid w"
  by (auto simp: grid_inv_def obj_def list_all_length obj_grid_def dest!: spec [of _ r])

lemma commit_from_grid:
  assumes "grid_inv s" "r < length (objs s)" "wallet_obj (obj s r) \<noteq> None"
    "commit_from r tx s = Inr (tx', s')" "on_grid MAX_PRECISION (tx_amount tx)"
  shows "grid_inv s'"
proof -
  from assms(4) obtain d where d: "commit (mdb s) tx False = Inr (d, tx')"
    and s': "s' = (set_wallet r ((the (wallet_obj (obj s r)))\<lparr>w_balance := tx_balance tx'\<rparr>) s)\<lparr>mdb := d\<rparr>"
    by (auto simp: commit_from_Inr)
  from commit_grid [OF _ d assms(5)] assms(1) have g: "db_grid d" "on_grid MAX_PRECISION (tx_balance tx')"
    by (auto simp: grid_inv_def)
  have "grid_inv (set_wallet r ((the (wallet_obj (obj s r)))\<lparr>w_balance := tx_balance tx'\<rparr>) s)"
    using assms(3) grid_obj [OF assms(1,2)] g(2)
    by (intro grid_set_wallet [OF assms(1)]) (auto simp: wallet_grid_def)
  with g(1) s' show ?thesis by (simp add: grid_inv_def)
qed

lemma withdraw_transaction_grid:
  "create_sell_withdraw_transaction w t = Inr (Some tx) \<Longrightarrow> on_grid MAX_PRECISION (tx_amount tx)"
  "create_buy_withdraw_transaction w t = Inr (Some tx) \<Longrightarrow> on_grid MAX_PRECISION (tx_amount tx)"
  by (auto simp: create_sell_withdraw_transaction_def create_buy_withdraw_transaction_def
      dest!: create_transaction_Some quantize_on_grid)

lemma insert_trade_grid: "insert_trade d t = Inr (d', t') \<Longrightarrow> db_grid d \<Longrightarrow> db_grid d'"
  by (auto simp: insert_trade_Inr db_grid_def)

definition filled_from :: "nat \<Rightarrow> nat \<Rightarrow> rat \<Rightarrow> rat \<Rightarrow> mstate \<Rightarrow> mstate \<Rightarrow> bool" where
  "filled_from sell buy amount price s6 s' \<longleftrightarrow>
     objs s' = objs s6
     \<or> (\<exists>f s7. fill_object sell amount price f s6 = Inr s7
          \<and> (s' = s7 \<or> (\<exists>f'. fill_object buy amount price f' s7 = Inr s')))"

lemma commit_trade_filled:
  "commit_trade t sell buy s = (m, s') \<Longrightarrow> filled_from sell buy (t_amount t) (t_price t) s s'"
  by (auto simp: commit_trade_def filled_from_def split: sum.split_asm)

lemma create_exchange_transactions_outcome:
  assumes c: "create_exchange_transactions env sell buy amount price maker sf bf s = (m, s')"
    and r: "sell < length (objs s)" "buy < length (objs s)"
    and w: "wallet_obj (obj s sell) \<noteq> None" "wallet_obj (obj s buy) \<noteq> None"
  shows "\<exists>s6. wallets_only s s6 \<and> (grid_inv s \<longrightarrow> list_all obj_grid (objs s6)) \<and> filled_from sell buy amount price s6 s'"
proof -
  have trivial: ?thesis if "objs s' = objs s"
    using that by (intro exI [of _ s]) (auto simp: filled_from_def grid_inv_def)
  show ?thesis
  proof (cases "\<exists>v d1 t tx1 tx2 tx1' s2. quantize ROUND_HALF_EVEN MAX_PRECISION (dmul amount price) = Inr v
      \<and> insert_trade (mdb s) (new_trade env (the_order s sell) (the_order s buy) amount price maker
             sf bf (estimate_rial_value env v)) = Inr (d1, t)
      \<and> make_trade_transactions (the (wallet_obj (obj s sell))) (the (wallet_obj (obj s buy))) t = Inr (tx1, tx2)
      \<and> commit_from sell tx1 (s\<lparr>mdb := d1\<rparr>) = Inr (tx1', s2)")
    case False
    with c have "objs s' = objs s"
      by (auto simp: create_exchange_transactions_def split: sum.split_asm prod.split_asm)
    then show ?thesis by (rule trivial)
  next
    case True
    then obtain v d1 t tx1 tx2 tx1' s2 where
      v: "quantize ROUND_HALF_EVEN MAX_PRECISION (dmul amount price) = Inr v" and
      ins: "insert_trade (mdb s) (new_trade env (the_order s sell) (the_order s buy) amount price maker
             sf bf (estimate_rial_value env v)) = Inr (d1, t)" and
      mk: "make_trade_transactions (the (wallet_obj (obj s sell))) (the (wallet_obj (obj s buy))) t = Inr (tx1, tx2)" and
      c1: "commit_from sell tx1 (s\<lparr>mdb := d1\<rparr>) = Inr (tx1', s2)"
      by blast
    have tx: "on_grid MAX_PRECISION (tx_amount tx1)" "on_grid MAX_PRECISION (tx_amount tx2)"
      using mk by (auto simp: make_trade_transactions_Inr dest: withdraw_transaction_grid)
    have g1: "grid_inv (s\<lparr>mdb := d1\<rparr>)" if "grid_inv s"
      using that insert_trade_grid [OF ins] by (simp add: grid_inv_def)
    have w2: "wallets_only s s2"
      using wallets_only_commit_from [OF _ c1] r wallets_only_trans [of s "s\<lparr>mdb := d1\<rparr>" s2] by simp
    have g2: "grid_inv s2" if "grid_inv s"
      using commit_from_grid [OF g1 [OF that] _ _ c1 tx(1)] r w by simp
    have wb2: "wallet_obj (obj s2 buy) \<noteq> None" "buy < length (objs s2)"
      using c1 r w by (auto simp: commit_from_Inr)
    show ?thesis
    proof (cases "commit_from buy tx2 s2")
      case (Inl e)
      with c v ins mk c1 have "s' = s2" by (simp add: create_exchange_transactions_def)
      with w2 g2 show ?thesis by (auto simp: grid_inv_def filled_from_def intro!: exI [of _ s2])
    next
      case (Inr p)
      obtain tx2' s3 where p: "p = (tx2', s3)" by fastforce
      have w3: "wallets_only s s3"
        using wallets_only_commit_from [OF wb2(2) Inr [unfolded p]] w2 wallets_only_trans by blast
      have g3: "grid_inv s3" if "grid_inv s"
        using commit_from_grid [OF g2 [OF that] wb2(2,1) Inr [unfolded p] tx(2)] .
      define s6 where "s6 = record_pending t tx1' tx2' sell buy s3"
      have s6: "objs s6 = objs s3" by (simp add: s6_def record_pending_def)
      obtain m' where "commit_trade t sell buy s6 = (m', s')"
        using c v ins mk c1 Inr p
        by (auto simp: create_exchange_transactions_def s6_def split: prod.split_asm sum.split_asm)
      then have "filled_from sell buy amount price s6 s'"
        using commit_trade_filled insert_trade_amount_price(1,2) [OF ins] by metis
      moreover have "wallets_only s s6" using w3 s6 wallets_only_trans wallets_only_refl by metis
      moreover have "grid_inv s \<longrightarrow> list_all obj_grid (objs s6)" using g3 s6 by (simp add: grid_inv_def)
      ultimately show ?thesis by blast
    qed
  qed
qed

subsection \<open>The amount of a match\<close>

lemma match_guards_Ok:
  "match_guards so bo amount price = GuardOk \<longleftrightarrow>
     \<not> money_is_zero price \<and> \<not> money_is_zero amount
     \<and> (is_market bo \<and> o_price bo \<noteq> 0 \<longrightarrow> price \<le> dmul (dadd 1 MARKET_ORDER_MAX_PRICE_DIFF) (o_price bo))
     \<and> (is_market so \<and> o_price so \<noteq> 0 \<longrightarrow> dmul (dsub 1 MARKET_ORDER_MAX_PRICE_DIFF) (o_price so) \<le> price)"
  by (auto simp: match_guards_def)

text \<open>Cutting the amount to what the buyer can pay only lowers it.\<close>

lemma affordable_le:
  assumes "0 < p" "ctx b = b" "b < dmul m p" "ctx m = m"
  shows "ctx (b / p) \<le> m"
proof -
  have "b / p \<le> m"
  proof (rule ccontr)
    assume "\<not> b / p \<le> m"
    then have "m * p \<le> b" using assms(1) by (simp add: field_simps)
    from ctx_mono [OF this] assms(2,3) show False by (simp add: dmul_def)
  qed
  from ctx_mono [OF this] assms(4) show ?thesis by simp
qed

lemma unmatched_amount_grid: "order_inv x \<Longrightarrow> on_grid MAX_PRECISION (unmatched_amount x)"
  by (auto simp: unmatched_amount_eq order_inv_def intro!: on_grid_diff dest: money_field_grid)

lemma match_amount_bounds:
  assumes m: "match_amount prec price so bo sw bw = Inr (Inr a)"
    and ok: "match_guards so bo a price = GuardOk"
    and inv: "order_inv so" "order_inv bo" and grid: "wallet_grid sw" "wallet_grid bw"
    and prec: "MAX_PRECISION \<le> prec"
  shows "0 < a \<and> a \<le> unmatched_amount so \<and> a \<le> unmatched_amount bo \<and> on_grid MAX_PRECISION a"
proof -
  define m0 where "m0 = min (unmatched_amount bo) (unmatched_amount so)"
  define ba where "ba = dsub (w_balance bw) (w_blocked bw)"
  define sa where "sa = dsub (w_balance sw) (w_blocked sw)"
  have p: "0 < price" and a0: "0 < a"
    using ok not_money_is_zero_pos by (auto simp: match_guards_Ok)
  have ctx: "ctx m0 = m0" "ctx ba = ba"
    by (simp_all add: m0_def ba_def min_def unmatched_amount_def dsub_def)
  have gsa: "on_grid MAX_PRECISION sa"
    unfolding sa_def dsub_def using grid(1) by (intro on_grid_ctx on_grid_diff) (auto simp: wallet_grid_def)
  have gm0: "on_grid MAX_PRECISION m0"
    using inv by (simp add: m0_def min_def unmatched_amount_grid)
  from m obtain y where
    y: "(if ba < dmul m0 price then affordable_amount prec price ba else Inr (Inr m0)) = Inr y"
    and ay: "(case y of Inl b \<Rightarrow> Inl b
       | Inr x \<Rightarrow> if sa < x then if money_is_zero sa then Inl False else Inr sa else Inr x) = Inr a"
    unfolding match_amount_def Let_def m0_def [symmetric] ba_def [symmetric] sa_def [symmetric]
    unfolding rbind_eq_Inr_iff sum.inject by blast
  then obtain x where
    x: "(if ba < dmul m0 price then affordable_amount prec price ba else Inr (Inr m0)) = Inr (Inr x)"
    and ax: "(if sa < x then if money_is_zero sa then Inl False else Inr sa else Inr x) = (Inr a :: bool + rat)"
    by (cases y) auto
  have "x \<le> m0 \<and> on_grid MAX_PRECISION x"
  proof (cases "ba < dmul m0 price")
    case False
    with x gm0 show ?thesis by simp
  next
    case True
    with x obtain q where q: "ddiv ba price = Inr q" "quantize ROUND_DOWN prec q = Inr x" "\<not> money_is_zero x"
      by (auto simp: affordable_amount_def rbind_eq_Inr_iff split: if_splits)
    have "q \<le> m0" using affordable_le [OF p ctx(2) True ctx(1)] q(1) by (simp add: ddiv_Inr)
    moreover have "0 \<le> q"
      using quantize_nonpos [OF q(2)] not_money_is_zero_pos [OF q(3)] by linarith
    ultimately have "x \<le> m0" using q(2) quantize_down_le [of q prec] by (simp add: quantize_Inr)
    moreover have "on_grid MAX_PRECISION x"
      using quantize_on_grid [OF q(2)] prec by (rule on_grid_coarser)
    ultimately show ?thesis by simp
  qed
  moreover have "a \<le> x" "on_grid MAX_PRECISION a"
    using ax gsa calculation by (auto split: if_splits)
  ultimately show ?thesis using a0 by (auto simp: m0_def)
qed

subsection \<open>The price of a match\<close>

text \<open>The limits that a trade at \<open>price\<close> has to respect.\<close>

definition fair_price :: "order \<Rightarrow> order \<Rightarrow> rat \<Rightarrow> bool" where
  "fair_price so bo price \<longleftrightarrow>
     0 < price
     \<and> (\<not> is_market so \<longrightarrow> o_price so \<le> price) \<and> (\<not> is_market bo \<longrightarrow> price \<le> o_price bo)
     \<and> (is_market so \<and> o_price so \<noteq> 0 \<longrightarrow> dmul (9/10) (o_price so) \<le> price)
     \<and> (is_market bo \<and> o_price bo \<noteq> 0 \<longrightarrow> price \<le> dmul (11/10) (o_price bo))"

lemma guard_rates: "dadd 1 MARKET_ORDER_MAX_PRICE_DIFF = 11/10" "dsub 1 MARKET_ORDER_MAX_PRICE_DIFF = 9/10"
  by (simp_all add: MARKET_ORDER_MAX_PRICE_DIFF_def dec_eval)

lemma ready_fair_price:
  "crosses so bo \<Longrightarrow> match_guards so bo amount (match_price so bo) = GuardOk
   \<Longrightarrow> fair_price so bo (match_price so bo)"
  by (auto simp: fair_price_def match_guards_Ok guard_rates not_money_is_zero_pos)
    (auto simp: match_price_def seller_is_maker_def crosses_def split: if_splits)

subsection \<open>The invariant of a round\<close>

definition minv :: "mstate \<Rightarrow> bool" where
  "minv s \<longleftrightarrow>
     list_all (\<lambda>x. order_inv (ob x)) (objs s) \<and> grid_inv s
     \<and> list_all order_inv (orders (mdb s)) \<and> ledger_inv (mdb s) \<and> solvent (mdb s)
     \<and> distinct (trade_pairs (trades (mdb s)))"

lemma minv_order: "minv s \<Longrightarrow> r < length (objs s) \<Longrightarrow> order_inv (the_order s r)"
  by (simp add: minv_def list_all_length the_order_def obj_def)

lemma minv_objs:
  "minv s \<Longrightarrow> mdb s' = mdb s \<Longrightarrow> list_all (\<lambda>x. order_inv (ob x) \<and> obj_grid x) (objs s') \<Longrightarrow> minv s'"
  by (auto simp: minv_def grid_inv_def list_all_iff)

lemma minv_same_objs: "minv s \<Longrightarrow> objs s' = objs s \<Longrightarrow> mdb s' = mdb s \<Longrightarrow> minv s'"
  by (simp add: minv_def grid_inv_def)

lemma minv_objsD: "minv s \<Longrightarrow> list_all (\<lambda>x. order_inv (ob x) \<and> obj_grid x) (objs s)"
  by (auto simp: minv_def grid_inv_def list_all_iff)

lemma minv_set_obj:
  "minv s \<Longrightarrow> order_inv (ob x) \<Longrightarrow> obj_grid x \<Longrightarrow> minv (set_obj r x s)"
  by (rule minv_objs [of s]) (auto simp: set_obj_def intro!: list_all_update minv_objsD)

lemma minv_cancel: "minv s \<Longrightarrow> r < length (objs s) \<Longrightarrow> minv (cancel_order r s)"
  unfolding cancel_order_def Let_def
  by (rule minv_same_objs [OF minv_set_obj])
    (auto simp: minv_order the_order_def [symmetric] obj_grid_def obj_def list_all_length
      dest!: minv_objsD spec [of _ r])

lemma minv_set_wallet: "minv s \<Longrightarrow> r < length (objs s) \<Longrightarrow> wallet_grid w \<Longrightarrow> minv (set_wallet r w s)"
  unfolding set_wallet_def
  by (rule minv_set_obj) (auto simp: minv_order the_order_def [symmetric] obj_grid_def)

lemma on_grid_sum_list: "list_all (\<lambda>x. on_grid e (f x)) xs \<Longrightarrow> on_grid e (sum_list (map f xs))"
  by (induction xs) (auto intro: on_grid_add)

lemma list_all_filter: "list_all P xs \<Longrightarrow> list_all P (filter Q xs)"
  by (simp add: list_all_iff)

lemma blocked_balance_grid: "db_grid d \<Longrightarrow> on_grid MAX_PRECISION (get_blocked_balance d w)"
  unfolding get_blocked_balance_def get_financially_pending_requests_def dadd_def
  by (cases "w_type w") (auto simp: db_grid_def intro!: on_grid_ctx on_grid_sum_list list_all_filter)

lemma update_blocked_grid: "db_grid d \<Longrightarrow> wallet_grid w \<Longrightarrow> wallet_grid (update_blocked_balance env d w)"
  by (simp add: update_blocked_balance_def wallet_grid_def blocked_balance_grid)

lemma get_user_wallet_db:
  assumes "get_user_wallet D d u c tp cr = (w, d')"
  shows "orders d' = orders d" "db.more d' = db.more d" "withdraws d' = withdraws d"
    "position_rows d' = position_rows d" "db_grid d \<Longrightarrow> db_grid d'"
    "db_grid d \<Longrightarrow> w = Some x \<Longrightarrow> wallet_grid x"
  using assms
  by (auto simp: get_user_wallet_def Let_def db_grid_def wallet_grid_def wallet_for_def list_all_iff
      find_Some_iff split: if_splits option.split_asm)

lemma get_providing_wallet_cases:
  assumes "get_providing_wallet env d o1 c = (w, d')"
  shows "w = None \<and> d' = d \<or> (\<exists>u. get_user_wallet (MARGIN_DST_CURRENCIES env) d u c (wallet_type_of o1) True = (w, d'))"
  using assms by (auto simp: get_providing_wallet_def split: option.split_asm)

lemma trades_more: "db.more d' = db.more d \<Longrightarrow> trades d' = trades (d :: mdb)"
  by (cases d, cases d') (simp add: mdb.defs)

lemma minv_load:
  assumes inv: "minv s" and r: "r < length (objs s)" and l: "load_wallet env r s = Inr (w, s')"
  shows "minv s'"
proof (cases "wallet_obj (obj s r)")
  case (Some v)
  with load_wallet_cases [OF l] inv show ?thesis by auto
next
  case None
  then obtain d u c where s': "s' = (set_wallet r w s)\<lparr>mdb := d\<rparr>"
    and g: "get_user_wallet (MARGIN_DST_CURRENCIES env) (mdb s) u c (wallet_type_of (the_order s r)) True = (Some w, d)"
    using load_wallet_cases [OF l] by (fastforce dest!: get_providing_wallet_cases)
  note f = get_user_wallet_db [OF g]
  have "db_grid (mdb s)" using inv by (simp add: minv_def grid_inv_def)
  then have "minv (set_wallet r w s)" using f(6) by (intro minv_set_wallet [OF inv r]) auto
  then show ?thesis
    using f get_user_wallet_keeps_ledger_inv [OF _ g] get_user_wallet_keeps_solvent [OF _ g]
      trades_more [OF f(2)] by (simp add: minv_def grid_inv_def s')
qed

lemma minv_blocked:
  "minv s \<Longrightarrow> r < length (objs s) \<Longrightarrow> wallet_obj (obj s r) = Some w
   \<Longrightarrow> minv (set_wallet r (update_blocked_balance env (mdb s) w) s)"
  by (intro minv_set_wallet update_blocked_grid) (auto simp: minv_def grid_inv_def intro: grid_obj)

lemma load_orders_minv:
  "minv s \<Longrightarrow> load_orders os s = (q, s') \<Longrightarrow> list_all order_inv os \<Longrightarrow> minv s'"
  by (rule minv_objs [of s])
    (auto simp: load_orders_def list_all_iff obj_grid_def dest!: minv_objsD)

lemma minv_expand:
  assumes "minv s" "get_market_orders_with_expansion env b s = (q, s')"
  shows "minv s'"
proof -
  obtain os s1 where g: "get_orders_for_expansion env b s = (os, s1)" by fastforce
  have "set os \<subseteq> set (orders (mdb s))"
    using g by (auto simp: get_orders_for_expansion_def Let_def split: if_splits dest!: in_set_takeD)
  moreover have "list_all order_inv (orders (mdb s))" using assms(1) by (simp add: minv_def)
  ultimately have "list_all order_inv os" by (auto simp: list_all_iff)
  moreover have "minv s1"
    using get_orders_for_expansion_objs [OF g] assms(1) by (auto intro: minv_same_objs)
  ultimately show ?thesis
    using assms(2) g by (auto simp: get_market_orders_with_expansion_def intro: load_orders_minv)
qed

subsection \<open>The trade step\<close>

lemma filled_from_objs_inv:
  assumes f: "filled_from sell buy amount price s6 s'"
    and inv: "list_all (\<lambda>x. order_inv (ob x) \<and> obj_grid x) (objs s6)"
    and r: "sell < length (objs s6)" "buy < length (objs s6)" "sell \<noteq> buy"
    and a: "on_grid MAX_PRECISION amount" "0 < amount" "amount \<le> unmatched_amount (the_order s6 sell)"
      "amount \<le> unmatched_amount (the_order s6 buy)"
  shows "list_all (\<lambda>x. order_inv (ob x) \<and> obj_grid x) (objs s')"
proof -
  have step: "list_all (\<lambda>x. order_inv (ob x) \<and> obj_grid x) (objs t')"
    if t: "list_all (\<lambda>x. order_inv (ob x) \<and> obj_grid x) (objs t)" "fill_object q amount price f t = Inr t'"
      "q < length (objs t)" "amount \<le> unmatched_amount (the_order t q)" for t t' q f
  proof -
    note e = fill_object_effect [OF t(2,3)]
    have o: "order_inv (the_order t q)" using t(1,3) by (simp add: list_all_length the_order_def obj_def)
    have "order_inv (the_order t' q)"
      using grow_order_inv [OF o e(1) a(1) _ t(4)] a(2) by simp
    moreover have "obj_grid (obj t' q)"
      using t(1,3) e(2) by (simp add: list_all_length obj_def obj_grid_def)
    ultimately show ?thesis
      using t(1,3) e(3,4) by (simp add: list_all_length the_order_def obj_def) metis
  qed
  from f show ?thesis unfolding filled_from_def
  proof (elim disjE exE conjE)
    fix f1 s7
    assume s7: "fill_object sell amount price f1 s6 = Inr s7"
    note i7 = step [OF inv s7 r(1) a(3)]
    note e = fill_object_effect [OF s7 r(1)]
    { assume "s' = s7" with i7 show ?thesis by simp }
    fix f2 assume s8: "fill_object buy amount price f2 s7 = Inr s'"
    show ?thesis
      using e(3) e(4) [of buy] r a(4) by (intro step [OF i7 s8]) (auto simp: the_order_def)
  qed (use inv in simp)
qed

lemma sell_ref_ne_buy_ref: "sell_ref s a \<Longrightarrow> buy_ref s b \<Longrightarrow> a \<noteq> b"
  by (auto simp: sell_ref_def buy_ref_def is_sell_iff)

lemma trade_ready_bounds:
  assumes "trade_ready env sell buy amount price s" "minv s" "MAX_PRECISION \<le> the (amount_precision env)"
  shows "0 < amount" "amount \<le> unmatched_amount (the_order s sell)" "amount \<le> unmatched_amount (the_order s buy)"
    "on_grid MAX_PRECISION amount" "fair_price (the_order s sell) (the_order s buy) price"
proof -
  have r: "sell < length (objs s)" "buy < length (objs s)"
    using assms(1) by (auto simp: trade_ready_def Let_def sell_ref_def buy_ref_def)
  have g: "grid_inv s" using assms(2) by (simp add: minv_def)
  have "wallet_grid (the (wallet_obj (obj s sell)))" "wallet_grid (the (wallet_obj (obj s buy)))"
    using assms(1) grid_obj [OF g] r by (auto simp: trade_ready_def Let_def)
  with assms r show "0 < amount" "amount \<le> unmatched_amount (the_order s sell)"
    "amount \<le> unmatched_amount (the_order s buy)" "on_grid MAX_PRECISION amount"
    using match_amount_bounds [OF _ _ minv_order minv_order, where a = amount]
    by (auto simp: trade_ready_def Let_def)
  show "fair_price (the_order s sell) (the_order s buy) price"
    using assms(1) by (auto simp: trade_ready_def Let_def intro: ready_fair_price)
qed

lemma trade_objs_inv:
  assumes c: "create_exchange_transactions env sell buy amount price maker sf bf s = (m, s')"
    and rdy: "trade_ready env sell buy amount price s" and inv: "minv s"
    and prec: "MAX_PRECISION \<le> the (amount_precision env)"
  shows "list_all (\<lambda>x. order_inv (ob x) \<and> obj_grid x) (objs s')"
proof -
  have r: "sell < length (objs s)" "buy < length (objs s)" "sell \<noteq> buy"
    and w: "wallet_obj (obj s sell) \<noteq> None" "wallet_obj (obj s buy) \<noteq> None"
    using rdy sell_ref_ne_buy_ref by (auto simp: trade_ready_def Let_def sell_ref_def buy_ref_def)
  have "grid_inv s" using inv by (simp add: minv_def)
  with create_exchange_transactions_outcome [OF c r(1,2) w]
  obtain s6 where s6: "wallets_only s s6" "list_all obj_grid (objs s6)" "filled_from sell buy amount price s6 s'"
    by blast
  have "list_all (\<lambda>x. order_inv (ob x)) (objs s6)"
    using s6(1) minv_order [OF inv] by (auto simp: wallets_only_def list_all_length the_order_def obj_def)
  then have "list_all (\<lambda>x. order_inv (ob x) \<and> obj_grid x) (objs s6)"
    using s6(2) by (auto simp: list_all_iff)
  then show ?thesis
    using s6(1) r trade_ready_bounds [OF rdy inv prec]
    by (intro filled_from_objs_inv [OF s6(3)]) (auto simp: wallets_only_def)
qed

lemma insert_trade_db:
  assumes "insert_trade d t = Inr (d', t')"
  shows "ledger_inv d \<Longrightarrow> ledger_inv d'" "solvent d \<Longrightarrow> solvent d'" "orders d' = orders d"
    "trades d' = trades d @ [stored_trade t']"
  using assms
  by (auto simp: insert_trade_Inr ledger_inv_def solvent_def update_balance_from_transactions_def)

lemma trade_effect_trades:
  assumes "trade_effect env sell buy amount price maker sf bf s t s'"
  shows "trades (mdb s') = trades (mdb s) @ [stored_trade t]"
    "distinct (trade_pairs (trades (mdb s))) \<Longrightarrow> distinct (trade_pairs (trades (mdb s')))"
proof -
  from assms obtain v d1 tx1 tx2 d2 d3 tx1' tx2' os where
    ins: "insert_trade (mdb s) (new_trade env (the_order s sell) (the_order s buy) amount price maker
             sf bf (estimate_rial_value env v)) = Inr (d1, t)"
    and c: "commit d1 tx1 False = Inr (d2, tx1')" "commit d2 tx2 False = Inr (d3, tx2')"
    and s': "mdb s' = d3\<lparr>orders := os\<rparr>"
    unfolding trade_effect_def by blast
  have tr: "trades (mdb s') = trades d1"
    using trades_more [OF commit_frame(6) [OF c(1)]] trades_more [OF commit_frame(6) [OF c(2)]] s' by simp
  then show "trades (mdb s') = trades (mdb s) @ [stored_trade t]"
    using insert_trade_db(4) [OF ins] by simp
  show "distinct (trade_pairs (trades (mdb s))) \<Longrightarrow> distinct (trade_pairs (trades (mdb s')))"
    unfolding tr by (rule insert_trade_distinct [OF _ ins])
qed

lemma trade_effect_db:
  assumes e: "trade_effect env sell buy amount price maker sf bf s t s'" and inv: "minv s"
  shows "db_grid (mdb s') \<and> list_all order_inv (orders (mdb s')) \<and> ledger_inv (mdb s') \<and> solvent (mdb s')"
proof -
  from e obtain v d1 tx1 tx2 d2 d3 tx1' tx2' os where
    ins: "insert_trade (mdb s) (new_trade env (the_order s sell) (the_order s buy) amount price maker
             sf bf (estimate_rial_value env v)) = Inr (d1, t)"
    and tx: "create_sell_withdraw_transaction (the (wallet_obj (obj s sell))) t = Inr (Some tx1)"
      "create_buy_withdraw_transaction (the (wallet_obj (obj s buy))) t = Inr (Some tx2)"
    and c: "commit d1 tx1 False = Inr (d2, tx1')" "commit d2 tx2 False = Inr (d3, tx2')"
    and s': "mdb s' = d3\<lparr>orders := os\<rparr>" and os: "map (set_status New) os = map (set_status New) (orders (mdb s))"
    unfolding trade_effect_def by blast
  have i: "db_grid (mdb s)" "ledger_inv (mdb s)" "solvent (mdb s)" "list_all order_inv (orders (mdb s))"
    using inv by (simp_all add: minv_def grid_inv_def)
  have "db_grid d3"
    using commit_grid [OF _ c(2)] commit_grid [OF _ c(1)] insert_trade_grid [OF ins i(1)]
      withdraw_transaction_grid tx by blast
  moreover have "ledger_inv d3" "solvent d3"
    using i insert_trade_db(1,2) [OF ins] c commit_keeps_ledger_inv commit_keeps_solvent by blast+
  ultimately show ?thesis
    using order_inv_same_but_status [OF os i(4)] s'
    by (simp add: db_grid_def ledger_inv_def solvent_def update_balance_from_transactions_def)
qed

lemma try_trade_cases:
  assumes "try_trade env sell buy amount price fees s = (m, s')"
  obtains (failed) e s1 where "m = None" "s' = s1\<lparr>mdb := mdb s\<rparr>"
      "create_exchange_transactions env sell buy amount price
         (seller_is_maker (the_order s sell) (the_order s buy)) (fst fees) (snd fees) s = (Inl e, s1)"
  | (made) t s1 where "m = Some t" "s' = update_last_price env (t_price t) s1"
      "create_exchange_transactions env sell buy amount price
         (seller_is_maker (the_order s sell) (the_order s buy)) (fst fees) (snd fees) s = (Inr t, s1)"
  using assms by (auto simp: try_trade_def split: prod.split_asm sum.split_asm)

lemma minv_trade:
  assumes rdy: "trade_ready env sell buy amount price s" and inv: "minv s"
    and prec: "MAX_PRECISION \<le> the (amount_precision env)"
    and t: "try_trade env sell buy amount price fees s = (m, s')"
  shows "minv s'"
  using t
proof (cases rule: try_trade_cases)
  case (failed e s1)
  with trade_objs_inv [OF failed(3) rdy inv prec] show ?thesis
    by (intro minv_objs [OF inv]) simp_all
next
  case (made t s1)
  have r: "sell < length (objs s)" "buy < length (objs s)" "sell \<noteq> buy"
    using rdy sell_ref_ne_buy_ref by (auto simp: trade_ready_def Let_def sell_ref_def buy_ref_def)
  note e = create_exchange_transactions_Inr [OF made(3) r]
  have "minv s1"
    using trade_objs_inv [OF made(3) rdy inv prec] trade_effect_db [OF e inv] trade_effect_trades(2) [OF e] inv
    by (auto simp: minv_def grid_inv_def list_all_iff)
  then show ?thesis by (rule minv_same_objs) (simp_all add: made(2))
qed

lemma minv_step:
  assumes "mstep env s s'" "minv s" "MAX_PRECISION \<le> the (amount_precision env)"
  shows "minv s'"
  using assms(1)
proof cases
  case (step_trade sell buy amount price fees m)
  then show ?thesis using minv_trade assms(2,3) by blast
qed (use assms(2) in \<open>auto intro: minv_cancel minv_load minv_blocked minv_expand minv_same_objs
      simp: count_match_def\<close>)

lemma minv_steps:
  assumes "msteps env s s'" "minv s" "MAX_PRECISION \<le> the (amount_precision env)"
  shows "minv s'"
  using assms by (induction rule: rtranclp_induct) (auto intro: minv_step)

subsection \<open>Fair trades\<close>

lemma filled_from_heap:
  assumes "filled_from sell buy a p s6 s'" "sell < length (objs s6)" "buy < length (objs s6)"
  shows "heap_le s6 s'"
  using assms(1) unfolding filled_from_def
proof (elim disjE exE conjE)
  fix f s7
  assume s7: "fill_object sell a p f s6 = Inr s7"
  have le: "heap_le s6 s7" "buy < length (objs s7)"
    using heap_le_fill [OF assms(2) s7] assms(3) by auto
  { assume "s' = s7" with le show ?thesis by simp }
  fix f' assume "fill_object buy a p f' s7 = Inr s'"
  with le heap_le_fill show ?thesis by (blast intro: heap_le_trans)
qed (simp add: heap_le_same_objs)

lemma heap_le_wallets_only: "wallets_only s s' \<Longrightarrow> heap_le s s'"
  by (simp add: wallets_only_def heap_le_def)

lemma heap_le_trade:
  assumes rdy: "trade_ready env sell buy amount price s"
    and t: "try_trade env sell buy amount price fees s = (m, s')"
  shows "heap_le s s'"
proof -
  have r: "sell < length (objs s)" "buy < length (objs s)"
    and w: "wallet_obj (obj s sell) \<noteq> None" "wallet_obj (obj s buy) \<noteq> None"
    using rdy by (auto simp: trade_ready_def Let_def sell_ref_def buy_ref_def)
  have le: "heap_le s s1" if c: "create_exchange_transactions env sell buy amount price
         (seller_is_maker (the_order s sell) (the_order s buy)) (fst fees) (snd fees) s = (x, s1)" for x s1
  proof -
    obtain s6 where s6: "wallets_only s s6" "filled_from sell buy amount price s6 s1"
      using create_exchange_transactions_outcome [OF c r w] by blast
    have "heap_le s6 s1" using r s6(1) by (intro filled_from_heap [OF s6(2)]) (auto simp: wallets_only_def)
    with heap_le_wallets_only [OF s6(1)] show ?thesis by (rule heap_le_trans)
  qed
  from t show ?thesis
    by (cases rule: try_trade_cases) (auto dest: le intro: heap_le_upd)
qed

lemma heap_le_step: "mstep env s s' \<Longrightarrow> heap_le s s'"
  by (cases rule: mstep.cases)
    (auto intro: heap_le_cancel heap_le_load heap_le_set_wallet heap_le_same_objs heap_le_trade heap_le_expand
      simp: count_match_def)

lemma heap_le_steps: "msteps env s s' \<Longrightarrow> heap_le s s'"
  by (induction rule: rtranclp_induct) (auto intro: heap_le_trans heap_le_step)

definition fair_trade :: "mstate \<Rightarrow> trade \<Rightarrow> bool" where
  "fair_trade s t \<longleftrightarrow>
     (\<exists>sell buy. sell_ref s sell \<and> buy_ref s buy
        \<and> t_sell_order t = o_id (the_order s sell) \<and> t_buy_order t = o_id (the_order s buy)
        \<and> fair_price (the_order s sell) (the_order s buy) (t_price t)
        \<and> t_is_seller_maker t = seller_is_maker (the_order s sell) (the_order s buy)
        \<and> 0 < t_amount t \<and> t_amount t \<le> o_amount (the_order s sell) \<and> t_amount t \<le> o_amount (the_order s buy))"

lemma fair_trade_heap_le:
  assumes "fair_trade s t" "heap_le s s'"
  shows "fair_trade s' t"
proof -
  from assms(1) obtain sell buy where
    f: "sell_ref s sell" "buy_ref s buy" "t_sell_order t = o_id (the_order s sell)"
      "t_buy_order t = o_id (the_order s buy)" "fair_price (the_order s sell) (the_order s buy) (t_price t)"
      "t_is_seller_maker t = seller_is_maker (the_order s sell) (the_order s buy)"
      "0 < t_amount t" "t_amount t \<le> o_amount (the_order s sell)" "t_amount t \<le> o_amount (the_order s buy)"
    unfolding fair_trade_def by blast
  have k: "order_key (the_order s' sell) = order_key (the_order s sell)"
    "order_key (the_order s' buy) = order_key (the_order s buy)"
    using f(1,2) assms(2) by (auto simp: sell_ref_def buy_ref_def heap_le_def)
  show ?thesis
    unfolding fair_trade_def
    using f heap_le_refs [OF assms(2)] order_key_eqD [OF k(1)] order_key_eqD [OF k(2)]
    by (intro exI [of _ sell] exI [of _ buy]) (simp add: fair_price_def seller_is_maker_def)
qed

text \<open>What one trade changes in the trades table: one fair row at the end.\<close>

lemma made_trade_fair:
  assumes rdy: "trade_ready env sell buy amount price s" and inv: "minv s"
    and prec: "MAX_PRECISION \<le> the (amount_precision env)"
    and c: "create_exchange_transactions env sell buy amount price
       (seller_is_maker (the_order s sell) (the_order s buy)) sf bf s = (Inr t, s1)"
  shows "fair_trade s (stored_trade t)"
proof -
  have refs: "sell_ref s sell" "buy_ref s buy" and p: "price = match_price (the_order s sell) (the_order s buy)"
    using rdy by (auto simp: trade_ready_def Let_def)
  have r: "sell < length (objs s)" "buy < length (objs s)" "sell \<noteq> buy"
    using refs sell_ref_ne_buy_ref by (auto simp: sell_ref_def buy_ref_def)
  note b = trade_ready_bounds [OF rdy inv prec]
  have o: "order_inv (the_order s sell)" "order_inv (the_order s buy)"
    using minv_order [OF inv] r by auto
  have grid: "on_grid MAX_PRECISION price"
    using o p by (auto simp: match_price_def order_inv_def intro: money_field_grid)
  from create_exchange_transactions_Inr [OF c r] obtain v d1 where
    ins: "insert_trade (mdb s) (new_trade env (the_order s sell) (the_order s buy) amount price
             (seller_is_maker (the_order s sell) (the_order s buy)) sf bf (estimate_rial_value env v)) = Inr (d1, t)"
    unfolding trade_effect_def by blast
  have maker: "t_is_seller_maker t = seller_is_maker (the_order s sell) (the_order s buy)"
    using ins by (auto simp: insert_trade_Inr new_trade_def)
  have le: "amount \<le> o_amount (the_order s sell)" "amount \<le> o_amount (the_order s buy)"
    using b(2,3) o by (auto simp: unmatched_amount_eq order_inv_def)
  show ?thesis
    unfolding fair_trade_def
    using refs b(1,4,5) le maker insert_trade_amount_price [OF ins] col10_fix [OF grid] col10_fix [OF b(4)]
    by (intro exI [of _ sell] exI [of _ buy]) simp
qed

lemma load_wallet_trades: "load_wallet env r s = Inr (w, s') \<Longrightarrow> trades (mdb s') = trades (mdb s)"
  by (auto dest!: load_wallet_cases get_providing_wallet_cases get_user_wallet_db(2) trades_more)

lemma step_new_trades_fair:
  assumes st: "mstep env s s'" and inv: "minv s" and prec: "MAX_PRECISION \<le> the (amount_precision env)"
    and t: "t \<in> set (trades (mdb s'))" "t \<notin> set (trades (mdb s))"
  shows "fair_trade s' t"
  using st
proof cases
  case (step_trade sell buy amount price fees m)
  have "heap_le s s'" by (rule heap_le_step [OF st])
  moreover have "fair_trade s t"
    using step_trade(3)
  proof (cases rule: try_trade_cases)
    case (made u s1)
    have r: "sell < length (objs s)" "buy < length (objs s)" "sell \<noteq> buy"
      using step_trade(1) sell_ref_ne_buy_ref by (auto simp: trade_ready_def Let_def sell_ref_def buy_ref_def)
    have "t = stored_trade u"
      using trade_effect_trades(1) [OF create_exchange_transactions_Inr [OF made(3) r]] t made(2) by simp
    then show ?thesis using made_trade_fair [OF step_trade(1) inv prec made(3)] by simp
  qed (use t in simp)
  ultimately show ?thesis by (rule fair_trade_heap_le [rotated])
next
  case (step_load r w)
  with load_wallet_trades [OF step_load(2)] t show ?thesis by simp
next
  case (step_expand b q)
  then have "mdb s' = mdb s"
    by (auto simp: get_market_orders_with_expansion_def load_orders_def split: prod.split_asm
        dest!: get_orders_for_expansion_objs)
  with t show ?thesis by simp
qed (use t in \<open>auto simp: cancel_order_def Let_def count_match_def split: if_splits\<close>)

lemma steps_new_trades_fair:
  assumes "msteps env s s'" "minv s" "MAX_PRECISION \<le> the (amount_precision env)"
  shows "\<forall>t \<in> set (trades (mdb s')). t \<in> set (trades (mdb s)) \<or> fair_trade s' t"
  using assms
proof (induction rule: rtranclp_induct)
  case (step y z)
  have "minv y" using minv_steps step.hyps(1) step.prems by blast
  with step show ?case
    using step_new_trades_fair [OF step.hyps(2)] fair_trade_heap_le heap_le_step [OF step.hyps(2)] by blast
qed simp

subsection \<open>The loops are sequences of steps\<close>

lemma refresh_wallet_steps:
  assumes "refresh_wallet env r s = Inr s'" "r < length (objs s)"
  shows "msteps env s s' \<and> wallet_obj (obj s' r) \<noteq> None"
proof -
  from assms(1) obtain w s1 where l: "load_wallet env r s = Inr (w, s1)"
    and s': "s' = set_wallet r (update_blocked_balance env (mdb s1) w) s1"
    by (auto simp: refresh_wallet_def rbind_eq_Inr_iff)
  have "mstep env s s1" using l assms(2) by (auto intro: step_load)
  moreover have len: "r < length (objs s1)"
    using heap_le_load [OF assms(2) l] assms(2) by (simp add: heap_le_def)
  moreover have "mstep env s1 s'"
    unfolding s' by (rule step_blocked [OF len load_wallet_obj [OF assms(2) l]])
  ultimately show ?thesis using s' by auto
qed

lemma refresh_wallet_order: "refresh_wallet env r s = Inr s' \<Longrightarrow> r < length (objs s) \<Longrightarrow>
    the_order s' q = the_order s q \<and> length (objs s') = length (objs s)
    \<and> (wallet_obj (obj s q) \<noteq> None \<longrightarrow> wallet_obj (obj s' q) \<noteq> None)"
  by (auto simp: refresh_wallet_def rbind_eq_Inr_iff dest!: load_wallet_cases)

lemma mstep_msteps: "mstep env s s' \<Longrightarrow> msteps env s s'"
  by (rule r_into_rtranclp)

lemmas one_step = mstep.intros [THEN mstep_msteps]

lemma cancel_two_steps:
  "a < length (objs s) \<Longrightarrow> b < length (objs s) \<Longrightarrow> msteps env s (cancel_order b (cancel_order a s))"
  by (meson heap_le_cancel heap_le_def order_less_le_trans r_into_rtranclp rtranclp.rtrancl_into_rtrancl step_cancel)

lemma cancel_trivial_steps:
  "r < length (objs s) \<Longrightarrow> msteps env s (cancel_trivial r s) \<and> length (objs (cancel_trivial r s)) = length (objs s)"
  by (auto simp: cancel_trivial_def intro: step_cancel) (simp add: cancel_order_def Let_def)

lemma match_two_orders_refreshed:
  assumes m: "match_two_orders env sell buy s0 = Inr (m, s')"
    and refs: "sell_ref s0 sell" "buy_ref s0 buy"
    and cr: "crosses (the_order s0 sell) (the_order s0 buy)"
  obtains s1 s prec ma where "refresh_wallet env sell s0 = Inr s1" "refresh_wallet env buy s1 = Inr s"
    "\<And>q. the_order s q = the_order s0 q" "length (objs s1) = length (objs s0)" "length (objs s) = length (objs s0)"
    "msteps env s0 s" "wallet_obj (obj s sell) \<noteq> None" "wallet_obj (obj s buy) \<noteq> None"
    "amount_precision env = Some prec"
    "match_amount prec (match_price (the_order s0 sell) (the_order s0 buy)) (the_order s0 sell) (the_order s0 buy)
       (the (wallet_obj (obj s sell))) (the (wallet_obj (obj s buy))) = Inr ma"
    "settle_match env sell buy (match_price (the_order s0 sell) (the_order s0 buy)) ma s = Inr (m, s')"
proof -
  from m obtain s1 s where s1: "refresh_wallet env sell s0 = Inr s1" and s: "refresh_wallet env buy s1 = Inr s"
    by (auto simp: match_two_orders_def rbind_eq_Inr_iff)
  have r0: "sell < length (objs s0)" "buy < length (objs s0)"
    using refs by (auto simp: sell_ref_def buy_ref_def)
  note o1 = refresh_wallet_order [OF s1 r0(1)]
  have r1: "buy < length (objs s1)" using r0 o1 by simp
  note o2 = refresh_wallet_order [OF s r1]
  have ord: "the_order s q = the_order s0 q" for q using o1 o2 by simp
  have st: "msteps env s0 s"
    using refresh_wallet_steps [OF s1 r0(1)] refresh_wallet_steps [OF s r1] by (blast intro: rtranclp_trans)
  have w: "wallet_obj (obj s sell) \<noteq> None" "wallet_obj (obj s buy) \<noteq> None"
    using refresh_wallet_steps [OF s1 r0(1)] refresh_wallet_steps [OF s r1] o2 by blast+
  have nm: "\<not> (is_market (the_order s0 buy) \<and> is_market (the_order s0 sell))" using cr by (simp add: crosses_def)
  from m s1 s nm obtain prec ma where "amount_precision env = Some prec"
    "match_amount prec (match_price (the_order s0 sell) (the_order s0 buy)) (the_order s0 sell) (the_order s0 buy)
       (the (wallet_obj (obj s sell))) (the (wallet_obj (obj s buy))) = Inr ma"
    "settle_match env sell buy (match_price (the_order s0 sell) (the_order s0 buy)) ma s = Inr (m, s')"
    unfolding match_two_orders_def
    by (auto simp: rbind_eq_Inr_iff Let_def ord split: if_splits option.split_asm)
  moreover have "length (objs s1) = length (objs s0)" "length (objs s) = length (objs s0)" using o1 o2 by auto
  ultimately show ?thesis using that [OF s1 s ord _ _ st w] by blast
qed

lemma match_two_orders_steps:
  assumes m: "match_two_orders env sell buy s0 = Inr (m, s')"
    and refs: "sell_ref s0 sell" "buy_ref s0 buy"
    and live: "\<not> is_spent (the_order s0 sell)" "\<not> is_spent (the_order s0 buy)"
    and cr: "crosses (the_order s0 sell) (the_order s0 buy)"
  shows "msteps env s0 s'"
  using m refs cr
proof (rule match_two_orders_refreshed)
  fix s1 s prec ma
  assume ord: "\<And>q. the_order s q = the_order s0 q" and ln: "length (objs s) = length (objs s0)"
    and st: "msteps env s0 s" and w: "wallet_obj (obj s sell) \<noteq> None" "wallet_obj (obj s buy) \<noteq> None"
    and prec: "amount_precision env = Some prec"
    and ma: "match_amount prec (match_price (the_order s0 sell) (the_order s0 buy)) (the_order s0 sell) (the_order s0 buy)
       (the (wallet_obj (obj s sell))) (the (wallet_obj (obj s buy))) = Inr ma"
    and k: "settle_match env sell buy (match_price (the_order s0 sell) (the_order s0 buy)) ma s = Inr (m, s')"
  have len: "sell < length (objs s)" "buy < length (objs s)"
    using refs ln by (auto simp: sell_ref_def buy_ref_def)
  have "msteps env s s'"
  proof (cases ma)
    case (Inl b)
    with k len show ?thesis by (auto simp: settle_match_def intro: one_step(1))
  next
    case (Inr amount)
    have ready: "trade_ready env sell buy amount (match_price (the_order s0 sell) (the_order s0 buy)) s"
      if "match_guards (the_order s0 sell) (the_order s0 buy) amount (match_price (the_order s0 sell) (the_order s0 buy)) = GuardOk"
      using refs live cr w prec ma Inr that ord len
      by (auto simp: trade_ready_def Let_def sell_ref_def buy_ref_def)
    have triv: "msteps env s (cancel_trivial buy (cancel_trivial sell s))"
      using cancel_trivial_steps [OF len(1)] cancel_trivial_steps [of buy "cancel_trivial sell s"] len(2)
      by (auto intro: rtranclp_trans)
    show ?thesis
      using k Inr len cancel_two_steps [OF len] triv ready
      by (auto simp: settle_match_def rbind_eq_Inr_iff ord split: match_guard.split_asm
          intro: one_step(1) one_step(7))
  qed
  with st show ?thesis by (rule rtranclp_trans)
qed

lemma validate_steps:
  assumes "matcher_validate_order env r s = Inr (b, s')" "r < length (objs s)"
  shows "msteps env s s' \<and> (\<forall>q. q \<noteq> r \<longrightarrow> the_order s' q = the_order s q) \<and> (b \<longrightarrow> the_order s' r = the_order s r)"
proof (cases "o_id (the_order s r) \<in> set (validated s)")
  case True
  with assms show ?thesis by (simp add: matcher_validate_order_def)
next
  case False
  with assms(1) obtain w s1 where l: "load_wallet env r s = Inr (w, s1)"
    and k: "(if fst (validate_order (the_order s1 r) None w 0 False)
           then (True, s1\<lparr>validated := o_id (the_order s1 r) # validated s1\<rparr>)
           else (False, (cancel_order r s1)
                       \<lparr>validated := filter (\<lambda>i. i \<noteq> o_id (the_order s1 r)) (validated s1)\<rparr>)) = (b, s')"
    by (auto simp: matcher_validate_order_def rbind_eq_Inr_iff Let_def split: if_splits)
  have len: "r < length (objs s1)"
    using heap_le_load [OF assms(2) l] assms(2) by (simp add: heap_le_def)
  have "mstep env s s1" by (rule step_load [OF assms(2) l])
  moreover have "msteps env s1 s'"
    using k rtranclp_trans [OF one_step(1) [OF len] one_step(4)] one_step(4) by (auto split: if_splits)
  moreover have "the_order s1 q = the_order s q" for q
    using load_wallet_cases [OF l] assms(2) by auto
  moreover have "the_order (cancel_order r s1) q = the_order s1 q" if "q \<noteq> r" for q
    using that len by (simp add: cancel_order_def Let_def the_order_def obj_def set_obj_def)
  ultimately show ?thesis
    using k by (auto simp: the_order_def obj_def split: if_splits)
qed

lemma refs_steps: "msteps env s s' \<Longrightarrow> sell_ref s r \<Longrightarrow> sell_ref s' r" "msteps env s s' \<Longrightarrow> buy_ref s r \<Longrightarrow> buy_ref s' r"
  by (blast dest: heap_le_steps intro: heap_le_refs)+

lemma attempt_match_steps:
  assumes a: "attempt_match env sell buy s = Inr (fl, s')"
    and refs: "sell_ref s sell" "buy_ref s buy"
    and live: "\<not> is_spent (the_order s sell)" "\<not> is_spent (the_order s buy)"
    and cr: "crosses (the_order s sell) (the_order s buy)"
  shows "msteps env s s'"
proof -
  have r: "sell < length (objs s)" "buy < length (objs s)" "sell \<noteq> buy"
    using refs sell_ref_ne_buy_ref by (auto simp: sell_ref_def buy_ref_def)
  show ?thesis
  proof (cases "fst (check_for_forbidden_matching env sell buy s)")
    case False
    then have "fl = Return" "s' = (cancel_order buy (cancel_order sell s))
        \<lparr>failures := Suc (failures (cancel_order buy (cancel_order sell s)))\<rparr>"
      using a by (auto simp: attempt_match_def check_for_forbidden_matching_def split: if_splits)
    then show ?thesis
      using rtranclp_trans [OF cancel_two_steps [OF r(1,2)] one_step(5)] by simp
  next
    case True
    then have chk: "check_for_forbidden_matching env sell buy s = (True, s)"
      by (auto simp: check_for_forbidden_matching_def split: if_splits)
    with a obtain b s2 where v1: "matcher_validate_order env buy s = Inr (b, s2)"
      and k1: "(if \<not> b then Inr (Next, s2)
            else rbind (matcher_validate_order env sell s2) (\<lambda>(ok_sell, s3).
              if \<not> ok_sell then Inr (Break, s3)
              else rbind (match_two_orders env sell buy s3) (\<lambda>(m, s4).
                Inr (Next, count_match m s4)))) = Inr (fl, s')"
      by (auto simp: attempt_match_def rbind_eq_Inr_iff)
    note st1 = validate_steps [OF v1 r(2)]
    show ?thesis
    proof (cases b)
      case False
      with k1 st1 show ?thesis by auto
    next
      case True
      have same2: "the_order s2 q = the_order s q" for q using st1 True by (cases "q = buy") auto
      have refs2: "sell_ref s2 sell" "buy_ref s2 buy" using refs_steps st1 refs by blast+
      then have r2: "sell < length (objs s2)" by (simp add: sell_ref_def)
      from k1 True obtain c s3 where v2: "matcher_validate_order env sell s2 = Inr (c, s3)"
        and k2: "(if \<not> c then Inr (Break, s3)
              else rbind (match_two_orders env sell buy s3) (\<lambda>(m, s4). Inr (Next, count_match m s4))) = Inr (fl, s')"
        by (auto simp: rbind_eq_Inr_iff)
      note st2 = validate_steps [OF v2 r2]
      have s3: "msteps env s s3" using st1 st2 by (blast intro: rtranclp_trans)
      show ?thesis
      proof (cases c)
        case False
        with k2 s3 show ?thesis by auto
      next
        case True
        have same3: "the_order s3 q = the_order s q" for q using st2 True same2 by (cases "q = sell") auto
        from k2 True obtain m s4 where m: "match_two_orders env sell buy s3 = Inr (m, s4)"
          and s': "s' = count_match m s4" by (auto simp: rbind_eq_Inr_iff)
        have "msteps env s3 s4"
          using refs_steps s3 refs live cr same3 by (intro match_two_orders_steps [OF m]) auto
        with s3 have "msteps env s s4" by (rule rtranclp_trans)
        then show ?thesis unfolding s' using one_step(6) by (rule rtranclp_trans)
      qed
    qed
  qed
qed

lemma pair_step_steps:
  assumes "pair_step env lst sell buy s = Inr (fl, s')" "sell_ref s sell" "buy_ref s buy"
  shows "msteps env s s'"
proof (cases "newer_than s buy lst \<or> is_spent (the_order s sell) \<or> is_spent (the_order s buy)
    \<or> \<not> crosses (the_order s sell) (the_order s buy)")
  case True
  with assms(1) have "s' = s"
    by (auto simp: pair_step_def Let_def crosses_def split: if_splits)
  then show ?thesis by simp
next
  case False
  with assms(1) have "attempt_match env sell buy s = Inr (fl, s')"
    by (auto simp: pair_step_def Let_def crosses_def split: if_splits)
  with False assms(2,3) show ?thesis by (intro attempt_match_steps) auto
qed

lemma buys_loop_steps:
  "buys_loop env lst sell buys s = Inr (fl, s') \<Longrightarrow> sell_ref s sell \<Longrightarrow> \<forall>b \<in> set buys. buy_ref s b
   \<Longrightarrow> msteps env s s'"
proof (induction buys arbitrary: s)
  case (Cons b bs)
  from Cons.prems(1) obtain f s1 where p: "pair_step env lst sell b s = Inr (f, s1)"
    and k: "(case f of Next \<Rightarrow> buys_loop env lst sell bs s1 | Break \<Rightarrow> Inr (Next, s1) | Return \<Rightarrow> Inr (Return, s1))
      = Inr (fl, s')"
    by (auto simp: rbind_eq_Inr_iff)
  have st: "msteps env s s1" using pair_step_steps [OF p] Cons.prems by simp
  then have "sell_ref s1 sell" "\<forall>c \<in> set bs. buy_ref s1 c"
    using refs_steps [OF st] Cons.prems by auto
  with Cons.IH [of s1] k have "msteps env s1 s'" by (cases f) auto
  with st show ?case by (rule rtranclp_trans)
qed simp

lemma sells_loop_steps:
  "sells_loop env lst sells buys s = Inr (fl, s') \<Longrightarrow> \<forall>a \<in> set sells. sell_ref s a \<Longrightarrow> \<forall>b \<in> set buys. buy_ref s b
   \<Longrightarrow> msteps env s s'"
proof (induction sells arbitrary: s)
  case (Cons a as)
  show ?case
  proof (cases "newer_than s a lst")
    case True
    with Cons show ?thesis by simp
  next
    case False
    with Cons.prems(1) obtain f s1 where p: "buys_loop env lst a buys s = Inr (f, s1)"
      and k: "(if f = Return then Inr (Return, s1) else sells_loop env lst as buys s1) = Inr (fl, s')"
      by (auto simp: rbind_eq_Inr_iff)
    have st: "msteps env s s1" using buys_loop_steps [OF p] Cons.prems by simp
    then have "\<forall>c \<in> set as. sell_ref s1 c" "\<forall>c \<in> set buys. buy_ref s1 c"
      using refs_steps [OF st] Cons.prems by auto
    with Cons.IH [of s1] k have "msteps env s1 s'" by (auto split: if_splits)
    with st show ?thesis by (rule rtranclp_trans)
  qed
qed simp

subsection \<open>The loops leave the expansion counters alone\<close>

definition lens :: "mstate \<Rightarrow> nat \<times> nat" where "lens s = (expansion_sells_len s, expansion_buys_len s)"

lemma lens_simps [simp]:
  "lens (set_obj r x s) = lens s" "lens (set_wallet r w s) = lens s" "lens (s\<lparr>mdb := d\<rparr>) = lens s"
  "lens (cancel_order r s) = lens s" "lens (s\<lparr>validated := v\<rparr>) = lens s" "lens (s\<lparr>failures := n\<rparr>) = lens s"
  "lens (count_match m s) = lens s" "lens (update_last_price env p s) = lens s"
  "lens (record_pending t tx1 tx2 a b s) = lens s" "lens (cancel_trivial r s) = lens s"
  by (simp_all add: lens_def set_obj_def set_wallet_def cancel_order_def Let_def count_match_def
      record_pending_def cancel_trivial_def)

lemma lens_load: "load_wallet env r s = Inr (w, s') \<Longrightarrow> lens s' = lens s"
  by (auto dest!: load_wallet_cases)

lemma lens_fill: "fill_object r a p f s = Inr s' \<Longrightarrow> lens s' = lens s"
  by (auto simp: fill_object_Inr)

lemma lens_commit_trade: "commit_trade t sell buy s = (m, s') \<Longrightarrow> lens s' = lens s"
  by (auto simp: commit_trade_def split: sum.split_asm dest!: lens_fill)

lemma lens_commit_from: "commit_from r tx s = Inr (tx', s') \<Longrightarrow> lens s' = lens s"
  by (auto simp: commit_from_Inr)

lemma lens_create: "create_exchange_transactions env sell buy a p k sf bf s = (m, s') \<Longrightarrow> lens s' = lens s"
  unfolding create_exchange_transactions_def
  by (auto split: sum.split_asm prod.split_asm dest!: lens_commit_from lens_commit_trade)

lemma lens_try: "try_trade env sell buy a p fees s = (m, s') \<Longrightarrow> lens s' = lens s"
  by (elim try_trade_cases) (auto dest: lens_create)

lemma lens_settle: "settle_match env sell buy p m s = Inr (t, s') \<Longrightarrow> lens s' = lens s"
  by (cases m)
    (auto simp: settle_match_def rbind_eq_Inr_iff split: match_guard.split_asm if_splits dest: lens_try)

lemma lens_refresh: "refresh_wallet env r s = Inr s' \<Longrightarrow> lens s' = lens s"
  by (auto simp: refresh_wallet_def rbind_eq_Inr_iff dest: lens_load)

lemma lens_match: "match_two_orders env sell buy s = Inr (m, s') \<Longrightarrow> lens s' = lens s"
  by (auto simp: match_two_orders_def rbind_eq_Inr_iff Let_def split: if_splits option.split_asm
      dest!: lens_refresh lens_settle)

lemma lens_validate: "matcher_validate_order env r s = Inr (b, s') \<Longrightarrow> lens s' = lens s"
  by (auto simp: matcher_validate_order_def rbind_eq_Inr_iff Let_def split: if_splits dest!: lens_load)

lemma lens_pair_step: "pair_step env lst sell buy s = Inr (fl, s') \<Longrightarrow> lens s' = lens s"
  by (auto simp: pair_step_def attempt_match_def check_for_forbidden_matching_def Let_def rbind_eq_Inr_iff
      split: if_splits dest!: lens_validate lens_match)

lemma lens_buys_loop: "buys_loop env lst sell buys s = Inr (fl, s') \<Longrightarrow> lens s' = lens s"
proof (induction buys arbitrary: s)
  case (Cons b bs)
  then obtain f s1 where "pair_step env lst sell b s = Inr (f, s1)"
    "(case f of Next \<Rightarrow> buys_loop env lst sell bs s1 | Break \<Rightarrow> Inr (Next, s1) | Return \<Rightarrow> Inr (Return, s1))
      = Inr (fl, s')"
    by (auto simp: rbind_eq_Inr_iff)
  with Cons.IH [of s1] lens_pair_step show ?case by (cases f) fastforce+
qed simp

lemma lens_sells_loop: "sells_loop env lst sells buys s = Inr (fl, s') \<Longrightarrow> lens s' = lens s"
  by (induction sells arbitrary: s)
    (auto simp: rbind_eq_Inr_iff split: if_splits dest!: lens_buys_loop)

subsection \<open>The effect of a trade on the wallets\<close>

lemma quantize_minus_result:
  "quantize ROUND_HALF_EVEN e x = Inr y \<Longrightarrow> quantize ROUND_HALF_EVEN e (- x) = Inr (- y)"
  using round_int_minus_half_even [of "x / pow10 e"] by (auto simp: quantize_def quantize_value_def split: if_splits)

lemma dneg_ctx: "ctx x = x \<Longrightarrow> dneg x = - x"
  by (simp add: dneg_def ctx_minus)

text \<open>Wallet objects that are already loaded are not read again.\<close>

lemma refresh_loaded:
  assumes "refresh_wallet env r s = Inr s'" "wallet_obj (obj s r) = Some w" "r < length (objs s)"
  shows "mdb s' = mdb s" "\<exists>w'. wallet_obj (obj s' r) = Some w' \<and> w_id w' = w_id w \<and> w_balance w' = w_balance w"
    "q \<noteq> r \<Longrightarrow> obj s' q = obj s q"
  using assms load_wallet_cases
  by (auto simp: refresh_wallet_def rbind_eq_Inr_iff load_wallet_def Let_def update_blocked_balance_def)

lemma trade_effect_commits:
  assumes e: "trade_effect env sell buy amount price maker sf bf s t s'"
    and a: "money_field amount"
    and v: "quantize ROUND_HALF_EVEN MAX_PRECISION (dmul amount price) = Inr v"
  obtains d1 d2 d3 tx1 tx2 tx1' tx2' os where "wallets d1 = wallets (mdb s)" "commit d1 tx1 False = Inr (d2, tx1')"
    "commit d2 tx2 False = Inr (d3, tx2')" "mdb s' = d3\<lparr>orders := os\<rparr>"
    "tx_amount tx1 = - amount" "tx_wallet tx1 = w_id (the (wallet_obj (obj s sell)))"
    "tx_amount tx2 = - v" "tx_wallet tx2 = w_id (the (wallet_obj (obj s buy)))"
    "t_sell_fee t = Some sf" "t_buy_fee t = Some bf"
proof -
  from e obtain v' d1 tx1 tx2 d2 d3 tx1' tx2' os where
    ins: "insert_trade (mdb s) (new_trade env (the_order s sell) (the_order s buy) amount price maker
             sf bf (estimate_rial_value env v')) = Inr (d1, t)"
    and tx: "create_sell_withdraw_transaction (the (wallet_obj (obj s sell))) t = Inr (Some tx1)"
      "create_buy_withdraw_transaction (the (wallet_obj (obj s buy))) t = Inr (Some tx2)"
    and c: "commit d1 tx1 False = Inr (d2, tx1')" "commit d2 tx2 False = Inr (d3, tx2')"
    and s': "mdb s' = d3\<lparr>orders := os\<rparr>"
    unfolding trade_effect_def by blast
  note t = insert_trade_amount_price [OF ins]
  have "quantize ROUND_HALF_EVEN MAX_PRECISION (- amount) = Inr (- amount)"
    by (rule quantize_minus_result [OF money_quantize [OF a]])
  then have tx1: "tx_amount tx1 = - amount" "tx_wallet tx1 = w_id (the (wallet_obj (obj s sell)))"
    using create_transaction_Some [OF tx(1) [unfolded create_sell_withdraw_transaction_def]] a
    by (simp_all add: t dneg_ctx)
  have "dneg (dmul price amount) = - dmul amount price"
    by (simp add: dneg_def dmul_def ctx_minus mult.commute)
  then have tx2: "tx_amount tx2 = - v" "tx_wallet tx2 = w_id (the (wallet_obj (obj s buy)))"
    using create_transaction_Some [OF tx(2) [unfolded create_buy_withdraw_transaction_def matched_total_price_def]]
      quantize_minus_result [OF v] by (simp_all add: t)
  have "wallets d1 = wallets (mdb s)" "t_sell_fee t = Some sf" "t_buy_fee t = Some bf"
    using ins by (auto simp: insert_trade_Inr new_trade_def)
  from that [OF this(1) c s' tx1 tx2 this(2,3)] show ?thesis .
qed

lemma trade_effect_balances:
  assumes e: "trade_effect env sell buy amount price maker sf bf s t s'"
    and a: "money_field amount"
    and v: "quantize ROUND_HALF_EVEN MAX_PRECISION (dmul amount price) = Inr v"
  shows "balance_of (mdb s') i = map_option (\<lambda>b. b - (if i = w_id (the (wallet_obj (obj s sell))) then amount else 0)
       - (if i = w_id (the (wallet_obj (obj s buy))) then v else 0)) (balance_of (mdb s) i)"
  using assms
proof (rule trade_effect_commits)
  fix d1 d2 d3 tx1 tx2 tx1' tx2' os
  assume d1: "wallets d1 = wallets (mdb s)" and c: "commit d1 tx1 False = Inr (d2, tx1')" "commit d2 tx2 False = Inr (d3, tx2')"
    and s': "mdb s' = d3\<lparr>orders := os\<rparr>"
    and tx: "tx_amount tx1 = - amount" "tx_wallet tx1 = w_id (the (wallet_obj (obj s sell)))"
      "tx_amount tx2 = - v" "tx_wallet tx2 = w_id (the (wallet_obj (obj s buy)))"
  have b0: "balance_of d1 i = balance_of (mdb s) i" "balance_of (mdb s') i = balance_of d3 i"
    by (simp_all add: balance_of_def d1 s')
  show ?thesis
    unfolding b0 commit_balance_of [OF c(2)] commit_balance_of [OF c(1)] tx
    by (cases "balance_of (mdb s) i") auto
qed

lemma match_two_orders_made:
  assumes m: "match_two_orders env sell buy s = Inr (Some t, s')"
    and refs: "sell_ref s sell" "buy_ref s buy"
    and live: "\<not> is_spent (the_order s sell)" "\<not> is_spent (the_order s buy)"
    and cr: "crosses (the_order s sell) (the_order s buy)"
    and w: "wallet_obj (obj s sell) = Some sw" "wallet_obj (obj s buy) = Some bw"
  obtains s1 fees where "msteps env s s1" "mdb s1 = mdb s" "\<And>q. the_order s1 q = the_order s q"
    "w_id (the (wallet_obj (obj s1 sell))) = w_id sw" "w_id (the (wallet_obj (obj s1 buy))) = w_id bw"
    "trade_ready env sell buy (t_amount t) (t_price t) s1"
    "match_fees env (the_order s sell) (the_order s buy) (t_amount t) (t_price t) = Inr fees"
    "trade_effect env sell buy (t_amount t) (t_price t) (seller_is_maker (the_order s sell) (the_order s buy))
       (fst fees) (snd fees) s1 t s'"
  using m refs cr
proof (rule match_two_orders_refreshed)
  fix s1 s2 prec ma
  assume r1: "refresh_wallet env sell s = Inr s1" and r2: "refresh_wallet env buy s1 = Inr s2"
    and ord: "\<And>q. the_order s2 q = the_order s q" and ln: "length (objs s1) = length (objs s)" "length (objs s2) = length (objs s)"
    and st: "msteps env s s2"
    and w2: "wallet_obj (obj s2 sell) \<noteq> None" "wallet_obj (obj s2 buy) \<noteq> None"
    and prec: "amount_precision env = Some prec"
    and ma: "match_amount prec (match_price (the_order s sell) (the_order s buy)) (the_order s sell) (the_order s buy)
       (the (wallet_obj (obj s2 sell))) (the (wallet_obj (obj s2 buy))) = Inr ma"
    and k: "settle_match env sell buy (match_price (the_order s sell) (the_order s buy)) ma s2 = Inr (Some t, s')"
  define price where "price = match_price (the_order s sell) (the_order s buy)"
  have ne: "sell \<noteq> buy" using sell_ref_ne_buy_ref refs by blast
  have len: "sell < length (objs s)" "buy < length (objs s)" using refs by (auto simp: sell_ref_def buy_ref_def)
  note f1 = refresh_loaded [OF r1 w(1) len(1)]
  have wb1: "wallet_obj (obj s1 buy) = Some bw" using f1(3) [of buy] ne w(2) by simp
  have lb: "buy < length (objs s1)" using len ln by simp
  note f2 = refresh_loaded [OF r2 wb1 lb]
  from k obtain amount fees s3 where amt: "ma = Inr amount"
    and g: "match_guards (the_order s sell) (the_order s buy) amount price = GuardOk"
    and fees: "match_fees env (the_order s sell) (the_order s buy) amount price = Inr fees"
    and tt: "try_trade env sell buy amount price fees s2 = (Some t, s')"
    by (cases ma) (auto simp: settle_match_def rbind_eq_Inr_iff ord price_def split: match_guard.split_asm)
  from tt obtain s3 where c: "create_exchange_transactions env sell buy amount price
      (seller_is_maker (the_order s sell) (the_order s buy)) (fst fees) (snd fees) s2 = (Inr t, s3)"
    and s': "s' = update_last_price env (t_price t) s3"
    by (cases rule: try_trade_cases) (auto simp: ord)
  have len2: "sell < length (objs s2)" "buy < length (objs s2)" using len ln by auto
  note e = create_exchange_transactions_Inr [OF c len2 ne]
  have eff: "trade_effect env sell buy amount price (seller_is_maker (the_order s sell) (the_order s buy))
      (fst fees) (snd fees) s2 t s'"
    using e unfolding trade_effect_def s' by simp
  from eff have t: "t_amount t = amount" "t_price t = price"
    unfolding trade_effect_def by (auto dest: insert_trade_amount_price)
  have "trade_ready env sell buy amount price s2"
    using refs live cr w2 prec ma amt g ord len2
    by (auto simp: trade_ready_def Let_def sell_ref_def buy_ref_def price_def)
  moreover have "w_id (the (wallet_obj (obj s2 sell))) = w_id sw" "w_id (the (wallet_obj (obj s2 buy))) = w_id bw"
    using f1(2) f2(2) f2(3) [of sell] ne by auto
  ultimately show ?thesis
    using that [of s2 fees] st f1(1) f2(1) ord fees eff by (simp add: t)
qed

lemma fill_amount_exact:
  assumes "order_inv o1" "grow_order o1 a p f = Inr o2" "0 < a" "a \<le> unmatched_amount o1" "on_grid MAX_PRECISION a"
  shows "o_matched_amount o2 = o_matched_amount o1 + a" "money_field a"
proof -
  show "o_matched_amount o2 = o_matched_amount o1 + a"
    using grow_order_inv [OF assms(1,2,5) _ assms(4)] assms(3) by simp
  have i: "money_field (o_amount o1)" "0 \<le> o_matched_amount o1" using assms(1) by (simp_all add: order_inv_def)
  have "a \<le> o_amount o1" using assms(4) i(2) unmatched_amount_eq [OF assms(1)] by linarith
  with i(1) assms(5) less_imp_le [OF assms(3)] show "money_field a" by (rule money_field_between)
qed

lemma match_two_orders_failed:
  assumes m: "match_two_orders env sell buy s = Inr (None, s')"
    and refs: "sell_ref s sell" "buy_ref s buy"
    and cr: "crosses (the_order s sell) (the_order s buy)"
    and w: "wallet_obj (obj s sell) = Some sw" "wallet_obj (obj s buy) = Some bw"
  shows "mdb s' = mdb s"
  using m refs cr
proof (rule match_two_orders_refreshed)
  fix s1 s2 prec ma
  assume r1: "refresh_wallet env sell s = Inr s1" and r2: "refresh_wallet env buy s1 = Inr s2"
    and ln: "length (objs s1) = length (objs s)"
    and k: "settle_match env sell buy (match_price (the_order s sell) (the_order s buy)) ma s2 = Inr (None, s')"
  have ne: "sell \<noteq> buy" using sell_ref_ne_buy_ref refs by blast
  have len: "sell < length (objs s)" "buy < length (objs s)" using refs by (auto simp: sell_ref_def buy_ref_def)
  note f1 = refresh_loaded [OF r1 w(1) len(1)]
  have wb1: "wallet_obj (obj s1 buy) = Some bw" using f1(3) [of buy] ne w(2) by simp
  have "buy < length (objs s1)" using len ln by simp
  note f2 = refresh_loaded [OF r2 wb1 this]
  have c: "mdb (cancel_order q u) = mdb u" "mdb (cancel_trivial q u) = mdb u" for q u
    by (simp_all add: cancel_order_def cancel_trivial_def Let_def)
  have "mdb s' = mdb s2"
    using k by (cases ma)
      (auto simp: settle_match_def rbind_eq_Inr_iff c split: match_guard.split_asm if_splits elim!: try_trade_cases)
  with f1(1) f2(1) show ?thesis by simp
qed

end
