(* ===== verification/Matcher_Round.thy ===== *)
theory Matcher_Round
  imports Matcher_Steps
begin

section \<open>A matching round\<close>

text \<open>
  The outer part of \<^verbatim>\<open>src/core/exchange/matcher/matcher.py\<close>: \<open>match_all_orders_before_order\<close> with
  the expansion of the order book, \<open>match_all_orders_v3\<close>, saving and cancelling orders,
  \<open>do_matching_round\<close>, the activation of stop orders after the round, and the choice of
  pending markets. The expansion recursion ends because every expansion that finds orders
  moves a counter towards its threshold; no fuel is needed.
\<close>

subsection \<open>Matching up to an order\<close>

lemma expansion_progress:
  assumes "get_market_orders_with_expansion env b s = (q, s')" "q \<noteq> []"
  shows "(EXPANSION_THRESHOLD - fst (lens s')) + (EXPANSION_THRESHOLD - snd (lens s'))
       < (EXPANSION_THRESHOLD - fst (lens s)) + (EXPANSION_THRESHOLD - snd (lens s))"
proof -
  obtain os s1 where g: "get_orders_for_expansion env b s = (os, s1)" by fastforce
  have "os \<noteq> []" "lens s' = lens s1"
    using assms g by (auto simp: get_market_orders_with_expansion_def load_orders_def lens_def)
  with g show ?thesis
    by (auto simp: get_orders_for_expansion_def Let_def lens_def matcher_constants split: if_splits)
qed

text \<open>The lists the caller holds are extended in place, so the result carries them.\<close>

definition local_sells :: "mstate \<Rightarrow> nat option \<Rightarrow> nat list \<Rightarrow> nat list" where
  "local_sells s lst sells =
     (case lst of Some l \<Rightarrow> if is_sell (the_order s l) then [l] else sells | None \<Rightarrow> sells)"

definition local_buys :: "mstate \<Rightarrow> nat option \<Rightarrow> nat list \<Rightarrow> nat list" where
  "local_buys s lst buys =
     (case lst of Some l \<Rightarrow> if is_sell (the_order s l) then buys else [l] | None \<Rightarrow> buys)"

definition wants_expansion :: "menv \<Rightarrow> nat list \<Rightarrow> nat list \<Rightarrow> nat \<Rightarrow> mstate \<Rightarrow> bool" where
  "wants_expansion env sells buys l s \<longleftrightarrow>
     (let lo = the_order s l
      in do_expansion env \<and> \<not> is_market lo
         \<and> \<not> (is_buy lo \<and> sells \<noteq> [] \<and> o_price lo < o_price (the_order s (List.last sells)))
         \<and> \<not> (is_sell lo \<and> buys \<noteq> [] \<and> o_price (the_order s (List.last buys)) < o_price lo)
         \<and> is_active lo \<and> \<not> is_trivial lo)"

function match_all_orders_before_order ::
    "menv \<Rightarrow> nat list \<Rightarrow> nat list \<Rightarrow> nat option \<Rightarrow> mstate \<Rightarrow> ((nat list \<times> nat list) \<times> mstate) result" where
  "match_all_orders_before_order env sells buys lst s =
     rbind (sells_loop env lst (local_sells s lst sells) (local_buys s lst buys) s) (\<lambda>(fl, s1).
       if fl = Return then Inr ((sells, buys), s1)
       else case lst of
         None \<Rightarrow> Inr ((sells, buys), s1)
       | Some l \<Rightarrow>
           if \<not> wants_expansion env (local_sells s lst sells) (local_buys s lst buys) l s1
           then Inr ((sells, buys), s1)
           else let b = is_buy (the_order s1 l); r = get_market_orders_with_expansion env b s1
                in if fst r = [] then Inr ((sells, buys), snd r)
                   else match_all_orders_before_order env (if b then sells @ fst r else sells)
                          (if b then buys else buys @ fst r) lst (snd r))"
  by pat_completeness auto
termination
proof (relation "measure (\<lambda>(env, sells, buys, lst, s).
    (EXPANSION_THRESHOLD - fst (lens s)) + (EXPANSION_THRESHOLD - snd (lens s)))", simp)
  fix env sells buys lst s x fl s1 l b r
  assume lp: "sells_loop env lst (local_sells s lst sells) (local_buys s lst buys) s = Inr x" "(fl, s1) = x"
    and r: "r = get_market_orders_with_expansion env b s1" "fst r \<noteq> []"
  have "lens s1 = lens s" using lens_sells_loop lp by blast
  with expansion_progress [of env b s1 "fst r" "snd r"] r
  show "((env, if b then sells @ fst r else sells, if b then buys else buys @ fst r, lst, snd r),
      env, sells, buys, lst, s) \<in> measure (\<lambda>(env, sells, buys, lst, s).
    (EXPANSION_THRESHOLD - fst (lens s)) + (EXPANSION_THRESHOLD - snd (lens s)))"
    by simp
qed

declare match_all_orders_before_order.simps [simp del]

subsection \<open>All orders\<close>

text \<open>The class caches of a market; \<open>None\<close> as best buy price is \<open>Decimal('Inf')\<close>.\<close>

record round_cache =
  last_time :: datetime
  last_best_sell :: rat
  last_best_buy :: "rat option"

definition is_important :: "round_cache \<Rightarrow> order \<Rightarrow> bool" where
  "is_important rc o1 \<longleftrightarrow>
     is_market o1 \<or> last_time rc \<le> o_created_at o1
     \<or> (if is_sell o1 then o_price o1 < last_best_sell rc
        else (case last_best_buy rc of None \<Rightarrow> False | Some b \<Rightarrow> b < o_price o1))"

definition new_orders :: "round_cache \<Rightarrow> nat list \<Rightarrow> nat list \<Rightarrow> mstate \<Rightarrow> nat list" where
  "new_orders rc sells buys s =
     sort_key (\<lambda>r. (o_created_at (the_order s r), o_id (the_order s r)))
       (filter (\<lambda>r. is_important rc (the_order s r)) (sells @ buys))"

definition cancel_unfilled_market :: "nat \<Rightarrow> mstate \<Rightarrow> mstate" where
  "cancel_unfilled_market r s =
     (if is_market (the_order s r) \<and> is_active (the_order s r) then cancel_order r s else s)"

fun new_orders_loop ::
    "menv \<Rightarrow> nat list \<Rightarrow> nat list \<Rightarrow> nat list \<Rightarrow> datetime \<Rightarrow> mstate
     \<Rightarrow> (bool \<times> (nat list \<times> nat list) \<times> datetime \<times> mstate) result" where
  "new_orders_loop env [] sells buys lt s = Inr (False, (sells, buys), lt, s)"
| "new_orders_loop env (r # rs) sells buys lt s =
     rbind (match_all_orders_before_order env sells buys (Some r) s) (\<lambda>((sells, buys), s1).
       let s2 = cancel_unfilled_market r s1;
           lt = (if is_market (the_order s2 r) then lt else o_created_at (the_order s2 r))
       in if MAX_TRADE_PER_ROUND \<le> matches s2 then Inr (True, (sells, buys), lt, s2)
          else new_orders_loop env rs sells buys lt s2)"

fun get_best_active_price :: "mstate \<Rightarrow> nat list \<Rightarrow> datetime \<Rightarrow> rat option" where
  "get_best_active_price s [] lt = None"
| "get_best_active_price s (r # rs) lt =
     (let o1 = the_order s r
      in if is_active o1 \<and> \<not> is_market o1 \<and> o_created_at o1 \<le> lt then Some (o_price o1)
         else get_best_active_price s rs lt)"

definition save_order :: "order \<Rightarrow> order list \<Rightarrow> order list" where
  "save_order x os =
     put_order (\<lambda>row. row\<lparr>o_status := o_status x, o_fee := col10 (o_fee x),
        o_matched_amount := col10 (o_matched_amount x),
        o_matched_total_price := col10 (o_matched_total_price x)\<rparr>) (o_id x) os"

definition post_process_updated_margin_orders :: "order list \<Rightarrow> mdb \<Rightarrow> mdb" where
  "post_process_updated_margin_orders os d =
     d\<lparr>margin_changes := margin_changes d @ map o_id (filter is_margin os)\<rparr>"

definition save_bulk_pending_orders :: "mstate \<Rightarrow> mstate" where
  "save_bulk_pending_orders s =
     (let xs = map (the_order s) (pending_update s)
      in if xs = [] then s
         else s\<lparr>mdb := post_process_updated_margin_orders xs
                 ((mdb s)\<lparr>orders := fold save_order xs (orders (mdb s))\<rparr>)\<rparr>)"

definition nonzero :: "rat option \<Rightarrow> rat option" where
  "nonzero p = (case p of Some x \<Rightarrow> if x = 0 then None else Some x | None \<Rightarrow> None)"

definition match_all_orders_v3 ::
    "menv \<Rightarrow> round_cache \<Rightarrow> nat list \<Rightarrow> nat list \<Rightarrow> mstate
     \<Rightarrow> ((nat list \<times> nat list) \<times> round_cache \<times> mstate) result" where
  "match_all_orders_v3 env rc sells buys s =
     rbind (new_orders_loop env (new_orders rc sells buys s) sells buys (last_time rc) s)
       (\<lambda>(broke, (sells, buys), lt, s1).
     rbind (if broke then Inr ((sells, buys), s1)
            else match_all_orders_before_order env sells buys None s1) (\<lambda>((sells, buys), s2).
       let s3 = save_bulk_pending_orders s2
       in Inr ((sells, buys),
               \<lparr>last_time = lt,
                last_best_sell = (case nonzero (get_best_active_price s3 sells lt) of Some p \<Rightarrow> p | None \<Rightarrow> 0),
                last_best_buy = nonzero (get_best_active_price s3 buys lt)\<rparr>, s3)))"

subsection \<open>After the matching\<close>

definition is_expired_system_order :: "menv \<Rightarrow> order \<Rightarrow> bool" where
  "is_expired_system_order env o1 \<longleftrightarrow>
     o_channel o1 \<in> {Some CHANNEL_system_margin, Some CHANNEL_system_abc_liquidate}
     \<and> o_created_at o1 < clock env - MARGIN_SYSTEM_ORDERS_MAX_AGE"

definition not_updated_orders :: "menv \<Rightarrow> nat list \<Rightarrow> nat list \<Rightarrow> mstate \<Rightarrow> order list" where
  "not_updated_orders env buys sells s =
     (let updated = map (\<lambda>r. o_id (the_order s r)) (pending_update s);
          canceled = filter (\<lambda>o1. o_id o1 \<notin> set updated) (map (the_order s) (pending_canceled s));
          expired = filter (is_expired_system_order env) (map (the_order s) (buys @ sells))
      in canceled @ filter (\<lambda>o1. o_id o1 \<notin> o_id ` set canceled) expired)"

definition cancel_ids :: "nat list \<Rightarrow> order list \<Rightarrow> order list" where
  "cancel_ids ids os = map (\<lambda>o1. if o_id o1 \<in> set ids then set_status Canceled o1 else o1) os"

definition post_process_orders :: "menv \<Rightarrow> nat list \<Rightarrow> nat list \<Rightarrow> mstate \<Rightarrow> mstate" where
  "post_process_orders env buys sells s =
     (let xs = not_updated_orders env buys sells s;
          ids = map o_id xs @ List.map_filter o_pair xs
      in s\<lparr>mdb := post_process_updated_margin_orders xs
              ((mdb s)\<lparr>orders := cancel_ids ids (orders (mdb s))\<rparr>)\<rparr>)"

definition process_market_orders :: "menv \<Rightarrow> round_cache \<Rightarrow> mstate \<Rightarrow> (round_cache \<times> mstate) result" where
  "process_market_orders env rc s0 =
     (case get_market_orders env s0 of
        (sells, buys, s) \<Rightarrow>
          rbind (match_all_orders_v3 env rc sells buys s) (\<lambda>((sells, buys), rc', s1).
            Inr (rc', post_process_orders env buys sells s1)))"

definition init_state :: "menv \<Rightarrow> mdb \<Rightarrow> mstate" where
  "init_state env d =
     \<lparr>objs = [], mdb = d, validated = [], last_price_range = None, matches = 0, failures = 0,
      skipped = 0, pending_update = [], pending_canceled = [], pending_txids = [],
      shared_tether_price = tether_price env, expansion_sells_len = 0, expansion_buys_len = 0,
      last_expanded_sell = None, last_expanded_buy = None, is_orderbook_outdated = None\<rparr>"

subsection \<open>Stop orders\<close>

text \<open>
  \<open>_activate_stop_orders\<close> is one SQL statement: the rows it selects become active and get
  creation times one microsecond apart, in the order of their old ones. \<open>ts\<close> is the
  statement's time stamp. A row without a stop price never satisfies the condition.
\<close>

definition stop_triggered :: "menv \<Rightarrow> rat \<Rightarrow> rat \<Rightarrow> order \<Rightarrow> bool" where
  "stop_triggered env min_price max_price o1 \<longleftrightarrow>
     o_src o1 = src_currency env \<and> o_dst o1 = dst_currency env
     \<and> o_execution o1 \<in> set STOP_EXECUTION_TYPES \<and> o_status o1 = Inactive
     \<and> (case o_param1 o1 of
          None \<Rightarrow> False
        | Some p \<Rightarrow> o_type o1 = Sell \<and> min_price \<le> p \<or> o_type o1 = Buy \<and> p \<le> max_price)"

fun row_number :: "nat list \<Rightarrow> nat \<Rightarrow> nat" where
  "row_number [] i = 0"
| "row_number (j # js) i = (if i = j then 1 else Suc (row_number js i))"

definition activate_stop_orders ::
    "menv \<Rightarrow> datetime \<Rightarrow> rat \<Rightarrow> rat \<Rightarrow> order list \<Rightarrow> order list \<times> order list" where
  "activate_stop_orders env ts min_price max_price os =
     (let ids = map o_id (sort_key o_created_at (filter (stop_triggered env min_price max_price) os));
          act = (\<lambda>o1. (set_status Active o1)\<lparr>o_created_at := ts + int (row_number ids (o_id o1))\<rparr>);
          os' = map (\<lambda>o1. if stop_triggered env min_price max_price o1 then act o1 else o1) os
      in (map act (filter (stop_triggered env min_price max_price) os), os'))"

definition cancel_oco_order_pair :: "order list \<Rightarrow> order list \<Rightarrow> order list \<times> order list" where
  "cancel_oco_order_pair activated os =
     (let oco_pair_ids = List.map_filter o_pair activated;
          hit = (\<lambda>o1. o_execution o1 = Limit \<and> o_id o1 \<in> set oco_pair_ids \<and> o_status o1 = Active)
      in if oco_pair_ids = [] then ([], os)
         else (map (set_status Canceled) (filter hit os),
               map (\<lambda>o1. if hit o1 then set_status Canceled o1 else o1) os))"

text \<open>The range is narrowed to one percent around the mark price when there is one.\<close>

definition guarded_range :: "rat option \<Rightarrow> rat \<times> rat \<Rightarrow> rat \<times> rat" where
  "guarded_range mark_price r =
     (case nonzero mark_price of
        None \<Rightarrow> r
      | Some m \<Rightarrow> (max (fst r) (dmul m (dsub 1 STOPLOSS_ACTIVATION_MARK_PRICE_GUARD_RATE)),
                   min (snd r) (dmul m (dadd 1 STOPLOSS_ACTIVATION_MARK_PRICE_GUARD_RATE))))"

definition update_oco_positions :: "order list \<Rightarrow> mdb \<Rightarrow> mdb" where
  "update_oco_positions pair_orders d =
     d\<lparr>margin_changes := margin_changes d @ map o_id (filter is_margin pair_orders)\<rparr>"

text \<open>The result names the range that the liquidation task gets, when the task is started.\<close>

definition post_processing_matcher_round ::
    "menv \<Rightarrow> datetime \<Rightarrow> rat option \<Rightarrow> (rat \<times> rat) option \<Rightarrow> mdb \<Rightarrow> (rat \<times> rat) option \<times> mdb" where
  "post_processing_matcher_round env ts mark_price price_range d =
     (case price_range of
        None \<Rightarrow> (None, d)
      | Some (lo, hi) \<Rightarrow>
          if \<not> validate_price_range env lo hi then (None, d)
          else let (lo', hi') = guarded_range mark_price (lo, hi);
                   (activated, os1) = activate_stop_orders env ts lo' hi' (orders d);
                   (pairs, os2) = (if activated = [] then ([], os1) else cancel_oco_order_pair activated os1)
               in (Some (lo', hi'), update_oco_positions pairs (d\<lparr>orders := os2\<rparr>)))"

subsection \<open>The round\<close>

text \<open>
  \<open>do_matching_round\<close>: an error undoes the whole round. Markets of the asynchronous stop
  process leave their price range in a cache instead.
\<close>

record round_result =
  rr_cache :: round_cache
  rr_state :: mstate
  rr_liquidate :: "(rat \<times> rat) option"

definition do_matching_round ::
    "menv \<Rightarrow> bool \<Rightarrow> datetime \<Rightarrow> rat option \<Rightarrow> round_cache \<Rightarrow> mdb \<Rightarrow> round_result result" where
  "do_matching_round env async_stop ts mark_price rc d =
     rbind (process_market_orders env rc (init_state env d)) (\<lambda>(rc', s).
       if async_stop then Inr \<lparr>rr_cache = rc', rr_state = s, rr_liquidate = None\<rparr>
       else let r = post_processing_matcher_round env ts mark_price (last_price_range s) (mdb s)
            in Inr \<lparr>rr_cache = rc', rr_state = s\<lparr>mdb := snd r\<rparr>, rr_liquidate = fst r\<rparr>)"

text \<open>The markets to run next, from the two cached counters; the counters read are reset.\<close>

definition get_cache_based_pending_markets ::
    "nat list \<Rightarrow> (nat \<rightharpoonup> nat) \<Rightarrow> (nat \<rightharpoonup> nat) \<Rightarrow> nat list \<times> (nat \<rightharpoonup> nat) \<times> (nat \<rightharpoonup> nat)" where
  "get_cache_based_pending_markets markets skips market_orders =
     (let truthy = (\<lambda>c m. case c m of Some n \<Rightarrow> n \<noteq> 0 | None \<Rightarrow> False);
          reset = (\<lambda>c m. if m \<in> set markets \<and> truthy c m then Some 0 else c m)
      in (filter (\<lambda>m. truthy skips m \<or> truthy market_orders m) markets, reset skips, reset market_orders))"

subsection \<open>Order of the book\<close>

text \<open>The priority of the book: market orders, then price, then time.\<close>

definition sell_before :: "order \<Rightarrow> order \<Rightarrow> bool" where
  "sell_before a b \<longleftrightarrow> sell_key a < sell_key b \<or> sell_key a = sell_key b \<and> o_created_at a \<le> o_created_at b"

definition buy_before :: "order \<Rightarrow> order \<Rightarrow> bool" where
  "buy_before a b \<longleftrightarrow> buy_key b < buy_key a \<or> buy_key a = buy_key b \<and> o_created_at a \<le> o_created_at b"

lemma stable_sort_wrt:
  fixes f :: "'a \<Rightarrow> 'k :: linorder"
  assumes "sorted_wrt T xs"
  shows "sorted_wrt (\<lambda>a b. f a < f b \<or> f a = f b \<and> T a b) (sort_key f xs)"
  using assms
proof (induction xs)
  case (Cons x xs)
  have ins: "sorted_wrt (\<lambda>a b. f a < f b \<or> f a = f b \<and> T a b) (insort_key f x ys)"
    if "sorted_wrt (\<lambda>a b. f a < f b \<or> f a = f b \<and> T a b) ys" "\<forall>y \<in> set ys. T x y" for ys
    using that by (induction ys) (auto simp: set_insort_key)
  show ?case using Cons by (auto intro!: ins)
qed simp

lemma sort_sells_before:
  "sorted_wrt (\<lambda>a b. o_created_at a \<le> o_created_at b) os \<Longrightarrow> sorted_wrt sell_before (sort_sells os)"
  unfolding sort_sells_def sell_before_def by (rule stable_sort_wrt)

lemma sort_buys_before:
  assumes "sorted_wrt (\<lambda>a b. o_created_at a \<le> o_created_at b) os"
  shows "sorted_wrt buy_before (sort_buys os)"
proof -
  have "sorted_wrt (\<lambda>b a. o_created_at a \<le> o_created_at b) (rev os)"
    using assms by (simp add: sorted_wrt_rev)
  from stable_sort_wrt [OF this, of buy_key] show ?thesis
    unfolding sort_buys_def buy_before_def sorted_wrt_rev
    by (rule sorted_wrt_mono_rel [rotated]) auto
qed

lemma get_orders_sorted: "sorted_wrt (\<lambda>a b. o_created_at a \<le> o_created_at b) (get_orders env os)"
  unfolding get_orders_def using sorted_sort_key [of o_created_at] by (simp add: sorted_map)

lemma load_orders_list:
  "load_orders os s = (rs, s') \<Longrightarrow> map (the_order s') rs = os \<and> mdb s' = mdb s
     \<and> (\<forall>r \<in> set rs. r < length (objs s')) \<and> heap_le s s'"
  by (auto simp: load_orders_def the_order_def obj_def nth_append heap_le_def intro!: nth_equalityI)

lemma load_orders_same: "load_orders os s = (rs, s') \<Longrightarrow> r < length (objs s) \<Longrightarrow> the_order s' r = the_order s r"
  by (auto simp: load_orders_def the_order_def obj_def nth_append)

lemma get_market_orders_book:
  assumes "get_market_orders env s = (sells, buys, s')"
  shows "map (the_order s') sells = sort_sells (filter is_sell (get_orders env (orders (mdb s))))"
    "map (the_order s') buys = sort_buys (filter is_buy (get_orders env (orders (mdb s))))"
    "mdb s' = mdb s" "heap_le s s'"
    "\<forall>r \<in> set sells. r < length (objs s')" "\<forall>r \<in> set buys. r < length (objs s')"
proof -
  define s0 where "s0 = (if uses_orderbook_criteria env \<and> use_runtime_limit env
               then s\<lparr>is_orderbook_outdated := Some (outdated env)\<rparr> else s)"
  have s0: "objs s0 = objs s" "mdb s0 = mdb s" by (simp_all add: s0_def)
  obtain s1 where l1: "load_orders (sort_sells (filter is_sell (get_orders env (orders (mdb s))))) s0 = (sells, s1)"
    and l2: "load_orders (sort_buys (filter is_buy (get_orders env (orders (mdb s))))) s1 = (buys, s')"
    using assms unfolding get_market_orders_def s0_def [symmetric] Let_def s0(2)
    by (auto split: prod.split_asm)
  note f1 = load_orders_list [OF l1] and f2 = load_orders_list [OF l2]
  have "map (the_order s') sells = map (the_order s1) sells"
    by (rule map_cong [OF refl]) (use load_orders_same [OF l2] f1 in auto)
  with f1 show "map (the_order s') sells = sort_sells (filter is_sell (get_orders env (orders (mdb s))))" by simp
  show "map (the_order s') buys = sort_buys (filter is_buy (get_orders env (orders (mdb s))))" "mdb s' = mdb s"
    "\<forall>r \<in> set buys. r < length (objs s')"
    using f1 f2 s0 by simp_all
  show "heap_le s s'" using f1 f2 heap_le_trans heap_le_same_objs [OF s0(1)] by blast
  show "\<forall>r \<in> set sells. r < length (objs s')" using f1 f2 by (auto simp: heap_le_def)
qed

subsection \<open>A round is a sequence of steps\<close>

lemma local_refs:
  assumes "\<forall>a \<in> set sells. sell_ref s a" "\<forall>b \<in> set buys. buy_ref s b"
    and "\<forall>l. lst = Some l \<longrightarrow> sell_ref s l \<or> buy_ref s l"
  shows "\<forall>a \<in> set (local_sells s lst sells). sell_ref s a" "\<forall>b \<in> set (local_buys s lst buys). buy_ref s b"
  using assms by (auto simp: local_sells_def local_buys_def sell_ref_def buy_ref_def is_sell_iff split: option.splits)

lemma expansion_refs:
  assumes "get_market_orders_with_expansion env b s = (q, s')"
  shows "\<forall>r \<in> set q. if b then sell_ref s' r else buy_ref s' r"
proof -
  obtain os s1 where g: "get_orders_for_expansion env b s = (os, s1)" by fastforce
  have tp: "\<forall>o1 \<in> set os. o_type o1 = (if b then Sell else Buy)"
    using g by (auto simp: get_orders_for_expansion_def Let_def expansion_filter_def split: if_splits
        dest!: in_set_takeD)
  have l: "load_orders os s1 = (q, s')" using assms g by (simp add: get_market_orders_with_expansion_def)
  note f = load_orders_list [OF l]
  have "the_order s' r \<in> set os" if "r \<in> set q" for r using f that by (metis image_eqI set_map)
  with tp f show ?thesis by (auto simp: sell_ref_def buy_ref_def order_props)
qed

lemma before_order_steps:
  assumes "match_all_orders_before_order env sells buys lst s = Inr ((sells', buys'), s')"
    and "\<forall>a \<in> set sells. sell_ref s a" "\<forall>b \<in> set buys. buy_ref s b"
    and "\<forall>l. lst = Some l \<longrightarrow> sell_ref s l \<or> buy_ref s l"
  shows "msteps env s s' \<and> (\<forall>a \<in> set sells'. sell_ref s' a) \<and> (\<forall>b \<in> set buys'. buy_ref s' b)"
  using assms
proof (induction env sells buys lst s rule: match_all_orders_before_order.induct)
  case (1 env sells buys lst s)
  from "1.prems"(1) obtain fl s1 where
    lp: "sells_loop env lst (local_sells s lst sells) (local_buys s lst buys) s = Inr (fl, s1)"
    by (subst (asm) match_all_orders_before_order.simps) (auto simp: rbind_eq_Inr_iff)
  have st: "msteps env s s1" using sells_loop_steps [OF lp local_refs] "1.prems"(2-4) by blast
  have refs1: "\<forall>a \<in> set sells. sell_ref s1 a" "\<forall>b \<in> set buys. buy_ref s1 b"
    "\<forall>l. lst = Some l \<longrightarrow> sell_ref s1 l \<or> buy_ref s1 l"
    using refs_steps [OF st] "1.prems"(2-4) by blast+
  note unfold = "1.prems"(1) [unfolded match_all_orders_before_order.simps [of env sells buys lst s] lp rbind_Inr split_conv]
  show ?case
  proof (cases "fl \<noteq> Return \<and> (\<exists>l. lst = Some l
      \<and> wants_expansion env (local_sells s lst sells) (local_buys s lst buys) l s1)")
    case False
    then have "((sells', buys'), s') = ((sells, buys), s1)"
      using unfold by (auto split: if_splits option.split_asm)
    with st refs1 show ?thesis by simp
  next
    case True
    then obtain l where l: "lst = Some l" "fl \<noteq> Return"
      "wants_expansion env (local_sells s lst sells) (local_buys s lst buys) l s1" by blast
    define b where "b = is_buy (the_order s1 l)"
    obtain q s2 where g: "get_market_orders_with_expansion env b s1 = (q, s2)" by fastforce
    have st2: "msteps env s s2" using st one_step(8) [OF g] by (rule rtranclp_trans)
    have le: "heap_le s1 s2" by (rule heap_le_expand [OF g])
    have refs2: "\<forall>a \<in> set sells. sell_ref s2 a" "\<forall>b \<in> set buys. buy_ref s2 b"
      "\<forall>l. lst = Some l \<longrightarrow> sell_ref s2 l \<or> buy_ref s2 l"
      using refs1 heap_le_refs [OF le] by blast+
    show ?thesis
    proof (cases "q = []")
      case True
      then have "((sells', buys'), s') = ((sells, buys), s2)"
        using unfold l g by (simp add: Let_def b_def [symmetric])
      with st2 refs2 show ?thesis by simp
    next
      case False
      have rec: "match_all_orders_before_order env (if b then sells @ q else sells) (if b then buys else buys @ q) lst s2
          = Inr ((sells', buys'), s')"
        using unfold l g False by (cases "is_buy (the_order s1 l)") (simp_all add: Let_def b_def)
      have "msteps env s2 s' \<and> (\<forall>a \<in> set sells'. sell_ref s' a) \<and> (\<forall>b \<in> set buys'. buy_ref s' b)"
        using "1.IH" [OF lp refl l(2) l(1) _ b_def refl] l(3) g False rec refs2 expansion_refs [OF g]
        by (cases b) auto
      with st2 show ?thesis by (blast intro: rtranclp_trans)
    qed
  qed
qed

lemma cancel_unfilled_steps: "sell_ref s r \<or> buy_ref s r \<Longrightarrow> msteps env s (cancel_unfilled_market r s)"
  by (auto simp: cancel_unfilled_market_def sell_ref_def buy_ref_def intro: one_step(1))

lemma new_orders_loop_steps:
  assumes "new_orders_loop env rs sells buys lt s = Inr (broke, (sells', buys'), lt', s')"
    and "\<forall>a \<in> set sells. sell_ref s a" "\<forall>b \<in> set buys. buy_ref s b"
    and "\<forall>r \<in> set rs. sell_ref s r \<or> buy_ref s r"
  shows "msteps env s s' \<and> (\<forall>a \<in> set sells'. sell_ref s' a) \<and> (\<forall>b \<in> set buys'. buy_ref s' b)"
  using assms
proof (induction rs arbitrary: sells buys lt s)
  case (Cons r rs)
  from Cons.prems(1) obtain se bu s1 where
    m: "match_all_orders_before_order env sells buys (Some r) s = Inr ((se, bu), s1)"
    by (auto simp: rbind_eq_Inr_iff)
  have st1: "msteps env s s1" and refs1: "\<forall>a \<in> set se. sell_ref s1 a" "\<forall>b \<in> set bu. buy_ref s1 b"
    using before_order_steps [OF m] Cons.prems(2-4) by auto
  define s2 where "s2 = cancel_unfilled_market r s1"
  have "msteps env s1 s2"
    unfolding s2_def using refs_steps [OF st1] Cons.prems(4) by (intro cancel_unfilled_steps) auto
  with st1 have st2: "msteps env s s2" and st12: "msteps env s1 s2" by auto
  have refs2: "\<forall>a \<in> set se. sell_ref s2 a" "\<forall>b \<in> set bu. buy_ref s2 b" "\<forall>q \<in> set rs. sell_ref s2 q \<or> buy_ref s2 q"
    using refs1 refs_steps [OF st12] refs_steps [OF st2] Cons.prems(4) by auto
  define lt2 where "lt2 = (if is_market (the_order s2 r) then lt else o_created_at (the_order s2 r))"
  have k: "(if MAX_TRADE_PER_ROUND \<le> matches s2 then Inr (True, (se, bu), lt2, s2)
      else new_orders_loop env rs se bu lt2 s2) = Inr (broke, (sells', buys'), lt', s')"
    unfolding lt2_def s2_def using Cons.prems(1) m by (simp add: Let_def split del: if_split)
  show ?case
  proof (cases "MAX_TRADE_PER_ROUND \<le> matches s2")
    case True
    with k st2 refs2 show ?thesis by simp
  next
    case False
    with k have "msteps env s2 s' \<and> (\<forall>a \<in> set sells'. sell_ref s' a) \<and> (\<forall>b \<in> set buys'. buy_ref s' b)"
      using Cons.IH refs2 by simp
    with st2 show ?thesis by (blast intro: rtranclp_trans)
  qed
qed simp

lemma v3_steps:
  assumes "match_all_orders_v3 env rc sells buys s = Inr ((sells', buys'), rc', s')"
    and refs: "\<forall>a \<in> set sells. sell_ref s a" "\<forall>b \<in> set buys. buy_ref s b"
  shows "\<exists>s2. msteps env s s2 \<and> s' = save_bulk_pending_orders s2
     \<and> (\<forall>a \<in> set sells'. sell_ref s2 a) \<and> (\<forall>b \<in> set buys'. buy_ref s2 b)"
proof -
  from assms(1) obtain broke se bu lt s1 s2 where
    l: "new_orders_loop env (new_orders rc sells buys s) sells buys (last_time rc) s = Inr (broke, (se, bu), lt, s1)"
    and k: "(if broke then Inr ((se, bu), s1) else match_all_orders_before_order env se bu None s1) = Inr ((sells', buys'), s2)"
    and s': "s' = save_bulk_pending_orders s2"
    by (auto simp: match_all_orders_v3_def rbind_eq_Inr_iff Let_def)
  have "\<forall>r \<in> set (new_orders rc sells buys s). sell_ref s r \<or> buy_ref s r"
    using refs by (auto simp: new_orders_def)
  note st1 = new_orders_loop_steps [OF l refs this]
  have "msteps env s1 s2 \<and> (\<forall>a \<in> set sells'. sell_ref s2 a) \<and> (\<forall>b \<in> set buys'. buy_ref s2 b)"
  proof (cases broke)
    case True
    with k st1 show ?thesis by simp
  next
    case False
    with k st1 before_order_steps [of env se bu None s1 sells' buys' s2] show ?thesis by simp
  qed
  with st1 s' show ?thesis by (blast intro: rtranclp_trans)
qed

lemma book_refs:
  assumes g: "get_market_orders env s = (sells, buys, s')"
  shows "\<forall>a \<in> set sells. sell_ref s' a" "\<forall>b \<in> set buys. buy_ref s' b"
proof -
  note f = get_market_orders_book [OF g]
  have "the_order s' r \<in> set (sort_sells (filter is_sell (get_orders env (orders (mdb s)))))" if "r \<in> set sells" for r
    using that f(1) by (metis image_eqI set_map)
  then show "\<forall>a \<in> set sells. sell_ref s' a" using f(5) by (auto simp: sell_ref_def sort_sells_def)
  have "the_order s' r \<in> set (sort_buys (filter is_buy (get_orders env (orders (mdb s)))))" if "r \<in> set buys" for r
    using that f(2) by (metis image_eqI set_map)
  then show "\<forall>b \<in> set buys. buy_ref s' b" using f(6) by (auto simp: buy_ref_def sort_buys_def)
qed

lemma book_minv:
  assumes g: "get_market_orders env s = (sells, buys, s')" and inv: "minv s"
  shows "minv s'"
proof -
  define s0 where "s0 = (if uses_orderbook_criteria env \<and> use_runtime_limit env
               then s\<lparr>is_orderbook_outdated := Some (outdated env)\<rparr> else s)"
  have s0: "minv s0" "mdb s0 = mdb s" using inv by (auto simp: s0_def intro: minv_same_objs)
  have rows: "list_all order_inv (orders (mdb s))" using inv by (simp add: minv_def)
  obtain s1 where l1: "load_orders (sort_sells (filter is_sell (get_orders env (orders (mdb s))))) s0 = (sells, s1)"
    and l2: "load_orders (sort_buys (filter is_buy (get_orders env (orders (mdb s))))) s1 = (buys, s')"
    using g unfolding get_market_orders_def s0_def [symmetric] Let_def s0(2) by (auto split: prod.split_asm)
  have "minv s1" using load_orders_minv [OF s0(1) l1] rows
    by (auto simp: list_all_iff sort_sells_def get_orders_def)
  then show ?thesis using load_orders_minv [OF _ l2] rows
    by (auto simp: list_all_iff sort_buys_def get_orders_def)
qed

subsection \<open>Rows and objects\<close>

text \<open>
  An object stems from a row and agrees with it on everything that never changes; the ids
  waiting to be saved or cancelled name objects.
\<close>

definition linked :: "mstate \<Rightarrow> bool" where
  "linked s \<longleftrightarrow> distinct (map o_id (orders (mdb s)))
     \<and> (\<forall>r < length (objs s). \<forall>row \<in> set (orders (mdb s)).
          o_id row = o_id (the_order s r) \<longrightarrow> order_key row = order_key (the_order s r))
     \<and> (\<forall>r < length (objs s). order_key (the_order s r) \<in> set (map order_key (orders (mdb s))))"

definition pend_ok :: "mstate \<Rightarrow> bool" where
  "pend_ok s \<longleftrightarrow> (\<forall>r \<in> set (pending_update s) \<union> set (pending_canceled s). r < length (objs s))"

lemma step_rows:
  assumes "mstep env s s'"
  shows "map (set_status New) (orders (mdb s')) = map (set_status New) (orders (mdb s))"
  using assms
proof cases
  case (step_trade sell buy amount price fees m)
  have r: "sell < length (objs s)" "buy < length (objs s)" "sell \<noteq> buy"
    using step_trade(1) sell_ref_ne_buy_ref by (auto simp: trade_ready_def Let_def sell_ref_def buy_ref_def)
  from step_trade(3) show ?thesis
  proof (cases rule: try_trade_cases)
    case (made t s1)
    from create_exchange_transactions_Inr [OF made(3) r] made(2) show ?thesis
      unfolding trade_effect_def by auto
  qed simp
next
  case (step_load r w)
  with load_wallet_cases [OF step_load(2)] show ?thesis
    by (auto dest!: get_providing_wallet_cases get_user_wallet_db(1))
next
  case (step_expand b q)
  then show ?thesis
    by (auto simp: get_market_orders_with_expansion_def load_orders_def split: prod.split_asm
        dest!: get_orders_for_expansion_objs)
qed (auto simp: cancel_order_def Let_def count_match_def)

lemma same_but_status_keys:
  assumes "map (set_status New) os' = map (set_status New) os"
  shows "map order_key os' = map order_key os"
proof -
  have "map order_key xs = map order_key (map (set_status New) xs)" for xs by simp
  with assms show ?thesis by metis
qed

lemma linked_keys:
  assumes "linked s" "map order_key (orders (mdb s')) = map order_key (orders (mdb s))"
    and "\<And>r. r < length (objs s') \<Longrightarrow> (r < length (objs s) \<and> order_key (the_order s' r) = order_key (the_order s r))
      \<or> (\<exists>row \<in> set (orders (mdb s)). order_key (the_order s' r) = order_key row)"
  shows "linked s'"
proof -
  have ids: "map o_id (orders (mdb s')) = map o_id (orders (mdb s))"
  proof -
    have "map o_id xs = map fst (map order_key xs)" for xs by (simp add: order_key_def)
    with assms(2) show ?thesis by metis
  qed
  have rows: "\<exists>row' \<in> set (orders (mdb s)). order_key row' = order_key row" if "row \<in> set (orders (mdb s'))" for row
    using that assms(2) by (metis (no_types, lifting) image_iff set_map)
  have "order_key row = order_key (the_order s' r)"
    if r: "r < length (objs s')" and row: "row \<in> set (orders (mdb s'))" "o_id row = o_id (the_order s' r)" for r row
  proof -
    from rows [OF row(1)] obtain row0 where row0: "row0 \<in> set (orders (mdb s))" "order_key row0 = order_key row" by blast
    have id0: "o_id row0 = o_id (the_order s' r)" using order_key_eqD(1) [OF row0(2)] row(2) by simp
    from assms(3) [OF r] show ?thesis
    proof
      assume a: "r < length (objs s) \<and> order_key (the_order s' r) = order_key (the_order s r)"
      then have "o_id row0 = o_id (the_order s r)" using id0 order_key_eqD(1) by metis
      with a assms(1) row0 show ?thesis by (auto simp: linked_def)
    next
      assume "\<exists>row1 \<in> set (orders (mdb s)). order_key (the_order s' r) = order_key row1"
      then obtain row1 where row1: "row1 \<in> set (orders (mdb s))" "order_key (the_order s' r) = order_key row1" by blast
      then have "o_id row1 = o_id row0" using id0 order_key_eqD(1) by metis
      moreover have "inj_on o_id (set (orders (mdb s)))"
        using assms(1) by (simp add: linked_def distinct_map)
      ultimately have "row1 = row0" using row0(1) row1(1) by (auto dest: inj_onD)
      with row0(2) row1(2) show ?thesis by simp
    qed
  qed
  moreover have "order_key (the_order s' r) \<in> set (map order_key (orders (mdb s')))" if "r < length (objs s')" for r
    using assms(3) [OF that] assms(1) unfolding assms(2) by (auto simp: linked_def)
  ultimately show ?thesis using assms(1) ids by (simp add: linked_def)
qed

lemma load_orders_linked:
  assumes "linked s" "load_orders os s = (rs, s')" "set os \<subseteq> set (orders (mdb s))"
  shows "linked s'"
proof (rule linked_keys [OF assms(1)])
  show "map order_key (orders (mdb s')) = map order_key (orders (mdb s))"
    using assms(2) by (auto simp: load_orders_def)
  fix r assume r: "r < length (objs s')"
  show "(r < length (objs s) \<and> order_key (the_order s' r) = order_key (the_order s r))
      \<or> (\<exists>row \<in> set (orders (mdb s)). order_key (the_order s' r) = order_key row)"
  proof (cases "r < length (objs s)")
    case True
    with load_orders_same [OF assms(2)] show ?thesis by simp
  next
    case False
    have "the_order s' r \<in> set os"
      using False r assms(2) by (auto simp: load_orders_def the_order_def obj_def nth_append)
    with assms(3) show ?thesis by auto
  qed
qed

lemma linked_same:
  "linked s \<Longrightarrow> heap_le s s' \<Longrightarrow> map (set_status New) (orders (mdb s')) = map (set_status New) (orders (mdb s))
   \<Longrightarrow> length (objs s') = length (objs s) \<Longrightarrow> linked s'"
  by (rule linked_keys [of s s']) (auto simp: heap_le_def intro: same_but_status_keys)

lemma linked_step:
  assumes st: "mstep env s s'" and l: "linked s"
  shows "linked s'"
  using st
proof cases
  case (step_expand b q)
  obtain os s1 where g: "get_orders_for_expansion env b s = (os, s1)" by fastforce
  have "set os \<subseteq> set (orders (mdb s))"
    using g by (auto simp: get_orders_for_expansion_def Let_def split: if_splits dest!: in_set_takeD)
  moreover have s1: "objs s1 = objs s" "mdb s1 = mdb s" using get_orders_for_expansion_objs [OF g] by auto
  moreover have "linked s1" using l s1 by (simp add: linked_def the_order_def obj_def)
  moreover have "load_orders os s1 = (q, s')"
    using step_expand g by (simp add: get_market_orders_with_expansion_def)
  ultimately show ?thesis using load_orders_linked [of s1 os q s'] by simp
next
  case (step_trade sell buy amount price fees m)
  have "length (objs s') = length (objs s)"
  proof -
    have r: "sell < length (objs s)" "buy < length (objs s)"
      and w: "wallet_obj (obj s sell) \<noteq> None" "wallet_obj (obj s buy) \<noteq> None"
      using step_trade(1) by (auto simp: trade_ready_def Let_def sell_ref_def buy_ref_def)
    have "length (objs s1) = length (objs s)" if c: "create_exchange_transactions env sell buy amount price
         (seller_is_maker (the_order s sell) (the_order s buy)) (fst fees) (snd fees) s = (x, s1)" for x s1
    proof -
      obtain s6 where s6: "wallets_only s s6" "filled_from sell buy amount price s6 s1"
        using create_exchange_transactions_outcome [OF c r w] by blast
      then show ?thesis
        by (auto simp: filled_from_def wallets_only_def fill_object_Inr)
    qed
    with step_trade(3) show ?thesis by (auto elim!: try_trade_cases)
  qed
  then show ?thesis by (rule linked_same [OF l heap_le_step [OF st] step_rows [OF st]])
next
  case (step_load r w)
  then have "length (objs s') = length (objs s)" by (auto dest!: load_wallet_cases)
  then show ?thesis by (rule linked_same [OF l heap_le_step [OF st] step_rows [OF st]])
qed (use l heap_le_step [OF st] step_rows [OF st] in
    \<open>auto intro: linked_same simp: cancel_order_def Let_def count_match_def\<close>)

interpretation linked_machine: invariant_machine "mstep env" linked for env
  by unfold_locales (rule linked_step)

lemmas linked_steps = linked_machine.run_keeps

subsection \<open>Pending sets\<close>

lemma set_add_by_key: "set (add_by_key s r rs) \<subseteq> insert r (set rs)"
  by (auto simp: add_by_key_def)

lemma pend_commit_trade: "commit_trade t sell buy s = (m, s') \<Longrightarrow>
    pending_update s' = pending_update s \<and> pending_canceled s' = pending_canceled s"
  by (auto simp: commit_trade_def fill_object_Inr set_obj_def split: sum.split_asm)

lemma pend_commit_from: "commit_from r tx s = Inr (tx', s') \<Longrightarrow>
    pending_update s' = pending_update s \<and> pending_canceled s' = pending_canceled s"
  by (auto simp: commit_from_Inr set_wallet_def set_obj_def)

lemma pend_create:
  assumes "create_exchange_transactions env sell buy a p k sf bf s = (m, s')"
  shows "set (pending_update s') \<subseteq> {sell, buy} \<union> set (pending_update s) \<and> pending_canceled s' = pending_canceled s"
proof -
  have rp: "set (pending_update (record_pending t t1 t2 sell buy s3)) \<subseteq> {sell, buy} \<union> set (pending_update s3)"
    "pending_canceled (record_pending t t1 t2 sell buy s3) = pending_canceled s3" for t t1 t2 s3
    using set_add_by_key [of s3 buy "add_by_key s3 sell (pending_update s3)"]
      set_add_by_key [of s3 sell "pending_update s3"] by (auto simp: record_pending_def)
  show ?thesis
    using assms unfolding create_exchange_transactions_def
    by (auto split: sum.split_asm prod.split_asm dest!: pend_commit_from pend_commit_trade simp: rp(2)
        dest!: subsetD [OF rp(1)])
qed

lemma pend_step:
  assumes st: "mstep env s s'" and ok: "pend_ok s"
  shows "pend_ok s'"
proof -
  have le: "length (objs s) \<le> length (objs s')" using heap_le_step [OF st] by (simp add: heap_le_def)
  have keep: ?thesis if "set (pending_update s') \<union> set (pending_canceled s')
      \<subseteq> {r. r < length (objs s)} \<union> set (pending_update s) \<union> set (pending_canceled s)"
    unfolding pend_ok_def
  proof
    fix r assume "r \<in> set (pending_update s') \<union> set (pending_canceled s')"
    then have "r \<in> {r. r < length (objs s)} \<union> set (pending_update s) \<union> set (pending_canceled s)"
      using that by blast
    then have "r < length (objs s)" using ok by (auto simp: pend_ok_def)
    then show "r < length (objs s')" using le by simp
  qed
  from st show ?thesis
  proof cases
    case (step_cancel r)
    then show ?thesis
      using set_add_by_key [of "set_obj r ((obj s r)\<lparr>ob := set_status Canceled (the_order s r)\<rparr>) s" r "pending_canceled s"]
      by (intro keep) (auto simp: cancel_order_def Let_def set_obj_def)
  next
    case (step_trade sell buy amount price fees m)
    have r: "sell < length (objs s)" "buy < length (objs s)"
      using step_trade(1) by (auto simp: trade_ready_def Let_def sell_ref_def buy_ref_def)
    from step_trade(3) show ?thesis
    proof (cases rule: try_trade_cases)
      case (failed e s1)
      with pend_create [OF failed(3)] r show ?thesis by (intro keep) auto
    next
      case (made t s1)
      with pend_create [OF made(3)] r show ?thesis
        by (intro keep) (auto simp: update_last_price_def Let_def split: if_splits)
    qed
  next
    case (step_load r w)
    then show ?thesis by (intro keep) (auto dest!: load_wallet_cases simp: set_wallet_def set_obj_def)
  next
    case (step_expand b q)
    then show ?thesis
      by (intro keep) (auto simp: get_market_orders_with_expansion_def load_orders_def get_orders_for_expansion_def
          Let_def split: prod.split_asm if_splits)
  qed (use ok in \<open>auto simp: pend_ok_def set_wallet_def set_obj_def count_match_def\<close>)
qed

interpretation pend_machine: invariant_machine "mstep env" pend_ok for env
  by unfold_locales (rule pend_step)

lemmas pend_steps = pend_machine.run_keeps

subsection \<open>Saving the orders\<close>

lemma save_order_ids [simp]: "map o_id (save_order x os) = map o_id os"
  unfolding save_order_def by (rule ids_put_order) simp

lemma save_order_keys: "map order_key (save_order x os) = map order_key os"
  by (induction os) (simp_all add: save_order_def put_order_def order_key_def)

lemma fold_save_keys: "map order_key (fold save_order xs os) = map order_key os"
  by (induction xs arbitrary: os) (simp_all add: save_order_keys)

lemma save_order_inv:
  assumes "list_all order_inv os" "order_inv x" "\<And>row. row \<in> set os \<Longrightarrow> o_id row = o_id x \<Longrightarrow> o_amount row = o_amount x"
  shows "list_all order_inv (save_order x os)"
proof -
  have "col10 (o_matched_amount x) = o_matched_amount x"
    using assms(2) by (auto simp: order_inv_def intro: col10_fix money_field_grid)
  with assms show ?thesis
    by (auto simp: save_order_def put_order_def list_all_iff order_inv_def)
qed

lemma amounts_by_key:
  assumes "map order_key os' = map order_key os" "\<And>row. row \<in> set os \<Longrightarrow> o_id row = i \<Longrightarrow> o_amount row = a"
  shows "row \<in> set os' \<Longrightarrow> o_id row = i \<Longrightarrow> o_amount row = a"
proof -
  assume "row \<in> set os'" "o_id row = i"
  then have "order_key row \<in> set (map order_key os)" using assms(1) by (metis imageI set_map)
  then obtain row0 where r: "row0 \<in> set os" "order_key row0 = order_key row" by auto
  from order_key_eqD(1,7) [OF r(2)] assms(2) [OF r(1)] \<open>o_id row = i\<close> show ?thesis by simp
qed

lemma fold_save_inv:
  assumes "list_all order_inv os" "\<And>x. x \<in> set xs \<Longrightarrow> order_inv x"
    and "\<And>x row. x \<in> set xs \<Longrightarrow> row \<in> set os \<Longrightarrow> o_id row = o_id x \<Longrightarrow> o_amount row = o_amount x"
  shows "list_all order_inv (fold save_order xs os)"
  using assms
proof (induction xs arbitrary: os)
  case (Cons x xs)
  have "list_all order_inv (save_order x os)"
    using Cons.prems(1) by (rule save_order_inv) (rule Cons.prems(2,3); simp)+
  moreover have "o_amount row = o_amount y" if "y \<in> set xs" "row \<in> set (save_order x os)" "o_id row = o_id y" for y row
    by (rule amounts_by_key [OF save_order_keys _ that(2,3)], rule Cons.prems(3)) (use that(1) in simp_all)
  ultimately show ?case using Cons.IH Cons.prems(2) by simp
qed simp

lemma saved_db:
  assumes "minv s" "linked s" "pend_ok s"
  shows "ledger_inv (mdb (save_bulk_pending_orders s))" "solvent (mdb (save_bulk_pending_orders s))"
    "list_all order_inv (orders (mdb (save_bulk_pending_orders s)))"
    "trades (mdb (save_bulk_pending_orders s)) = trades (mdb s)"
    "objs (save_bulk_pending_orders s) = objs s" "pending_update (save_bulk_pending_orders s) = pending_update s"
    "pending_canceled (save_bulk_pending_orders s) = pending_canceled s"
    "last_price_range (save_bulk_pending_orders s) = last_price_range s"
proof -
  have "list_all order_inv (fold save_order (map (the_order s) (pending_update s)) (orders (mdb s)))"
  proof (rule fold_save_inv)
    show "list_all order_inv (orders (mdb s))" using assms(1) by (simp add: minv_def)
    fix x assume "x \<in> set (map (the_order s) (pending_update s))"
    then obtain r where r: "x = the_order s r" "r < length (objs s)"
      using assms(3) by (auto simp: pend_ok_def)
    then show "order_inv x" using minv_order [OF assms(1)] by simp
    fix row assume "row \<in> set (orders (mdb s))" "o_id row = o_id x"
    then have "order_key row = order_key x" using assms(2) r by (simp add: linked_def)
    then show "o_amount row = o_amount x" by (rule order_key_eqD)
  qed
  then show "list_all order_inv (orders (mdb (save_bulk_pending_orders s)))"
    using assms(1) by (simp add: save_bulk_pending_orders_def Let_def post_process_updated_margin_orders_def minv_def)
  show "ledger_inv (mdb (save_bulk_pending_orders s))" "solvent (mdb (save_bulk_pending_orders s))"
    using assms(1)
    by (simp_all add: save_bulk_pending_orders_def Let_def post_process_updated_margin_orders_def minv_def
        ledger_inv_def solvent_def update_balance_from_transactions_def)
qed (simp_all add: save_bulk_pending_orders_def Let_def post_process_updated_margin_orders_def)

lemma cancel_ids_inv: "list_all order_inv os \<Longrightarrow> list_all order_inv (cancel_ids ids os)"
  by (auto simp: cancel_ids_def list_all_iff)

lemma cancel_ids_ids [simp]: "map o_id (cancel_ids ids os) = map o_id os"
  by (simp add: cancel_ids_def)

definition sound_db :: "mdb \<Rightarrow> bool" where
  "sound_db d \<longleftrightarrow> ledger_inv d \<and> solvent d \<and> list_all order_inv (orders d)
     \<and> distinct (map o_id (orders d)) \<and> distinct (trade_pairs (trades d)) \<and> db_grid d"

lemma init_inv: "sound_db d \<Longrightarrow> minv (init_state env d) \<and> linked (init_state env d) \<and> pend_ok (init_state env d)"
  by (simp add: sound_db_def minv_def linked_def pend_ok_def init_state_def grid_inv_def)

lemma book_linked: "get_market_orders env s = (sells, buys, s') \<Longrightarrow> linked s \<Longrightarrow> linked s'"
proof -
  assume g: "get_market_orders env s = (sells, buys, s')" and l: "linked s"
  define s0 where "s0 = (if uses_orderbook_criteria env \<and> use_runtime_limit env
               then s\<lparr>is_orderbook_outdated := Some (outdated env)\<rparr> else s)"
  have s0: "linked s0" "mdb s0 = mdb s" using l by (auto simp: s0_def linked_def the_order_def obj_def)
  obtain s1 where l1: "load_orders (sort_sells (filter is_sell (get_orders env (orders (mdb s))))) s0 = (sells, s1)"
    and l2: "load_orders (sort_buys (filter is_buy (get_orders env (orders (mdb s))))) s1 = (buys, s')"
    using g unfolding get_market_orders_def s0_def [symmetric] Let_def s0(2) by (auto split: prod.split_asm)
  have "linked s1" using load_orders_linked [OF s0(1) l1] s0(2) by (auto simp: sort_sells_def get_orders_def)
  then show ?thesis
    using load_orders_linked [OF _ l2] load_orders_list [OF l1] s0(2)
    by (auto simp: sort_buys_def get_orders_def)
qed

lemma book_pend: "get_market_orders env s = (sells, buys, s') \<Longrightarrow>
    pending_update s' = pending_update s \<and> pending_canceled s' = pending_canceled s"
  by (auto simp: get_market_orders_def load_orders_def Let_def split: prod.split_asm if_splits)

subsection \<open>The database after a round\<close>

text \<open>What an update of order rows that keeps keys, ids and invariant does to the database.\<close>

lemma sound_db_orders:
  "sound_db d \<Longrightarrow> list_all order_inv os \<Longrightarrow> map o_id os = map o_id (orders d) \<Longrightarrow> sound_db (d\<lparr>orders := os\<rparr>)"
  by (simp add: sound_db_def ledger_inv_def solvent_def update_balance_from_transactions_def db_grid_def)

lemma sound_db_margin_changes: "sound_db (d\<lparr>margin_changes := m\<rparr>) \<longleftrightarrow> sound_db d"
  by (simp add: sound_db_def ledger_inv_def solvent_def update_balance_from_transactions_def db_grid_def)

lemma get_user_wallet_keeps_sound:
  "sound_db d \<Longrightarrow> get_user_wallet D d u c tp cr = (w, d') \<Longrightarrow> sound_db d' \<and> withdraws d' = withdraws d"
  using get_user_wallet_keeps_ledger_inv [of d D u c tp cr w d'] get_user_wallet_keeps_solvent [of d D u c tp cr w d']
    get_user_wallet_db [of D d u c tp cr w d'] trades_more [OF get_user_wallet_db(2)]
  by (simp add: sound_db_def)

lemma ids_from_keys: "map order_key os' = map order_key os \<Longrightarrow> map o_id os' = map o_id os"
proof -
  assume k: "map order_key os' = map order_key os"
  have "map o_id xs = map fst (map order_key xs)" for xs by (simp add: order_key_def)
  with k show ?thesis by metis
qed

lemma minv_sound: "minv s \<Longrightarrow> linked s \<Longrightarrow> sound_db (mdb s)"
  by (simp add: minv_def linked_def sound_db_def grid_inv_def)

lemma saved_sound:
  assumes "minv s" "linked s" "pend_ok s"
  shows "sound_db (mdb (save_bulk_pending_orders s))"
proof -
  have "map o_id (orders (mdb (save_bulk_pending_orders s))) = map o_id (orders (mdb s))"
    by (rule ids_from_keys)
      (simp add: save_bulk_pending_orders_def Let_def post_process_updated_margin_orders_def fold_save_keys)
  moreover have "db_grid (mdb (save_bulk_pending_orders s)) = db_grid (mdb s)"
    by (simp add: save_bulk_pending_orders_def Let_def post_process_updated_margin_orders_def db_grid_def)
  ultimately show ?thesis
    using saved_db [OF assms] minv_sound [OF assms(1,2)] by (simp add: sound_db_def)
qed

lemma post_process_sound:
  "sound_db (mdb s) \<Longrightarrow> sound_db (mdb (post_process_orders env buys sells s))"
  by (auto simp: post_process_orders_def Let_def post_process_updated_margin_orders_def
      sound_db_margin_changes sound_db_def [of "mdb s"] intro!: sound_db_orders cancel_ids_inv)

lemma activate_inv:
  assumes "activate_stop_orders env ts lo hi os = (act, os')" "list_all order_inv os"
  shows "list_all order_inv os' \<and> map o_id os' = map o_id os"
proof -
  have inv: "order_inv ((set_status Active x)\<lparr>o_created_at := t\<rparr>) = order_inv x" for x t
    by (simp add: order_inv_def set_status_def)
  show ?thesis
    using assms by (auto simp: activate_stop_orders_def Let_def list_all_iff inv)
qed

lemma cancel_oco_inv:
  assumes "cancel_oco_order_pair act os = (ps, os')" "list_all order_inv os"
  shows "list_all order_inv os' \<and> map o_id os' = map o_id os"
  using assms by (auto simp: cancel_oco_order_pair_def Let_def list_all_iff split: if_splits)

lemma post_processing_sound:
  assumes "sound_db d"
  shows "sound_db (snd (post_processing_matcher_round env ts mark r d))"
proof -
  have "sound_db (update_oco_positions ps (d\<lparr>orders := os2\<rparr>))"
    if a: "activate_stop_orders env ts lo hi (orders d) = (act, os1)"
      "(if act = [] then ([], os1) else cancel_oco_order_pair act os1) = (ps, os2)" for lo hi act os1 ps os2
  proof -
    have "list_all order_inv (orders d)" using assms by (simp add: sound_db_def)
    from activate_inv [OF a(1) this] have 1: "list_all order_inv os1" "map o_id os1 = map o_id (orders d)" by auto
    with a(2) have "list_all order_inv os2" "map o_id os2 = map o_id (orders d)"
      using cancel_oco_inv by (metis prod.inject)+
    then show ?thesis
      unfolding update_oco_positions_def sound_db_margin_changes by (rule sound_db_orders [OF assms])
  qed
  with assms show ?thesis
    by (auto simp: post_processing_matcher_round_def Let_def split: option.split prod.split)
qed

lemma process_steps:
  assumes p: "process_market_orders env rc (init_state env d) = Inr (rc', s')" and d: "sound_db d"
  obtains sells buys s sells' buys' s2 where
    "get_market_orders env (init_state env d) = (sells, buys, s)" "msteps env s s2"
    "s' = post_process_orders env buys' sells' (save_bulk_pending_orders s2)"
    "minv s" "linked s" "pend_ok s"
    "\<forall>a \<in> set sells'. sell_ref s2 a" "\<forall>b \<in> set buys'. buy_ref s2 b"
proof -
  obtain sells buys s where g: "get_market_orders env (init_state env d) = (sells, buys, s)"
    by (cases "get_market_orders env (init_state env d)") auto
  from p g obtain se bu s1 where v: "match_all_orders_v3 env rc sells buys s = Inr ((se, bu), rc', s1)"
    and s': "s' = post_process_orders env bu se s1"
    by (auto simp: process_market_orders_def rbind_eq_Inr_iff)
  note i = init_inv [OF d, of env]
  have "minv s" "linked s" using book_minv [OF g] book_linked [OF g] i by auto
  moreover have "pend_ok s" using book_pend [OF g] i by (simp add: pend_ok_def init_state_def)
  moreover from v3_steps [OF v book_refs [OF g]]
  obtain s2 where "msteps env s s2" "s1 = save_bulk_pending_orders s2"
    "\<forall>a \<in> set se. sell_ref s2 a" "\<forall>b \<in> set bu. buy_ref s2 b"
    by blast
  ultimately show ?thesis using that g s' by blast
qed

lemma process_sound:
  assumes p: "process_market_orders env rc (init_state env d) = Inr (rc', s')" and d: "sound_db d"
    and prec: "MAX_PRECISION \<le> the (amount_precision env)"
  shows "sound_db (mdb s')"
  using p d
proof (rule process_steps)
  fix sells buys s sells' buys' s2
  assume st: "msteps env s s2" and s': "s' = post_process_orders env buys' sells' (save_bulk_pending_orders s2)"
    and inv: "minv s" "linked s" "pend_ok s"
  have "minv s2" "linked s2" "pend_ok s2"
    using minv_steps [OF st inv(1) prec] linked_steps [OF st inv(2)] pend_steps [OF st inv(3)] by auto
  then show ?thesis unfolding s' by (intro post_process_sound saved_sound)
qed

lemma round_sound:
  assumes "do_matching_round env async_stop ts mark rc d = Inr r" "sound_db d"
    and "MAX_PRECISION \<le> the (amount_precision env)"
  shows "sound_db (mdb (rr_state r))"
  using assms process_sound [OF _ assms(2,3)] post_processing_sound
  by (auto simp: do_matching_round_def rbind_eq_Inr_iff Let_def split: if_splits)

subsection \<open>The trades of a round\<close>

lemma fair_price_key:
  "order_key so = order_key so' \<Longrightarrow> order_key bo = order_key bo' \<Longrightarrow> fair_price so bo p = fair_price so' bo' p"
  using order_key_eqD [of so so'] order_key_eqD [of bo bo'] by (simp add: fair_price_def)

lemma steps_keys: "msteps env s s' \<Longrightarrow> map order_key (orders (mdb s')) = map order_key (orders (mdb s))"
  by (induction rule: rtranclp_induct) (auto dest!: step_rows [THEN same_but_status_keys])

lemma process_trades_fair:
  assumes p: "process_market_orders env rc (init_state env d) = Inr (rc', s')" and d: "sound_db d"
    and prec: "MAX_PRECISION \<le> the (amount_precision env)"
    and t: "t \<in> set (trades (mdb s'))" "t \<notin> set (trades d)"
  shows "\<exists>so \<in> set (orders d). \<exists>bo \<in> set (orders d).
     is_sell so \<and> is_buy bo \<and> t_sell_order t = o_id so \<and> t_buy_order t = o_id bo \<and> fair_price so bo (t_price t)
     \<and> 0 < t_amount t \<and> t_amount t \<le> o_amount so \<and> t_amount t \<le> o_amount bo"
  using p d
proof (rule process_steps)
  fix sells buys s sells' buys' s2
  assume g: "get_market_orders env (init_state env d) = (sells, buys, s)" and st: "msteps env s s2"
    and s': "s' = post_process_orders env buys' sells' (save_bulk_pending_orders s2)"
    and inv: "minv s" "linked s" "pend_ok s"
  have inv2: "minv s2" "linked s2" "pend_ok s2"
    using minv_steps [OF st inv(1) prec] linked_steps [OF st inv(2)] pend_steps [OF st inv(3)] by auto
  have "trades (mdb s') = trades (mdb s2)"
    using saved_db(4) [OF inv2] by (simp add: s' post_process_orders_def Let_def post_process_updated_margin_orders_def)
  moreover have "mdb s = d" using get_market_orders_book(3) [OF g] by (simp add: init_state_def)
  ultimately have "fair_trade s2 t" using steps_new_trades_fair [OF st inv(1) prec] t by auto
  then obtain sell buy where
    f: "sell_ref s2 sell" "buy_ref s2 buy" "t_sell_order t = o_id (the_order s2 sell)"
      "t_buy_order t = o_id (the_order s2 buy)" "fair_price (the_order s2 sell) (the_order s2 buy) (t_price t)"
      "0 < t_amount t" "t_amount t \<le> o_amount (the_order s2 sell)" "t_amount t \<le> o_amount (the_order s2 buy)"
    unfolding fair_trade_def by blast
  have keys: "map order_key (orders (mdb s2)) = map order_key (orders d)"
    using steps_keys [OF st] \<open>mdb s = d\<close> by simp
  have "order_key (the_order s2 r) \<in> set (map order_key (orders d))" if "r < length (objs s2)" for r
    using that inv2(2) unfolding keys [symmetric] by (simp add: linked_def)
  then have "\<exists>row \<in> set (orders d). order_key row = order_key (the_order s2 r)" if "r < length (objs s2)" for r
    using that by fastforce
  then obtain so bo where so: "so \<in> set (orders d)" "order_key so = order_key (the_order s2 sell)"
    and bo: "bo \<in> set (orders d)" "order_key bo = order_key (the_order s2 buy)"
    using f(1,2) unfolding sell_ref_def buy_ref_def by blast
  show ?thesis
    using so(1) bo(1) f order_key_eqD [OF so(2)] order_key_eqD [OF bo(2)] fair_price_key [OF so(2) bo(2)]
    by (intro bexI [of _ so] bexI [of _ bo]) (auto simp: sell_ref_def buy_ref_def)
qed

lemma post_processing_trades: "trades (snd (post_processing_matcher_round env ts mark r d)) = trades d"
  by (auto simp: post_processing_matcher_round_def update_oco_positions_def Let_def split: option.split prod.split)

subsection \<open>Closed orders stay closed\<close>

lemma fill_inactive:
  assumes "fill_object r a p f s = Inr s'" "r < length (objs s)" "\<not> is_active (the_order s q)"
  shows "\<not> is_active (the_order s' q)"
proof (cases "q = r")
  case True
  with grow_order_status [OF fill_object_effect(1) [OF assms(1,2)]] assms(3) show ?thesis
    by (auto simp: is_active_def)
next
  case False
  with fill_object_effect(4) [OF assms(1,2)] assms(3) show ?thesis by (simp add: the_order_def)
qed

lemma filled_inactive:
  assumes "filled_from sell buy a p s6 s'" "sell < length (objs s6)" "buy < length (objs s6)"
    and "\<not> is_active (the_order s6 q)"
  shows "\<not> is_active (the_order s' q)"
  using assms(1) unfolding filled_from_def
proof (elim disjE exE conjE)
  fix f s7
  assume s7: "fill_object sell a p f s6 = Inr s7"
  note q7 = fill_inactive [OF s7 assms(2,4)]
  have l7: "buy < length (objs s7)" using fill_object_effect(3) [OF s7 assms(2)] assms(3) by simp
  { assume "s' = s7" with q7 show ?thesis by simp }
  fix f' assume "fill_object buy a p f' s7 = Inr s'"
  from fill_inactive [OF this l7 q7] show ?thesis .
qed (use assms(4) in \<open>simp add: the_order_def obj_def\<close>)

lemma step_inactive:
  assumes st: "mstep env s s'" and q: "q < length (objs s)" "\<not> is_active (the_order s q)"
  shows "\<not> is_active (the_order s' q)"
  using st
proof cases
  case (step_trade sell buy amount price fees m)
  have r: "sell < length (objs s)" "buy < length (objs s)"
    and w: "wallet_obj (obj s sell) \<noteq> None" "wallet_obj (obj s buy) \<noteq> None"
    using step_trade(1) by (auto simp: trade_ready_def Let_def sell_ref_def buy_ref_def)
  have "\<not> is_active (the_order s1 q)" if c: "create_exchange_transactions env sell buy amount price
      (seller_is_maker (the_order s sell) (the_order s buy)) (fst fees) (snd fees) s = (x, s1)" for x s1
  proof -
    obtain s6 where s6: "wallets_only s s6" "filled_from sell buy amount price s6 s1"
      using create_exchange_transactions_outcome [OF c r w] by blast
    show ?thesis
      using s6(1) r q by (intro filled_inactive [OF s6(2)]) (auto simp: wallets_only_def)
  qed
  with step_trade(3) show ?thesis by (auto elim!: try_trade_cases)
next
  case (step_load r w)
  with load_wallet_cases [OF step_load(2)] q show ?thesis by auto
next
  case (step_expand b p)
  then obtain os s1 where "get_orders_for_expansion env b s = (os, s1)" "load_orders os s1 = (p, s')"
    by (auto simp: get_market_orders_with_expansion_def split: prod.split_asm)
  with get_orders_for_expansion_objs load_orders_same q show ?thesis
    by (metis (no_types) obj_def the_order_def)
qed (use q in \<open>auto simp: cancel_order_def Let_def count_match_def the_order_def obj_def set_obj_def set_wallet_def
      nth_list_update is_active_def\<close>)

lemma steps_inactive:
  assumes "msteps env s s'" "q < length (objs s)" "\<not> is_active (the_order s q)"
  shows "\<not> is_active (the_order s' q)"
proof -
  from assms(1) have "heap_le s s' \<and> \<not> is_active (the_order s' q)"
  proof (induction rule: rtranclp_induct)
    case (step y z)
    then show ?case
      using heap_le_step [OF step.hyps(2)] heap_le_trans step_inactive [OF step.hyps(2)] assms(2)
      by (auto simp: heap_le_def)
  qed (use assms(3) in simp)
  then show ?thesis by simp
qed

lemma loop_closes_market_orders:
  assumes "new_orders_loop env rs sells buys lt s = Inr (False, (sells', buys'), lt', s')"
    and "\<forall>a \<in> set sells. sell_ref s a" "\<forall>b \<in> set buys. buy_ref s b"
    and "\<forall>r \<in> set rs. sell_ref s r \<or> buy_ref s r"
    and "r \<in> set rs" "is_market (the_order s r)"
  shows "\<not> is_active (the_order s' r)"
  using assms
proof (induction rs arbitrary: sells buys lt s)
  case (Cons x rs)
  from Cons.prems(1) obtain se bu s1 where
    m: "match_all_orders_before_order env sells buys (Some x) s = Inr ((se, bu), s1)"
    by (auto simp: rbind_eq_Inr_iff)
  have st1: "msteps env s s1" and refs1: "\<forall>a \<in> set se. sell_ref s1 a" "\<forall>b \<in> set bu. buy_ref s1 b"
    using before_order_steps [OF m] Cons.prems(2-4) by auto
  define s2 where "s2 = cancel_unfilled_market x s1"
  have st12: "msteps env s1 s2"
    unfolding s2_def using refs_steps [OF st1] Cons.prems(4) by (intro cancel_unfilled_steps) auto
  with st1 have st2: "msteps env s s2" by simp
  have refs2: "\<forall>a \<in> set se. sell_ref s2 a" "\<forall>b \<in> set bu. buy_ref s2 b" "\<forall>q \<in> set rs. sell_ref s2 q \<or> buy_ref s2 q"
    using refs1 refs_steps [OF st12] refs_steps [OF st2] Cons.prems(4) by auto
  define lt2 where "lt2 = (if is_market (the_order s2 x) then lt else o_created_at (the_order s2 x))"
  have k: "new_orders_loop env rs se bu lt2 s2 = Inr (False, (sells', buys'), lt', s')"
    using Cons.prems(1) m unfolding lt2_def s2_def by (auto simp: Let_def split: if_splits)
  have len: "q < length (objs s)" if "q \<in> set (x # rs)" for q
    using Cons.prems(4) that by (auto simp: sell_ref_def buy_ref_def)
  have key: "order_key (the_order s' q) = order_key (the_order s q)" if "heap_le s s'" "q \<in> set (x # rs)" for q s'
    using that len heap_le_the_order by blast
  show ?case
  proof (cases "r = x")
    case True
    have "is_market (the_order s1 x)"
      using order_key_eqD(9) [OF key [OF heap_le_steps [OF st1]]] Cons.prems(6) True by simp
    moreover have "x < length (objs s1)" using heap_le_steps [OF st1] len [of x] by (auto simp: heap_le_def)
    ultimately have "\<not> is_active (the_order s2 x)"
      by (auto simp: s2_def cancel_unfilled_market_def cancel_order_def Let_def the_order_def obj_def set_obj_def
          is_active_def)
    moreover have "msteps env s2 s'" using new_orders_loop_steps [OF k refs2] by blast
    moreover have "x < length (objs s2)" using heap_le_steps [OF st2] len [of x] by (auto simp: heap_le_def)
    ultimately show ?thesis using True steps_inactive by blast
  next
    case False
    then have r: "r \<in> set rs" using Cons.prems(5) by simp
    have "is_market (the_order s2 r)"
      using order_key_eqD(9) [OF key [OF heap_le_steps [OF st2]]] Cons.prems(6) r by simp
    with Cons.IH [OF k refs2 r] show ?thesis by blast
  qed
qed simp

subsection \<open>Stop orders\<close>

lemma row_number_pos: "i \<in> set js \<Longrightarrow> 1 \<le> row_number js i \<and> row_number js i \<le> length js"
  by (induction js) auto

lemma row_number_nth: "distinct js \<Longrightarrow> k < length js \<Longrightarrow> row_number js (js ! k) = Suc k"
proof (induction js arbitrary: k)
  case (Cons j js)
  then show ?case by (cases k) auto
qed simp

lemma row_number_mono:
  assumes "distinct (map o_id os)" "a \<in> set os" "b \<in> set os" "o_created_at a < o_created_at b"
  shows "row_number (map o_id (sort_key o_created_at os)) (o_id a) < row_number (map o_id (sort_key o_created_at os)) (o_id b)"
proof -
  define xs where "xs = sort_key o_created_at os"
  have dist: "distinct (map o_id xs)"
    using assms(1) by (simp add: xs_def distinct_map)
  have srt: "sorted (map o_created_at xs)" by (simp add: xs_def)
  obtain i j where i: "i < length xs" "xs ! i = a" and j: "j < length xs" "xs ! j = b"
    using assms(2,3) by (metis in_set_conv_nth set_sort xs_def)
  have "i < j"
  proof (rule ccontr)
    assume "\<not> i < j"
    then have "map o_created_at xs ! j \<le> map o_created_at xs ! i"
      using srt i(1) by (intro sorted_nth_mono) auto
    with i j assms(4) show False by simp
  qed
  moreover have "row_number (map o_id xs) (o_id a) = Suc i" "row_number (map o_id xs) (o_id b) = Suc j"
    using row_number_nth [OF dist, of i] row_number_nth [OF dist, of j] i j by auto
  ultimately show ?thesis by (simp add: xs_def)
qed

end
