(* ===== verification/Matcher_Example.thy ===== *)
theory Matcher_Example
  imports Matcher_Round
begin

section \<open>A worked round\<close>

text \<open>
  A small market, evaluated by the kernel step by step: a sell of 3 at 100 rests in the
  book, a buy of 2 at 110 arrives later, and the round makes one trade of 2 at 100. The
  run shows that the hypotheses of the matcher's theorems hold on a round that trades.
\<close>

definition ex_env :: menv where
  "ex_env = \<lparr>market_id = 1, src_currency = 10, dst_currency = 2, amount_precision = Some (- 6),
     MIN_PRICE_PRECISION = 1 / 10 ^ 8, buy_in_promotion = False, sell_in_promotion = False,
     manual_fee = (\<lambda>_. None), user_vip = (\<lambda>_. 0), PREVENT_INTERNAL_TRADE = True, TRADER_BOT_IDS = [9],
     price_range_low = 0, price_range_high = 0, orderbook_best_buy_price = 0, orderbook_best_sell_price = 0,
     orderbook_update_datetime = 0, use_runtime_limit = False, do_expansion = False,
     tether_market_id = None, tether_price = None, MARGIN_DST_CURRENCIES = [2, 13],
     pool_manager = (\<lambda>_. None), side_is_sell = (\<lambda>_. True), locked_rows = [], effective_date = 1000,
     clock = 1000\<rparr>"

lemma ex_env_sel [simp]:
  "market_id ex_env = 1" "src_currency ex_env = 10" "dst_currency ex_env = 2" "amount_precision ex_env = Some (- 6)"
  "MIN_PRICE_PRECISION ex_env = 1 / 10 ^ 8" "\<not> buy_in_promotion ex_env" "\<not> sell_in_promotion ex_env"
  "manual_fee ex_env u = None" "user_vip ex_env u = 0" "TRADER_BOT_IDS ex_env = [9]" "PREVENT_INTERNAL_TRADE ex_env"
  "price_range_low ex_env = 0" "price_range_high ex_env = 0" "orderbook_best_buy_price ex_env = 0"
  "orderbook_best_sell_price ex_env = 0" "\<not> do_expansion ex_env" "tether_market_id ex_env = None"
  "tether_price ex_env = None" "effective_date ex_env = 1000" "clock ex_env = 1000"
  "MARGIN_DST_CURRENCIES ex_env = [2, 13]" "locked_rows ex_env = []" "\<not> use_runtime_limit ex_env"
  by (simp_all add: ex_env_def)

definition ex_order :: "nat \<Rightarrow> nat \<Rightarrow> order_type \<Rightarrow> rat \<Rightarrow> rat \<Rightarrow> datetime \<Rightarrow> order" where
  "ex_order i u tp price amount created =
     \<lparr>o_id = i, o_user = u, o_created_at = created, o_src = 10, o_dst = 2, o_channel = Some 31,
      o_client_order_id = None, o_type = tp, o_execution = Limit, o_trade = Spot, o_price = price,
      o_amount = amount, o_param1 = None, o_status = Active, o_matched_amount = 0,
      o_matched_total_price = 0, o_fee = 0, o_pair = None\<rparr>"

definition ex_wallet :: "nat \<Rightarrow> nat \<Rightarrow> nat \<Rightarrow> rat \<Rightarrow> wallet" where
  "ex_wallet i u c b = \<lparr>w_id = i, w_user = u, w_currency = c, w_type = WSpot, w_balance = b,
     w_blocked = 0, w_active = True\<rparr>"

definition ex_tx :: "nat \<Rightarrow> nat \<Rightarrow> rat \<Rightarrow> transaction" where
  "ex_tx i w a = \<lparr>tx_id = i, tx_wallet = w, tx_tp = TxDeposit, tx_amount = a, tx_balance = a,
     tx_created_at = 0, tx_ref_module = None, tx_ref_id = None\<rparr>"

definition ex_sell :: order where "ex_sell = ex_order 3 21 Sell 100 3 10"
definition ex_buy :: order where "ex_buy = ex_order 4 22 Buy 110 2 20"

definition ex_db :: mdb where
  "ex_db = \<lparr>wallets = [ex_wallet 7 21 10 5, ex_wallet 8 22 2 1000],
     transactions = [ex_tx 5 7 5, ex_tx 6 8 1000], next_tx_id = 7, next_wallet_id = 9,
     orders = [ex_sell, ex_buy], withdraws = [], position_rows = [], trades = [], next_trade_id = 2,
     margin_changes = []\<rparr>"

lemmas ex_data = ex_order_def ex_wallet_def ex_tx_def ex_sell_def ex_buy_def ex_db_def

lemmas order_eval =
  order_props is_margin_def is_credit_def is_debit_def MARKET_EXECUTION_TYPES_def unmatched_amount_def
  unmatched_total_price_def is_matched_def is_trivial_def money_is_zero_def money_is_close_def

subsection \<open>The states of the run\<close>

definition ex_objs :: "bool \<Rightarrow> bool \<Rightarrow> order_obj list" where
  "ex_objs ws wb = [\<lparr>ob = ex_sell, wallet_obj = (if ws then Some (ex_wallet 7 21 10 5) else None), pair_obj = None\<rparr>,
                    \<lparr>ob = ex_buy, wallet_obj = (if wb then Some (ex_wallet 8 22 2 1000) else None), pair_obj = None\<rparr>]"

definition ex_s :: "bool \<Rightarrow> bool \<Rightarrow> nat list \<Rightarrow> mstate" where
  "ex_s ws wb v = (init_state ex_env ex_db)\<lparr>objs := ex_objs ws wb, validated := v\<rparr>"

lemma ex_book: "get_market_orders ex_env (init_state ex_env ex_db) = ([0], [1], ex_s False False [])"
  by (simp add: get_market_orders_def init_state_def ex_data ex_s_def ex_objs_def get_orders_def in_market_def
      uses_orderbook_criteria_def order_eval load_orders_def sort_sells_def sort_buys_def Let_def)

lemma ex_s_sel [simp]:
  "obj (ex_s ws wb v) 0 = \<lparr>ob = ex_sell, wallet_obj = (if ws then Some (ex_wallet 7 21 10 5) else None), pair_obj = None\<rparr>"
  "obj (ex_s ws wb v) (Suc 0) = \<lparr>ob = ex_buy, wallet_obj = (if wb then Some (ex_wallet 8 22 2 1000) else None), pair_obj = None\<rparr>"
  "the_order (ex_s ws wb v) 0 = ex_sell" "the_order (ex_s ws wb v) (Suc 0) = ex_buy"
  "mdb (ex_s ws wb v) = ex_db" "validated (ex_s ws wb v) = v"
  by (simp_all add: obj_def the_order_def ex_s_def ex_objs_def init_state_def)

lemma ex_load:
  "load_wallet ex_env (Suc 0) (ex_s ws False v) = Inr (ex_wallet 8 22 2 1000, ex_s ws True v)"
  "load_wallet ex_env 0 (ex_s False wb v) = Inr (ex_wallet 7 21 10 5, ex_s True wb v)"
  "load_wallet ex_env (Suc 0) (ex_s ws True v) = Inr (ex_wallet 8 22 2 1000, ex_s ws True v)"
  "load_wallet ex_env 0 (ex_s True wb v) = Inr (ex_wallet 7 21 10 5, ex_s True wb v)"
  by (simp_all add: load_wallet_def get_providing_wallet_def provider_id_def get_user_wallet_def wallet_for_def
      wallet_type_of_def order_eval ex_data Let_def)
    (simp_all add: ex_s_def set_obj_def ex_objs_def init_state_def ex_data)

lemma ex_validate:
  "matcher_validate_order ex_env (Suc 0) (ex_s False False []) = Inr (True, ex_s False True [4])"
  "matcher_validate_order ex_env 0 (ex_s False True [4]) = Inr (True, ex_s True True [3, 4])"
proof -
  have "fst (validate_order ex_buy None (ex_wallet 8 22 2 1000) 0 False)"
    "fst (validate_order ex_sell None (ex_wallet 7 21 10 5) 0 False)" "o_id ex_buy = 4" "o_id ex_sell = 3"
    by (simp_all add: validate_order_def order_eval ex_data Let_def dec_eval)
  then show "matcher_validate_order ex_env (Suc 0) (ex_s False False []) = Inr (True, ex_s False True [4])"
    "matcher_validate_order ex_env 0 (ex_s False True [4]) = Inr (True, ex_s True True [3, 4])"
    by (simp_all add: matcher_validate_order_def ex_load) (simp_all add: ex_s_def)
qed

lemma ex_refresh:
  "refresh_wallet ex_env 0 (ex_s True True v) = Inr (ex_s True True v)"
  "refresh_wallet ex_env (Suc 0) (ex_s True True v) = Inr (ex_s True True v)"
  by (simp_all add: refresh_wallet_def ex_load update_blocked_balance_def get_blocked_balance_def
      get_financially_pending_requests_def set_wallet_def dec_eval)
    (simp_all add: ex_s_def set_obj_def ex_objs_def init_state_def ex_data get_financially_pending_requests_def dadd_def)

lemma ex_match:
  "match_price ex_sell ex_buy = 100" "seller_is_maker ex_sell ex_buy"
  "match_amount (- 6) 100 ex_sell ex_buy (ex_wallet 7 21 10 5) (ex_wallet 8 22 2 1000) = Inr (Inr 2)"
  "match_guards ex_sell ex_buy 2 100 = GuardOk"
  "match_fees ex_env ex_sell ex_buy 2 100 = Inr (1/2, 1/200)"
proof -
  show "match_amount (- 6) 100 ex_sell ex_buy (ex_wallet 7 21 10 5) (ex_wallet 8 22 2 1000) = Inr (Inr 2)"
    by (simp add: match_amount_def order_eval ex_data Let_def dec_eval)
  show mk: "seller_is_maker ex_sell ex_buy" by (simp add: seller_is_maker_def order_eval ex_data)
  then show "match_price ex_sell ex_buy = 100" by (simp add: match_price_def ex_data)
  show "match_guards ex_sell ex_buy 2 100 = GuardOk"
    by (simp add: match_guards_def order_eval ex_data dec_eval)
  show "match_fees ex_env ex_sell ex_buy 2 100 = Inr (1/2, 1/200)"
    using mk by (simp add: match_fees_def get_user_fee_by_fields_def get_user_fee_rate_def list_get_def
        tradingFees_def fee_tables TETHER_def MAX_PRECISION_def Let_def dec_eval
        cong: rbind_weak_cong)
qed

subsection \<open>The trade\<close>

definition ex_trade :: trade where
  "ex_trade = (new_trade ex_env ex_sell ex_buy 2 100 True (1/2) (1/200) (Some 200))\<lparr>t_id := 2\<rparr>"

definition ex_pay :: "nat \<Rightarrow> nat \<Rightarrow> rat \<Rightarrow> rat \<Rightarrow> int \<Rightarrow> transaction" where
  "ex_pay i w a b m = \<lparr>tx_id = i, tx_wallet = w, tx_tp = TxSell, tx_amount = a, tx_balance = b,
     tx_created_at = 1000, tx_ref_module = Some m, tx_ref_id = Some 2\<rparr>"

definition ex_db1 :: mdb where
  "ex_db1 = ex_db\<lparr>trades := [ex_trade], next_trade_id := 3\<rparr>"

definition ex_db2 :: mdb where
  "ex_db2 = ex_db1\<lparr>wallets := [ex_wallet 7 21 10 3, ex_wallet 8 22 2 1000],
     transactions := [ex_tx 5 7 5, ex_tx 6 8 1000, ex_pay 7 7 (- 2) 3 41], next_tx_id := 8\<rparr>"

definition ex_db3 :: mdb where
  "ex_db3 = ex_db2\<lparr>wallets := [ex_wallet 7 21 10 3, ex_wallet 8 22 2 800],
     transactions := [ex_tx 5 7 5, ex_tx 6 8 1000, ex_pay 7 7 (- 2) 3 41, ex_pay 8 8 (- 200) 800 42],
     next_tx_id := 9\<rparr>"

definition ex_sell' :: order where
  "ex_sell' = ex_sell\<lparr>o_matched_amount := 2, o_matched_total_price := 200, o_fee := 1/2\<rparr>"

definition ex_buy' :: order where
  "ex_buy' = ex_buy\<lparr>o_matched_amount := 2, o_matched_total_price := 200, o_fee := 1/200, o_status := Done\<rparr>"

definition ex_s3 :: mstate where
  "ex_s3 = (ex_s True True [3, 4])\<lparr>mdb := ex_db3,
     objs := [\<lparr>ob = ex_sell', wallet_obj = Some (ex_wallet 7 21 10 3), pair_obj = None\<rparr>,
              \<lparr>ob = ex_buy', wallet_obj = Some (ex_wallet 8 22 2 800), pair_obj = None\<rparr>],
     pending_txids := [(2, [7, 8])], pending_update := [0, 1], last_price_range := Some (100, 100)\<rparr>"

lemma ex_insert:
  "insert_trade ex_db (new_trade ex_env ex_sell ex_buy 2 100 True (1/2) (1/200) (Some 200)) = Inr (ex_db1, ex_trade)"
  by (simp add: insert_trade_def pair_taken_def ex_db1_def ex_trade_def ex_data new_trade_def stored_trade_def
      col10_def rounded_col10_def dec_eval)

lemma ex_trade_txs:
  "make_trade_transactions (ex_wallet 7 21 10 5) (ex_wallet 8 22 2 1000) ex_trade
   = Inr (ex_pay 0 7 (- 2) 3 41, ex_pay 0 8 (- 200) 800 42)"
proof -
  have "create_sell_withdraw_transaction (ex_wallet 7 21 10 5) ex_trade = Inr (Some (ex_pay 0 7 (- 2) 3 41))"
    by (simp add: create_sell_withdraw_transaction_def create_transaction_def trade_ref_codes ex_trade_def new_trade_def
        ex_pay_def ex_data MAX_PRECISION_def is_balance_allowed_def check_transaction_def Let_def dec_eval
        cong: rbind_weak_cong)
  moreover have "create_buy_withdraw_transaction (ex_wallet 8 22 2 1000) ex_trade = Inr (Some (ex_pay 0 8 (- 200) 800 42))"
    by (simp add: create_buy_withdraw_transaction_def create_transaction_def trade_ref_codes ex_trade_def new_trade_def
        matched_total_price_def ex_pay_def ex_data MAX_PRECISION_def is_balance_allowed_def check_transaction_def
        Let_def dec_eval cong: rbind_weak_cong)
  ultimately show ?thesis by (simp add: make_trade_transactions_def)
qed

lemma ex_commits:
  "commit ex_db1 (ex_pay 0 7 (- 2) 3 41) False = Inr (ex_db2, ex_pay 7 7 (- 2) 3 41)"
  "commit ex_db2 (ex_pay 0 8 (- 200) 800 42) False = Inr (ex_db3, ex_pay 8 8 (- 200) 800 42)"
  by (simp_all add: commit_def find_wallet_def put_wallet_def ref_taken_def ex_db3_def ex_db2_def ex_db1_def
      ex_pay_def ex_data Let_def)

lemma ex_grow:
  "grow_order ex_sell 2 100 (1/2) = Inr ex_sell'" "grow_order ex_buy 2 100 (1/200) = Inr ex_buy'"
  by (simp_all add: grow_order_def fill_status_def set_status_def order_eval ex_data ex_sell'_def ex_buy'_def
      MAX_PRECISION_def dec_eval cong: rbind_weak_cong)

lemma ex_create:
  "create_exchange_transactions ex_env 0 1 2 100 True (1/2) (1/200) (ex_s True True [3, 4])
   = (Inr ex_trade, ex_s3\<lparr>last_price_range := None\<rparr>)"
proof -
  have q: "quantize ROUND_HALF_EVEN MAX_PRECISION (dmul 2 100) = Inr 200" "estimate_rial_value ex_env 200 = Some 200"
    by (simp_all add: MAX_PRECISION_def dec_eval estimate_rial_value_def RIAL_def)
  have t: "t_id ex_trade = 2" "t_amount ex_trade = 2" "t_price ex_trade = 100"
    "get_sell_fee_amount None ex_trade = 1/2" "get_buy_fee_amount None ex_trade = 1/200"
    by (simp_all add: ex_trade_def new_trade_def get_sell_fee_amount_def get_buy_fee_amount_def)
  have o: "o_pair ex_sell' = None" "o_pair ex_buy' = None" "o_id ex_sell = 3" "o_id ex_buy = 4"
    by (simp_all add: ex_sell'_def ex_buy'_def ex_data)
  have p: "tx_id (ex_pay i w a b m) = i" "tx_balance (ex_pay i w a b m) = b" for i w a b m
    by (simp_all add: ex_pay_def)
  have d: "orders ex_db3 = orders ex_db" by (simp add: ex_db3_def ex_db2_def ex_db1_def)
  have w: "(ex_wallet 7 21 10 5)\<lparr>w_balance := 3\<rparr> = ex_wallet 7 21 10 3"
    "(ex_wallet 8 22 2 1000)\<lparr>w_balance := 800\<rparr> = ex_wallet 8 22 2 800"
    by (simp_all add: ex_wallet_def)
  show ?thesis
    unfolding create_exchange_transactions_def
    by (simp add: q ex_insert ex_trade_txs commit_from_def ex_commits p w ex_s_def ex_objs_def init_state_def
        obj_def the_order_def set_wallet_def set_obj_def)
      (simp add: ex_s3_def record_pending_def add_by_key_def commit_trade_def fill_object_def t o
        increase_order_matched_amount_def ex_grow load_pair_def obj_def the_order_def set_obj_def ex_s_def
        ex_objs_def init_state_def ex_db3_def p)
qed

lemma ex_two_orders:
  "match_two_orders ex_env 0 1 (ex_s True True [3, 4]) = Inr (Some ex_trade, ex_s3)"
proof -
  have "try_trade ex_env 0 1 2 100 (1/2, 1/200) (ex_s True True [3, 4]) = (Some ex_trade, ex_s3)"
    using ex_create
    by (simp add: try_trade_def ex_match)
      (simp add: update_last_price_def ex_trade_def new_trade_def PRICE_GUARD_RANGE_def ex_s3_def dec_eval)
  then show ?thesis
    using ex_match by (simp add: match_two_orders_def ex_refresh settle_match_def)
      (simp add: order_eval ex_data)
qed

subsection \<open>The round\<close>

definition ex_s4 :: mstate where "ex_s4 = ex_s3\<lparr>matches := 1\<rparr>"

lemma ex_s4_sel [simp]: "the_order ex_s4 0 = ex_sell'" "the_order ex_s4 (Suc 0) = ex_buy'" "matches ex_s4 = 1"
  by (simp_all add: ex_s4_def ex_s3_def the_order_def obj_def)

lemma ex_order_sel:
  "is_active ex_sell" "is_active ex_buy" "is_active ex_sell'" "\<not> is_active ex_buy'" "\<not> is_matched ex_sell"
  "\<not> is_matched ex_buy" "\<not> is_matched ex_sell'" "\<not> is_market ex_sell" "\<not> is_market ex_buy"
  "\<not> is_market ex_sell'" "\<not> is_market ex_buy'" "is_sell ex_sell" "\<not> is_sell ex_buy"
  "o_created_at ex_sell = 10" "o_created_at ex_buy = 20" "o_created_at ex_sell' = 10" "o_created_at ex_buy' = 20"
  "o_price ex_sell = 100" "o_price ex_buy = 110" "o_id ex_sell = 3" "o_id ex_buy = 4" "o_user ex_sell = 21"
  "o_user ex_buy = 22" "o_price ex_sell' = 100" "o_id ex_sell' = 3" "o_id ex_buy' = 4"
  by (simp_all add: order_eval ex_sell'_def ex_buy'_def ex_data dec_eval)

lemma ex_attempt: "attempt_match ex_env 0 1 (ex_s False False []) = Inr (Next, ex_s4)"
  using ex_two_orders
  by (simp add: attempt_match_def check_for_forbidden_matching_def ex_order_sel ex_validate count_match_def)
    (simp add: ex_s4_def ex_s3_def ex_s_def init_state_def)

lemma ex_before_sell:
  "match_all_orders_before_order ex_env [0] [1] (Some 0) (ex_s False False []) = Inr (([0], [1]), ex_s False False [])"
  by (simp add: match_all_orders_before_order.simps local_sells_def local_buys_def ex_order_sel newer_than_def
      pair_step_def wants_expansion_def Let_def)

lemma ex_before_buy:
  "match_all_orders_before_order ex_env [0] [1] (Some 1) (ex_s False False []) = Inr (([0], [1]), ex_s4)"
  using ex_attempt
  by (simp add: match_all_orders_before_order.simps local_sells_def local_buys_def ex_order_sel newer_than_def
      pair_step_def is_spent_def wants_expansion_def Let_def)

lemma ex_before_none:
  "match_all_orders_before_order ex_env [0] [1] None ex_s4 = Inr (([0], [1]), ex_s4)"
  by (simp add: match_all_orders_before_order.simps local_sells_def local_buys_def ex_order_sel newer_than_def
      pair_step_def is_spent_def same_order_def Let_def)

definition ex_rc :: round_cache where
  "ex_rc = \<lparr>last_time = 0, last_best_sell = 0, last_best_buy = None\<rparr>"

definition ex_db4 :: mdb where "ex_db4 = ex_db3\<lparr>orders := [ex_sell', ex_buy']\<rparr>"

lemma ex_save: "save_bulk_pending_orders ex_s4 = ex_s4\<lparr>mdb := ex_db4\<rparr>"
  by (simp add: save_bulk_pending_orders_def post_process_updated_margin_orders_def save_order_def put_order_def
      ex_s4_def ex_s3_def ex_s_def init_state_def the_order_def obj_def)
    (simp add: ex_db4_def ex_db3_def ex_db2_def ex_db1_def ex_sell'_def ex_buy'_def ex_data col10_def rounded_col10_def is_margin_def dec_eval)

lemma ex_v3: "match_all_orders_v3 ex_env ex_rc [0] [1] (ex_s False False [])
    = Inr (([0], [1]), \<lparr>last_time = 20, last_best_sell = 100, last_best_buy = None\<rparr>, ex_s4\<lparr>mdb := ex_db4\<rparr>)"
proof -
  have new: "new_orders ex_rc [0] [1] (ex_s False False []) = [0, 1]"
    by (simp add: new_orders_def is_important_def ex_rc_def ex_order_sel)
  have loop: "new_orders_loop ex_env [0, 1] [0] [1] 0 (ex_s False False []) = Inr (False, ([0], [1]), 20, ex_s4)"
    using ex_before_sell ex_before_buy
    by (simp add: cancel_unfilled_market_def ex_order_sel MAX_TRADE_PER_ROUND_def Let_def)
      (simp add: ex_s_def init_state_def)
  show ?thesis
    using new loop ex_before_none
    by (simp add: match_all_orders_v3_def ex_save ex_rc_def nonzero_def Let_def ex_order_sel)
qed

lemma ex_process: "process_market_orders ex_env ex_rc (init_state ex_env ex_db)
    = Inr (\<lparr>last_time = 20, last_best_sell = 100, last_best_buy = None\<rparr>, ex_s4\<lparr>mdb := ex_db4\<rparr>)"
proof -
  have "pending_canceled ex_s4 = []" by (simp add: ex_s4_def ex_s3_def ex_s_def init_state_def)
  moreover have "\<not> is_expired_system_order ex_env ex_sell'" "\<not> is_expired_system_order ex_env ex_buy'"
    by (simp_all add: is_expired_system_order_def CHANNEL_system_margin_def CHANNEL_system_abc_liquidate_def
        ex_sell'_def ex_buy'_def ex_data)
  ultimately have "post_process_orders ex_env [1] [0] (ex_s4\<lparr>mdb := ex_db4\<rparr>) = ex_s4\<lparr>mdb := ex_db4\<rparr>"
    using ex_s4_sel
    by (simp add: post_process_orders_def not_updated_orders_def cancel_ids_def post_process_updated_margin_orders_def
        map_filter_def Let_def)
  then show ?thesis using ex_v3 by (simp add: process_market_orders_def ex_book)
qed

definition ex_result :: round_result where
  "ex_result = \<lparr>rr_cache = \<lparr>last_time = 20, last_best_sell = 100, last_best_buy = None\<rparr>,
     rr_state = ex_s4\<lparr>mdb := ex_db4\<rparr>, rr_liquidate = Some (100, 100)\<rparr>"

lemma ex_round: "do_matching_round ex_env False 0 None ex_rc ex_db = Inr ex_result"
proof -
  have "last_price_range ex_s4 = Some (100, 100)" by (simp add: ex_s4_def ex_s3_def)
  moreover have "post_processing_matcher_round ex_env 0 None (Some (100, 100)) ex_db4 = (Some (100, 100), ex_db4)"
    by (simp add: post_processing_matcher_round_def validate_price_range_def guarded_range_def nonzero_def
        activate_stop_orders_def update_oco_positions_def stop_triggered_def STOP_EXECUTION_TYPES_def Let_def
        ex_db4_def ex_sell'_def ex_buy'_def ex_data)
  ultimately show ?thesis by (simp add: do_matching_round_def ex_process ex_result_def)
qed

lemma ex_sound: "sound_db ex_db"
  by (simp add: sound_db_def ledger_inv_def solvent_def db_grid_def wallet_grid_def order_inv_def refs_unique_def
      update_balance_from_transactions_def trade_pairs_def tx_ref_def money_field_def fits_def on_grid_def
      money_constants MAX_PRECISION_def ex_data dec_eval)

end
