(* ===== verification/Matcher_Claims.thy ===== *)
theory Matcher_Claims
  imports Matcher_Example
begin

section \<open>What the matching engine guarantees\<close>

text \<open>
  The properties of a matching round and of its parts, each with a witness on the round
  of the worked example.
\<close>

lemma ex_minv: "minv (ex_s True True v)"
proof -
  have "wallet_grid (ex_wallet 7 21 10 5)" "wallet_grid (ex_wallet 8 22 2 1000)" "order_inv ex_sell" "order_inv ex_buy"
    using ex_sound by (simp_all add: sound_db_def ex_db_def db_grid_def)
  moreover have "minv (init_state ex_env ex_db)" using init_inv [OF ex_sound] by blast
  ultimately show ?thesis
    by (simp add: minv_def grid_inv_def obj_grid_def ex_objs_def ex_s_def init_state_def)
qed

lemma ex_refs: "sell_ref (ex_s ws wb v) 0" "buy_ref (ex_s ws wb v) 1"
  using ex_order_sel by (simp_all add: sell_ref_def buy_ref_def the_order_def obj_def is_sell_iff ex_s_def ex_objs_def)

lemma ex_live:
  "\<not> is_spent (the_order (ex_s ws wb v) 0)" "\<not> is_spent (the_order (ex_s ws wb v) 1)"
  "crosses (the_order (ex_s ws wb v) 0) (the_order (ex_s ws wb v) 1)"
  by (simp_all add: is_spent_def crosses_def ex_order_sel)

text \<open>Stop orders of the market of the example.\<close>

definition ex_stop :: "nat \<Rightarrow> order_type \<Rightarrow> rat \<Rightarrow> datetime \<Rightarrow> order" where
  "ex_stop i tp p t = (ex_order i 21 tp 100 3 t)\<lparr>o_execution := StopLimit, o_param1 := Some p, o_status := Inactive\<rparr>"

text \<open>The pair of the example once more, in a database that holds their trade already.\<close>

definition ex_again :: mstate where "ex_again = (ex_s True True [3, 4])\<lparr>mdb := ex_db1\<rparr>"

lemma ex_again_sel [simp]:
  "the_order ex_again r = the_order (ex_s True True [3, 4]) r" "obj ex_again r = obj (ex_s True True [3, 4]) r"
  "mdb ex_again = ex_db1"
  by (simp_all add: ex_again_def the_order_def obj_def)

lemma ex_again_refresh: "refresh_wallet ex_env 0 ex_again = Inr ex_again" "refresh_wallet ex_env 1 ex_again = Inr ex_again"
  by (simp_all add: refresh_wallet_def load_wallet_def update_blocked_balance_def get_blocked_balance_def
      get_financially_pending_requests_def set_wallet_def dec_eval Let_def)
    (simp_all add: ex_again_def ex_s_def set_obj_def ex_objs_def init_state_def ex_db1_def ex_data
      get_financially_pending_requests_def dadd_def)

lemma ex_again_two_orders: "match_two_orders ex_env 0 1 ex_again = Inr (None, ex_again)"
proof -
  have "insert_trade ex_db1 (new_trade ex_env ex_sell ex_buy 2 100 True (1/2) (1/200) r) = Inl (IntegrityError ''unique_together'')" for r
    by (simp add: insert_trade_def pair_taken_def ex_db1_def ex_trade_def new_trade_def)
  moreover have "quantize ROUND_HALF_EVEN MAX_PRECISION (dmul 2 100) = Inr 200"
    by (simp add: MAX_PRECISION_def dec_eval)
  ultimately have "try_trade ex_env 0 1 2 100 (1/2, 1/200) ex_again = (None, ex_again)"
    by (simp add: try_trade_def create_exchange_transactions_def ex_match)
  then show ?thesis
    using ex_match ex_again_refresh by (simp add: match_two_orders_def settle_match_def ex_order_sel)
qed

text \<open>C3: a matching round that ends without an exception leaves the database sound: every
  balance is still the sum of its transactions and not negative, transaction references and
  ids are unique, no order is filled beyond its amount, and no two orders trade twice.\<close>

theorem matching_round_sound:
  assumes "do_matching_round env async_stop ts mark rc d = Inr r" "sound_db d"
    and "MAX_PRECISION \<le> the (amount_precision env)"
  shows "sound_db (mdb (rr_state r))"
  using assms by (rule round_sound)

theorem matching_round_sound_witness: "sound_db (mdb (rr_state ex_result)) \<and> trades (mdb (rr_state ex_result)) \<noteq> []"
  using matching_round_sound [OF ex_round ex_sound]
  by (simp add: MAX_PRECISION_def)
    (simp add: ex_result_def ex_s4_def ex_db4_def ex_db3_def ex_db2_def ex_db1_def)

text \<open>C4: every trade a round adds pairs a sell and a buy of the book at a price within the
  limit of both limit orders, and within ten percent of the price of a market order; its
  amount is positive and at most the amount of either order.\<close>

theorem matching_round_fair:
  assumes "do_matching_round env async_stop ts mark rc d = Inr r" "sound_db d"
    and "MAX_PRECISION \<le> the (amount_precision env)"
    and "t \<in> set (trades (mdb (rr_state r)))" "t \<notin> set (trades d)"
  shows "\<exists>so \<in> set (orders d). \<exists>bo \<in> set (orders d).
     is_sell so \<and> is_buy bo \<and> t_sell_order t = o_id so \<and> t_buy_order t = o_id bo
     \<and> 0 < t_price t
     \<and> (\<not> is_market so \<longrightarrow> o_price so \<le> t_price t) \<and> (\<not> is_market bo \<longrightarrow> t_price t \<le> o_price bo)
     \<and> (is_market so \<and> o_price so \<noteq> 0 \<longrightarrow> dmul (9/10) (o_price so) \<le> t_price t)
     \<and> (is_market bo \<and> o_price bo \<noteq> 0 \<longrightarrow> t_price t \<le> dmul (11/10) (o_price bo))
     \<and> 0 < t_amount t \<and> t_amount t \<le> o_amount so \<and> t_amount t \<le> o_amount bo"
proof -
  from assms(1) obtain rc' s where p: "process_market_orders env rc (init_state env d) = Inr (rc', s)"
    and "trades (mdb (rr_state r)) = trades (mdb s)"
    by (auto simp: do_matching_round_def rbind_eq_Inr_iff Let_def post_processing_trades split: if_splits)
  with process_trades_fair [OF p assms(2,3)] assms(4,5) show ?thesis by (simp add: fair_price_def)
qed

theorem matching_round_fair_witness:
  "\<exists>so \<in> set (orders ex_db). is_sell so \<and> t_sell_order ex_trade = o_id so \<and> o_price so \<le> t_price ex_trade"
proof -
  have t: "ex_trade \<in> set (trades (mdb (rr_state ex_result)))" "ex_trade \<notin> set (trades ex_db)"
    by (simp_all add: ex_result_def ex_s4_def ex_db4_def ex_db3_def ex_db2_def ex_db1_def ex_db_def)
  have "\<not> is_market so" if "so \<in> set (orders ex_db)" for so
    using that ex_order_sel by (auto simp: ex_db_def)
  with matching_round_fair [OF ex_round ex_sound _ t] show ?thesis
    by (fastforce simp: MAX_PRECISION_def)
qed

text \<open>C5: when two crossing open orders are matched, the seller's wallet row loses exactly the
  amount of the trade and the buyer's row exactly the total price rounded to ten places, no
  other balance moves, and both orders are filled by exactly that amount.\<close>

theorem match_two_orders_exact:
  assumes m: "match_two_orders env sell buy s = Inr (Some t, s')"
    and inv: "minv s" and prec: "MAX_PRECISION \<le> the (amount_precision env)"
    and refs: "sell_ref s sell" "buy_ref s buy"
    and live: "\<not> is_spent (the_order s sell)" "\<not> is_spent (the_order s buy)"
    and cr: "crosses (the_order s sell) (the_order s buy)"
    and w: "wallet_obj (obj s sell) = Some sw" "wallet_obj (obj s buy) = Some bw"
  shows "\<exists>v. quantize ROUND_HALF_EVEN MAX_PRECISION (dmul (t_amount t) (t_price t)) = Inr v
     \<and> (\<forall>i. balance_of (mdb s') i = map_option (\<lambda>b. b - (if i = w_id sw then t_amount t else 0)
              - (if i = w_id bw then v else 0)) (balance_of (mdb s) i))
     \<and> o_matched_amount (the_order s' sell) = o_matched_amount (the_order s sell) + t_amount t
     \<and> o_matched_amount (the_order s' buy) = o_matched_amount (the_order s buy) + t_amount t
     \<and> trades (mdb s') = trades (mdb s) @ [stored_trade t]"
  using m refs live cr w
proof (rule match_two_orders_made)
  fix s1 fees
  assume st: "msteps env s s1" and s1: "mdb s1 = mdb s" "\<And>q. the_order s1 q = the_order s q"
    "w_id (the (wallet_obj (obj s1 sell))) = w_id sw" "w_id (the (wallet_obj (obj s1 buy))) = w_id bw"
    and rdy: "trade_ready env sell buy (t_amount t) (t_price t) s1"
    and e: "trade_effect env sell buy (t_amount t) (t_price t) (seller_is_maker (the_order s sell) (the_order s buy))
       (fst fees) (snd fees) s1 t s'"
  from e obtain v where v: "quantize ROUND_HALF_EVEN MAX_PRECISION (dmul (t_amount t) (t_price t)) = Inr v"
    and grow: "grow_order (the_order s sell) (t_amount t) (t_price t) (fst fees) = Inr (the_order s' sell)"
      "grow_order (the_order s buy) (t_amount t) (t_price t) (snd fees) = Inr (the_order s' buy)"
    unfolding trade_effect_def s1(2) by blast
  have inv1: "minv s1" by (rule minv_steps [OF st inv prec])
  note b = trade_ready_bounds [OF rdy inv1 prec, unfolded s1(2)]
  have o: "order_inv (the_order s sell)" "order_inv (the_order s buy)"
    using minv_order [OF inv] refs by (auto simp: sell_ref_def buy_ref_def)
  note f1 = fill_amount_exact [OF o(1) grow(1) b(1,2,4)] and f2 = fill_amount_exact [OF o(2) grow(2) b(1,3,4)]
  show ?thesis
    using v trade_effect_balances [OF e f1(2) v] s1 f1(1) f2(1) trade_effect_trades(1) [OF e] by simp
qed

theorem match_two_orders_exact_witness:
  "balance_of (mdb ex_s3) 7 = Some 3 \<and> balance_of (mdb ex_s3) 8 = Some 800"
proof -
  let ?s = "ex_s True True [3, 4]"
  have inv: "minv ?s" by (rule ex_minv)
  have "balance_of ex_db 7 = Some 5" "balance_of ex_db 8 = Some 1000" "t_amount ex_trade = 2" "t_price ex_trade = 100"
    "w_id (ex_wallet 7 21 10 5) = 7" "w_id (ex_wallet 8 22 2 1000) = 8"
    "quantize ROUND_HALF_EVEN MAX_PRECISION (dmul 2 100) = Inr 200"
    by (simp_all add: balance_of_def find_wallet_def ex_db_def ex_wallet_def ex_trade_def new_trade_def
        MAX_PRECISION_def dec_eval)
  with match_two_orders_exact [OF ex_two_orders inv _ ex_refs ex_live, of "ex_wallet 7 21 10 5" "ex_wallet 8 22 2 1000"]
  show ?thesis by (simp add: MAX_PRECISION_def)
qed

text \<open>C17: a match that fails, be it refused by a guard or by an exception inside the nested
  transaction, changes no row of the database.\<close>

theorem match_two_orders_failure_atomic:
  assumes "match_two_orders env sell buy s = Inr (None, s')" "sell_ref s sell" "buy_ref s buy"
    and "crosses (the_order s sell) (the_order s buy)"
    and "wallet_obj (obj s sell) = Some sw" "wallet_obj (obj s buy) = Some bw"
  shows "mdb s' = mdb s"
  using assms by (rule match_two_orders_failed)

theorem match_two_orders_failure_atomic_witness:
  "\<exists>s'. match_two_orders ex_env 0 1 ex_again = Inr (None, s') \<and> mdb s' = mdb ex_again"
proof -
  have "sell_ref ex_again 0" "buy_ref ex_again 1"
    using ex_refs [of True True "[3, 4]"] by (simp_all add: sell_ref_def buy_ref_def) (simp_all add: ex_again_def)
  moreover have "crosses (the_order ex_again 0) (the_order ex_again 1)" using ex_live(3) by simp
  ultimately have atomic: "mdb ex_again = mdb ex_again"
    by (intro match_two_orders_failure_atomic [OF ex_again_two_orders]) simp_all
  show ?thesis by (intro exI conjI, rule ex_again_two_orders, rule atomic)
qed

subsection \<open>The book, market orders and stop orders\<close>

lemma loop_broke:
  "new_orders_loop env rs sells buys lt s = Inr (broke, books, lt', s') \<Longrightarrow> broke \<Longrightarrow> MAX_TRADE_PER_ROUND \<le> matches s'"
  by (induction rs arbitrary: sells buys lt s) (auto simp: rbind_eq_Inr_iff Let_def split: if_splits)

text \<open>What \<open>_get_orders\<close> selects, written out over the fields of an order.\<close>

lemma get_orders_selects:
  "mset (filter (\<lambda>x. o_type x = tp) (get_orders env os))
   = mset (filter (\<lambda>x. o_type x = tp \<and> o_src x = src_currency env \<and> o_dst x = dst_currency env \<and> o_status x = Active
       \<and> o_id x \<notin> set (locked_rows env)
       \<and> (price_range_low env = 0 \<or> price_range_high env = 0 \<or> o_execution x \<in> {MarketExec, StopMarket}
          \<or> (if tp = Sell then o_price x \<le> price_range_high env else price_range_low env \<le> o_price x)
             \<and> (\<not> use_runtime_limit env \<or> o_created_at x \<le> orderbook_update_datetime env
                \<or> orderbook_update_datetime env + ORDERBOOK_CRITERIA_AGE_VALIDITY < clock env))) os)"
proof -
  have perm: "mset (filter P (sort_key k xs)) = mset (filter P xs)" for P xs and k :: "order \<Rightarrow> int" by (simp add: mset_filter)
  show ?thesis
    unfolding get_orders_def perm filter_filter
    by (intro arg_cong [where f = mset] filter_cong [OF refl])
      (auto simp: in_market_def uses_orderbook_criteria_def orderbook_criteria_def outdated_def order_props MARKET_EXECUTION_TYPES_def)
qed

text \<open>The two priorities, written out.\<close>

lemma sell_priority:
  assumes "sorted_wrt (\<lambda>a b. o_created_at a \<le> o_created_at b) os"
  shows "sorted_wrt (\<lambda>a b. is_market a \<and> \<not> is_market b \<or> is_market a = is_market b
          \<and> (o_price a < o_price b \<or> o_price a = o_price b \<and> o_created_at a \<le> o_created_at b)) (sort_sells os)"
  by (rule sorted_wrt_mono_rel [OF _ sort_sells_before [OF assms]])
    (auto simp: sell_before_def sell_key_def split: if_split_asm)

lemma buy_priority:
  assumes "sorted_wrt (\<lambda>a b. o_created_at a \<le> o_created_at b) os"
  shows "sorted_wrt (\<lambda>a b. is_market a \<and> \<not> is_market b \<or> is_market a = is_market b
          \<and> (o_price a > o_price b \<or> o_price a = o_price b \<and> o_created_at a \<le> o_created_at b)) (sort_buys os)"
  by (rule sorted_wrt_mono_rel [OF _ sort_buys_before [OF assms]])
    (auto simp: buy_before_def buy_key_def split: if_split_asm)

text \<open>C24: the sells and the buys a round works on are exactly the rows of its market that are
  active and not locked and, when a price range is set, are market orders or have a price
  within the range and, where the limit on the age of orders applies, are not newer than the
  order book; each side stands in its priority: market orders first, then the better price,
  then the older order.\<close>

theorem book_priority:
  assumes "get_market_orders env s = (sells, buys, s')"
  shows "let book = (\<lambda>tp. filter (\<lambda>x. o_type x = tp \<and> o_src x = src_currency env \<and> o_dst x = dst_currency env
       \<and> o_status x = Active \<and> o_id x \<notin> set (locked_rows env)
       \<and> (price_range_low env = 0 \<or> price_range_high env = 0 \<or> o_execution x \<in> {MarketExec, StopMarket}
          \<or> (if tp = Sell then o_price x \<le> price_range_high env else price_range_low env \<le> o_price x)
             \<and> (\<not> use_runtime_limit env \<or> o_created_at x \<le> orderbook_update_datetime env
                \<or> orderbook_update_datetime env + ORDERBOOK_CRITERIA_AGE_VALIDITY < clock env))) (orders (mdb s)));
     before = (\<lambda>better a b. is_market a \<and> \<not> is_market b \<or> is_market a = is_market b
          \<and> (better (o_price a) (o_price b) \<or> o_price a = o_price b \<and> o_created_at a \<le> o_created_at b))
     in mset (map (the_order s') sells) = mset (book Sell) \<and> mset (map (the_order s') buys) = mset (book Buy)
        \<and> sorted_wrt (before (<)) (map (the_order s') sells) \<and> sorted_wrt (before (>)) (map (the_order s') buys)
        \<and> mdb s' = mdb s"
proof -
  define os where "os = get_orders env (orders (mdb s))"
  note b = get_market_orders_book [OF assms(1), folded os_def]
  have t: "sorted_wrt (\<lambda>a b. o_created_at a \<le> o_created_at b) (filter P os)" for P
    unfolding os_def by (rule sorted_wrt_filter [OF get_orders_sorted])
  have side: "is_sell = (\<lambda>x. o_type x = Sell)" "is_buy = (\<lambda>x. o_type x = Buy)" by (auto simp: order_props)
  have "mset (sort_sells xs) = mset xs" "mset (sort_buys xs) = mset xs" for xs
    by (simp_all add: sort_sells_def sort_buys_def)
  note m = this get_orders_selects [of _ env "orders (mdb s)", folded os_def]
  show ?thesis
    using sell_priority [OF t, of is_sell] buy_priority [OF t, of is_buy]
    unfolding b(1-3) Let_def side m by blast
qed

theorem book_priority_witness:
  "map (the_order (ex_s False False [])) [0] = [ex_sell] \<and> map (the_order (ex_s False False [])) [1] = [ex_buy]
   \<and> mset [ex_sell] = mset (filter (\<lambda>x. o_type x = Sell \<and> o_src x = 10 \<and> o_dst x = 2 \<and> o_status x = Active) (orders ex_db))"
  using book_priority [OF ex_book]
  by (simp add: Let_def init_state_def ex_env_def ex_data)

text \<open>Unless the limit of trades per round stops it, the matching leaves no market order
  of the book open: what is not filled is cancelled.\<close>

lemma market_orders_do_not_rest:
  assumes g: "get_market_orders env s0 = (sells, buys, s)"
    and v: "match_all_orders_v3 env rc sells buys s = Inr (books, rc', s')"
    and m: "matches s' < MAX_TRADE_PER_ROUND"
    and r: "r \<in> set (sells @ buys)" "is_market (the_order s r)"
  shows "\<not> is_active (the_order s' r)"
proof -
  note refs = book_refs [OF g]
  define news where "news = new_orders rc sells buys s"
  have news: "r \<in> set news" "\<forall>q \<in> set news. sell_ref s q \<or> buy_ref s q"
    using r refs by (auto simp: news_def new_orders_def is_important_def)
  from v obtain broke se bu lt s1 s2 where
    l: "new_orders_loop env news sells buys (last_time rc) s = Inr (broke, (se, bu), lt, s1)"
    and f: "if broke then s2 = s1 else \<exists>x. match_all_orders_before_order env se bu None s1 = Inr (x, s2)"
    and s': "s' = save_bulk_pending_orders s2"
    by (auto simp: match_all_orders_v3_def news_def rbind_eq_Inr_iff Let_def split: if_splits)
  have same: "objs s' = objs s2" "matches s' = matches s2"
    by (simp_all add: s' save_bulk_pending_orders_def Let_def)
  have "\<not> broke" using f m same loop_broke [OF l] by auto
  then have l0: "new_orders_loop env news sells buys (last_time rc) s = Inr (False, (se, bu), lt, s1)"
    and f0: "\<exists>x. match_all_orders_before_order env se bu None s1 = Inr (x, s2)" using l f by auto
  note st = new_orders_loop_steps [OF l0 refs news(2)]
  have "\<not> is_active (the_order s1 r)"
    by (rule loop_closes_market_orders [OF l0 refs news(2,1) r(2)])
  moreover have "msteps env s1 s2" using f0 st before_order_steps by fastforce
  moreover have "r < length (objs s1)"
    using heap_le_steps st refs r(1) by (fastforce simp: heap_le_def sell_ref_def buy_ref_def)
  ultimately have "\<not> is_active (the_order s2 r)" using steps_inactive by blast
  then show ?thesis by (simp add: the_order_def obj_def same)
qed

text \<open>A market sell alone in the book.\<close>

definition ex_lonely :: order where "ex_lonely = ex_sell\<lparr>o_execution := MarketExec\<rparr>"

definition ex_lonely_state :: mstate where
  "ex_lonely_state = (init_state ex_env (ex_db\<lparr>orders := [ex_lonely]\<rparr>))
     \<lparr>objs := [\<lparr>ob = ex_lonely, wallet_obj = None, pair_obj = None\<rparr>]\<rparr>"

lemma ex_lonely_book: "get_market_orders ex_env (init_state ex_env (ex_db\<lparr>orders := [ex_lonely]\<rparr>)) = ([0], [], ex_lonely_state)"
  by (simp add: get_market_orders_def init_state_def ex_data ex_lonely_state_def ex_lonely_def get_orders_def in_market_def
      uses_orderbook_criteria_def order_eval load_orders_def sort_sells_def sort_buys_def Let_def)

lemma ex_lonely_v3:
  "\<exists>books rc' s'. match_all_orders_v3 ex_env ex_rc [0] [] ex_lonely_state = Inr (books, rc', s') \<and> matches s' = 0"
proof -
  have sel: "the_order ex_lonely_state 0 = ex_lonely" "is_sell ex_lonely" "is_market ex_lonely" "is_active ex_lonely"
    "matches ex_lonely_state = 0" "o_created_at ex_lonely = 10"
    by (simp_all add: ex_lonely_state_def ex_lonely_def the_order_def obj_def order_eval ex_data init_state_def)
  have "sells_loop ex_env l [0] [] s = Inr (Next, s)" for l s by simp
  then have b: "match_all_orders_before_order ex_env [0] [] (Some 0) ex_lonely_state = Inr (([0], []), ex_lonely_state)"
    "match_all_orders_before_order ex_env [0] [] None s = Inr (([0], []), s)" for s
    by (simp_all add: match_all_orders_before_order.simps local_sells_def local_buys_def sel wants_expansion_def Let_def)
  have n: "new_orders ex_rc [0] [] ex_lonely_state = [0]"
    by (simp add: new_orders_def is_important_def sel)
  have c: "matches (cancel_order 0 ex_lonely_state) = 0"
    using sel(5) by (simp add: cancel_order_def set_obj_def Let_def)
  show ?thesis
    by (simp add: match_all_orders_v3_def n b cancel_unfilled_market_def sel c MAX_TRADE_PER_ROUND_def Let_def
        save_bulk_pending_orders_def)
qed

lemma market_orders_do_not_rest_witness:
  "\<exists>books rc' s'. match_all_orders_v3 ex_env ex_rc [0] [] ex_lonely_state = Inr (books, rc', s')
     \<and> is_market (the_order ex_lonely_state 0) \<and> \<not> is_active (the_order s' 0)"
proof -
  obtain books rc' s' where v: "match_all_orders_v3 ex_env ex_rc [0] [] ex_lonely_state = Inr (books, rc', s')"
    and m: "matches s' = 0"
    using ex_lonely_v3 by blast
  have mk: "is_market (the_order ex_lonely_state 0)"
    by (simp add: ex_lonely_state_def ex_lonely_def the_order_def obj_def order_eval)
  from market_orders_do_not_rest [OF ex_lonely_book v _ _ mk] m have "\<not> is_active (the_order s' 0)"
    by (simp add: MAX_TRADE_PER_ROUND_def)
  with v mk show ?thesis by blast
qed

text \<open>Activating stop orders changes the triggered rows only: they become active, with
  new creation times after the statement's time that keep their old order.\<close>

lemma stop_activation_exact:
  assumes "activate_stop_orders env ts lo hi os = (activated, os')" "distinct (map o_id os)"
  shows "length os' = length os
     \<and> (\<forall>i < length os. if stop_triggered env lo hi (os ! i)
          then os' ! i \<in> set activated \<and> ts < o_created_at (os' ! i)
               \<and> (\<exists>t. os' ! i = (set_status Active (os ! i))\<lparr>o_created_at := t\<rparr>)
          else os' ! i = os ! i)
     \<and> (\<forall>i < length os. \<forall>j < length os.
          stop_triggered env lo hi (os ! i) \<and> stop_triggered env lo hi (os ! j)
          \<and> o_created_at (os ! i) < o_created_at (os ! j)
          \<longrightarrow> o_created_at (os' ! i) < o_created_at (os' ! j))"
proof -
  define hits where "hits = filter (stop_triggered env lo hi) os"
  define ids where "ids = map o_id (sort_key o_created_at hits)"
  define act where "act = (\<lambda>o1. (set_status Active o1)\<lparr>o_created_at := ts + int (row_number ids (o_id o1))\<rparr>)"
  have eq: "activated = map act hits" "os' = map (\<lambda>o1. if stop_triggered env lo hi o1 then act o1 else o1) os"
    using assms(1) unfolding activate_stop_orders_def hits_def [symmetric] ids_def [symmetric] act_def [symmetric]
    by (auto simp: Let_def act_def)
  have dist: "distinct (map o_id hits)"
    unfolding hits_def by (rule distinct_map_filter [OF assms(2)])
  have mono: "o_created_at (act a) < o_created_at (act b)"
    if "a \<in> set hits" "b \<in> set hits" "o_created_at a < o_created_at b" for a b
    using row_number_mono [OF dist that] by (simp add: act_def ids_def)
  have pos: "ts < o_created_at (act a)" if "a \<in> set hits" for a
    using row_number_pos [of "o_id a" ids] that by (simp add: act_def ids_def)
  have ex: "\<exists>t. act a = (set_status Active a)\<lparr>o_created_at := t\<rparr>" for a by (auto simp: act_def)
  have in_hits: "os ! i \<in> set hits" if "i < length os" "stop_triggered env lo hi (os ! i)" for i
    using that by (simp add: hits_def)
  show ?thesis
    using mono pos ex in_hits by (simp add: eq image_iff) blast
qed

lemma stop_activation_exact_witness:
  "\<exists>activated os'. activate_stop_orders ex_env 50 90 120
       [ex_stop 5 Sell 95 10, ex_stop 6 Buy 130 20, ex_stop 7 Sell 99 5] = (activated, os')
     \<and> o_created_at (os' ! 2) < o_created_at (os' ! 0) \<and> os' ! 1 = ex_stop 6 Buy 130 20"
proof -
  let ?os = "[ex_stop 5 Sell 95 10, ex_stop 6 Buy 130 20, ex_stop 7 Sell 99 5]"
  obtain act os' where e: "activate_stop_orders ex_env 50 90 120 ?os = (act, os')" by force
  have t: "stop_triggered ex_env 90 120 (?os ! 0)" "\<not> stop_triggered ex_env 90 120 (?os ! 1)"
    "stop_triggered ex_env 90 120 (?os ! 2)" "o_created_at (?os ! 2) < o_created_at (?os ! 0)"
    by (simp_all add: stop_triggered_def ex_stop_def ex_order_def STOP_EXECUTION_TYPES_def)
  have "distinct (map o_id ?os)" by (simp add: ex_stop_def ex_order_def)
  note s = stop_activation_exact [OF e this]
  have "os' ! 1 = ?os ! 1" using s t(2) by simp
  moreover have "o_created_at (os' ! 2) < o_created_at (os' ! 0)" using s t(1,3,4) by (auto simp del: nth_Cons_numeral)
  ultimately show ?thesis using e by auto
qed

subsection \<open>The price range of a round\<close>

definition range_ok :: "menv \<Rightarrow> mstate \<Rightarrow> bool" where
  "range_ok env s \<longleftrightarrow>
     (case last_price_range s of
        None \<Rightarrow> True
      | Some (lo, hi) \<Rightarrow>
          let lower = dmul (orderbook_best_buy_price env) (dsub 1 PRICE_GUARD_RANGE);
              upper = dmul (orderbook_best_sell_price env) (dadd 1 PRICE_GUARD_RANGE)
          in validate_price_range env lo hi \<and> (lower = 0 \<or> lower \<le> lo) \<and> (upper = 0 \<or> hi \<le> upper))"

lemma range_ok_same: "last_price_range s' = last_price_range s \<Longrightarrow> range_ok env s' = range_ok env s"
  by (simp add: range_ok_def)

lemma range_ok_update: "range_ok env s \<Longrightarrow> range_ok env (update_last_price env p s)"
  by (auto simp: range_ok_def update_last_price_def validate_price_range_def Let_def split: option.splits if_splits)

lemma range_simps [simp]:
  "last_price_range (set_obj r x s) = last_price_range s" "last_price_range (set_wallet r w s) = last_price_range s"
  "last_price_range (cancel_order r s) = last_price_range s"
  "last_price_range (count_match m s) = last_price_range s"
  "last_price_range (record_pending t tx1 tx2 a b s) = last_price_range s"
  by (simp_all add: set_obj_def set_wallet_def cancel_order_def Let_def count_match_def record_pending_def)

lemma range_fill: "fill_object r a p f s = Inr s' \<Longrightarrow> last_price_range s' = last_price_range s"
  by (auto simp: fill_object_Inr)

lemma range_commit_trade: "commit_trade t sell buy s = (m, s') \<Longrightarrow> last_price_range s' = last_price_range s"
  by (auto simp: commit_trade_def split: sum.split_asm dest!: range_fill)

lemma range_commit_from: "commit_from r tx s = Inr (tx', s') \<Longrightarrow> last_price_range s' = last_price_range s"
  by (auto simp: commit_from_Inr)

lemma range_create:
  "create_exchange_transactions env sell buy a p k sf bf s = (m, s') \<Longrightarrow> last_price_range s' = last_price_range s"
  unfolding create_exchange_transactions_def
  by (auto split: sum.split_asm prod.split_asm dest!: range_commit_from range_commit_trade)

lemma range_try: "try_trade env sell buy a p fees s = (m, s') \<Longrightarrow> range_ok env s \<Longrightarrow> range_ok env s'"
proof (erule try_trade_cases)
  fix t s1
  assume "s' = update_last_price env (t_price t) s1" "range_ok env s"
    and "create_exchange_transactions env sell buy a p
      (seller_is_maker (the_order s sell) (the_order s buy)) (fst fees) (snd fees) s = (Inr t, s1)"
  then show ?thesis using range_ok_update range_ok_same [OF range_create] by blast
qed (auto simp: range_ok_def dest!: range_create)

lemma range_load: "load_wallet env r s = Inr (w, s') \<Longrightarrow> last_price_range s' = last_price_range s"
  by (auto dest!: load_wallet_cases)

lemma range_expand: "get_market_orders_with_expansion env b s = (q, s') \<Longrightarrow> last_price_range s' = last_price_range s"
  by (auto simp: get_market_orders_with_expansion_def get_orders_for_expansion_def load_orders_def Let_def
      split: prod.split_asm if_splits)

lemma range_step:
  assumes "mstep env s s'" "range_ok env s"
  shows "range_ok env s'"
  using assms(1)
proof cases
  case (step_trade sell buy amount price fees m)
  then show ?thesis using range_try assms(2) by blast
qed (use assms(2) in \<open>auto simp: range_ok_def dest!: range_load range_expand\<close>)

interpretation range_machine: invariant_machine "mstep env" "range_ok env" for env
  by unfold_locales (rule range_step)

lemmas range_steps = range_machine.run_keeps

text \<open>The price range that a round hands to the stop orders and to the liquidation is
  never empty, starts above the minimal price, and stays within twenty percent of the best
  prices of the order book.\<close>

lemma round_price_range:
  assumes p: "process_market_orders env rc (init_state env d) = Inr (rc', s')" and d: "sound_db d"
    and r: "last_price_range s' = Some (lo, hi)"
  shows "validate_price_range env lo hi
     \<and> (dmul (orderbook_best_buy_price env) (dsub 1 PRICE_GUARD_RANGE) \<noteq> 0
          \<longrightarrow> dmul (orderbook_best_buy_price env) (dsub 1 PRICE_GUARD_RANGE) \<le> lo)
     \<and> (dmul (orderbook_best_sell_price env) (dadd 1 PRICE_GUARD_RANGE) \<noteq> 0
          \<longrightarrow> hi \<le> dmul (orderbook_best_sell_price env) (dadd 1 PRICE_GUARD_RANGE))"
  using p d
proof (rule process_steps)
  fix sells buys s sells' buys' s2
  assume g: "get_market_orders env (init_state env d) = (sells, buys, s)" and st: "msteps env s s2"
    and s': "s' = post_process_orders env buys' sells' (save_bulk_pending_orders s2)"
  have "last_price_range s = None"
    using g by (auto simp: get_market_orders_def load_orders_def init_state_def Let_def split: if_splits)
  then have "range_ok env s2" using range_steps [OF st] by (simp add: range_ok_def)
  moreover have "last_price_range s2 = Some (lo, hi)"
    using r by (simp add: s' post_process_orders_def save_bulk_pending_orders_def Let_def split: if_splits)
  ultimately show ?thesis by (auto simp: range_ok_def Let_def)
qed

lemma round_price_range_witness: "validate_price_range ex_env 100 100"
  using round_price_range [OF ex_process ex_sound, of 100 100] by (simp add: ex_s4_def ex_s3_def)

text \<open>C39: at the end of a round every order of a system channel older than two minutes is
  cancelled, whatever its state: also one that the round has just filled.\<close>

theorem expired_system_orders_canceled:
  assumes "q \<in> set (buys @ sells)" "is_expired_system_order env (the_order s q)"
    and "row \<in> set (orders (mdb (post_process_orders env buys sells s)))" "o_id row = o_id (the_order s q)"
  shows "o_status row = Canceled"
proof -
  define xs where "xs = not_updated_orders env buys sells s"
  have "o_id (the_order s q) \<in> set (map o_id xs)"
    using assms(1,2) by (auto simp: xs_def not_updated_orders_def Let_def)
  moreover have "row \<in> set (cancel_ids (map o_id xs @ List.map_filter o_pair xs) (orders (mdb s)))"
    using assms(3) by (simp add: post_process_orders_def post_process_updated_margin_orders_def xs_def Let_def)
  ultimately show ?thesis using assms(4) by (auto simp: cancel_ids_def split: if_splits)
qed

text \<open>A filled order of the margin system, two minutes after it was placed.\<close>

definition ex_filled :: order where
  "ex_filled = ex_buy'\<lparr>o_channel := Some CHANNEL_system_margin\<rparr>"

definition ex_filled_state :: mstate where
  "ex_filled_state = (init_state ex_env (ex_db\<lparr>orders := [ex_filled]\<rparr>))
     \<lparr>objs := [\<lparr>ob = ex_filled, wallet_obj = None, pair_obj = None\<rparr>], pending_update := [0]\<rparr>"

theorem expired_system_orders_canceled_witness:
  "is_matched ex_filled \<and> o_status ex_filled = Done
   \<and> list_all (\<lambda>row. o_status row = Canceled)
        (orders (mdb (post_process_orders (ex_env\<lparr>clock := 200000000\<rparr>) [0] [] ex_filled_state)))"
proof -
  have e: "is_expired_system_order (ex_env\<lparr>clock := 200000000\<rparr>) (the_order ex_filled_state 0)"
    by (simp add: is_expired_system_order_def ex_filled_state_def the_order_def obj_def ex_filled_def ex_buy'_def
        ex_data matcher_constants)
  have "o_id row = o_id (the_order ex_filled_state 0)"
    if "row \<in> set (orders (mdb (post_process_orders (ex_env\<lparr>clock := 200000000\<rparr>) [0] [] ex_filled_state)))" for row
    using that by (auto simp: post_process_orders_def post_process_updated_margin_orders_def cancel_ids_def
        ex_filled_state_def init_state_def the_order_def obj_def Let_def split: if_splits)
  moreover have "is_matched ex_filled \<and> o_status ex_filled = Done"
    by (simp add: order_eval ex_filled_def ex_buy'_def ex_data dec_eval)
  moreover have "0 \<in> set ([0] @ [] :: nat list)" by simp
  ultimately show ?thesis using expired_system_orders_canceled [OF _ e] unfolding list_all_iff by blast
qed

end
