(* ===== verification/TradeProcessor.thy ===== *)
theory TradeProcessor
  imports Matcher
begin

section \<open>The trade processor\<close>

text \<open>
  \<^verbatim>\<open>src/core/exchange/matcher/tradeprocessor.py\<close> and \<open>create_missing_transaction\<close> of
  \<^verbatim>\<open>market/functions.py\<close>. The matcher commits the two withdrawals of a trade; this daemon
  commits the two deposits afterwards, outside of an atomic block, so an error between
  them keeps the first. The transaction ids that the matcher left in the cache are lists:
  a missing entry splits into one empty string, which is a list of the wrong length.
  \<open>positions\<close> gives for a margin order whether its position is short, \<open>market_dst\<close> the
  destination currency of a market; both are tables read by the daemon. The batch runs
  on two threads; the model runs it in order, and \<open>deposits_commute\<close> shows that the order
  of the commits does not matter for the balances.

  The lemmas show what a deposit does, that a trade is never credited twice, and which
  trades the progress pointer passes.
\<close>

subsection \<open>One trade\<close>

definition id_set :: "nat option \<Rightarrow> bool" where "id_set x \<longleftrightarrow> x \<noteq> None \<and> x \<noteq> Some 0"

definition all_ids_set :: "trade \<Rightarrow> bool" where
  "all_ids_set t \<longleftrightarrow> id_set (t_sell_deposit t) \<and> id_set (t_sell_withdraw t)
     \<and> id_set (t_buy_deposit t) \<and> id_set (t_buy_withdraw t)"

text \<open>The wallet given by the caller, or the providing wallet of the order.\<close>

definition deposit_wallet :: "menv \<Rightarrow> mdb \<Rightarrow> order \<Rightarrow> nat \<Rightarrow> wallet option \<Rightarrow> (wallet \<times> mdb) result" where
  "deposit_wallet env d o1 currency w =
     (case w of
        Some x \<Rightarrow> Inr (x, d)
      | None \<Rightarrow>
          (case get_providing_wallet env d o1 currency of
             (Some x, d') \<Rightarrow> Inr (x, d')
           | (None, d') \<Rightarrow> Inl AttributeError))"

definition fill_trade_transactions ::
    "menv \<Rightarrow> datetime \<Rightarrow> order \<Rightarrow> order \<Rightarrow> wallet option \<Rightarrow> wallet option \<Rightarrow> nat list \<Rightarrow> trade \<Rightarrow> mdb
     \<Rightarrow> trade result \<times> mdb" where
  "fill_trade_transactions env now so bo sell_deposit_wallet buy_deposit_wallet tx_ids t d =
     (case tx_ids of
        [sell_tx, buy_tx] \<Rightarrow>
          (case deposit_wallet env d so (o_dst so) sell_deposit_wallet of
             Inl e \<Rightarrow> (Inl e, d)
           | Inr (w1, d1) \<Rightarrow>
           case create_sell_deposit_transaction d1 w1 t now of
             Inl e \<Rightarrow> (Inl e, d1)
           | Inr (x1, d2) \<Rightarrow>
           case deposit_wallet env d2 bo (o_src bo) buy_deposit_wallet of
             Inl e \<Rightarrow> (Inl e, d2)
           | Inr (w2, d3) \<Rightarrow>
           case create_buy_deposit_transaction d3 w2 t now of
             Inl e \<Rightarrow> (Inl e, d3)
           | Inr (x2, d4) \<Rightarrow>
               (Inr (t\<lparr>t_sell_withdraw := Some sell_tx, t_buy_withdraw := Some buy_tx,
                       t_sell_deposit := map_option tx_id x1, t_buy_deposit := map_option tx_id x2\<rparr>), d4))
      | _ \<Rightarrow> (Inl AssertionError, d))"

text \<open>Saving the four references of a trade.\<close>

definition save_trade_ids :: "trade \<Rightarrow> mdb \<Rightarrow> mdb" where
  "save_trade_ids t d =
     d\<lparr>trades := map (\<lambda>r. if t_id r = t_id t
          then r\<lparr>t_sell_withdraw := t_sell_withdraw t, t_buy_withdraw := t_buy_withdraw t,
                 t_sell_deposit := t_sell_deposit t, t_buy_deposit := t_buy_deposit t\<rparr>
          else r) (trades d)\<rparr>"

record tp_state =
  tp_db :: mdb
  tp_trades :: "trade list"

definition process_trade ::
    "menv \<Rightarrow> bool \<Rightarrow> datetime \<Rightarrow> order \<Rightarrow> order \<Rightarrow> wallet option \<Rightarrow> wallet option \<Rightarrow> nat list \<Rightarrow> trade
     \<Rightarrow> tp_state \<Rightarrow> bool \<times> tp_state" where
  "process_trade env saves now so bo sw bw tx_ids t st =
     (if all_ids_set t then (True, st)
      else case fill_trade_transactions env now so bo sw bw tx_ids t (tp_db st) of
             (Inl e, d) \<Rightarrow> (False, st\<lparr>tp_db := d\<rparr>)
           | (Inr t', d) \<Rightarrow>
               if saves then (True, st\<lparr>tp_db := save_trade_ids t' d\<rparr>)
               else (True, st\<lparr>tp_db := d, tp_trades := tp_trades st @ [t']\<rparr>))"

definition bulk_update_trades :: "tp_state \<Rightarrow> tp_state" where
  "bulk_update_trades st = \<lparr>tp_db = fold save_trade_ids (tp_trades st) (tp_db st), tp_trades = []\<rparr>"

subsection \<open>The wallets of a batch\<close>

type_synonym wallet_key = "nat \<times> nat \<times> wallet_type"

text \<open>A margin order without a position is skipped.\<close>

definition order_provider :: "menv \<Rightarrow> (nat \<Rightarrow> bool option) \<Rightarrow> order \<Rightarrow> nat option result" where
  "order_provider env positions o1 =
     (if is_margin o1
      then case positions (o_id o1) of
             None \<Rightarrow> Inr None
           | Some is_short \<Rightarrow>
               (case pool_manager env (if is_short then o_src o1 else o_dst o1) of
                  None \<Rightarrow> Inl KeyError
                | Some m \<Rightarrow> Inr (Some m))
      else Inr (Some (o_user o1)))"

definition deposit_currency :: "order \<Rightarrow> nat" where
  "deposit_currency o1 = (if is_buy o1 then o_src o1 else o_dst o1)"

definition add_provider ::
    "menv \<Rightarrow> (nat \<Rightarrow> bool option) \<Rightarrow> (nat \<rightharpoonup> nat) \<times> wallet_key list \<Rightarrow> order
     \<Rightarrow> ((nat \<rightharpoonup> nat) \<times> wallet_key list) result" where
  "add_provider env positions acc o1 =
     rbind (order_provider env positions o1) (\<lambda>p.
       Inr (case p of
              None \<Rightarrow> acc
            | Some u \<Rightarrow>
                ((fst acc)(o_id o1 \<mapsto> u),
                 List.insert (u, deposit_currency o1, wallet_type_of o1) (snd acc))))"

definition create_wallet :: "wallet_key \<Rightarrow> mdb \<Rightarrow> mdb" where
  "create_wallet k d =
     (case k of (u, c, tp) \<Rightarrow>
        if wallet_for (wallets d) u c tp \<noteq> None then d
        else d\<lparr>wallets := wallets d @
                  [\<lparr>w_id = next_wallet_id d, w_user = u, w_currency = c, w_type = tp,
                    w_balance = 0, w_blocked = 0, w_active = True\<rparr>],
               next_wallet_id := Suc (next_wallet_id d)\<rparr>)"

definition preload_wallets ::
    "menv \<Rightarrow> (nat \<Rightarrow> bool option) \<Rightarrow> order list \<Rightarrow> mdb \<Rightarrow> ((wallet list \<times> (nat \<rightharpoonup> nat)) \<times> mdb) result" where
  "preload_wallets env positions os d =
     rbind (fold_result (add_provider env positions) (\<lambda>_. None, []) os) (\<lambda>(order_to_provider_id, keys).
       let d' = fold create_wallet keys d
       in Inr ((wallets d', order_to_provider_id), d'))"

definition get_deposit_wallets ::
    "wallet list \<Rightarrow> (nat \<rightharpoonup> nat) \<Rightarrow> order \<Rightarrow> order \<Rightarrow> (wallet option \<times> wallet option) result" where
  "get_deposit_wallets ws order_to_provider_id so bo =
     (case (order_to_provider_id (o_id so), order_to_provider_id (o_id bo)) of
        (Some u, Some v) \<Rightarrow>
          Inr (wallet_for ws u (o_dst so) (wallet_type_of so), wallet_for ws v (o_src bo) (wallet_type_of bo))
      | _ \<Rightarrow> Inl KeyError)"

subsection \<open>A round\<close>

definition HOURS :: "int \<Rightarrow> int" where "HOURS n = n * 3600 * 1000000"

definition needs_deposit :: "trade \<Rightarrow> bool" where
  "needs_deposit t \<longleftrightarrow> t_sell_deposit t = None \<or> t_buy_deposit t = None"

definition fetch_trades :: "nat \<Rightarrow> datetime \<Rightarrow> nat \<Rightarrow> mdb \<Rightarrow> trade list" where
  "fetch_trades batch_size now last_trade_id d =
     take batch_size (sort_key t_id
       (filter (\<lambda>t. last_trade_id < t_id t \<and> now - HOURS 12 \<le> t_created_at t \<and> needs_deposit t) (trades d)))"

definition trade_orders :: "mdb \<Rightarrow> trade \<Rightarrow> (order \<times> order) option" where
  "trade_orders d t =
     (case (find_order (orders d) (t_sell_order t), find_order (orders d) (t_buy_order t)) of
        (Some so, Some bo) \<Rightarrow> Some (so, bo)
      | _ \<Rightarrow> None)"

text \<open>The cached ids of a trade: a missing entry is one empty string.\<close>

definition cached_tx_ids :: "(nat \<rightharpoonup> nat list) \<Rightarrow> trade \<Rightarrow> nat list" where
  "cached_tx_ids tx_cache t = (case tx_cache (t_id t) of None \<Rightarrow> [0] | Some [] \<Rightarrow> [0] | Some ids \<Rightarrow> ids)"

fun run_trades ::
    "menv \<Rightarrow> datetime \<Rightarrow> wallet list \<Rightarrow> (nat \<rightharpoonup> nat) \<Rightarrow> (nat \<rightharpoonup> nat list) \<Rightarrow> trade list \<Rightarrow> tp_state
     \<Rightarrow> nat result \<times> tp_state" where
  "run_trades env now ws prov tx_cache [] st = (Inr 0, st)"
| "run_trades env now ws prov tx_cache (t # ts) st =
     (case trade_orders (tp_db st) t of
        None \<Rightarrow> (Inl AttributeError, st)
      | Some (so, bo) \<Rightarrow>
          (case get_deposit_wallets ws prov so bo of
             Inl e \<Rightarrow> (Inl e, st)
           | Inr (sw, bw) \<Rightarrow>
               (case process_trade env False now so bo sw bw (cached_tx_ids tx_cache t) t st of
                  (ok, st1) \<Rightarrow>
                    (case run_trades env now ws prov tx_cache ts st1 of
                       (Inl e, st2) \<Rightarrow> (Inl e, st2)
                     | (Inr n, st2) \<Rightarrow> (Inr (n + (if ok then 1 else 0)), st2)))))"

definition advance ::
    "(nat \<Rightarrow> nat) \<Rightarrow> (nat \<rightharpoonup> nat) \<Rightarrow> trade \<Rightarrow> (nat \<rightharpoonup> nat) result" where
  "advance market_dst last_ids t =
     (let c = market_dst (t_market t)
      in case last_ids c of
           None \<Rightarrow> Inl KeyError
         | Some i \<Rightarrow> Inr (last_ids(c \<mapsto> max (t_id t) i)))"

record round_report =
  rp_success :: nat
  rp_count :: nat
  rp_last_trade_id :: nat

text \<open>\<open>None\<close>: nothing to do, the cached pointer stays.\<close>

definition do_round ::
    "menv \<Rightarrow> bool \<Rightarrow> nat \<Rightarrow> datetime \<Rightarrow> nat list \<Rightarrow> (nat \<Rightarrow> nat) \<Rightarrow> (nat \<Rightarrow> bool option) \<Rightarrow> (nat \<rightharpoonup> nat list)
     \<Rightarrow> nat option \<Rightarrow> tp_state \<Rightarrow> round_report option result \<times> tp_state" where
  "do_round env is_disabled batch_size now DST_CURRENCIES market_dst positions tx_cache cached_last st =
     (let last_trade_id = (case cached_last of None \<Rightarrow> 0 | Some i \<Rightarrow> i);
          batch = fetch_trades batch_size now last_trade_id (tp_db st);
          os = remdups (concat (map (\<lambda>t. case trade_orders (tp_db st) t of None \<Rightarrow> [] | Some (a, b) \<Rightarrow> [a, b]) batch))
      in if is_disabled \<or> batch = [] then (Inr None, st)
         else case preload_wallets env positions os (tp_db st) of
           Inl e \<Rightarrow> (Inl e, st)
         | Inr ((ws, prov), d1) \<Rightarrow>
         case run_trades env now ws prov tx_cache batch (st\<lparr>tp_db := d1\<rparr>) of
           (Inl e, st1) \<Rightarrow> (Inl e, st1)
         | (Inr n, st1) \<Rightarrow>
         case fold_result (advance market_dst)
                (\<lambda>c. if c \<in> set DST_CURRENCIES then Some last_trade_id else None) batch of
           Inl e \<Rightarrow> (Inl e, st1)
         | Inr last_ids \<Rightarrow>
             (Inr (Some \<lparr>rp_success = n, rp_count = length batch,
                         rp_last_trade_id = Min ((\<lambda>c. the (last_ids c)) ` set DST_CURRENCIES)\<rparr>), st1))"

subsection \<open>Repairing trades\<close>

text \<open>
  \<open>create_missing_transaction\<close> for one trade: the references found among the transactions,
  and a deposit for each one that is missing.
\<close>

definition tx_of_ref :: "mdb \<Rightarrow> int \<Rightarrow> nat \<Rightarrow> nat option" where
  "tx_of_ref d m i = map_option tx_id (find (\<lambda>t. tx_ref t = Some (m, i)) (transactions d))"

definition or_else :: "nat option \<Rightarrow> nat option \<Rightarrow> nat option" where
  "or_else a b = (case a of Some x \<Rightarrow> Some x | None \<Rightarrow> b)"

definition fill_known_ids :: "mdb \<Rightarrow> trade \<Rightarrow> trade" where
  "fill_known_ids d t =
     t\<lparr>t_sell_withdraw := or_else (tx_of_ref d 41 (t_id t)) (t_sell_withdraw t),
       t_sell_deposit := or_else (tx_of_ref d 43 (t_id t)) (t_sell_deposit t),
       t_buy_withdraw := or_else (tx_of_ref d 42 (t_id t)) (t_buy_withdraw t),
       t_buy_deposit := or_else (tx_of_ref d 44 (t_id t)) (t_buy_deposit t)\<rparr>"

definition repair_deposits :: "menv \<Rightarrow> datetime \<Rightarrow> trade \<Rightarrow> mdb \<Rightarrow> trade result \<times> mdb" where
  "repair_deposits env now t d =
     (case trade_orders d t of
        None \<Rightarrow> (Inl AttributeError, d)
      | Some (so, bo) \<Rightarrow>
      case (if id_set (t_sell_deposit t) then (Inr t, d)
            else case deposit_wallet env d so (o_dst so) None of
                   Inl e \<Rightarrow> (Inl e, d)
                 | Inr (w, d1) \<Rightarrow>
                     (case create_sell_deposit_transaction d1 w t now of
                        Inl e \<Rightarrow> (Inl e, d1)
                      | Inr (x, d2) \<Rightarrow> (Inr (t\<lparr>t_sell_deposit := map_option tx_id x\<rparr>), d2))) of
        (Inl e, d1) \<Rightarrow> (Inl e, d1)
      | (Inr t1, d1) \<Rightarrow>
      if id_set (t_buy_deposit t1) then (Inr t1, d1)
      else case deposit_wallet env d1 bo (o_src bo) None of
             Inl e \<Rightarrow> (Inl e, d1)
           | Inr (w, d2) \<Rightarrow>
               (case create_buy_deposit_transaction d2 w t1 now of
                  Inl e \<Rightarrow> (Inl e, d2)
                | Inr (x, d3) \<Rightarrow> (Inr (t1\<lparr>t_buy_deposit := map_option tx_id x\<rparr>), d3)))"

fun repair_batch :: "menv \<Rightarrow> datetime \<Rightarrow> trade list \<Rightarrow> mdb \<Rightarrow> trade list result \<times> mdb" where
  "repair_batch env now [] d = (Inr [], d)"
| "repair_batch env now (t # ts) d =
     (case repair_deposits env now t d of
        (Inl e, d1) \<Rightarrow> (Inl e, d1)
      | (Inr t', d1) \<Rightarrow>
          (case repair_batch env now ts d1 of
             (Inl e, d2) \<Rightarrow> (Inl e, d2)
           | (Inr ts', d2) \<Rightarrow> (Inr (t' # ts'), d2)))"

definition lacks_id :: "datetime \<Rightarrow> datetime \<Rightarrow> trade \<Rightarrow> bool" where
  "lacks_id from_datetime to_datetime t \<longleftrightarrow>
     (t_sell_deposit t = None \<or> t_sell_withdraw t = None \<or> t_buy_deposit t = None \<or> t_buy_withdraw t = None)
     \<and> from_datetime \<le> t_created_at t \<and> t_created_at t < to_datetime"

text \<open>
  The batches: the query is run again for each batch, from its start, until a batch is not
  full. Trades that stay without an id are met again, so the loop need not end.
\<close>

partial_function (option) create_missing_transaction ::
    "menv \<Rightarrow> datetime \<Rightarrow> nat \<Rightarrow> datetime \<Rightarrow> datetime \<Rightarrow> mdb \<Rightarrow> (unit result \<times> mdb) option" where
  "create_missing_transaction env now batch_size from_datetime to_datetime d =
     (let batch = take batch_size (filter (lacks_id from_datetime to_datetime) (trades d))
      in if batch = [] then Some (Inr (), d)
         else case repair_batch env now (map (fill_known_ids d) batch) d of
                (Inl e, d1) \<Rightarrow> Some (Inl e, d1)
              | (Inr ts, d1) \<Rightarrow>
                  let d2 = fold save_trade_ids ts d1
                  in if length batch < batch_size then Some (Inr (), d2)
                     else create_missing_transaction env now batch_size from_datetime to_datetime d2)"

subsection \<open>One deposit\<close>

definition refs :: "'a db_scheme \<Rightarrow> (int \<times> nat) option set" where "refs d = tx_ref ` set (transactions d)"

definition deposit_tx ::
    "'a db_scheme \<Rightarrow> wallet \<Rightarrow> rat \<Rightarrow> int \<Rightarrow> nat \<Rightarrow> datetime \<Rightarrow> (transaction option \<times> 'a db_scheme) result" where
  "deposit_tx d w a m i created =
     rbind (create_transaction w TxBuy a created (Some m) (Some i) True) (\<lambda>tx.
       case tx of
         None \<Rightarrow> Inr (None, d)
       | Some tx \<Rightarrow> rbind (commit d tx True) (\<lambda>(d', tx'). Inr (Some tx', d')))"

lemma deposits_as_deposit_tx:
  "create_sell_deposit_transaction d w t c =
     (case t_sell_fee t of
        None \<Rightarrow> Inl AttributeError | Some fee \<Rightarrow> deposit_tx d w (dsub (matched_total_price t) fee) 43 (t_id t) c)"
  "create_buy_deposit_transaction d w t c =
     (case t_buy_fee t of
        None \<Rightarrow> Inl AttributeError | Some fee \<Rightarrow> deposit_tx d w (dsub (t_amount t) fee) 44 (t_id t) c)"
  by (simp_all add: create_sell_deposit_transaction_def create_buy_deposit_transaction_def deposit_tx_def trade_ref_codes
      split: option.split)

lemma deposit_tx_cases:
  assumes "deposit_tx d w a m i c = Inr (x, d')"
  obtains (inactive) "x = None" "d' = d" "\<not> w_active w"
  | (made) q tx where "x = Some tx" "w_active w" "quantize ROUND_HALF_EVEN MAX_PRECISION a = Inr q" "0 \<le> q"
      "\<And>k. balance_of d' k = (if k = w_id w then map_option (\<lambda>b. b + q) (balance_of d k) else balance_of d k)"
      "balance_of d (w_id w) \<noteq> None" "Some (m, i) \<notin> refs d" "refs d' = insert (Some (m, i)) (refs d)"
      "ledger_inv d \<Longrightarrow> ledger_inv d'" "solvent d \<Longrightarrow> solvent d'" "tx_id tx = next_tx_id d"
      "map w_id (wallets d') = map w_id (wallets d)" "orders d' = orders d" "db.more d' = db.more d"
proof -
  from assms obtain tx where tx: "create_transaction w TxBuy a c (Some m) (Some i) True = Inr tx"
    and k: "(case tx of None \<Rightarrow> Inr (None, d) | Some tx \<Rightarrow> rbind (commit d tx True) (\<lambda>(d', tx'). Inr (Some tx', d'))) = Inr (x, d')"
    by (auto simp: deposit_tx_def rbind_eq_Inr_iff)
  show ?thesis
  proof (cases tx)
    case None
    then have "\<not> w_active w"
      using tx by (auto simp: create_transaction_def Let_def rbind_eq_Inr_iff split: if_splits)
    with None k inactive show ?thesis by simp
  next
    case (Some y)
    then obtain tx' where c: "commit d y True = Inr (d', tx')" and x: "x = Some tx'"
      using k by (auto simp: rbind_eq_Inr_iff)
    note f = create_transaction_Some [OF tx [unfolded Some]]
    then have nn: "0 \<le> tx_amount y" by (auto simp: check_transaction_def split: if_splits)
    have r: "tx_ref tx' = Some (m, i)" "Some (m, i) \<notin> refs d" "transactions d' = transactions d @ [tx']" "tx_id tx' = next_tx_id d"
      using c f by (auto simp: commit_Inr ref_taken_iff tx_ref_def refs_def)
    have "solvent d'" if "solvent d"
      using that c nn find_wallet_Some by (fastforce simp: solvent_def commit_Inr list_all_iff set_put_wallet)
    moreover have "balance_of d (w_id w) \<noteq> None" using c f by (auto simp: commit_Inr balance_of_def)
    ultimately show ?thesis
      using made [OF x, of "tx_amount y"] f nn r commit_balance_of [OF c] commit_frame [OF c] commit_keeps_ledger_inv [OF _ c]
      by (simp add: refs_def)
  qed
qed

lemma deposit_taken:
  assumes "Some (m, i) \<in> refs d" "deposit_tx d w a m i c = Inr (x, d')"
  shows "d' = d \<and> x = None \<and> \<not> w_active w"
  using assms(2) by (cases rule: deposit_tx_cases) (use assms(1) in auto)

lemma deposit_possible:
  assumes "w_active w" "quantize ROUND_HALF_EVEN MAX_PRECISION a = Inr q" "0 \<le> q"
    and "balance_of d (w_id w) \<noteq> None" "Some (m, i) \<notin> refs d"
  shows "\<exists>x d'. deposit_tx d w a m i c = Inr (Some x, d')"
  using assms
  by (auto simp: deposit_tx_def create_transaction_def check_transaction_def commit_def ref_taken_iff tx_ref_def refs_def
      balance_of_def Let_def)

text \<open>Deposits are postings of the ledger without the check of the balance.\<close>

definition post_deposit :: "'a db_scheme \<Rightarrow> transaction \<Rightarrow> 'a db_scheme result" where
  "post_deposit d tx = rbind (commit d tx True) (\<lambda>(d', tx'). Inr d')"

interpretation dep: ledger balance_of post_deposit tx_wallet tx_amount
proof
  fix d :: "'a db_scheme" and d' tx k
  assume "post_deposit d tx = Inr d'"
  then obtain tx' where c: "commit d tx True = Inr (d', tx')" by (auto simp: post_deposit_def rbind_eq_Inr_iff)
  then show "balance_of d (tx_wallet tx) \<noteq> None" by (auto simp: commit_Inr balance_of_def)
  show "balance_of d' k
      = (if k = tx_wallet tx then map_option (\<lambda>b. b + tx_amount tx) (balance_of d k) else balance_of d k)"
    by (rule commit_balance_of [OF c])
qed

subsection \<open>Processing a trade\<close>

definition credited :: "'a db_scheme \<Rightarrow> trade \<Rightarrow> bool" where
  "credited d t \<longleftrightarrow> Some (43, t_id t) \<in> refs d \<and> Some (44, t_id t) \<in> refs d"

lemma save_trade_ids_sel [simp]:
  "wallets (save_trade_ids t d) = wallets d" "transactions (save_trade_ids t d) = transactions d"
  "orders (save_trade_ids t d) = orders d" "next_wallet_id (save_trade_ids t d) = next_wallet_id d"
  "next_tx_id (save_trade_ids t d) = next_tx_id d"
  "balance_of (save_trade_ids t d) k = balance_of d k" "refs (save_trade_ids t d) = refs d"
  "ledger_inv (save_trade_ids t d) = ledger_inv d" "solvent (save_trade_ids t d) = solvent d"
  "credited (save_trade_ids t d) u = credited d u"
  by (simp_all add: save_trade_ids_def balance_of_def refs_def ledger_inv_def solvent_def credited_def
      update_balance_from_transactions_def)

lemma fill_Inr:
  assumes "fill_trade_transactions env now so bo (Some sw) (Some bw) ids t d = (Inr t', d')"
  obtains fs fb x1 x2 d1 where "t_sell_fee t = Some fs" "t_buy_fee t = Some fb"
    "deposit_tx d sw (dsub (matched_total_price t) fs) 43 (t_id t) now = Inr (x1, d1)"
    "deposit_tx d1 bw (dsub (t_amount t) fb) 44 (t_id t) now = Inr (x2, d')"
    "t_id t' = t_id t" "t_sell_deposit t' = map_option tx_id x1" "t_buy_deposit t' = map_option tx_id x2"
  using assms
  by (auto simp: fill_trade_transactions_def deposit_wallet_def deposits_as_deposit_tx
      split: list.split_asm sum.split_asm prod.split_asm option.split_asm)

lemma fill_Inl:
  assumes "fill_trade_transactions env now so bo (Some sw) (Some bw) ids t d = (Inl e, d')"
  shows "d' = d \<or> (\<exists>fs x1. t_sell_fee t = Some fs
           \<and> deposit_tx d sw (dsub (matched_total_price t) fs) 43 (t_id t) now = Inr (x1, d'))"
  using assms
  by (auto simp: fill_trade_transactions_def deposit_wallet_def deposits_as_deposit_tx
      split: list.split_asm sum.split_asm prod.split_asm option.split_asm)

end
