(* ===== verification/TradeProcessor_Claims.thy ===== *)
theory TradeProcessor_Claims
  imports TradeProcessor Matcher_Claims
begin

section \<open>What the trade processor guarantees\<close>

text \<open>
  The properties of the processor and of the repair job, on the database that the worked
  example of the matcher leaves behind.
\<close>

subsection \<open>What the processor guarantees\<close>

text \<open>C6: processing a trade whose deposit wallets are active credits the seller with the
  total price less the fee and the buyer with the amount less the fee, rounded to ten
  places, moves no other balance, and leaves both deposits on record.\<close>

theorem process_trade_exact:
  assumes p: "process_trade env saves now so bo (Some sw) (Some bw) ids t st = (True, st')"
    and new: "\<not> all_ids_set t" and act: "w_active sw" "w_active bw"
  shows "\<exists>fs fb qs qb. t_sell_fee t = Some fs \<and> t_buy_fee t = Some fb
     \<and> quantize ROUND_HALF_EVEN MAX_PRECISION (dsub (matched_total_price t) fs) = Inr qs \<and> 0 \<le> qs
     \<and> quantize ROUND_HALF_EVEN MAX_PRECISION (dsub (t_amount t) fb) = Inr qb \<and> 0 \<le> qb
     \<and> credited (tp_db st') t
     \<and> (\<forall>i. balance_of (tp_db st') i = map_option (\<lambda>b. b + (if i = w_id sw then qs else 0)
            + (if i = w_id bw then qb else 0)) (balance_of (tp_db st) i))"
proof -
  from p new obtain t' d where f: "fill_trade_transactions env now so bo (Some sw) (Some bw) ids t (tp_db st) = (Inr t', d)"
    and st': "\<And>i. balance_of (tp_db st') i = balance_of d i" "credited (tp_db st') t = credited d t"
    by (auto simp: process_trade_def split: prod.split_asm sum.split_asm if_splits)
  from f obtain fs fb x1 x2 d1 where fees: "t_sell_fee t = Some fs" "t_buy_fee t = Some fb"
    and d1: "deposit_tx (tp_db st) sw (dsub (matched_total_price t) fs) 43 (t_id t) now = Inr (x1, d1)"
    and d2: "deposit_tx d1 bw (dsub (t_amount t) fb) 44 (t_id t) now = Inr (x2, d)"
    by (rule fill_Inr)
  from d1 act obtain qs where qs: "quantize ROUND_HALF_EVEN MAX_PRECISION (dsub (matched_total_price t) fs) = Inr qs" "0 \<le> qs"
    "\<And>k. balance_of d1 k = (if k = w_id sw then map_option (\<lambda>b. b + qs) (balance_of (tp_db st) k) else balance_of (tp_db st) k)"
    "refs d1 = insert (Some (43, t_id t)) (refs (tp_db st))"
    by (elim deposit_tx_cases) auto
  from d2 act obtain qb where qb: "quantize ROUND_HALF_EVEN MAX_PRECISION (dsub (t_amount t) fb) = Inr qb" "0 \<le> qb"
    "\<And>k. balance_of d k = (if k = w_id bw then map_option (\<lambda>b. b + qb) (balance_of d1 k) else balance_of d1 k)"
    "refs d = insert (Some (44, t_id t)) (refs d1)"
    by (elim deposit_tx_cases) auto
  have "balance_of d i = map_option (\<lambda>b. b + (if i = w_id sw then qs else 0) + (if i = w_id bw then qb else 0)) (balance_of (tp_db st) i)" for i
    by (cases "balance_of (tp_db st) i") (auto simp: qs(3) qb(3))
  then show ?thesis using fees qs(1,2,4) qb(1,2,4) st' by (simp add: credited_def)
qed

text \<open>
  The trade of the example, as it is after the matching round, with the wallets that the
  deposits go to: the seller's rials and the buyer's coins.
\<close>

definition tp_db0 :: mdb where
  "tp_db0 = ex_db4\<lparr>wallets := wallets ex_db4 @ [ex_wallet 9 21 2 0, ex_wallet 10 22 10 0], next_wallet_id := 11\<rparr>"

definition tp_st0 :: tp_state where "tp_st0 = \<lparr>tp_db = tp_db0, tp_trades = []\<rparr>"

abbreviation tp_run :: "tp_state \<Rightarrow> bool \<times> tp_state" where
  "tp_run \<equiv> process_trade ex_env True 3000 ex_sell' ex_buy' (Some (ex_wallet 9 21 2 0)) (Some (ex_wallet 10 22 10 0)) [7, 8] ex_trade"

lemma tp_data: "t_sell_fee ex_trade = Some (1/2)" "t_buy_fee ex_trade = Some (1/200)" "t_id ex_trade = 2"
  "matched_total_price ex_trade = 200" "t_amount ex_trade = 2" "\<not> all_ids_set ex_trade"
  "dsub 200 (1/2) = 399/2" "dsub 2 (1/200) = 399/200"
  "quantize ROUND_HALF_EVEN MAX_PRECISION (399/2) = Inr (399/2)"
  "quantize ROUND_HALF_EVEN MAX_PRECISION (399/200) = Inr (399/200)"
  by (simp_all add: ex_trade_def new_trade_def matched_total_price_def all_ids_set_def id_set_def MAX_PRECISION_def dec_eval)

definition tp_tx :: "nat \<Rightarrow> nat \<Rightarrow> rat \<Rightarrow> rat \<Rightarrow> int \<Rightarrow> transaction" where
  "tp_tx i w a b m = \<lparr>tx_id = i, tx_wallet = w, tx_tp = TxBuy, tx_amount = a, tx_balance = b,
     tx_created_at = 3000, tx_ref_module = Some m, tx_ref_id = Some 2\<rparr>"

text \<open>The database after the seller's deposit and after both.\<close>

definition tp_db1 :: mdb where
  "tp_db1 = tp_db0\<lparr>wallets := wallets ex_db4 @ [ex_wallet 9 21 2 (399/2), ex_wallet 10 22 10 0],
     transactions := transactions tp_db0 @ [tp_tx 9 9 (399/2) (399/2) 43], next_tx_id := 10\<rparr>"

definition tp_db2 :: mdb where
  "tp_db2 = tp_db1\<lparr>wallets := wallets ex_db4 @ [ex_wallet 9 21 2 (399/2), ex_wallet 10 22 10 (399/200)],
     transactions := transactions tp_db1 @ [tp_tx 10 10 (399/200) (399/200) 44], next_tx_id := 11\<rparr>"

lemmas tp_dbs = tp_db2_def tp_db1_def tp_db0_def ex_db4_def ex_db3_def ex_db2_def ex_db1_def ex_db_def

lemma tp_commits:
  "commit tp_db0 (tp_tx 0 9 (399/2) (399/2) 43) True = Inr (tp_db1, tp_tx 9 9 (399/2) (399/2) 43)"
  "commit tp_db1 (tp_tx 0 10 (399/200) (399/200) 44) True = Inr (tp_db2, tp_tx 10 10 (399/200) (399/200) 44)"
  by (simp_all add: commit_def find_wallet_def put_wallet_def ref_taken_def tp_dbs tp_tx_def ex_wallet_def ex_tx_def
      ex_pay_def Let_def)

lemma tp_deposits:
  "deposit_tx tp_db0 (ex_wallet 9 21 2 0) (399/2) 43 2 3000 = Inr (Some (tp_tx 9 9 (399/2) (399/2) 43), tp_db1)"
  "deposit_tx tp_db1 (ex_wallet 10 22 10 0) (399/200) 44 2 3000 = Inr (Some (tp_tx 10 10 (399/200) (399/200) 44), tp_db2)"
proof -
  have a: "dadd 0 (399/2) = 399/2" "dadd 0 (399/200) = 399/200" by (simp_all add: dec_eval)
  have "create_transaction (ex_wallet 9 21 2 0) TxBuy (399/2) 3000 (Some 43) (Some 2) True
      = Inr (Some (tp_tx 0 9 (399/2) (399/2) 43))"
    "create_transaction (ex_wallet 10 22 10 0) TxBuy (399/200) 3000 (Some 44) (Some 2) True
      = Inr (Some (tp_tx 0 10 (399/200) (399/200) 44))"
    by (simp_all add: create_transaction_def tp_data(9,10) a check_transaction_def ex_wallet_def tp_tx_def
        is_balance_allowed_def Let_def)
  then show "deposit_tx tp_db0 (ex_wallet 9 21 2 0) (399/2) 43 2 3000 = Inr (Some (tp_tx 9 9 (399/2) (399/2) 43), tp_db1)"
    "deposit_tx tp_db1 (ex_wallet 10 22 10 0) (399/200) 44 2 3000 = Inr (Some (tp_tx 10 10 (399/200) (399/200) 44), tp_db2)"
    by (simp_all add: deposit_tx_def tp_commits)
qed

definition tp_st2 :: tp_state where
  "tp_st2 = \<lparr>tp_db = save_trade_ids (ex_trade\<lparr>t_sell_withdraw := Some 7, t_buy_withdraw := Some 8,
     t_sell_deposit := Some 9, t_buy_deposit := Some 10\<rparr>) tp_db2, tp_trades = []\<rparr>"

lemma tp_run: "tp_run tp_st0 = (True, tp_st2)"
  using tp_deposits
  by (simp add: process_trade_def tp_data fill_trade_transactions_def deposit_wallet_def deposits_as_deposit_tx
      tp_st0_def tp_st2_def tp_tx_def)

lemma tp_refs: "Some (43, 2) \<in> refs tp_db1" "Some (44, 2) \<notin> refs tp_db1" "Some (43, 2) \<in> refs tp_db2" "Some (44, 2) \<in> refs tp_db2"
  by (simp_all add: refs_def tp_dbs tx_ref_def ex_tx_def ex_pay_def tp_tx_def)

theorem process_trade_exact_witness:
  "tp_run tp_st0 = (True, tp_st2) \<and> balance_of (tp_db tp_st2) 9 = Some (399/2) \<and> balance_of (tp_db tp_st2) 7 = Some 3"
proof -
  have w: "w_active (ex_wallet 9 21 2 0)" "w_active (ex_wallet 10 22 10 0)" "w_id (ex_wallet i u c b) = i" for i u c b
    by (simp_all add: ex_wallet_def)
  from process_trade_exact [OF tp_run tp_data(6) w(1,2)] obtain fs qs qb where f: "t_sell_fee ex_trade = Some fs"
    and q: "quantize ROUND_HALF_EVEN MAX_PRECISION (dsub (matched_total_price ex_trade) fs) = Inr qs"
    and b: "\<forall>i. balance_of (tp_db tp_st2) i = map_option (\<lambda>b. b + (if i = 9 then qs else 0)
            + (if i = 10 then qb else 0)) (balance_of (tp_db tp_st0) i)"
    unfolding w by blast
  have "fs = 1/2" using f tp_data(1) by simp
  then have "Inr qs = (Inr (399/2) :: rat result)" using q unfolding tp_data(4) by (simp only: tp_data)
  then have "qs = 399/2" by simp
  moreover have "balance_of (tp_db tp_st0) 9 = Some 0" "balance_of (tp_db tp_st0) 7 = Some 3"
    by (simp_all add: tp_st0_def balance_of_def find_wallet_def tp_dbs ex_wallet_def)
  ultimately show ?thesis using tp_run b by simp
qed

text \<open>C18: a trade is credited at most once: when its deposits are on record, processing it
  again, with whatever copy of the trade, changes no wallet and adds no transaction.\<close>

theorem process_trade_never_twice:
  assumes "credited (tp_db st) t" "process_trade env saves now so bo (Some sw) (Some bw) ids t st = (ok, st')"
  shows "wallets (tp_db st') = wallets (tp_db st) \<and> transactions (tp_db st') = transactions (tp_db st)"
proof (cases "all_ids_set t")
  case False
  obtain r d where f: "fill_trade_transactions env now so bo (Some sw) (Some bw) ids t (tp_db st) = (r, d)" by force
  note taken = deposit_taken [of _ "t_id t" "tp_db st"]
  have "d = tp_db st"
  proof (cases r)
    case (Inl e)
    with fill_Inl [of env now so bo sw bw ids t "tp_db st" e d] f taken assms(1) show ?thesis
      by (auto simp: credited_def)
  next
    case (Inr t')
    from f [unfolded Inr] show ?thesis
    proof (rule fill_Inr)
      fix fs fb x1 x2 d1
      assume d1: "deposit_tx (tp_db st) sw (dsub (matched_total_price t) fs) 43 (t_id t) now = Inr (x1, d1)"
        and d2: "deposit_tx d1 bw (dsub (t_amount t) fb) 44 (t_id t) now = Inr (x2, d)"
      have "d1 = tp_db st" using taken [OF _ d1] assms(1) by (simp add: credited_def)
      with taken d2 assms(1) show ?thesis by (auto simp: credited_def)
    qed
  qed
  with False f assms(2) show ?thesis by (cases r) (auto simp: process_trade_def split: if_splits)
qed (use assms(2) in \<open>simp add: process_trade_def\<close>)

theorem process_trade_never_twice_witness:
  "\<exists>ok st3. tp_run tp_st2 = (ok, st3) \<and> wallets (tp_db st3) = wallets (tp_db tp_st2)"
proof -
  obtain ok st3 where r: "tp_run tp_st2 = (ok, st3)" by force
  have "credited (tp_db tp_st2) ex_trade" using tp_refs by (simp add: tp_st2_def) (simp add: credited_def tp_data)
  from process_trade_never_twice [OF this r] r show ?thesis by blast
qed

text \<open>C37: a trade whose first deposit went through and whose second one failed stays as it
  is: every later attempt of the processor fails at the first deposit.\<close>

theorem process_trade_stuck:
  assumes "Some (43, t_id t) \<in> refs (tp_db st)" "\<not> all_ids_set t" "w_active sw"
  shows "process_trade env saves now so bo (Some sw) (Some bw) ids t st = (False, st)"
proof -
  obtain r d where f: "fill_trade_transactions env now so bo (Some sw) (Some bw) ids t (tp_db st) = (r, d)" by force
  note taken = deposit_taken [OF assms(1)]
  have "(\<exists>e. r = Inl e) \<and> d = tp_db st"
  proof (cases r)
    case (Inl e)
    with fill_Inl [of env now so bo sw bw ids t "tp_db st" e d] f taken assms(3) show ?thesis by auto
  next
    case (Inr t')
    from f [unfolded Inr] have False
      by (rule fill_Inr) (use taken assms(3) in auto)
    then show ?thesis ..
  qed
  with f assms(2) show ?thesis by (auto simp: process_trade_def)
qed

theorem process_trade_stuck_witness: "tp_run \<lparr>tp_db = tp_db1, tp_trades = []\<rparr> = (False, \<lparr>tp_db = tp_db1, tp_trades = []\<rparr>)"
  by (rule process_trade_stuck) (use tp_refs in \<open>simp_all add: tp_data ex_wallet_def\<close>)

subsection \<open>Runs of the processor\<close>

inductive tp_step :: "menv \<Rightarrow> tp_state \<Rightarrow> tp_state \<Rightarrow> bool" for env where
  process: "process_trade env saves now so bo (Some sw) (Some bw) ids t st = (ok, st') \<Longrightarrow> tp_step env st st'"
| bulk: "tp_step env st (bulk_update_trades st)"

inductive_cases tp_stepE: "tp_step env st st'"

lemma fill_keeps:
  assumes "fill_trade_transactions env now so bo (Some sw) (Some bw) ids t d = (r, d')"
  shows "(ledger_inv d \<longrightarrow> ledger_inv d') \<and> (solvent d \<longrightarrow> solvent d') \<and> refs d \<subseteq> refs d'"
proof -
  have one: "(ledger_inv e \<longrightarrow> ledger_inv e') \<and> (solvent e \<longrightarrow> solvent e') \<and> refs e \<subseteq> refs e'"
    if "deposit_tx e w a m i c = Inr (x, e')" for e :: mdb and w a m i c x e'
    using that by (cases rule: deposit_tx_cases) auto
  show ?thesis
  proof (cases r)
    case (Inl e)
    from fill_Inl [OF assms [unfolded Inl]] show ?thesis using one by fastforce
  next
    case (Inr t')
    from assms [unfolded Inr] show ?thesis
    proof (rule fill_Inr)
      fix fs fb x1 x2 d1
      assume "deposit_tx d sw (dsub (matched_total_price t) fs) 43 (t_id t) now = Inr (x1, d1)"
        "deposit_tx d1 bw (dsub (t_amount t) fb) 44 (t_id t) now = Inr (x2, d')"
      from one [OF this(1)] one [OF this(2)] show ?thesis by blast
    qed
  qed
qed

lemma fold_save_ids [simp]:
  "ledger_inv (fold save_trade_ids ts d) = ledger_inv d" "solvent (fold save_trade_ids ts d) = solvent d"
  "refs (fold save_trade_ids ts d) = refs d" "balance_of (fold save_trade_ids ts d) k = balance_of d k"
  "transactions (fold save_trade_ids ts d) = transactions d"
  by (induction ts arbitrary: d) simp_all

lemma tp_step_keeps:
  assumes "tp_step env st st'"
  shows "(ledger_inv (tp_db st) \<longrightarrow> ledger_inv (tp_db st')) \<and> (solvent (tp_db st) \<longrightarrow> solvent (tp_db st'))
     \<and> refs (tp_db st) \<subseteq> refs (tp_db st')"
  using assms
proof cases
  case (process saves now so bo sw bw ids t ok)
  obtain r d where f: "fill_trade_transactions env now so bo (Some sw) (Some bw) ids t (tp_db st) = (r, d)" by force
  with process fill_keeps [OF f] show ?thesis
    by (cases r) (auto simp: process_trade_def split: if_splits)
qed (simp add: bulk_update_trades_def)

text \<open>Whatever the processor does, in whatever order and how often, balances stay the
  sums of their transactions and never turn negative, and no deposit is recorded twice.\<close>

lemma tp_steps_sound:
  assumes "(tp_step env)\<^sup>*\<^sup>* st st'" "ledger_inv (tp_db st)" "solvent (tp_db st)"
  shows "ledger_inv (tp_db st') \<and> solvent (tp_db st') \<and> refs (tp_db st) \<subseteq> refs (tp_db st')"
  using assms by (induction rule: rtranclp_induct) (auto dest: tp_step_keeps)

lemma tp_steps_sound_witness: "ledger_inv (tp_db tp_st2) \<and> solvent (tp_db tp_st2)"
proof -
  have "tp_step ex_env tp_st0 tp_st2" by (rule tp_step.process [OF tp_run])
  moreover have "ledger_inv (tp_db tp_st0)" "solvent (tp_db tp_st0)"
    by (simp_all add: tp_st0_def ledger_inv_def solvent_def refs_unique_def update_balance_from_transactions_def
        tx_ref_def tp_dbs ex_wallet_def ex_tx_def ex_pay_def)
  ultimately show ?thesis using tp_steps_sound [of ex_env tp_st0 tp_st2] by blast
qed

text \<open>The deposits of a batch may be committed in any order, as two threads do it: the
  balances at the end are the same.\<close>

lemma deposits_commute:
  assumes "fold_result post_deposit d txs = Inr d1" "fold_result post_deposit d txs' = Inr d2" "mset txs = mset txs'"
  shows "balance_of d1 k = balance_of d2 k"
  using assms by (rule dep.posts_reordered)

lemma deposits_commute_witness:
  "\<exists>d1 d2. fold_result post_deposit tp_db0 [tp_tx 0 9 1 1 43, tp_tx 0 10 2 2 44] = Inr d1
     \<and> fold_result post_deposit tp_db0 [tp_tx 0 10 2 2 44, tp_tx 0 9 1 1 43] = Inr d2
     \<and> balance_of d1 9 = balance_of d2 9"
proof -
  have "\<exists>d1. fold_result post_deposit tp_db0 [tp_tx 0 9 1 1 43, tp_tx 0 10 2 2 44] = Inr d1"
    "\<exists>d2. fold_result post_deposit tp_db0 [tp_tx 0 10 2 2 44, tp_tx 0 9 1 1 43] = Inr d2"
    by (simp_all add: post_deposit_def commit_def find_wallet_def put_wallet_def ref_taken_def tp_dbs tp_tx_def
        ex_wallet_def ex_tx_def ex_pay_def Let_def)
  then obtain d1 d2 where d: "fold_result post_deposit tp_db0 [tp_tx 0 9 1 1 43, tp_tx 0 10 2 2 44] = Inr d1"
    "fold_result post_deposit tp_db0 [tp_tx 0 10 2 2 44, tp_tx 0 9 1 1 43] = Inr d2"
    by blast
  from deposits_commute [OF d] d show ?thesis by auto
qed

subsection \<open>The progress pointer\<close>

lemma advance_values:
  assumes "fold_result (advance market_dst) last_ids ts = Inr last_ids'"
  shows "dom last_ids' = dom last_ids \<and> (\<forall>c i. last_ids' c = Some i \<longrightarrow> last_ids c = Some i \<or> i \<in> t_id ` set ts)"
  using assms
proof (induction ts arbitrary: last_ids)
  case (Cons t ts)
  from Cons.prems obtain m where m: "advance market_dst last_ids t = Inr m" "fold_result (advance market_dst) m ts = Inr last_ids'"
    by (auto simp: rbind_eq_Inr_iff)
  then obtain i where i: "last_ids (market_dst (t_market t)) = Some i"
    "m = last_ids(market_dst (t_market t) \<mapsto> max (t_id t) i)"
    by (auto simp: advance_def Let_def split: option.split_asm)
  from Cons.IH [OF m(2)] i show ?case by (auto simp: max_def split: if_splits)
qed auto

lemma sorted_take_all:
  assumes "sorted (map f xs)" "x \<in> set xs" "y \<in> set (take n xs)" "f x < f y"
  shows "x \<in> set (take n xs)"
proof -
  obtain i where i: "i < length xs" "xs ! i = x" using assms(2) by (auto simp: in_set_conv_nth)
  obtain j where j: "j < n" "j < length xs" "xs ! j = y" using assms(3) by (auto simp: in_set_conv_nth)
  have "i < j"
  proof (rule ccontr)
    assume "\<not> i < j"
    then have "f (xs ! j) \<le> f (xs ! i)" using assms(1) i(1) by (simp add: sorted_iff_nth_mono)
    with i j assms(4) show False by simp
  qed
  with i j show ?thesis by (auto simp: in_set_conv_nth intro!: exI [of _ i])
qed

lemma do_round_batch:
  assumes r: "do_round env is_disabled n now DST market_dst positions cached last_id st = (Inr (Some rp), st')"
    and old: "last_trade_id = (case last_id of None \<Rightarrow> 0 | Some i \<Rightarrow> i)" and dst: "DST \<noteq> []"
    and ids: "distinct (map t_id (trades (tp_db st)))"
    and t: "t \<in> set (trades (tp_db st))" "last_trade_id < t_id t" "t_id t \<le> rp_last_trade_id rp"
      "now - HOURS 12 \<le> t_created_at t" "needs_deposit t"
  shows "t \<in> set (fetch_trades n now last_trade_id (tp_db st))"
proof -
  define batch where "batch = fetch_trades n now last_trade_id (tp_db st)"
  define cands where "cands = sort_key t_id (filter (\<lambda>t. last_trade_id < t_id t \<and> now - HOURS 12 \<le> t_created_at t
      \<and> needs_deposit t) (trades (tp_db st)))"
  have b: "batch = take n cands" by (simp add: batch_def cands_def fetch_trades_def)
  from r obtain last_ids where adv: "fold_result (advance market_dst)
      (\<lambda>c. if c \<in> set DST then Some last_trade_id else None) batch = Inr last_ids"
    and rp: "rp_last_trade_id rp = Min ((\<lambda>c. the (last_ids c)) ` set DST)"
    unfolding do_round_def old [symmetric] batch_def [symmetric] Let_def
    by (auto split: if_splits sum.split_asm prod.split_asm)
  have vals: "dom last_ids = set DST"
    "\<And>c i. last_ids c = Some i \<Longrightarrow> i = last_trade_id \<or> i \<in> t_id ` set batch"
    using advance_values [OF adv] by (auto simp: dom_def split: if_splits)
  have "rp_last_trade_id rp \<in> (\<lambda>c. the (last_ids c)) ` set DST" unfolding rp using dst by (intro Min_in) auto
  then obtain c i where "last_ids c = Some i" "rp_last_trade_id rp = i" using vals(1) by force
  then have "rp_last_trade_id rp = last_trade_id \<or> rp_last_trade_id rp \<in> t_id ` set batch" using vals(2) by blast
  with t obtain y where y: "y \<in> set batch" "t_id t \<le> t_id y" by auto
  have mem: "t \<in> set cands" using t by (simp add: cands_def)
  show ?thesis
  proof (cases "t_id t = t_id y")
    case True
    have "y \<in> set (trades (tp_db st))" using y(1) unfolding b cands_def by (auto dest: in_set_takeD)
    then have "t = y" using True ids t(1) by (auto simp: distinct_map inj_on_def)
    with y(1) show ?thesis by (simp add: batch_def)
  next
    case False
    with y(2) have "t_id t < t_id y" by simp
    from sorted_take_all [OF _ mem y(1) [unfolded b] this] show ?thesis
      unfolding batch_def [symmetric] b by (simp add: cands_def)
  qed
qed

text \<open>A trade that is processed without an error has its references in the list of what is to be saved.\<close>

lemma process_trade_listed:
  assumes "process_trade env False now so bo sw bw ids t st = (ok, st')"
  shows "set (tp_trades st) \<subseteq> set (tp_trades st')"
    "ok \<Longrightarrow> needs_deposit t \<Longrightarrow> \<exists>t' \<in> set (tp_trades st'). t_id t' = t_id t"
  using assms by (auto simp: process_trade_def fill_trade_transactions_def needs_deposit_def all_ids_set_def id_set_def Let_def
      split: if_splits list.split_asm sum.split_asm prod.split_asm)

lemma run_trades_listed:
  "run_trades env now ws prov c ts st = (Inr n, st') \<Longrightarrow> \<forall>t \<in> set ts. needs_deposit t \<Longrightarrow>
   n \<le> length ts \<and> set (tp_trades st) \<subseteq> set (tp_trades st')
   \<and> (n = length ts \<longrightarrow> (\<forall>t \<in> set ts. \<exists>t' \<in> set (tp_trades st'). t_id t' = t_id t))"
proof (induction ts arbitrary: st n)
  case (Cons t ts)
  from Cons.prems(1) obtain so bo sw bw ok st1 m where
    p: "process_trade env False now so bo sw bw (cached_tx_ids c t) t st = (ok, st1)"
    and r: "run_trades env now ws prov c ts st1 = (Inr m, st')" and n: "n = m + (if ok then 1 else 0)"
    by (auto split: option.split_asm sum.split_asm prod.split_asm)
  note one = process_trade_listed [OF p]
  from Cons.IH [OF r] Cons.prems(2) have IH: "m \<le> length ts" "set (tp_trades st1) \<subseteq> set (tp_trades st')"
    "m = length ts \<longrightarrow> (\<forall>t \<in> set ts. \<exists>t' \<in> set (tp_trades st'). t_id t' = t_id t)" by simp_all
  have "\<exists>t' \<in> set (tp_trades st'). t_id t' = t_id t" if "n = length (t # ts)"
  proof -
    have ok using that n IH(1) by (auto split: if_splits)
    then show ?thesis using one(2) IH(2) Cons.prems(2) by auto
  qed
  moreover have "m = length ts" if "n = length (t # ts)" using that n IH(1) by (auto split: if_splits)
  ultimately show ?case using IH one(1) n by (auto split: if_splits)
qed simp

text \<open>C29: a round moves its pointer only past trades that it has tried: every trade of the last twelve
  hours that lacks a deposit and whose id the new pointer reaches was in the batch. It may have
  failed there, and is passed all the same; the round counts the failures, and when it counts
  none, the references of every such trade are in the list of what is to be saved.\<close>

theorem do_round_pointer:
  assumes r: "do_round env is_disabled n now DST market_dst positions cached last_id st = (Inr (Some rp), st')"
    and dst: "DST \<noteq> []" and old: "last_trade_id = (case last_id of None \<Rightarrow> 0 | Some i \<Rightarrow> i)"
    and ids: "distinct (map t_id (trades (tp_db st)))"
    and t: "t \<in> set (trades (tp_db st))" "last_trade_id < t_id t" "t_id t \<le> rp_last_trade_id rp"
      "now - HOURS 12 \<le> t_created_at t" "needs_deposit t"
  shows "t \<in> set (fetch_trades n now last_trade_id (tp_db st))
     \<and> rp_success rp \<le> rp_count rp \<and> rp_count rp = length (fetch_trades n now last_trade_id (tp_db st))
     \<and> (rp_success rp = rp_count rp \<longrightarrow> (\<exists>t' \<in> set (tp_trades st'). t_id t' = t_id t))"
proof -
  have "t \<in> set (fetch_trades n now last_trade_id (tp_db st))" using dst ids t by (rule do_round_batch [OF r old])
  moreover from r obtain ws prov d1 k where
    run: "run_trades env now ws prov cached (fetch_trades n now last_trade_id (tp_db st)) (st\<lparr>tp_db := d1\<rparr>) = (Inr k, st')"
    and k: "rp_success rp = k" "rp_count rp = length (fetch_trades n now last_trade_id (tp_db st))"
    unfolding do_round_def old [symmetric] Let_def by (auto split: if_splits sum.split_asm prod.split_asm)
  have "\<forall>x \<in> set (fetch_trades n now last_trade_id (tp_db st)). needs_deposit x"
    by (auto simp: fetch_trades_def dest: in_set_takeD)
  note listed = run_trades_listed [OF run this]
  ultimately show ?thesis using k by auto
qed
text \<open>A round on the database of the example.\<close>

abbreviation tp_round :: "round_report option result \<times> tp_state" where
  "tp_round \<equiv> do_round ex_env False 100 3000 [2] (\<lambda>_. 2) (\<lambda>_. None) [2 \<mapsto> [7, 8]] None tp_st0"

lemma tp_round_ok: "\<exists>st'. tp_round = (Inr (Some \<lparr>rp_success = 1, rp_count = 1, rp_last_trade_id = 2\<rparr>), st')"
proof -
  have tr: "trades tp_db0 = [ex_trade]" "orders tp_db0 = [ex_sell', ex_buy']" by (simp_all add: tp_dbs)
  have t: "t_created_at ex_trade = 1000" "needs_deposit ex_trade" "t_sell_order ex_trade = 3" "t_buy_order ex_trade = 4"
    by (simp_all add: ex_trade_def new_trade_def needs_deposit_def ex_order_sel)
  have o: "o_id ex_sell' = 3" "o_id ex_buy' = 4" "\<not> is_margin ex_sell'" "\<not> is_margin ex_buy'" "o_user ex_sell' = 21"
    "o_user ex_buy' = 22" "deposit_currency ex_sell' = 2" "deposit_currency ex_buy' = 10" "wallet_type_of ex_sell' = WSpot"
    "wallet_type_of ex_buy' = WSpot" "o_dst ex_sell' = 2" "o_src ex_buy' = 10" "ex_sell' \<noteq> ex_buy'"
    by (simp_all add: ex_sell'_def ex_buy'_def ex_data order_eval deposit_currency_def wallet_type_of_def)
  have f: "fetch_trades 100 3000 0 tp_db0 = [ex_trade]" by (simp add: fetch_trades_def tr t tp_data HOURS_def)
  have os: "trade_orders tp_db0 ex_trade = Some (ex_sell', ex_buy')" by (simp add: trade_orders_def tr find_order_def t o)
  have w: "wallet_for (wallets tp_db0) 21 2 WSpot = Some (ex_wallet 9 21 2 0)"
    "wallet_for (wallets tp_db0) 22 10 WSpot = Some (ex_wallet 10 22 10 0)"
    by (simp_all add: wallet_for_def tp_dbs ex_wallet_def)
  have pre: "preload_wallets ex_env (\<lambda>_. None) [ex_sell', ex_buy'] tp_db0
      = Inr ((wallets tp_db0, [3 \<mapsto> 21, 4 \<mapsto> 22]), tp_db0)"
    by (simp add: preload_wallets_def add_provider_def order_provider_def o List.insert_def create_wallet_def w)
  have "\<exists>st'. run_trades ex_env 3000 (wallets tp_db0) [3 \<mapsto> 21, 4 \<mapsto> 22] [2 \<mapsto> [7, 8]] [ex_trade] tp_st0 = (Inr 1, st')"
    using tp_deposits
    by (simp add: tp_st0_def os get_deposit_wallets_def o w process_trade_def tp_data fill_trade_transactions_def
        deposit_wallet_def deposits_as_deposit_tx cached_tx_ids_def)
  then show ?thesis
    by (auto simp: do_round_def Let_def tp_st0_def f os pre o advance_def tp_data)
qed

theorem do_round_pointer_witness:
  "\<exists>rp st'. tp_round = (Inr (Some rp), st') \<and> ex_trade \<in> set (fetch_trades 100 3000 0 (tp_db tp_st0))"
proof -
  obtain st' where r: "tp_round = (Inr (Some \<lparr>rp_success = 1, rp_count = 1, rp_last_trade_id = 2\<rparr>), st')"
    using tp_round_ok by blast
  have "ex_trade \<in> set (fetch_trades 100 3000 0 (tp_db tp_st0))"
    by (rule do_round_pointer [OF r, of 0 ex_trade, THEN conjunct1])
      (simp_all add: tp_st0_def tp_dbs tp_data HOURS_def ex_trade_def new_trade_def needs_deposit_def)
  with r show ?thesis by blast
qed

subsection \<open>Repair\<close>

lemma tx_of_ref_Some:
  assumes "Some (m, i) \<in> refs d"
  shows "\<exists>x \<in> set (transactions d). tx_of_ref d m i = Some (tx_id x)"
proof (cases "find (\<lambda>t. tx_ref t = Some (m, i)) (transactions d)")
  case None
  with assms show ?thesis by (auto simp: refs_def find_None_iff image_iff)
next
  case (Some x)
  then have "x \<in> set (transactions d)" by (auto simp: find_Some_iff)
  with Some show ?thesis by (auto simp: tx_of_ref_def)
qed

lemma tx_of_ref_None: "Some (m, i) \<notin> refs d \<Longrightarrow> tx_of_ref d m i = None"
  by (auto simp: tx_of_ref_def refs_def find_None_iff image_iff)

text \<open>The repair job finishes what the processor cannot: it finds the first deposit on
  record and makes the missing one, exactly once.\<close>

lemma repair_completes:
  assumes half: "Some (43, t_id t) \<in> refs d" "Some (44, t_id t) \<notin> refs d" "t_buy_deposit t = None"
    and ids: "\<forall>x \<in> set (transactions d). 0 < tx_id x"
    and os: "trade_orders d t = Some (so, bo)"
    and w: "deposit_wallet env d bo (o_src bo) None = Inr (w, d)" "w_active w" "balance_of d (w_id w) \<noteq> None"
    and q: "t_buy_fee t = Some fee" "quantize ROUND_HALF_EVEN MAX_PRECISION (dsub (t_amount t) fee) = Inr q" "0 \<le> q"
  shows "\<exists>t' d'. repair_deposits env now (fill_known_ids d t) d = (Inr t', d') \<and> credited d' t
     \<and> (\<forall>i. balance_of d' i = map_option (\<lambda>b. b + (if i = w_id w then q else 0)) (balance_of d i))"
proof -
  define u where "u = fill_known_ids d t"
  obtain x where "x \<in> set (transactions d)" "tx_of_ref d 43 (t_id t) = Some (tx_id x)"
    using tx_of_ref_Some [OF half(1)] by blast
  then have u: "id_set (t_sell_deposit u)" "t_buy_deposit u = None" "t_id u = t_id t" "t_buy_fee u = Some fee"
    "t_amount u = t_amount t" "trade_orders d u = Some (so, bo)"
    using ids half(3) os q(1) tx_of_ref_None [OF half(2)]
    by (auto simp: u_def fill_known_ids_def or_else_def id_set_def trade_orders_def)
  obtain tx d' where dep: "deposit_tx d w (dsub (t_amount t) fee) 44 (t_id t) now = Inr (Some tx, d')"
    using deposit_possible [OF w(2) q(2,3) w(3) half(2)] by blast
  have "repair_deposits env now u d = (Inr (u\<lparr>t_buy_deposit := Some (tx_id tx)\<rparr>), d')"
    using u w(1) dep by (simp add: repair_deposits_def deposits_as_deposit_tx id_set_def)
  moreover from dep have "credited d' t \<and>
      (\<forall>i. balance_of d' i = map_option (\<lambda>b. b + (if i = w_id w then q else 0)) (balance_of d i))"
  proof (cases rule: deposit_tx_cases)
    case (made q' tx')
    then show ?thesis using half(1) q(2) by (auto simp: credited_def option.map_ident)
  qed simp
  ultimately show ?thesis unfolding u_def by blast
qed

lemma repair_completes_witness:
  "\<exists>t' d'. repair_deposits ex_env 3000 (fill_known_ids tp_db1 ex_trade) tp_db1 = (Inr t', d') \<and> credited d' ex_trade"
proof -
  have os: "trade_orders tp_db1 ex_trade = Some (ex_sell', ex_buy')"
    by (simp add: trade_orders_def find_order_def tp_dbs ex_trade_def new_trade_def ex_order_sel)
  have w: "deposit_wallet ex_env tp_db1 ex_buy' (o_src ex_buy') None = Inr (ex_wallet 10 22 10 0, tp_db1)"
    by (simp add: deposit_wallet_def get_providing_wallet_def provider_id_def get_user_wallet_def wallet_for_def
        wallet_type_of_def ex_buy'_def ex_data order_eval tp_db1_def ex_db4_def ex_db3_def)
  have b: "balance_of tp_db1 10 \<noteq> None" "\<forall>x \<in> set (transactions tp_db1). 0 < tx_id x" "t_buy_deposit ex_trade = None"
    by (simp_all add: balance_of_def find_wallet_def tp_dbs ex_wallet_def tp_tx_def ex_tx_def ex_pay_def ex_trade_def new_trade_def)
  show ?thesis
    using repair_completes [OF _ _ b(3) b(2) os w, of "1/200" "399/200" 3000] tp_refs b(1) tp_data
    by (auto simp: ex_wallet_def)
qed

lemma repair_batch_filled:
  assumes "\<forall>t \<in> set ts. id_set (t_sell_deposit t) \<and> id_set (t_buy_deposit t) \<and> trade_orders d t \<noteq> None"
  shows "repair_batch env now ts d = (Inr ts, d)"
  using assms by (induction ts) (auto simp: repair_deposits_def)

lemma save_known: "distinct (map t_id (trades d)) \<Longrightarrow> t \<in> set (trades d) \<Longrightarrow> save_trade_ids t d = d"
proof -
  assume "distinct (map t_id (trades d))" "t \<in> set (trades d)"
  then have "r = t" if "r \<in> set (trades d)" "t_id r = t_id t" for r
    using that by (auto simp: distinct_map inj_on_def)
  then have "map (\<lambda>r. if t_id r = t_id t
          then r\<lparr>t_sell_withdraw := t_sell_withdraw t, t_buy_withdraw := t_buy_withdraw t,
                 t_sell_deposit := t_sell_deposit t, t_buy_deposit := t_buy_deposit t\<rparr>
          else r) (trades d) = trades d"
    by (intro map_idI) fastforce
  then show ?thesis by (simp add: save_trade_ids_def)
qed

lemma fold_save_known:
  "distinct (map t_id (trades d)) \<Longrightarrow> set ts \<subseteq> set (trades d) \<Longrightarrow> fold save_trade_ids ts d = d"
  by (induction ts) (simp_all add: save_known)

text \<open>A full batch of trades that the job cannot complete.\<close>

definition stuck_batch :: "nat \<Rightarrow> datetime \<Rightarrow> datetime \<Rightarrow> mdb \<Rightarrow> bool" where
  "stuck_batch n from_datetime to_datetime d \<longleftrightarrow>
     0 < n \<and> n \<le> length (filter (lacks_id from_datetime to_datetime) (trades d))
     \<and> list_all (\<lambda>t. fill_known_ids d t = t \<and> id_set (t_sell_deposit t) \<and> id_set (t_buy_deposit t)
          \<and> trade_orders d t \<noteq> None) (take n (filter (lacks_id from_datetime to_datetime) (trades d)))
     \<and> distinct (map t_id (trades d))"

lemma stuck_batch_repair:
  assumes "stuck_batch n a b d"
  defines "batch \<equiv> take n (filter (lacks_id a b) (trades d))"
  shows "batch \<noteq> []" "length batch = n" "repair_batch env now (map (fill_known_ids d) batch) d = (Inr batch, d)"
    "fold save_trade_ids batch d = d"
proof -
  have m: "map (fill_known_ids d) batch = batch"
    by (rule map_idI) (use assms(1) in \<open>simp add: stuck_batch_def batch_def list_all_iff\<close>)
  show "batch \<noteq> []" "length batch = n" using assms(1) by (auto simp: stuck_batch_def batch_def)
  show "repair_batch env now (map (fill_known_ids d) batch) d = (Inr batch, d)"
    unfolding m by (rule repair_batch_filled) (use assms(1) in \<open>simp add: stuck_batch_def batch_def list_all_iff\<close>)
  show "fold save_trade_ids batch d = d"
    by (rule fold_save_known) (use assms(1) in \<open>auto simp: stuck_batch_def batch_def dest: in_set_takeD\<close>)
qed

lemma stuck_batch_no_result:
  "create_missing_transaction env now n a b d = Some y \<Longrightarrow> \<not> stuck_batch n a b d"
proof (rule create_missing_transaction.raw_induct [of "\<lambda>env now n a b d y. \<not> stuck_batch n a b d"])
  fix f :: "menv \<Rightarrow> datetime \<Rightarrow> nat \<Rightarrow> datetime \<Rightarrow> datetime \<Rightarrow> mdb \<Rightarrow> (unit result \<times> mdb) option" and env now n a b d y
  assume IH: "\<And>env now n a b d y. f env now n a b d = Some y \<Longrightarrow> \<not> stuck_batch n a b d"
    and body: "(let batch = take n (filter (lacks_id a b) (trades d))
      in if batch = [] then Some (Inr (), d)
         else case repair_batch env now (map (fill_known_ids d) batch) d of
                (Inl e, d1) \<Rightarrow> Some (Inl e, d1)
              | (Inr ts, d1) \<Rightarrow>
                  let d2 = fold save_trade_ids ts d1
                  in if length batch < n then Some (Inr (), d2) else f env now n a b d2) = Some y"
  show "\<not> stuck_batch n a b d"
  proof
    assume st: "stuck_batch n a b d"
    define batch where "batch = take n (filter (lacks_id a b) (trades d))"
    from body [unfolded Let_def, folded batch_def] have "f env now n a b d = Some y"
      by (simp add: stuck_batch_repair [OF st, folded batch_def])
    with IH st show False by blast
  qed
qed

text \<open>C38: the repair job need not end: when the first batch is full and each of its trades has both
  deposits but lacks a withdrawal that is not on record either, it is fetched again and again.
  (A batch that is not full ends the loop, and so does a repair that raises.)\<close>

theorem create_missing_can_diverge:
  assumes "stuck_batch n from_datetime to_datetime d"
  shows "create_missing_transaction env now n from_datetime to_datetime d = None"
  using assms stuck_batch_no_result by (metis not_Some_eq)

text \<open>A hundred trades that have their deposits and no withdrawal on record.\<close>

definition tp_lost :: mdb where
  "tp_lost = ex_db4\<lparr>transactions := [], trades := map (\<lambda>i. ex_trade\<lparr>t_id := i, t_sell_deposit := Some 9, t_buy_deposit := Some 10\<rparr>) [2..<102]\<rparr>"

theorem create_missing_can_diverge_witness: "create_missing_transaction ex_env 3000 100 0 2000 tp_lost = None"
proof (rule create_missing_can_diverge)
  have all: "lacks_id 0 2000 t" "fill_known_ids tp_lost t = t" "id_set (t_sell_deposit t)" "id_set (t_buy_deposit t)"
    "trade_orders tp_lost t \<noteq> None" if "t \<in> set (trades tp_lost)" for t
    using that by (auto simp: tp_lost_def lacks_id_def fill_known_ids_def tx_of_ref_def or_else_def id_set_def trade_orders_def
        find_order_def ex_db4_def ex_trade_def new_trade_def ex_order_sel simp del: upt_rec_numeral)
  then have f: "filter (lacks_id 0 2000) (trades tp_lost) = trades tp_lost" by (simp add: filter_id_conv)
  have l: "length (trades tp_lost) = 100" "map t_id (trades tp_lost) = [2..<102]"
    by (simp_all add: tp_lost_def comp_def del: upt_rec_numeral)
  show "stuck_batch 100 0 2000 tp_lost"
    unfolding stuck_batch_def f list_all_iff using all l by (auto dest: in_set_takeD)
qed

end
