(* ===== verification/Divider.thy ===== *)
theory Divider
  imports Matcher_Example "HOL-Library.Sublist"
begin

section \<open>Partitions of the markets and the concurrent matcher\<close>

text \<open>
  \<^verbatim>\<open>src/core/exchange/matcher/divider.py\<close> and \<open>ConcurrentMatcher\<close> of
  \<^verbatim>\<open>matcher/management/commands/concurrent_matcher.py\<close>. The dictionary of markets is an
  association list in insertion order; a Python set of symbols is a list without
  duplicates (its order is not specified by the language and only decides the order of
  the markets in a partition). Partition 0 runs alone, then 1 and 2 side by side, then 3
  and 4. Two processes that work at the same time touch no common wallet: that is what
  the lemmas on the currencies of concurrent partitions show, and why the model may run
  the partitions one after the other.
\<close>

subsection \<open>Symbols\<close>

definition drop_suffix :: "string \<Rightarrow> string \<Rightarrow> string" where
  "drop_suffix dst s = take (length s - length dst) s"

definition partition_symbols ::
    "string list \<Rightarrow> string \<Rightarrow> string list \<Rightarrow> string \<Rightarrow> string list list" where
  "partition_symbols big_partition big_dst little_partition little_dst =
     (let big = map (drop_suffix big_dst) big_partition;
          little = map (drop_suffix little_dst) little_partition;
          split_size = (length big + 1) div 2;
          partition1 = remdups (take split_size big);
          partition3 = remdups (drop split_size big);
          partition2 = filter (\<lambda>s. s \<notin> set partition1) little;
          partition4 = filter (\<lambda>s. s \<in> set partition1) little
      in [map (\<lambda>p. p @ big_dst) partition1, map (\<lambda>p. p @ little_dst) partition2,
          map (\<lambda>p. p @ big_dst) partition3, map (\<lambda>p. p @ little_dst) partition4])"

definition SERIAL_MARKET_SYMBOLS :: "string list" where "SERIAL_MARKET_SYMBOLS = [''USDTIRT'']"

definition lookup_markets :: "(string \<times> 'm) list \<Rightarrow> string list \<Rightarrow> 'm list result" where
  "lookup_markets markets symbols =
     fold_result (\<lambda>acc s. case map_of markets s of None \<Rightarrow> Inl KeyError | Some m \<Rightarrow> Inr (acc @ [m])) [] symbols"

definition symbol_partitions :: "string list \<Rightarrow> string list list" where
  "symbol_partitions keys =
     (let rial = filter (suffix ''IRT'') keys; usdt = filter (\<lambda>k. \<not> suffix ''IRT'' k) keys
      in if length usdt \<le> length rial then partition_symbols rial ''IRT'' usdt ''USDT''
         else partition_symbols usdt ''USDT'' rial ''IRT'')"

definition custom_partition_markets :: "bool \<Rightarrow> (string \<times> 'm) list \<Rightarrow> 'm list list result" where
  "custom_partition_markets is_disabled markets =
     (if is_disabled then Inr [map snd markets, [], [], [], []]
      else let serial = List.map_filter (map_of markets) SERIAL_MARKET_SYMBOLS;
               rest = filter (\<lambda>(k, m). k \<notin> set SERIAL_MARKET_SYMBOLS) markets
           in rbind (fold_result (\<lambda>acc symbols. rbind (lookup_markets rest symbols) (\<lambda>ms. Inr (acc @ [ms])))
                      [serial] (symbol_partitions (map fst rest)))
                Inr)"

subsection \<open>Every market lies in exactly one partition\<close>

lemma drop_suffix_append: "suffix dst s \<Longrightarrow> drop_suffix dst s @ dst = s"
  by (auto simp: suffix_def drop_suffix_def)

lemma inj_drop_suffix: "list_all (suffix dst) xs \<Longrightarrow> inj_on (drop_suffix dst) (set xs)"
  by (rule inj_onI) (metis drop_suffix_append list_all_iff)

lemma readd_suffix: "list_all (suffix dst) xs \<Longrightarrow> map (\<lambda>p. p @ dst) (map (drop_suffix dst) xs) = xs"
  by (auto simp: list_all_iff drop_suffix_append intro!: map_idI)

lemma mset_readd:
  assumes "list_all (suffix dst) xs" "mset ps + mset qs = mset (map (drop_suffix dst) xs)"
  shows "mset (map (\<lambda>p. p @ dst) ps) + mset (map (\<lambda>p. p @ dst) qs) = mset xs"
proof -
  have "mset (map (\<lambda>p. p @ dst) ps) + mset (map (\<lambda>p. p @ dst) qs)
      = image_mset (\<lambda>p. p @ dst) (mset ps + mset qs)" by simp
  also have "\<dots> = mset (map (\<lambda>p. p @ dst) (map (drop_suffix dst) xs))"
    unfolding assms(2) mset_map by (rule refl)
  finally show ?thesis unfolding readd_suffix [OF assms(1)] .
qed

lemma partition_symbols_cover:
  assumes "list_all (suffix bd) big" "list_all (suffix ld) little" "distinct big"
  shows "mset (concat (partition_symbols big bd little ld)) = mset (big @ little)"
proof -
  define b where "b = map (drop_suffix bd) big"
  define l where "l = map (drop_suffix ld) little"
  define n where "n = (length b + 1) div 2"
  define p1 where "p1 = remdups (take n b)"
  define p3 where "p3 = remdups (drop n b)"
  have "distinct b" using assms(1,3) inj_drop_suffix by (auto simp: b_def distinct_map)
  then have "p1 = take n b" "p3 = drop n b" by (simp_all add: p1_def p3_def distinct_remdups_id)
  then have "mset p1 + mset p3 = mset b" by (metis append_take_drop_id mset_append)
  then have big: "mset (map (\<lambda>p. p @ bd) p1) + mset (map (\<lambda>p. p @ bd) p3) = mset big"
    unfolding b_def by (rule mset_readd [OF assms(1)])
  have "mset (filter (\<lambda>s. s \<notin> set p1) l) + mset (filter (\<lambda>s. s \<in> set p1) l) = mset l"
    using multiset_partition [of "mset l" "\<lambda>s. s \<notin> set p1"] by simp
  then have little: "mset (map (\<lambda>p. p @ ld) (filter (\<lambda>s. s \<notin> set p1) l))
      + mset (map (\<lambda>p. p @ ld) (filter (\<lambda>s. s \<in> set p1) l)) = mset little"
    unfolding l_def by (rule mset_readd [OF assms(2)])
  have "concat (partition_symbols big bd little ld) = map (\<lambda>p. p @ bd) p1 @ map (\<lambda>p. p @ ld) (filter (\<lambda>s. s \<notin> set p1) l)
      @ map (\<lambda>p. p @ bd) p3 @ map (\<lambda>p. p @ ld) (filter (\<lambda>s. s \<in> set p1) l)"
    unfolding partition_symbols_def b_def [symmetric] l_def [symmetric] n_def [symmetric] Let_def
      p1_def [symmetric] p3_def [symmetric] by simp
  with big little show ?thesis by (simp only: mset_append) (simp only: ac_simps flip: big little)
qed

lemma symbol_partitions_cover:
  assumes "distinct keys" "list_all (\<lambda>k. suffix ''IRT'' k \<or> suffix ''USDT'' k) keys"
  shows "mset (concat (symbol_partitions keys)) = mset keys"
proof -
  define r where "r = filter (suffix ''IRT'') keys"
  define u where "u = filter (\<lambda>k. \<not> suffix ''IRT'' k) keys"
  have s: "list_all (suffix ''IRT'') r" "list_all (suffix ''USDT'') u" "distinct r" "distinct u"
    using assms by (auto simp: r_def u_def list_all_iff)
  have "mset r + mset u = mset keys"
    using multiset_partition [of "mset keys" "suffix ''IRT''"] by (simp add: r_def u_def)
  then show ?thesis
    unfolding symbol_partitions_def r_def [symmetric] u_def [symmetric] Let_def
    using partition_symbols_cover [OF s(1,2,3)] partition_symbols_cover [OF s(2,1,4)] by (simp add: add.commute)
qed

lemma lookup_markets_Inr:
  assumes "set symbols \<subseteq> dom (map_of markets)"
  shows "lookup_markets markets symbols = Inr (map (\<lambda>s. the (map_of markets s)) symbols)"
proof -
  have "fold_result (\<lambda>acc s. case map_of markets s of None \<Rightarrow> Inl KeyError | Some m \<Rightarrow> Inr (acc @ [m])) acc symbols
      = Inr (acc @ map (\<lambda>s. the (map_of markets s)) symbols)" for acc
    using assms by (induction symbols arbitrary: acc) auto
  then show ?thesis by (simp add: lookup_markets_def)
qed

lemma lookup_all:
  assumes "set (concat parts) \<subseteq> dom (map_of markets)"
  shows "fold_result (\<lambda>acc symbols. rbind (lookup_markets markets symbols) (\<lambda>ms. Inr (acc @ [ms]))) acc parts
     = Inr (acc @ map (map (\<lambda>s. the (map_of markets s))) parts)"
  using assms
proof (induction parts arbitrary: acc)
  case (Cons p ps)
  then have "lookup_markets markets p = Inr (map (\<lambda>s. the (map_of markets s)) p)"
    by (intro lookup_markets_Inr) auto
  with Cons show ?case by simp
qed simp

lemma one_and_rest:
  assumes "distinct (map fst ms)"
  shows "mset (case map_of ms k of None \<Rightarrow> [] | Some y \<Rightarrow> [y]) + mset (map snd (filter (\<lambda>(j, m). j \<noteq> k) ms)) = mset (map snd ms)"
  using assms
proof (induction ms)
  case (Cons jm ms)
  obtain j m where jm: "jm = (j, m)" by force
  have "map_of ms j = None" using Cons.prems by (auto simp: jm map_of_eq_None_iff)
  with Cons show ?case by (cases "map_of ms k") (auto simp: jm)
qed simp

lemma serial_and_rest:
  assumes "distinct (map fst markets)"
  shows "mset (List.map_filter (map_of markets) SERIAL_MARKET_SYMBOLS)
     + mset (map snd (filter (\<lambda>(k, m). k \<notin> set SERIAL_MARKET_SYMBOLS) markets)) = mset (map snd markets)"
proof -
  have "List.map_filter (map_of markets) SERIAL_MARKET_SYMBOLS
      = (case map_of markets ''USDTIRT'' of None \<Rightarrow> [] | Some y \<Rightarrow> [y])"
    by (simp add: SERIAL_MARKET_SYMBOLS_def map_filter_simps map_filter_def split: option.split)
  then show ?thesis using one_and_rest [OF assms, of "''USDTIRT''"] by (simp add: SERIAL_MARKET_SYMBOLS_def)
qed

lemma partitions_all:
  assumes "distinct (map fst markets)"
    and "list_all (\<lambda>k. suffix ''IRT'' k \<or> suffix ''USDT'' k) (map fst markets)"
  shows "\<exists>ps. custom_partition_markets False markets = Inr ps \<and> length ps = 5
     \<and> mset (concat ps) = mset (map snd markets)"
proof -
  define rest where "rest = filter (\<lambda>(k, m). k \<notin> set SERIAL_MARKET_SYMBOLS) markets"
  define serial where "serial = List.map_filter (map_of markets) SERIAL_MARKET_SYMBOLS"
  define parts where "parts = symbol_partitions (map fst rest)"
  define look where "look = (\<lambda>s. the (map_of rest s))"
  have d: "distinct (map fst rest)" unfolding rest_def by (rule distinct_map_filter [OF assms(1)])
  have all: "list_all (\<lambda>k. suffix ''IRT'' k \<or> suffix ''USDT'' k) (map fst rest)"
    using assms(2) by (auto simp: rest_def list_all_iff)
  have cover: "mset (concat parts) = mset (map fst rest)"
    unfolding parts_def by (rule symbol_partitions_cover [OF d all])
  then have "set (concat parts) = set (map fst rest)" by (rule mset_eq_setD)
  then have "fold_result (\<lambda>acc symbols. rbind (lookup_markets rest symbols) (\<lambda>ms. Inr (acc @ [ms]))) [serial] parts
      = Inr (serial # map (map look) parts)"
    unfolding look_def by (subst lookup_all) (auto simp: dom_map_of_conv_image_fst)
  then have eq: "custom_partition_markets False markets = Inr (serial # map (map look) parts)"
    by (simp add: custom_partition_markets_def serial_def [symmetric] rest_def [symmetric] parts_def [symmetric] Let_def)
  have "length parts = 4" by (simp add: parts_def symbol_partitions_def partition_symbols_def Let_def)
  moreover have "mset (concat (map (map look) parts)) = image_mset look (mset (concat parts))"
    by (simp add: map_concat [symmetric])
  moreover have "image_mset look (mset (map fst rest)) = mset (map snd rest)"
    unfolding look_def mset_map [symmetric] using d
    by (intro arg_cong [of _ _ mset]) (auto simp: intro!: nth_equalityI)
  moreover have "mset serial + mset (map snd rest) = mset (map snd markets)"
    unfolding serial_def rest_def by (rule serial_and_rest [OF assms(1)])
  ultimately show ?thesis using eq cover by simp
qed

text \<open>With the concurrent matcher on, the five partitions hold every market exactly once,
  whatever the number of rial and tether markets.\<close>

lemma partitions_cover:
  assumes "distinct (map fst markets)"
    and "list_all (\<lambda>k. suffix ''IRT'' k \<or> suffix ''USDT'' k) (map fst markets)"
  shows "\<exists>ps. custom_partition_markets False markets = Inr ps \<and> length ps = 5
     \<and> mset (concat ps) = mset (map snd markets)"
  using assms by (rule partitions_all)

text \<open>The example of the daily markets: three in rials, two in tether.\<close>

definition ex_markets :: "(string \<times> nat) list" where
  "ex_markets = [(''BTCIRT'', 1), (''USDTIRT'', 2), (''BTCUSDT'', 3), (''ETHIRT'', 4), (''ETHUSDT'', 5)]"

lemma partitions_cover_witness:
  "\<exists>ps. custom_partition_markets False ex_markets = Inr ps \<and> mset (concat ps) = {#1, 2, 3, 4, 5#}"
proof -
  have "distinct (map fst ex_markets)" "list_all (\<lambda>k. suffix ''IRT'' k \<or> suffix ''USDT'' k) (map fst ex_markets)"
    by (simp_all add: ex_markets_def suffix_to_prefix)
  from partitions_cover [OF this] show ?thesis by (auto simp: ex_markets_def)
qed

subsection \<open>Concurrent partitions share no currency\<close>

definition market_currencies :: "string \<Rightarrow> string set" where
  "market_currencies s =
     (if suffix ''IRT'' s then {drop_suffix ''IRT'' s, ''IRT''} else {drop_suffix ''USDT'' s, ''USDT''})"

lemma drop_suffix_snoc [simp]: "drop_suffix dst (p @ dst) = p"
  by (simp add: drop_suffix_def)

lemma usdt_not_irt [simp]: "\<not> suffix ''IRT'' (p @ ''USDT'')" "suffix ''IRT'' (p @ ''IRT'')"
  by (auto simp: suffix_to_prefix)

lemma partition_symbols_separate:
  assumes "partition_symbols big bd little ld = [p1, p2, p3, p4]"
    and "distinct (map (drop_suffix bd) big)"
  shows "x \<in> set p1 \<Longrightarrow> y \<in> set p2 \<Longrightarrow> \<exists>p q. x = p @ bd \<and> y = q @ ld \<and> p \<noteq> q
            \<and> p \<in> drop_suffix bd ` set big \<and> q \<in> drop_suffix ld ` set little"
    and "x \<in> set p3 \<Longrightarrow> y \<in> set p4 \<Longrightarrow> \<exists>p q. x = p @ bd \<and> y = q @ ld \<and> p \<noteq> q
            \<and> p \<in> drop_suffix bd ` set big \<and> q \<in> drop_suffix ld ` set little"
proof -
  define b where "b = map (drop_suffix bd) big"
  define n where "n = (length b + 1) div 2"
  have ps: "p1 = map (\<lambda>p. p @ bd) (remdups (take n b))"
    "p2 = map (\<lambda>p. p @ ld) (filter (\<lambda>s. s \<notin> set (take n b)) (map (drop_suffix ld) little))"
    "p3 = map (\<lambda>p. p @ bd) (remdups (drop n b))"
    "p4 = map (\<lambda>p. p @ ld) (filter (\<lambda>s. s \<in> set (take n b)) (map (drop_suffix ld) little))"
    using assms(1) unfolding partition_symbols_def b_def [symmetric] n_def [symmetric] Let_def by auto
  have dj: "set (take n b) \<inter> set (drop n b) = {}"
    using assms(2) unfolding b_def by (rule set_take_disj_set_drop_if_distinct) simp
  have sub: "set (take n b) \<subseteq> drop_suffix bd ` set big" "set (drop n b) \<subseteq> drop_suffix bd ` set big"
    using set_take_subset [of n b] set_drop_subset [of n b] by (auto simp: b_def)
  show "x \<in> set p1 \<Longrightarrow> y \<in> set p2 \<Longrightarrow> \<exists>p q. x = p @ bd \<and> y = q @ ld \<and> p \<noteq> q
            \<and> p \<in> drop_suffix bd ` set big \<and> q \<in> drop_suffix ld ` set little"
    unfolding ps(1,2) using sub(1) by auto
  show "x \<in> set p3 \<Longrightarrow> y \<in> set p4 \<Longrightarrow> \<exists>p q. x = p @ bd \<and> y = q @ ld \<and> p \<noteq> q
            \<and> p \<in> drop_suffix bd ` set big \<and> q \<in> drop_suffix ld ` set little"
    unfolding ps(3,4) using sub(2) dj by auto
qed

text \<open>C20: the two partitions that run at the same time never hold markets with a common
  currency, so the two processes never lock or change the same wallet.\<close>

theorem concurrent_partitions_disjoint:
  assumes parts: "symbol_partitions keys = [p1, p2, p3, p4]" and dist: "distinct keys"
    and dst: "list_all (\<lambda>k. suffix ''IRT'' k \<or> suffix ''USDT'' k) keys"
    and base: "list_all (\<lambda>k. drop_suffix ''IRT'' k \<notin> {''IRT'', ''USDT''} \<and> drop_suffix ''USDT'' k \<notin> {''IRT'', ''USDT''}) keys"
  shows "(\<forall>x \<in> set p1. \<forall>y \<in> set p2. market_currencies x \<inter> market_currencies y = {})
     \<and> (\<forall>x \<in> set p3. \<forall>y \<in> set p4. market_currencies x \<inter> market_currencies y = {})"
proof -
  define r where "r = filter (suffix ''IRT'') keys"
  define u where "u = filter (\<lambda>k. \<not> suffix ''IRT'' k) keys"
  have s: "list_all (suffix ''IRT'') r" "list_all (suffix ''USDT'') u" "distinct r" "distinct u"
    using dist dst by (auto simp: r_def u_def list_all_iff)
  have d: "distinct (map (drop_suffix ''IRT'') r)" "distinct (map (drop_suffix ''USDT'') u)"
    using s inj_drop_suffix by (auto simp: distinct_map)
  have nb: "p \<notin> {''IRT'', ''USDT''}" if "p \<in> drop_suffix ''IRT'' ` set r \<union> drop_suffix ''USDT'' ` set u" for p
    using that base by (auto simp: r_def u_def list_all_iff)
  have disj: "market_currencies x \<inter> market_currencies y = {}"
    if "(\<exists>p q. x = p @ ''IRT'' \<and> y = q @ ''USDT'' \<and> p \<noteq> q \<and> p \<in> drop_suffix ''IRT'' ` set r \<and> q \<in> drop_suffix ''USDT'' ` set u)
      \<or> (\<exists>p q. x = p @ ''USDT'' \<and> y = q @ ''IRT'' \<and> p \<noteq> q \<and> p \<in> drop_suffix ''USDT'' ` set u \<and> q \<in> drop_suffix ''IRT'' ` set r)" for x y
    using that nb by (elim disjE exE conjE) (auto simp: market_currencies_def)
  from parts consider "partition_symbols r ''IRT'' u ''USDT'' = [p1, p2, p3, p4]"
    | "partition_symbols u ''USDT'' r ''IRT'' = [p1, p2, p3, p4]"
    unfolding symbol_partitions_def r_def [symmetric] u_def [symmetric] Let_def by (auto split: if_splits)
  then show ?thesis
  proof cases
    case 1
    note sep = partition_symbols_separate [OF 1 d(1)]
    show ?thesis using sep disj by blast
  next
    case 2
    note sep = partition_symbols_separate [OF 2 d(2)]
    show ?thesis using sep disj by blast
  qed
qed

theorem concurrent_partitions_disjoint_witness:
  "\<exists>p1 p2 p3 p4. symbol_partitions [''BTCIRT'', ''BTCUSDT'', ''ETHIRT'', ''ETHUSDT''] = [p1, p2, p3, p4]
     \<and> ''BTCIRT'' \<in> set p1 \<and> ''ETHUSDT'' \<in> set p2 \<and> market_currencies ''BTCIRT'' \<inter> market_currencies ''ETHUSDT'' = {}"
proof -
  let ?keys = "[''BTCIRT'', ''BTCUSDT'', ''ETHIRT'', ''ETHUSDT'']"
  have sx: "suffix ''IRT'' ''BTCIRT''" "suffix ''IRT'' ''ETHIRT''" "\<not> suffix ''IRT'' ''BTCUSDT''" "\<not> suffix ''IRT'' ''ETHUSDT''"
    "suffix ''USDT'' ''BTCUSDT''" "suffix ''USDT'' ''ETHUSDT''"
    by (simp_all add: suffix_to_prefix)
  have p: "symbol_partitions ?keys = [[''BTCIRT''], [''ETHUSDT''], [''ETHIRT''], [''BTCUSDT'']]"
    by (simp add: symbol_partitions_def partition_symbols_def sx drop_suffix_def)
  have "list_all (\<lambda>k. drop_suffix ''IRT'' k \<notin> {''IRT'', ''USDT''} \<and> drop_suffix ''USDT'' k \<notin> {''IRT'', ''USDT''}) ?keys"
    by (simp add: drop_suffix_def)
  from concurrent_partitions_disjoint [OF p _ _ this] p show ?thesis by (simp add: sx)
qed

subsection \<open>A round of all markets\<close>

text \<open>
  What the daemon needs of a market: the environment its matcher is built with, whether
  its stop orders run in the other process, the time stamp and the mark price of that
  run. The shared dictionaries are \<open>cm_caches\<close> and \<open>cm_ranges\<close>; \<open>epoch\<close> is
  \<open>NOBITEX_EPOCH\<close>. An exception of a market leaves the database as it was and the loop
  goes on with the next market.
\<close>

record market_run =
  mr_env :: menv
  mr_async :: bool
  mr_ts :: datetime
  mr_mark :: "rat option"

record cm_state =
  cm_db :: mdb
  cm_caches :: "nat \<rightharpoonup> round_cache"
  cm_ranges :: "nat \<rightharpoonup> (rat \<times> rat) option"
  cm_markets :: nat
  cm_trades :: nat

definition round_cache_of :: "datetime \<Rightarrow> cm_state \<Rightarrow> nat \<Rightarrow> round_cache" where
  "round_cache_of epoch st i =
     (case cm_caches st i of
        Some rc \<Rightarrow> rc | None \<Rightarrow> \<lparr>last_time = epoch, last_best_sell = 0, last_best_buy = None\<rparr>)"

definition run_market :: "datetime \<Rightarrow> cm_state \<Rightarrow> market_run \<Rightarrow> cm_state" where
  "run_market epoch st m =
     (let i = market_id (mr_env m)
      in case do_matching_round (mr_env m) (mr_async m) (mr_ts m) (mr_mark m) (round_cache_of epoch st i) (cm_db st) of
           Inl e \<Rightarrow> st
         | Inr r \<Rightarrow>
             st\<lparr>cm_db := mdb (rr_state r), cm_caches := (cm_caches st)(i \<mapsto> rr_cache r),
                cm_ranges := (if mr_async m then (cm_ranges st)(i \<mapsto> last_price_range (rr_state r)) else cm_ranges st),
                cm_markets := Suc (cm_markets st), cm_trades := cm_trades st + matches (rr_state r)\<rparr>)"

definition run_matcher_for_list_of_markets :: "datetime \<Rightarrow> market_run list \<Rightarrow> cm_state \<Rightarrow> cm_state" where
  "run_matcher_for_list_of_markets epoch ms st = foldl (run_market epoch) st ms"

definition post_process_market :: "cm_state \<Rightarrow> market_run \<Rightarrow> cm_state" where
  "post_process_market st m =
     (if \<not> mr_async m then st
      else case cm_ranges st (market_id (mr_env m)) of
             Some (Some r) \<Rightarrow>
               st\<lparr>cm_db := snd (post_processing_matcher_round (mr_env m) (mr_ts m) (mr_mark m) (Some r) (cm_db st))\<rparr>
           | _ \<Rightarrow> st)"

definition run_partition :: "datetime \<Rightarrow> cm_state \<Rightarrow> market_run list \<Rightarrow> cm_state" where
  "run_partition epoch st ms = foldl post_process_market (run_matcher_for_list_of_markets epoch ms st) ms"

definition run_matcher_round :: "datetime \<Rightarrow> bool \<Rightarrow> (string \<times> market_run) list \<Rightarrow> cm_state \<Rightarrow> cm_state result" where
  "run_matcher_round epoch is_disabled markets st =
     rbind (custom_partition_markets is_disabled markets) (\<lambda>partitions. Inr (foldl (run_partition epoch) st partitions))"

lemma run_market_sound:
  assumes "sound_db (cm_db st)" "MAX_PRECISION \<le> the (amount_precision (mr_env m))"
  shows "sound_db (cm_db (run_market epoch st m))"
proof (cases "do_matching_round (mr_env m) (mr_async m) (mr_ts m) (mr_mark m)
      (round_cache_of epoch st (market_id (mr_env m))) (cm_db st)")
  case (Inr r)
  with round_sound [OF Inr assms] show ?thesis by (simp add: run_market_def Let_def)
qed (use assms in \<open>simp add: run_market_def\<close>)

lemma post_process_market_sound: "sound_db (cm_db st) \<Longrightarrow> sound_db (cm_db (post_process_market st m))"
  using post_processing_sound by (auto simp: post_process_market_def split: option.splits)

lemma run_partition_sound:
  assumes "sound_db (cm_db st)" "\<forall>m \<in> set ms. MAX_PRECISION \<le> the (amount_precision (mr_env m))"
  shows "sound_db (cm_db (run_partition epoch st ms))"
proof -
  have a: "sound_db (cm_db (foldl (run_market epoch) st ms))"
    using assms by (induction ms arbitrary: st) (auto intro: run_market_sound)
  have "sound_db (cm_db (foldl post_process_market st' xs))" if "sound_db (cm_db st')" for st' xs
    using that by (induction xs arbitrary: st') (auto intro: post_process_market_sound)
  with a show ?thesis by (simp add: run_partition_def run_matcher_for_list_of_markets_def)
qed

text \<open>C19: a whole round of the daemon over any set of markets, whatever fails in some of
  them, leaves the database sound.\<close>

theorem run_matcher_round_sound:
  assumes r: "run_matcher_round epoch is_disabled markets st = Inr st'" and s: "sound_db (cm_db st)"
    and d: "distinct (map fst markets)" "list_all (\<lambda>k. suffix ''IRT'' k \<or> suffix ''USDT'' k) (map fst markets)"
    and p: "\<forall>m \<in> set (map snd markets). MAX_PRECISION \<le> the (amount_precision (mr_env m))"
  shows "sound_db (cm_db st')"
proof -
  from r obtain ps where ps: "custom_partition_markets is_disabled markets = Inr ps" and st': "st' = foldl (run_partition epoch) st ps"
    by (auto simp: run_matcher_round_def rbind_eq_Inr_iff)
  have "mset (concat ps) = mset (map snd markets)"
    using partitions_all [OF d] ps by (cases is_disabled) (auto simp: custom_partition_markets_def)
  then have "set (concat ps) = set (map snd markets)" by (rule mset_eq_setD)
  then have "m \<in> set (map snd markets)" if "ms \<in> set ps" "m \<in> set ms" for ms m using that by auto
  with p have all: "\<forall>ms \<in> set ps. \<forall>m \<in> set ms. MAX_PRECISION \<le> the (amount_precision (mr_env m))" by blast
  show ?thesis
    unfolding st' using s all by (induction ps arbitrary: st) (auto intro: run_partition_sound)
qed

definition ex_cm :: cm_state where
  "ex_cm = \<lparr>cm_db = ex_db, cm_caches = (\<lambda>_. None), cm_ranges = (\<lambda>_. None), cm_markets = 0, cm_trades = 0\<rparr>"

definition ex_run :: market_run where
  "ex_run = \<lparr>mr_env = ex_env, mr_async = True, mr_ts = 50, mr_mark = None\<rparr>"

theorem run_matcher_round_sound_witness:
  "\<exists>st'. run_matcher_round 0 False [(''BTCIRT'', ex_run)] ex_cm = Inr st' \<and> sound_db (cm_db st')"
proof -
  let ?ms = "[(''BTCIRT'', ex_run)]"
  have d: "distinct (map fst ?ms)" "list_all (\<lambda>k. suffix ''IRT'' k \<or> suffix ''USDT'' k) (map fst ?ms)"
    by (simp_all add: suffix_to_prefix)
  from partitions_all [OF d] obtain st' where r: "run_matcher_round 0 False ?ms ex_cm = Inr st'"
    by (auto simp: run_matcher_round_def)
  have "sound_db (cm_db ex_cm)" using ex_sound by (simp add: ex_cm_def)
  from run_matcher_round_sound [OF r this d] r show ?thesis
    by (simp add: ex_run_def MAX_PRECISION_def)
qed

end
