(* ===== verification/Positions_Settlement.thy ===== *)
theory Positions_Settlement
  imports Positions
begin

section \<open>Settlement and daily fees of positions\<close>

text \<open>
  What \<open>Position.set_pnl\<close> and \<open>PositionFee.save\<close> of \<^verbatim>\<open>src/core/exchange/margin/models.py\<close> do to
  the margin wallet. Both post one transaction and release part of the blocked balance;
  \<open>post_and_unblock\<close> is that step, the theorems are its two uses.
\<close>

subsection \<open>Settlement\<close>

lemma ctx_less_0_iff: "ctx x < 0 \<longleftrightarrow> x < 0"
proof -
  have "0 < ctx (- x)" if "x < 0" using that by (intro ctx_pos) simp
  moreover have "0 \<le> ctx x" if "0 \<le> x" using ctx_mono [of 0 x] that by simp
  ultimately show ?thesis by (force simp: ctx_minus)
qed

lemma unblock_money:
  assumes u: "unblock d i a = Inr (d', w')" and a: "money_field a"
  obtains w where "find_wallet (wallets d) i = Some w" "0 \<le> w_blocked w - a" "w_blocked w - a \<le> w_balance w"
    "d' = d\<lparr>wallets := put_wallet (\<lambda>_. w\<lparr>w_blocked := w_blocked w - a\<rparr>) i (wallets d)\<rparr>"
proof -
  have n: "dneg a = - a" using money_field_ctx [OF a] by (simp add: dneg_def ctx_minus)
  have "quantize ROUND_HALF_EVEN MAX_PRECISION (- a) = Inr (- a)"
    by (rule money_quantize) (use a in \<open>simp add: money_field_def\<close>)
  with u that show ?thesis
    by (auto simp: unblock_def change_balance_blocked_def n rbind_eq_Inr_iff Let_def split: option.split_asm if_splits)
qed

lemma put_same_find:
  assumes "find_wallet ws i = Some w" "w_id w' = i"
  shows "find_wallet (put_wallet (\<lambda>_. w') i ws) j = (if j = i then Some w' else find_wallet ws j)"
proof (cases "j = i")
  case True
  then show ?thesis using assms by (induction ws) (auto simp: find_wallet_def put_wallet_def split: if_splits)
next
  case False
  then show ?thesis using assms(2) by (induction ws) (auto simp: find_wallet_def put_wallet_def)
qed

text \<open>The two limits of the code, for column values: the later one, on the balance, prevails.\<close>

lemma limited_pnl_eq:
  assumes "money_field (p_collateral p)" "balance_field (w_balance w)"
  shows "limited_pnl p w x = max (max x (- p_collateral p)) (- w_balance w)"
proof -
  have n: "dneg (p_collateral p) = - p_collateral p" "dneg (w_balance w) = - w_balance w"
    using money_field_ctx [OF assms(1)] balance_field_ctx [OF assms(2)] by (simp_all add: dneg_def ctx_minus)
  show ?thesis by (auto simp: limited_pnl_def Let_def dadd_def ctx_less_0_iff n max_def)
qed

lemma pnl_ref_code: "map_of REF_MODULES ''PositionUserPNL'' = Some 113" "map_of REF_MODULES ''PositionFeeSrc'' = Some 91"
  by (simp_all add: REF_MODULES_def)

text \<open>One transaction on a wallet, and then part of its blocked balance released.\<close>

lemma unblock_find:
  assumes u: "unblock d i a = Inr (d', w')" and a: "money_field a" and w: "find_wallet (wallets d) i = Some w"
  shows "find_wallet (wallets d') j = (if j = i then Some (w\<lparr>w_blocked := w_blocked w - a\<rparr>) else find_wallet (wallets d) j)"
    "0 \<le> w_blocked w - a" "w_blocked w - a \<le> w_balance w" "transactions d' = transactions d"
proof -
  from w have id: "w_id (w\<lparr>w_blocked := w_blocked w - a\<rparr>) = i" by (auto dest: find_wallet_Some)
  from unblock_money [OF u a] w
  have b: "0 \<le> w_blocked w - a" "w_blocked w - a \<le> w_balance w"
    and d': "d' = d\<lparr>wallets := put_wallet (\<lambda>_. w\<lparr>w_blocked := w_blocked w - a\<rparr>) i (wallets d)\<rparr>" by (metis option.inject)+
  show "0 \<le> w_blocked w - a" "w_blocked w - a \<le> w_balance w" by fact+
  show "transactions d' = transactions d" by (simp add: d')
  show "find_wallet (wallets d') j = (if j = i then Some (w\<lparr>w_blocked := w_blocked w - a\<rparr>) else find_wallet (wallets d) j)"
    using put_same_find [OF w id, of j] by (simp add: d')
qed

lemma commit_find:
  assumes c: "commit d tx neg = Inr (d', tx')" and w: "find_wallet (wallets d) (tx_wallet tx) = Some w"
  shows "find_wallet (wallets d') j
         = (if j = tx_wallet tx then Some (w\<lparr>w_balance := w_balance w + tx_amount tx\<rparr>) else find_wallet (wallets d) j)"
  using c w by (auto simp: commit_Inr find_put_wallet)

lemma post_and_unblock:
  assumes w: "find_wallet (wallets d) i = Some w" and tx: "tx_wallet tx = i"
    and c: "commit d tx False = Inr (d2, tx')" and u: "unblock d2 i a = Inr (d', w')" and a: "money_field a"
  shows "find_wallet (wallets d') j =
      (if j = i then Some (w\<lparr>w_balance := w_balance w + tx_amount tx, w_blocked := w_blocked w - a\<rparr>)
       else find_wallet (wallets d) j)"
    "0 \<le> w_blocked w - a" "w_blocked w - a \<le> w_balance w + tx_amount tx"
    "transactions d' = transactions d @ [tx']" "tx_wallet tx' = i" "tx_amount tx' = tx_amount tx"
    "tx_ref_module tx' = tx_ref_module tx" "tx_ref_id tx' = tx_ref_id tx"
proof -
  have w2: "find_wallet (wallets d2) i = Some (w\<lparr>w_balance := w_balance w + tx_amount tx\<rparr>)"
    using commit_find [OF c] w tx by simp
  note f = unblock_find [OF u a w2] commit_find [OF c, of w] w tx
  show "find_wallet (wallets d') j =
      (if j = i then Some (w\<lparr>w_balance := w_balance w + tx_amount tx, w_blocked := w_blocked w - a\<rparr>)
       else find_wallet (wallets d) j)" "0 \<le> w_blocked w - a" "w_blocked w - a \<le> w_balance w + tx_amount tx"
    using f by simp_all
  show "transactions d' = transactions d @ [tx']" "tx_wallet tx' = i" "tx_amount tx' = tx_amount tx"
    "tx_ref_module tx' = tx_ref_module tx" "tx_ref_id tx' = tx_ref_id tx"
    using f(4) c tx by (auto simp: commit_Inr)
qed

text \<open>The wallet of a position, once it exists.\<close>

definition margin_wallet :: "nat list \<Rightarrow> 'a db_scheme \<Rightarrow> position \<Rightarrow> wallet \<Rightarrow> bool" where
  "margin_wallet DST_CURRENCIES d p w \<longleftrightarrow>
     p_dst p \<in> set DST_CURRENCIES \<and> wallet_for (wallets d) (p_user p) (p_dst p) WMargin = Some w
     \<and> find_wallet (wallets d) (w_id w) = Some w"

lemma margin_wallet_get:
  "margin_wallet D d p w \<Longrightarrow> get_user_wallet D d (p_user p) (p_dst p) WMargin True = (Some w, d)"
  by (simp add: margin_wallet_def get_user_wallet_def)

lemma settlement_effect:
  assumes s: "set_pnl D e p d = Inr (p', d')"
    and todo: "p_pnl p = None" "p_status p \<notin> set STATUS_ONGOING" "liability e p = Inr l" "money_is_zero l"
      "p_pnl_transaction p = None" "raw_pnl e p = Inr x"
    and w: "margin_wallet D d p w" and fld: "money_field (p_collateral p)" "balance_field (w_balance w)"
  shows "p' = p\<lparr>p_pnl := Some (limited_pnl p w x)\<rparr> \<and> (\<exists>q. quantize ROUND_HALF_EVEN MAX_PRECISION (limited_pnl p w x) = Inr q
     \<and> (\<forall>j. find_wallet (wallets d') j =
           (if j = w_id w then Some (w\<lparr>w_balance := w_balance w + q, w_blocked := w_blocked w - p_collateral p\<rparr>)
            else find_wallet (wallets d) j))
     \<and> 0 \<le> w_blocked w - p_collateral p \<and> w_blocked w - p_collateral p \<le> w_balance w + q)"
proof -
  have wid: "find_wallet (wallets d) (w_id w) = Some w" using w by (simp add: margin_wallet_def)
  from s todo margin_wallet_get [OF w] obtain d2 w3 where
    c: "create_pnl_transaction p (limited_pnl p w x) w (pe_now e) d = Inr d2"
    and u: "unblock d2 (w_id w) (p_collateral p) = Inr (d', w3)"
    and p': "p' = p\<lparr>p_pnl := Some (limited_pnl p w x)\<rparr>"
    by (auto simp: set_pnl_def rbind_eq_Inr_iff Let_def)
  show ?thesis
  proof (cases "limited_pnl p w x = 0")
    case True
    with c have d2: "d2 = d" by (simp add: create_pnl_transaction_def)
    have "quantize ROUND_HALF_EVEN MAX_PRECISION 0 = Inr 0"
      using money_quantize [of 0] by (simp add: money_field_def fits_def)
    moreover have "w\<lparr>w_balance := w_balance w, w_blocked := b\<rparr> = w\<lparr>w_blocked := b\<rparr>" for b by (cases w) simp
    ultimately show ?thesis
      using unblock_find [OF u [unfolded d2] fld(1) wid] p' True by (intro conjI exI [of _ 0]) simp_all
  next
    case False
    with c todo obtain tx tx' where
      tx: "create_transaction w TxPnl (limited_pnl p w x) (pe_now e) None None False = Inr (Some tx)"
      and cm: "commit d (tx\<lparr>tx_ref_module := Some 113, tx_ref_id := Some (p_id p)\<rparr>) False = Inr (d2, tx')"
      by (auto simp: create_pnl_transaction_def rbind_eq_Inr_iff pnl_ref_code split: option.split_asm)
    from create_transaction_Some [OF tx]
    have t: "tx_wallet (tx\<lparr>tx_ref_module := Some 113, tx_ref_id := Some (p_id p)\<rparr>) = w_id w"
      and q: "quantize ROUND_HALF_EVEN MAX_PRECISION (limited_pnl p w x) = Inr (tx_amount tx)" by simp_all
    show ?thesis
      using post_and_unblock(1-3) [OF wid t cm u fld(1)] p' q by (intro conjI exI [of _ "tx_amount tx"]) simp_all
  qed
qed

text \<open>The settlement goes through, as the result never takes more than the wallet holds.\<close>

lemma pnl_transaction_posts:
  assumes w: "find_wallet (wallets d) (w_id w) = Some w" "w_active w" "balance_field (w_balance w)"
    and pnl: "- w_balance w \<le> pnl" "quantize ROUND_HALF_EVEN MAX_PRECISION pnl = Inr q"
    and fresh: "\<forall>t \<in> set (transactions d). \<not> (tx_ref_module t = Some 113 \<and> tx_ref_id t = Some (p_id p))"
  shows "\<exists>d2. create_pnl_transaction p pnl w now d = Inr d2
     \<and> find_wallet (wallets d2) (w_id w) = Some (if pnl = 0 \<or> p_pnl_transaction p \<noteq> None then w else w\<lparr>w_balance := w_balance w + q\<rparr>)"
proof (cases "pnl = 0 \<or> p_pnl_transaction p \<noteq> None")
  case False
  have "- w_balance w \<le> q"
    using quantize_value_mono [OF pnl(1), of ROUND_HALF_EVEN MAX_PRECISION] pnl(2) balance_field_grid [OF w(3)]
    by (simp add: quantize_Inr quantize_value_fix)
  then have nn: "0 \<le> w_balance w + q" by simp
  then have "0 \<le> dadd (w_balance w) q" by (simp add: dadd_def ctx.rv_nonneg)
  then obtain tx where tx: "create_transaction w TxPnl pnl now None None False = Inr (Some tx)" "tx_amount tx = q" "tx_wallet tx = w_id w"
    using w(2) pnl(2) by (simp add: create_transaction_def is_balance_allowed_def check_transaction_def Let_def)
  let ?tx = "tx\<lparr>tx_ref_module := Some 113, tx_ref_id := Some (p_id p)\<rparr>"
  have free: "\<not> ref_taken (transactions d) ?tx" using fresh by (auto simp: ref_taken_def list_ex_iff)
  then obtain d2 tx' where c: "commit d ?tx False = Inr (d2, tx')" using w(1) nn tx(2,3) by (simp add: commit_def Let_def)
  have "find_wallet (wallets d2) (w_id w) = Some (w\<lparr>w_balance := w_balance w + q\<rparr>)"
    using commit_find [OF c, of w "w_id w"] w(1) tx(2,3) by simp
  then show ?thesis using False c tx(1) by (simp add: create_pnl_transaction_def pnl_ref_code)
qed (use w(1) in \<open>simp add: create_pnl_transaction_def\<close>)

lemma settlement_goes_through:
  assumes todo: "p_pnl p = None" "p_status p \<notin> set STATUS_ONGOING" "liability e p = Inr l" "money_is_zero l"
      "p_pnl_transaction p = None" "raw_pnl e p = Inr x"
    and w: "margin_wallet D d p w" "w_active w" and fld: "money_field (p_collateral p)" "balance_field (w_balance w)"
    and fresh: "\<forall>t \<in> set (transactions d). \<not> (tx_ref_module t = Some 113 \<and> tx_ref_id t = Some (p_id p))"
    and q: "quantize ROUND_HALF_EVEN MAX_PRECISION (limited_pnl p w x) = Inr q"
    and blocked: "0 \<le> w_blocked w - p_collateral p" "w_blocked w - p_collateral p \<le> w_balance w + q"
  shows "\<exists>d'. set_pnl D e p d = Inr (p\<lparr>p_pnl := Some (limited_pnl p w x)\<rparr>, d')"
proof -
  have wid: "find_wallet (wallets d) (w_id w) = Some w" using w(1) by (simp add: margin_wallet_def)
  have lim: "- w_balance w \<le> limited_pnl p w x" using limited_pnl_eq [OF fld] by simp
  obtain d2 where c: "create_pnl_transaction p (limited_pnl p w x) w (pe_now e) d = Inr d2"
    and f: "find_wallet (wallets d2) (w_id w) = Some (if limited_pnl p w x = 0 \<or> p_pnl_transaction p \<noteq> None then w else w\<lparr>w_balance := w_balance w + q\<rparr>)"
    using pnl_transaction_posts [OF wid w(2) fld(2) lim q fresh] by blast
  have "dneg (p_collateral p) = - p_collateral p" using money_field_ctx [OF fld(1)] by (simp add: dneg_def ctx_minus)
  moreover have "quantize ROUND_HALF_EVEN MAX_PRECISION (- p_collateral p) = Inr (- p_collateral p)"
    by (rule money_quantize) (use fld(1) in \<open>simp add: money_field_def\<close>)
  moreover have "limited_pnl p w x = 0 \<Longrightarrow> q = 0"
    using q money_quantize [of 0] by (simp add: money_field_def fits_def)
  then obtain w2 where "find_wallet (wallets d2) (w_id w) = Some w2" "w_blocked w2 = w_blocked w" "w_balance w2 = w_balance w + q"
    using f todo(5) by (cases "limited_pnl p w x = 0") simp_all
  ultimately obtain r where "unblock d2 (w_id w) (p_collateral p) = Inr r"
    using blocked by (simp add: unblock_def change_balance_blocked_def Let_def)
  then show ?thesis using todo margin_wallet_get [OF w(1)] c by (cases r) (simp add: set_pnl_def Let_def)
qed

text \<open>C30: the result of settling a position whose liability is closed is its profit or loss, limited to
  the collateral and then to the balance of the margin wallet, also where the wallet holds less
  than the collateral. A settlement that succeeds moves the balance by exactly the stored result and
  unblocks the collateral, changes no other wallet, and leaves the blocked balance within the
  balance; and it does succeed when the wallet is active, no settlement is on record, and the
  blocked balance covers the collateral and what stays blocked is covered by the balance.\<close>

theorem settlement_limits:
  assumes todo: "p_pnl p = None" "p_status p \<notin> set STATUS_ONGOING" "liability e p = Inr l" "money_is_zero l"
      "p_pnl_transaction p = None" "raw_pnl e p = Inr x"
    and w: "margin_wallet D d p w" and fld: "money_field (p_collateral p)" "balance_field (w_balance w)"
    and pnl: "pnl = max (max x (- p_collateral p)) (- w_balance w)" and q: "quantize ROUND_HALF_EVEN MAX_PRECISION pnl = Inr q"
  shows "(\<forall>p' d'. set_pnl D e p d = Inr (p', d') \<longrightarrow> p' = p\<lparr>p_pnl := Some pnl\<rparr>
        \<and> (\<forall>j. find_wallet (wallets d') j =
           (if j = w_id w then Some (w\<lparr>w_balance := w_balance w + q, w_blocked := w_blocked w - p_collateral p\<rparr>)
            else find_wallet (wallets d) j))
        \<and> 0 \<le> w_blocked w - p_collateral p \<and> w_blocked w - p_collateral p \<le> w_balance w + q)
     \<and> (w_active w \<and> 0 \<le> w_blocked w - p_collateral p \<and> w_blocked w - p_collateral p \<le> w_balance w + q
        \<and> (\<forall>t \<in> set (transactions d). \<not> (tx_ref_module t = Some 113 \<and> tx_ref_id t = Some (p_id p)))
        \<longrightarrow> (\<exists>d'. set_pnl D e p d = Inr (p\<lparr>p_pnl := Some pnl\<rparr>, d')))"
proof -
  have lim: "limited_pnl p w x = pnl" using limited_pnl_eq [OF fld] pnl by simp
  show ?thesis
    using settlement_effect [OF _ todo w fld] settlement_goes_through [OF todo w _ fld, of q] q unfolding lim by fastforce
qed

subsection \<open>The daily fee\<close>

lemma set_liquidation_price_only:
  "set_liquidation_price e p = Inr p' \<Longrightarrow> p' = p\<lparr>p_liquidation_price := p_liquidation_price p'\<rparr>"
  by (auto simp: set_liquidation_price_def rbind_eq_Inr_iff split: if_splits option.split_asm)

lemma get_user_wallet_more: "get_user_wallet D d u c tp cr = (w, d') \<Longrightarrow> db.more d' = db.more d"
  by (auto simp: get_user_wallet_def Let_def split: if_splits option.splits)

lemma unblock_more: "unblock d i a = Inr (d', w) \<Longrightarrow> db.more d' = db.more d"
  by (auto simp: unblock_def change_balance_blocked_def rbind_eq_Inr_iff Let_def split: option.split_asm if_splits)

lemma fee_rows_more:
  fixes d d' :: "'a pdb_scheme"
  shows "db.more d' = db.more d \<Longrightarrow> fee_rows d' = fee_rows d"
  by (cases d; cases d') simp

lemma commit_fee_frame:
  assumes c: "commit_fee D e fid a p d = Inr (p', d')"
  shows "p' = p\<lparr>p_collateral := p_collateral p', p_liquidation_price := p_liquidation_price p'\<rparr>"
    "fee_rows d' = fee_rows d"
proof -
  have "p' = p\<lparr>p_collateral := p_collateral p', p_liquidation_price := p_liquidation_price p'\<rparr> \<and> fee_rows d' = fee_rows d"
  proof (cases "a = 0")
    case True
    then show ?thesis using c by (simp add: commit_fee_def)
  next
    case False
    obtain ow d1 where g: "get_user_wallet D d (p_user p) (p_dst p) WMargin True = (ow, d1)" by (rule prod.exhaust)
    with False c obtain w tx d2 tx' d3 where
      cm: "commit d1 tx False = Inr (d2, tx')" and sl: "set_liquidation_price e (p\<lparr>p_collateral := dsub (p_collateral p) a\<rparr>) = Inr p'"
      and u: "unblock d2 w a = Inr (d', d3)"
      by (auto simp: commit_fee_def rbind_eq_Inr_iff split: option.split_asm)
    have "db.more d' = db.more d"
      using get_user_wallet_more [OF g] commit_frame(6) [OF cm] unblock_more [OF u] by simp
    moreover have "p' = p\<lparr>p_collateral := p_collateral p', p_liquidation_price := p_liquidation_price p'\<rparr>"
      using set_liquidation_price_only [OF sl] by (cases p; cases p') simp
    ultimately show ?thesis by (intro conjI fee_rows_more)
  qed
  then show "p' = p\<lparr>p_collateral := p_collateral p', p_liquidation_price := p_liquidation_price p'\<rparr>"
    "fee_rows d' = fee_rows d" by (rule conjunct1, rule conjunct2)
qed

text \<open>A daily fee comes out of the collateral: balance, blocked balance and collateral drop
  by the same amount, so what the user can spend elsewhere stays as it was; the fee is
  recorded for the day.\<close>

lemma daily_fee_exact:
  assumes s: "save_fee D raw e p d = Inr (p', d')" and a: "extension_fee_amount raw e p = Inr a"
    and fld: "money_field a" "money_field (p_collateral p)" and le: "0 < a" "a \<le> p_collateral p"
    and w: "margin_wallet D d p w"
  shows "p_collateral p' = p_collateral p - a \<and> 0 \<le> p_collateral p'
     \<and> (\<forall>j. find_wallet (wallets d') j =
           (if j = w_id w then Some (w\<lparr>w_balance := w_balance w - a, w_blocked := w_blocked w - a\<rparr>)
            else find_wallet (wallets d) j))
     \<and> fee_rows d' = fee_rows d @ [(p_id p, pe_today e, a)]"
proof -
  define d1 where "d1 = d\<lparr>fee_rows := fee_rows d @ [(p_id p, pe_today e, a)], next_fee_id := Suc (next_fee_id d)\<rparr>"
  have cf: "commit_fee D e (next_fee_id d) a p d1 = Inr (p', d')"
    using s a le by (simp add: save_fee_def d1_def split: if_splits)
  have w1: "margin_wallet D d1 p w" and wid: "find_wallet (wallets d1) (w_id w) = Some w"
    using w by (simp_all add: margin_wallet_def d1_def)
  from cf le margin_wallet_get [OF w1] obtain tx d2 tx' w3 where
    tx: "create_transaction w TxFee (dneg a) (pe_now e) None None False = Inr (Some tx)"
    and cm: "commit d1 (tx\<lparr>tx_ref_module := Some 91, tx_ref_id := Some (next_fee_id d)\<rparr>) False = Inr (d2, tx')"
    and sl: "set_liquidation_price e (p\<lparr>p_collateral := dsub (p_collateral p) a\<rparr>) = Inr p'"
    and u: "unblock d2 (w_id w) a = Inr (d', w3)"
    by (auto simp: commit_fee_def rbind_eq_Inr_iff pnl_ref_code split: option.split_asm)
  have n: "dneg a = - a" using money_field_ctx [OF fld(1)] by (simp add: dneg_def ctx_minus)
  have "quantize ROUND_HALF_EVEN MAX_PRECISION (- a) = Inr (- a)"
    by (rule money_quantize) (use fld(1) in \<open>simp add: money_field_def\<close>)
  with create_transaction_Some [OF tx] have amt: "tx_amount tx = - a" "tx_wallet tx = w_id w" by (simp_all add: n)
  have "p_collateral p - a = dsub (p_collateral p) a" using money_dsub [OF fld(2,1)] by simp
  moreover have "p_collateral p' = dsub (p_collateral p) a" using set_liquidation_price_only [OF sl] by (cases p; cases p') simp
  moreover have "fee_rows d' = fee_rows d @ [(p_id p, pe_today e, a)]"
    using commit_fee_frame(2) [OF cf] by (simp add: d1_def)
  ultimately show ?thesis
    using post_and_unblock(1) [OF wid _ cm u fld(1)] le amt by (simp add: d1_def)
qed

text \<open>The fee of a day is charged once: asking again for a position and day that has just
  been checked changes nothing.\<close>

lemma check_daily_fee_once:
  assumes "check_daily_fee D raw e p d = Inr (p', d')"
  shows "check_daily_fee D raw e p' d' = Inr (p', d')"
proof (cases "p' = p \<and> d' = d")
  case False
  define d1 where "d1 a = d\<lparr>fee_rows := fee_rows d @ [(p_id p, pe_today e, a)], next_fee_id := Suc (next_fee_id d)\<rparr>" for a
  from assms False obtain a where cf: "commit_fee D e (next_fee_id d) a p (d1 a) = Inr (p', d')"
    by (auto simp: check_daily_fee_def save_fee_def rbind_eq_Inr_iff d1_def split: if_splits)
  note fr = commit_fee_frame [OF cf]
  have "p_id p' = p_id p" using fr(1) by (cases p; cases p') simp
  then show ?thesis using fr(2) by (simp add: check_daily_fee_def d1_def)
qed (use assms in simp)

end
