(* ===== verification/Positions_Example.thy ===== *)
theory Positions_Example
  imports Positions_Settlement
begin

section \<open>Worked positions\<close>

text \<open>
  A long position of one coin, evaluated by the kernel in three situations: closed with a
  profit and settled, open and charged the daily fee, and open with almost no margin left.
  They are the witnesses of the properties of the two theories before this one.
\<close>

definition px_env :: penv where
  "px_env = \<lparr>pe_orders = [], pe_liqs = [], pe_market_price = 100, pe_fee_rate = 1/1000, pe_precision = Some 1,
     pe_trades = [], pe_now = 40, pe_today = 1, pe_day = (\<lambda>_. 0)\<rparr>"

definition px_pos :: "pos_status \<Rightarrow> rat \<Rightarrow> rat \<Rightarrow> rat \<Rightarrow> position" where
  "px_pos st coll delegated earned =
     \<lparr>p_id = 6, p_user = 21, p_src = 10, p_dst = 2, p_side = Buy, p_created_at = 5, p_opened_at = Some 10,
      p_closed_at = Some 30, p_freezed_at = None, p_status = st, p_leverage = 1, p_collateral = coll,
      p_delegated = delegated, p_earned = earned, p_liquidation_price = None, p_entry_price = Some 100,
      p_exit_price = None, p_pnl = None, p_pnl_transaction = None\<rparr>"

definition px_wallet :: "rat \<Rightarrow> rat \<Rightarrow> wallet" where
  "px_wallet b k = \<lparr>w_id = 3, w_user = 21, w_currency = 2, w_type = WMargin, w_balance = b, w_blocked = k, w_active = True\<rparr>"

definition px_db :: "rat \<Rightarrow> rat \<Rightarrow> pdb" where
  "px_db b k = \<lparr>wallets = [px_wallet b k], transactions = [], next_tx_id = 1, next_wallet_id = 4, orders = [],
     withdraws = [], position_rows = [], trades = [], next_trade_id = 2, margin_changes = [], fee_rows = [], next_fee_id = 1\<rparr>"

lemmas px_defs = px_env_def px_pos_def px_wallet_def px_db_def

lemma px_calculators:
  "liability px_env (px_pos st c dl er) = Inr dl" "is_short (px_pos st c dl er) = False"
  "get_unmatched_total_price px_env (px_pos st c dl er) = 0"
  "expiration_date px_env (px_pos st c dl er) = 31"
  by (simp_all add: liability_def is_short_def get_unmatched_total_price_def open_side_orders_def expiration_date_def
      POSITION_EXTENSION_LIMIT_def px_defs)

lemma px_margin_wallet: "margin_wallet [2, 13] (px_db b k) (px_pos st c dl er) (px_wallet b k)"
  by (simp add: margin_wallet_def px_defs wallet_for_def find_wallet_def)

lemma px_money: "money_field 0" "money_field 100" "money_field 5000" "money_field 1000000" "balance_field 500"
  by (simp_all add: money_field_def balance_field_def fits_def money_constants on_grid_iff dec_eval)

lemma px_closes: "set_pos_status px_env (px_pos POpen 100 0 50) = Inr (px_pos PClosed 100 0 50)"
proof -
  have "money_is_zero 0" by (simp add: money_is_zero_def money_is_close_def dec_eval)
  moreover have "(px_pos st c dl er)\<lparr>p_status := st'\<rparr> = px_pos st' c dl er" "p_status (px_pos st c dl er) = st"
    "pe_orders px_env = []" for st st' c dl er by (simp_all add: px_defs)
  ultimately show ?thesis
    by (simp add: set_pos_status_def new_status_def open_status_def px_calculators STATUS_ONGOING_def Let_def)
qed

theorem set_status_arrows_witness:
  "pos_arrow\<^sup>*\<^sup>* POpen PClosed \<and> set_pos_status px_env (px_pos POpen 100 0 50) = Inr (px_pos PClosed 100 0 50)"
  using set_status_arrows [OF px_closes] px_closes by (simp add: px_pos_def)

theorem zero_ratio_not_liquidated_witness:
  "set_pos_status px_env (px_pos POpen 100 1 (- 10000000)) = Inr (px_pos POpen 100 1 (- 10000000))"
proof (rule zero_ratio_not_liquidated)
  show "p_status (px_pos POpen 100 1 (- 10000000)) = POpen" by (simp add: px_defs)
  have "total_asset px_env (px_pos POpen 100 1 (- 10000000)) = 200"
    by (simp add: total_asset_def long_total_asset_def px_calculators) (simp add: px_defs dec_eval)
  moreover have "long_delegation_total_price px_env (px_pos POpen 100 1 (- 10000000)) = 10000000"
    by (simp add: long_delegation_total_price_def px_calculators Let_def) (simp add: px_defs dec_eval)
  moreover have "ddiv 200 10000000 = Inr (1/50000)" "dadd 200 0 = 200"
    "quantize ROUND_DOWN (- 2) (1/50000) = Inr 0" by (simp_all add: dec_eval)
  ultimately have "margin_ratio px_env (px_pos POpen 100 1 (- 10000000)) = Inr (Some 0)"
    by (simp add: margin_ratio_def get_margin_ratio_def long_margin_ratio_def px_calculators MAX_MARGIN_RATIO_def Let_def)
       (simp add: px_env_def)
  then show "margin_ratio px_env (px_pos POpen 100 1 (- 10000000)) = Inr (Some 0)" .
  show "pe_today px_env < expiration_date px_env (px_pos POpen 100 1 (- 10000000))"
    unfolding px_calculators by (simp add: px_env_def)
  show "liability px_env (px_pos POpen 100 1 (- 10000000)) = Inr 1" by (rule px_calculators)
  show "\<not> money_is_zero 1" by (simp add: money_is_zero_def money_is_close_def dec_eval)
qed

subsection \<open>A settlement\<close>

lemma px_pnl:
  "raw_pnl px_env (px_pos PClosed 100 0 50) = Inr (99/2)"
  "limited_pnl (px_pos PClosed 100 0 50) (px_wallet 500 100) (99/2) = 99/2"
proof -
  have sh: "get_user_share 0 True = 99/100" using get_user_share_eq [of 0] by (simp add: POSITION_EXTENSION_LIMIT_def)
  have m: "dmul 50 (99/100) = 99/2" by (simp add: dec_eval)
  show "raw_pnl px_env (px_pos PClosed 100 0 50) = Inr (99/2)"
    by (simp add: raw_pnl_def get_user_pnl_def POSITION_EXTENSION_LIMIT_def px_defs sh m)
  show "limited_pnl (px_pos PClosed 100 0 50) (px_wallet 500 100) (99/2) = 99/2"
    by (simp add: limited_pnl_def px_defs dec_eval)
qed

lemma px_settles: "\<exists>d'. set_pnl [2, 13] px_env (px_pos PClosed 100 0 50) (px_db 500 100) = Inr ((px_pos PClosed 100 0 50)\<lparr>p_pnl := Some (99/2)\<rparr>, d')"
proof -
  have z: "money_is_zero 0" by (simp add: money_is_zero_def money_is_close_def dec_eval)
  have s: "p_pnl (px_pos st c dl er) = None" "p_status (px_pos st c dl er) = st" "p_collateral (px_pos st c dl er) = c"
    "p_pnl_transaction (px_pos st c dl er) = None" "p_id (px_pos st c dl er) = 6" "w_id (px_wallet b k) = 3" for st c dl er b k
    by (simp_all add: px_defs)
  have "quantize ROUND_HALF_EVEN MAX_PRECISION (99/2) = Inr (99/2)" "dadd 500 (99/2) = 1099/2"
    by (simp_all add: MAX_PRECISION_def dec_eval)
  then have tx: "create_transaction (px_wallet 500 100) TxPnl (99/2) 40 None None False = Inr (Some
      \<lparr>tx_id = 0, tx_wallet = 3, tx_tp = TxPnl, tx_amount = 99/2, tx_balance = 1099/2, tx_created_at = 40, tx_ref_module = None, tx_ref_id = None\<rparr>)"
    by (simp add: create_transaction_def check_transaction_def is_balance_allowed_def px_wallet_def Let_def)
  have q: "dneg 100 = -100" "quantize ROUND_HALF_EVEN MAX_PRECISION (-100) = Inr (-100)"
    by (simp_all add: MAX_PRECISION_def dec_eval)
  have now: "pe_now px_env = 40" by (simp add: px_env_def)
  show ?thesis
    by (simp add: set_pnl_def s z px_calculators px_pnl margin_wallet_get [OF px_margin_wallet] STATUS_ONGOING_def now
        create_pnl_transaction_def tx Let_def)
      (simp add: commit_def unblock_def change_balance_blocked_def q px_db_def px_wallet_def find_wallet_def put_wallet_def
        ref_taken_def Let_def)
qed

text \<open>A loss of 500 on a collateral of 100, of which the wallet holds 40: all 40 are taken.\<close>

theorem settlement_limits_witness:
  "\<exists>d'. set_pnl [2, 13] px_env (px_pos PClosed 100 0 (- 500)) (px_db 40 100)
       = Inr ((px_pos PClosed 100 0 (- 500))\<lparr>p_pnl := Some (- 40)\<rparr>, d')
     \<and> find_wallet (wallets d') 3 = Some (px_wallet 0 0)"
proof -
  have s: "p_pnl (px_pos PClosed 100 0 e) = None" "p_status (px_pos PClosed 100 0 e) \<notin> set STATUS_ONGOING"
    "p_pnl_transaction (px_pos PClosed 100 0 e) = None" "p_collateral (px_pos PClosed 100 0 e) = 100"
    "w_balance (px_wallet 40 100) = 40" "w_blocked (px_wallet 40 100) = 100" "w_id (px_wallet b k) = 3" "w_active (px_wallet b k)"
    "transactions (px_db b k) = []" for b k e
    by (simp_all add: px_defs STATUS_ONGOING_def)
  have z: "money_is_zero 0" by (simp add: money_is_zero_def money_is_close_def dec_eval)
  have r: "raw_pnl px_env (px_pos PClosed 100 0 (- 500)) = Inr (- 500)"
    by (simp add: raw_pnl_def get_user_pnl_def get_user_share_def px_defs dec_eval)
  have b: "balance_field 40" by (simp add: balance_field_def fits_def money_constants on_grid_iff dec_eval)
  have q: "quantize ROUND_HALF_EVEN MAX_PRECISION (- 40) = Inr (- 40)" by (simp add: MAX_PRECISION_def dec_eval)
  have m: "(- 40 :: rat) = max (max (- 500) (- 100)) (- 40)" by simp
  note c = settlement_limits [OF s(1,2) px_calculators(1) z s(3) r px_margin_wallet, of 40 100 "- 40" "- 40", unfolded s, OF px_money(2) b m q]
  from c obtain d' where d': "set_pnl [2, 13] px_env (px_pos PClosed 100 0 (- 500)) (px_db 40 100)
       = Inr ((px_pos PClosed 100 0 (- 500))\<lparr>p_pnl := Some (- 40)\<rparr>, d')"
    using s(8) by auto
  with c have "find_wallet (wallets d') 3 = Some (px_wallet 0 0)" by (auto simp: px_wallet_def)
  with d' show ?thesis by blast
qed

subsection \<open>A daily fee\<close>

definition px_raw :: "nat \<Rightarrow> rat option" where "px_raw _ = Some (1/2000)"

lemma px_fee: "extension_fee_amount px_raw px_env (px_pos POpen 1000000 1 (- 10000000)) = Inr 5000"
proof -
  have "delegation_total_price px_env (px_pos POpen 1000000 1 (- 10000000)) = Inr 10000000"
    by (simp add: delegation_total_price_def long_delegation_total_price_def px_calculators Let_def) (simp add: px_defs dec_eval)
  moreover have "ddiv 10000000 10000000 = Inr 1" "to_integral ROUND_UP 1 = 1" "dmul 1 10000000 = 10000000"
    "dmul 10000000 (1/2000) = 5000" "quantize ROUND_HALF_EVEN MAX_PRECISION (1/2000) = Inr (1/2000)"
    by (simp_all add: MAX_PRECISION_def dec_eval)
  ultimately show ?thesis
    by (simp add: extension_fee_amount_def fee_amount_def get_fee_rate_def px_raw_def positionFeeUnits_def)
      (simp add: px_pos_def)
qed

lemma px_liquidation_price:
  "set_liquidation_price px_env (px_pos POpen 995000 1 (- 10000000)) = Inr ((px_pos POpen 995000 1 (- 10000000))\<lparr>p_liquidation_price := Some 10005000\<rparr>)"
proof -
  have "\<not> money_is_zero 1" by (simp add: money_is_zero_def money_is_close_def dec_eval)
  moreover have "dneg (- 10000000) = 10000000" "dmul 10000000 (11/10) = 11000000" "dsub 11000000 995000 = 10005000"
    "ddiv 10005000 1 = Inr 10005000" "quantize ROUND_HALF_EVEN 1 10005000 = Inr 10005000"
    by (simp_all add: dec_eval)
  moreover have "pe_precision px_env = Some 1" "p_status (px_pos st c dl er) = st" "p_collateral (px_pos st c dl er) = c"
    "p_earned (px_pos st c dl er) = er" for st c dl er by (simp_all add: px_defs)
  ultimately show ?thesis
    by (simp add: set_liquidation_price_def px_calculators get_liquidation_price_def long_liquidation_price_def MAINTENANCE_MARGIN_RATIO_def)
qed

lemma px_charges: "\<exists>d'. save_fee [2, 13] px_raw px_env (px_pos POpen 1000000 1 (- 10000000)) (px_db 2000000 1500000)
   = Inr ((px_pos POpen 995000 1 (- 10000000))\<lparr>p_liquidation_price := Some 10005000\<rparr>, d')"
proof -
  define d1 where "d1 = (px_db 2000000 1500000)\<lparr>fee_rows := [(6, 1, 5000)], next_fee_id := 2\<rparr>"
  have s: "p_pnl (px_pos st c dl er) = None" "p_collateral (px_pos st c dl er) = c" "p_id (px_pos st c dl er) = 6"
    "(px_pos st c dl er)\<lparr>p_collateral := c'\<rparr> = px_pos st c' dl er" "w_id (px_wallet b k) = 3"
    "fee_rows (px_db b k) = []" "next_fee_id (px_db b k) = 1" for st c c' dl er b k
    by (simp_all add: px_defs)
  have e: "pe_now px_env = 40" "pe_today px_env = 1" by (simp_all add: px_env_def)
  have q: "dneg 5000 = - 5000" "quantize ROUND_HALF_EVEN MAX_PRECISION (- 5000) = Inr (- 5000)" "dadd 2000000 (- 5000) = 1995000"
    "dsub 1000000 5000 = 995000" by (simp_all add: MAX_PRECISION_def dec_eval)
  have tx: "create_transaction (px_wallet 2000000 1500000) TxFee (- 5000) 40 None None False = Inr (Some
      \<lparr>tx_id = 0, tx_wallet = 3, tx_tp = TxFee, tx_amount = - 5000, tx_balance = 1995000, tx_created_at = 40, tx_ref_module = None, tx_ref_id = None\<rparr>)"
    by (simp add: create_transaction_def check_transaction_def is_balance_allowed_def q px_wallet_def Let_def)
  have mw: "margin_wallet [2, 13] d1 (px_pos POpen 1000000 1 (- 10000000)) (px_wallet 2000000 1500000)"
    using px_margin_wallet [of 2000000 1500000] by (simp add: margin_wallet_def d1_def)
  have "\<exists>d'. commit_fee [2, 13] px_env 1 5000 (px_pos POpen 1000000 1 (- 10000000)) d1
    = Inr ((px_pos POpen 995000 1 (- 10000000))\<lparr>p_liquidation_price := Some 10005000\<rparr>, d')"
    by (simp add: commit_fee_def margin_wallet_get [OF mw] q e tx s px_liquidation_price)
      (simp add: commit_def unblock_def change_balance_blocked_def q d1_def px_db_def px_wallet_def find_wallet_def
        put_wallet_def ref_taken_def px_liquidation_price Let_def)
  then show ?thesis by (simp add: save_fee_def px_fee s e d1_def [symmetric] numeral_2_eq_2 [symmetric])
qed

lemma daily_fee_exact_witness:
  "\<exists>p' d'. save_fee [2, 13] px_raw px_env (px_pos POpen 1000000 1 (- 10000000)) (px_db 2000000 1500000) = Inr (p', d')
     \<and> p_collateral p' = 995000 \<and> find_wallet (wallets d') 3 = Some (px_wallet 1995000 1495000)"
proof -
  obtain p' d' where d': "save_fee [2, 13] px_raw px_env (px_pos POpen 1000000 1 (- 10000000)) (px_db 2000000 1500000) = Inr (p', d')"
    using px_charges by blast
  have s: "p_collateral (px_pos st c dl er) = c" "w_balance (px_wallet b k) = b" "w_blocked (px_wallet b k) = k" "w_id (px_wallet b k) = 3" for st c dl er b k
    by (simp_all add: px_defs)
  have le: "(0::rat) < 5000" "(5000::rat) \<le> 1000000" by simp_all
  from daily_fee_exact [OF d' px_fee px_money(3), unfolded s, OF px_money(4) le px_margin_wallet, unfolded s]
  have "p_collateral p' = 995000" "find_wallet (wallets d') 3 = Some (px_wallet 1995000 1495000)"
    by (simp_all add: px_wallet_def)
  with d' show ?thesis by blast
qed

lemma check_daily_fee_once_witness:
  "\<exists>p' d'. check_daily_fee [2, 13] px_raw px_env (px_pos POpen 1000000 1 (- 10000000)) (px_db 2000000 1500000) = Inr (p', d')
     \<and> p_collateral p' = 995000 \<and> check_daily_fee [2, 13] px_raw px_env p' d' = Inr (p', d')"
proof -
  have s: "p_status (px_pos st c dl er) = st" "p_id (px_pos st c dl er) = 6" "pe_today px_env = 1" "pe_day px_env t = 0"
    "fee_rows (px_db b k) = []" "p_collateral ((px_pos st c dl er)\<lparr>p_liquidation_price := x\<rparr>) = c" for st c dl er t b k x
    by (simp_all add: px_defs)
  obtain d' where d': "check_daily_fee [2, 13] px_raw px_env (px_pos POpen 1000000 1 (- 10000000)) (px_db 2000000 1500000)
     = Inr ((px_pos POpen 995000 1 (- 10000000))\<lparr>p_liquidation_price := Some 10005000\<rparr>, d')"
    using px_charges by (auto simp: check_daily_fee_def STATUS_ONGOING_def px_calculators s)
  from check_daily_fee_once [OF d'] d' show ?thesis using s(6) by blast
qed

end
