(* ===== verification/Parsers.thy ===== *)
theory Parsers
  imports Money
begin

section \<open>Parsing and printing values\<close>

text \<open>
  \<^verbatim>\<open>src/core/exchange/base/parsers.py\<close>, \<open>get_max_db_value\<close> of \<^verbatim>\<open>base/helpers.py\<close> and the printing of
  decimals in \<^verbatim>\<open>base/serializers.py\<close>. A value of a request is \<open>None\<close>, a boolean, a number or a
  string; a number is given by whether it is zero and by its \<open>str\<close>. Strings are over
  the first 256 code points, so the digits of other scripts are left out, as are decimals
  whose exponent exceeds the range of the decimal module. \<open>getattr\<close> of a \<open>Choices\<close> object is a
  parameter, a function from names to values. Dates are left out.

  The lemmas show what the parsers accept: integers and decimals are read back as they are
  printed, and a parsed monetary value fits its column.
\<close>

subsection \<open>Strings\<close>

definition lower_char :: "char \<Rightarrow> char" where
  "lower_char c = (let n = (of_char c :: nat) in if 65 \<le> n \<and> n \<le> 90 then char_of (n + 32) else c)"

definition is_space :: "char \<Rightarrow> bool" where
  "is_space c =
     (let n = (of_char c :: nat)
      in 9 \<le> n \<and> n \<le> 13 \<or> 28 \<le> n \<and> n \<le> 32 \<or> n = 133 \<or> n = 160)"

definition strip_with :: "(char \<Rightarrow> bool) \<Rightarrow> string \<Rightarrow> string" where
  "strip_with P s = rev (dropWhile P (rev (dropWhile P s)))"

definition strip :: "string \<Rightarrow> string" where "strip s = strip_with is_space s"

definition rstrip_char :: "char \<Rightarrow> string \<Rightarrow> string" where
  "rstrip_char c s = rev (dropWhile (\<lambda>x. x = c) (rev s))"

fun split_on :: "char \<Rightarrow> string \<Rightarrow> string list" where
  "split_on c [] = [[]]"
| "split_on c (x # xs) =
     (if x = c then [] # split_on c xs
      else case split_on c xs of [] \<Rightarrow> [[x]] | y # ys \<Rightarrow> (x # y) # ys)"

definition is_digit :: "char \<Rightarrow> bool" where "is_digit c \<longleftrightarrow> c \<in> set ''0123456789''"

definition digit_value :: "char \<Rightarrow> nat" where "digit_value c = of_char c - 48"

definition digits_value :: "string \<Rightarrow> nat" where
  "digits_value s = foldl (\<lambda>n c. 10 * n + digit_value c) 0 s"

definition is_word_char :: "char \<Rightarrow> bool" where
  "is_word_char c =
     (let n = (of_char c :: nat)
      in is_digit c \<or> 65 \<le> n \<and> n \<le> 90 \<or> 97 \<le> n \<and> n \<le> 122 \<or> c = CHR ''-'')"

subsection \<open>Values of a request\<close>

datatype py_val = PNone | PBool bool | PNum bool string | PStr string

fun val_truthy :: "py_val \<Rightarrow> bool" where
  "val_truthy PNone = False"
| "val_truthy (PBool b) = b"
| "val_truthy (PNum zero s) = (\<not> zero)"
| "val_truthy (PStr s) = (s \<noteq> [])"

fun val_str :: "py_val \<Rightarrow> string" where
  "val_str PNone = ''None''"
| "val_str (PBool b) = (if b then ''True'' else ''False'')"
| "val_str (PNum zero s) = s"
| "val_str (PStr s) = s"

text \<open>A falsy value: an error when it is required, and else \<open>None\<close>.\<close>

definition missing :: "bool \<Rightarrow> string \<Rightarrow> 'a option result" where
  "missing required msg = (if required then Inl (ParseError msg) else Inr None)"

subsection \<open>Integers\<close>

text \<open>\<open>int(s)\<close>: single underscores may stand between digits.\<close>

fun read_digits :: "bool \<Rightarrow> nat \<Rightarrow> string \<Rightarrow> nat option" where
  "read_digits after_digit n [] = (if after_digit then Some n else None)"
| "read_digits after_digit n (c # cs) =
     (if is_digit c then read_digits True (10 * n + digit_value c) cs
      else if c = CHR ''_'' \<and> after_digit then read_digits False n cs
      else None)"

definition py_int :: "string \<Rightarrow> int option" where
  "py_int s =
     (case strip s of
        [] \<Rightarrow> None
      | c # cs \<Rightarrow>
          if c = CHR ''-'' then map_option (\<lambda>n. - int n) (read_digits False 0 cs)
          else if c = CHR ''+'' then map_option int (read_digits False 0 cs)
          else map_option int (read_digits False 0 (c # cs)))"

definition parse_int :: "bool \<Rightarrow> int option \<Rightarrow> py_val \<Rightarrow> int option result" where
  "parse_int required minimum s =
     (if \<not> val_truthy s then missing required ''Missing integer value''
      else case py_int (val_str s) of
             None \<Rightarrow> Inl (ParseError ''Invalid integer value'')
           | Some n \<Rightarrow>
               (case minimum of
                  None \<Rightarrow> Inr (Some n)
                | Some m \<Rightarrow> if n < m then Inl (ParseError ''Value must be greater than or equal to minimum'')
                            else Inr (Some n)))"

text \<open>A tag: an unsigned 32 bit integer, or a string. \<open>None % 2 ** 32\<close> cannot happen.\<close>

definition parse_tag :: "bool \<Rightarrow> bool \<Rightarrow> py_val \<Rightarrow> (int + string) option result" where
  "parse_tag is_integer required s =
     (if \<not> val_truthy s then missing required ''Missing uuid value''
      else if is_integer
      then rbind (parse_int False None s) (\<lambda>tag.
             case tag of None \<Rightarrow> Inl TypeError | Some n \<Rightarrow> Inr (Some (Inl (n mod 2 ^ 32))))
      else Inr (Some (Inr (val_str s))))"

subsection \<open>Booleans, strings and choices\<close>

definition parse_bool :: "bool \<Rightarrow> py_val \<Rightarrow> bool option result" where
  "parse_bool required s =
     (if s = PNone \<or> s = PStr [] then missing required ''Missing boolean value''
      else case s of
             PBool b \<Rightarrow> Inr (Some b)
           | PStr t \<Rightarrow>
               (let t = map lower_char t
                in if t \<in> {''yes'', ''on'', ''true''} then Inr (Some True)
                   else if t \<in> {''no'', ''off'', ''false''} then Inr (Some False)
                   else Inl (ParseError ''Invalid boolean value''))
           | _ \<Rightarrow> Inl (ParseError ''Invalid boolean value''))"

definition parse_str :: "bool \<Rightarrow> nat \<Rightarrow> py_val \<Rightarrow> string result" where
  "parse_str required max_length s =
     (let t = strip (take max_length (if val_truthy s then val_str s else []))
      in if t = [] \<and> required then Inl (ParseError ''Missing string value'') else Inr t)"

definition parse_choices :: "(string \<Rightarrow> 'a option) \<Rightarrow> bool \<Rightarrow> py_val \<Rightarrow> 'a option result" where
  "parse_choices getattr required s =
     (if \<not> val_truthy s then missing required ''Missing value''
      else case getattr (val_str s) of
             None \<Rightarrow> Inl (ParseError ''Invalid value'')
           | Some v \<Rightarrow> Inr (Some v))"

definition parse_multi_choices :: "(string \<Rightarrow> 'a option) \<Rightarrow> nat \<Rightarrow> bool \<Rightarrow> py_val \<Rightarrow> 'a list option result" where
  "parse_multi_choices getattr max_len required l =
     (if \<not> val_truthy l then missing required ''Missing multi choices value''
      else let items = split_on (CHR '','') (strip_with (\<lambda>c. c = CHR '','' \<or> c = CHR '' '') (strip (val_str l)))
           in if max_len < length items then Inl (ParseError ''Multi choices is too long'')
              else rbind (fold_result (\<lambda>results item.
                     rbind (parse_choices getattr True (PStr item)) (\<lambda>r. Inr (results @ [the r]))) [] items)
                   (\<lambda>results. Inr (Some results)))"

text \<open>A falsy id is returned as it is.\<close>

definition parse_client_order_id :: "bool \<Rightarrow> py_val \<Rightarrow> py_val result" where
  "parse_client_order_id required s =
     (if \<not> val_truthy s then if required then Inl (ParseError ''Missing clientOrderId'') else Inr s
      else case s of
             PStr t \<Rightarrow>
               if 32 < length t then Inl (ParseError ''Invalid clientOrderId'')
               else if \<not> list_all is_word_char t then Inl (ParseError ''Invalid clientOrderId'')
               else Inr s
           | _ \<Rightarrow> Inl (ParseError ''clientOrderId should be string''))"

definition parse_word :: "bool \<Rightarrow> py_val \<Rightarrow> string result" where
  "parse_word required s =
     (let t = strip (if val_truthy s then val_str s else [])
      in if t = [] then if required then Inl (ParseError ''Missing word value'') else Inr []
         else if list_all is_word_char t then Inr t else Inl (ParseError ''Invalid word''))"

definition parse_enum :: "(string \<Rightarrow> 'a option) \<Rightarrow> bool \<Rightarrow> py_val \<Rightarrow> 'a option result" where
  "parse_enum getattr required s =
     (let t = strip (if val_truthy s then val_str s else [])
      in if t = [] then missing required ''Missing enum value''
         else case getattr t of None \<Rightarrow> Inl (ParseError ''Invalid enum'') | Some v \<Rightarrow> Inr (Some v))"

definition parse_limited_length_string :: "string option \<Rightarrow> nat \<Rightarrow> string result" where
  "parse_limited_length_string s max_length =
     (case s of
        None \<Rightarrow> Inl (ParseError ''Empty string'')
      | Some t \<Rightarrow> if max_length < length t then Inl (ParseError ''Too long string'') else Inr t)"

subsection \<open>Decimals\<close>

text \<open>\<open>Decimal(s)\<close>: white space around and underscores anywhere are ignored.\<close>

datatype decimal = Finite rat | Infinity | NaN | SNaN

definition read_sign :: "string \<Rightarrow> bool \<times> string" where
  "read_sign s =
     (case s of
        c # cs \<Rightarrow> if c = CHR ''-'' then (True, cs) else if c = CHR ''+'' then (False, cs) else (False, s)
      | [] \<Rightarrow> (False, s))"

definition read_exponent :: "string \<Rightarrow> int option" where
  "read_exponent s =
     (case s of
        [] \<Rightarrow> Some 0
      | c # cs \<Rightarrow>
          if c \<noteq> CHR ''e'' then None
          else case read_sign cs of (neg, ds) \<Rightarrow>
                 if ds = [] \<or> \<not> list_all is_digit ds then None
                 else Some (if neg then - int (digits_value ds) else int (digits_value ds)))"

definition read_number :: "string \<Rightarrow> rat option" where
  "read_number s =
     (let ip = takeWhile is_digit s; r = dropWhile is_digit s;
          (fp, r) = (case r of
                       c # cs \<Rightarrow> if c = CHR ''.'' then (takeWhile is_digit cs, dropWhile is_digit cs) else ([], r)
                     | [] \<Rightarrow> ([], r))
      in if ip @ fp = [] then None
         else map_option (\<lambda>e. of_nat (digits_value (ip @ fp)) * pow10 (e - int (length fp))) (read_exponent r))"

definition py_decimal :: "string \<Rightarrow> decimal option" where
  "py_decimal s =
     (case read_sign (map lower_char (filter (\<lambda>c. c \<noteq> CHR ''_'') (strip s))) of (neg, t) \<Rightarrow>
        if t = ''inf'' \<or> t = ''infinity'' then Some Infinity
        else if take 3 t = ''nan'' \<and> list_all is_digit (drop 3 t) then Some NaN
        else if take 4 t = ''snan'' \<and> list_all is_digit (drop 4 t) then Some SNaN
        else map_option (\<lambda>v. Finite (if neg then - v else v)) (read_number t))"

text \<open>\<open>math.isfinite\<close> converts to a float first: large decimals are infinite, a signalling NaN raises.\<close>

definition isfinite :: "decimal \<Rightarrow> bool result" where
  "isfinite d =
     (case d of
        Finite v \<Rightarrow> Inr (\<bar>v\<bar> < 2 ^ 1024 - 2 ^ 970)
      | SNaN \<Rightarrow> Inl (ValueError ''cannot convert signaling NaN to float'')
      | _ \<Rightarrow> Inr False)"

definition get_max_db_value :: "nat \<times> nat \<Rightarrow> rat" where
  "get_max_db_value field =
     (case field of (max_digits, decimal_places) \<Rightarrow>
        dsub (pow10 (int max_digits - int decimal_places)) (pow10 (- int decimal_places)))"

definition parse_money :: "bool \<Rightarrow> bool \<Rightarrow> (nat \<times> nat) option \<Rightarrow> py_val \<Rightarrow> rat option result" where
  "parse_money required allow_zero field s =
     (if \<not> val_truthy s
      then if s \<noteq> PNone \<and> allow_zero then Inr (Some 0) else missing required ''Missing monetary value''
      else case py_decimal (val_str s) of
             None \<Rightarrow> Inl (ParseError ''Invalid monetary value'')
           | Some x \<Rightarrow>
               rbind (isfinite x) (\<lambda>ok.
                 case x of
                   Finite d \<Rightarrow>
                     if \<not> ok then Inl (ParseError ''Invalid numeric value'')
                     else if d < 0 \<or> \<not> allow_zero \<and> d = 0
                     then Inl (ParseError ''Only positive values are allowed for monetary values.'')
                     else (case field of
                             None \<Rightarrow> Inr (Some d)
                           | Some f \<Rightarrow> if get_max_db_value f < d then Inl (ParseError ''Numeric value out of bound'')
                                       else Inr (Some d))
                 | _ \<Rightarrow> Inl (ParseError ''Invalid numeric value'')))"

definition parse_decimal :: "bool \<Rightarrow> bool \<Rightarrow> py_val \<Rightarrow> decimal option result" where
  "parse_decimal required allow_zero s =
     (if \<not> val_truthy s
      then if s \<noteq> PNone \<and> allow_zero then Inr (Some (Finite 0)) else missing required ''Missing numeric value''
      else case py_decimal (val_str s) of
             None \<Rightarrow> Inl (ParseError ''Invalid numeric value'')
           | Some x \<Rightarrow> Inr (Some x))"

text \<open>\<open>prec\<close> is the exponent of the quantum \<open>exp\<close>. Quantizing an infinity or comparing a signalling NaN raises.\<close>

definition parse_strict_decimal :: "int \<Rightarrow> bool \<Rightarrow> py_val \<Rightarrow> decimal option result" where
  "parse_strict_decimal prec required s =
     rbind (parse_decimal required True s) (\<lambda>d.
       case d of
         None \<Rightarrow> if required then Inl AttributeError else Inr None
       | Some (Finite v) \<Rightarrow>
           rbind (quantize ROUND_HALF_EVEN prec v) (\<lambda>q.
             if v \<noteq> q then Inl (ParseError ''numeric value should have precision of exp'') else Inr (Some (Finite v)))
       | Some NaN \<Rightarrow> Inl (ParseError ''numeric value should have precision of exp'')
       | Some _ \<Rightarrow> Inl InvalidOperation)"

subsection \<open>Printing\<close>

text \<open>\<open>str\<close> of an integer.\<close>

definition digit_char :: "nat \<Rightarrow> char" where "digit_char n = ''0123456789'' ! n"

fun show_nat :: "nat \<Rightarrow> string" where
  "show_nat n = (if n < 10 then [digit_char n] else show_nat (n div 10) @ [digit_char (n mod 10)])"

declare show_nat.simps [simp del]

definition show_int :: "int \<Rightarrow> string" where
  "show_int n = (if n < 0 then CHR ''-'' # show_nat (nat (- n)) else show_nat (nat n))"

text \<open>\<open>f'{num:f}'\<close> of the decimal \<open>c * 10 ** e\<close>.\<close>

definition fixed_point :: "int \<Rightarrow> int \<Rightarrow> string" where
  "fixed_point c e =
     (if 0 \<le> e then show_int (c * 10 ^ nat e)
      else let k = nat (- e); n = nat \<bar>c\<bar>; fr = show_nat (n mod 10 ^ k)
           in (if c < 0 then ''-'' else []) @ show_nat (n div 10 ^ k) @ CHR ''.'' # replicate (k - length fr) (CHR ''0'') @ fr)"

definition normalize_number :: "int \<Rightarrow> int \<Rightarrow> string" where
  "normalize_number c e =
     (let str_value = fixed_point c e
      in if CHR ''.'' \<in> set str_value then rstrip_char (CHR ''.'') (rstrip_char (CHR ''0'') str_value) else str_value)"

subsection \<open>Digits\<close>

lemma digit_char [simp]:
  assumes "n < 10"
  shows "is_digit (digit_char n)" "digit_value (digit_char n) = n"
proof -
  have "n \<in> set [0, 1, 2, 3, 4, 5, 6, 7, 8, 9]" using assms by auto
  then show "is_digit (digit_char n)" "digit_value (digit_char n) = n"
    by (auto simp: is_digit_def digit_value_def digit_char_def Let_def)
qed

lemma digit_not:
  assumes "is_digit c"
  shows "\<not> is_space c" "c \<noteq> CHR ''_''" "c \<noteq> CHR ''-''" "c \<noteq> CHR ''+''" "c \<noteq> CHR ''.''" "c \<noteq> CHR ''e''" "lower_char c = c"
    "c \<noteq> CHR ''i''" "c \<noteq> CHR ''n''" "c \<noteq> CHR ''s''"
proof -
  have all: "list_all P ''0123456789'' \<Longrightarrow> P c" for P
    using assms unfolding is_digit_def list_all_iff by (rule bspec [rotated])
  show "\<not> is_space c" "c \<noteq> CHR ''_''" "c \<noteq> CHR ''-''" "c \<noteq> CHR ''+''" "c \<noteq> CHR ''.''" "c \<noteq> CHR ''e''" "lower_char c = c"
    "c \<noteq> CHR ''i''" "c \<noteq> CHR ''n''" "c \<noteq> CHR ''s''"
    by (rule all, code_simp)+
qed

lemma digits_value_append: "digits_value (xs @ ys) = digits_value xs * 10 ^ length ys + digits_value ys"
proof -
  have gen: "foldl (\<lambda>n c. 10 * n + digit_value c) a ys = a * 10 ^ length ys + foldl (\<lambda>n c. 10 * n + digit_value c) 0 ys" for a
  proof (induction ys arbitrary: a)
    case (Cons y ys)
    have "foldl (\<lambda>n c. 10 * n + digit_value c) (10 * a + digit_value y) ys
        = (10 * a + digit_value y) * 10 ^ length ys + foldl (\<lambda>n c. 10 * n + digit_value c) 0 ys" by (rule Cons)
    moreover have "foldl (\<lambda>n c. 10 * n + digit_value c) (digit_value y) ys
        = digit_value y * 10 ^ length ys + foldl (\<lambda>n c. 10 * n + digit_value c) 0 ys" by (rule Cons)
    ultimately show ?case by (simp add: algebra_simps)
  qed simp
  show ?thesis unfolding digits_value_def foldl_append by (rule gen)
qed

lemma digits_value_Cons [simp]: "digits_value (c # cs) = digit_value c * 10 ^ length cs + digits_value cs"
  using digits_value_append [of "[c]" cs] by (simp add: digits_value_def)

lemma digits_value_Nil [simp]: "digits_value [] = 0"
  by (simp add: digits_value_def)

lemma zeros_value [simp]: "digits_value (replicate k (CHR ''0'')) = 0"
  by (induction k) (simp_all add: digit_value_def)

lemma zeros_digits: "list_all is_digit (replicate k (CHR ''0''))"
  by (induction k) (simp_all add: is_digit_def)

lemma show_nat_digits: "list_all is_digit (show_nat n) \<and> show_nat n \<noteq> [] \<and> digits_value (show_nat n) = n"
proof (induction n rule: show_nat.induct)
  case (1 n)
  show ?case
  proof (cases "n < 10")
    case True
    then show ?thesis by (simp add: show_nat.simps [of n])
  next
    case False
    with 1 show ?thesis by (simp add: show_nat.simps [of n] digits_value_append)
  qed
qed

lemma show_nat_length: "n < 10 ^ k \<Longrightarrow> 0 < k \<Longrightarrow> length (show_nat n) \<le> k"
proof (induction n arbitrary: k rule: show_nat.induct)
  case (1 n)
  show ?case
  proof (cases "n < 10")
    case False
    then obtain m where k: "k = Suc m" "0 < m" using "1.prems" by (cases k; cases "k - 1") auto
    have "n div 10 < 10 ^ m" using "1.prems"(1) by (simp add: k less_mult_imp_div_less mult.commute)
    from "1.IH" [OF False this k(2)] False show ?thesis by (simp add: show_nat.simps [of n] k)
  qed (use "1.prems" in \<open>simp add: show_nat.simps [of n]\<close>)
qed

lemma read_digits_digits: "list_all is_digit s \<Longrightarrow> s \<noteq> [] \<Longrightarrow> read_digits b n s = Some (n * 10 ^ length s + digits_value s)"
proof (induction s arbitrary: b n)
  case (Cons c cs)
  show ?case
  proof (cases cs)
    case Nil
    with Cons.prems show ?thesis by simp
  next
    case (Cons d ds)
    with Cons.prems Cons.IH [of True "10 * n + digit_value c"] show ?thesis by (simp add: algebra_simps)
  qed
qed simp

lemma strip_with_id: "s \<noteq> [] \<Longrightarrow> \<not> P (hd s) \<Longrightarrow> \<not> P (last s) \<Longrightarrow> strip_with P s = s"
proof -
  assume s: "s \<noteq> []" "\<not> P (hd s)" "\<not> P (last s)"
  then have "dropWhile P s = s" by (cases s) auto
  moreover have "dropWhile P (rev s) = rev s" using s by (cases s rule: rev_cases) auto
  ultimately show ?thesis by (simp add: strip_with_def)
qed

lemma minus_not_space: "\<not> is_space (CHR ''-'')"
  by (simp add: is_space_def)

lemma strip_digits: "list_all is_digit s \<Longrightarrow> s \<noteq> [] \<Longrightarrow> strip s = s"
  unfolding strip_def by (rule strip_with_id) (auto simp: list_all_iff digit_not)

text \<open>An integer is read back as it is printed, where the minimum allows it.\<close>

lemma parse_int_roundtrip:
  assumes "\<forall>m. minimum = Some m \<longrightarrow> m \<le> n"
  shows "parse_int required minimum (PStr (show_int n)) = Inr (Some n)"
proof -
  note d = show_nat_digits [of "nat \<bar>n\<bar>"]
  have "py_int (show_int n) = Some n"
  proof (cases "n < 0")
    case True
    have "strip (CHR ''-'' # show_nat (nat \<bar>n\<bar>)) = CHR ''-'' # show_nat (nat \<bar>n\<bar>)"
      unfolding strip_def by (rule strip_with_id) (use d in \<open>auto simp: list_all_iff digit_not minus_not_space\<close>)
    with True d show ?thesis by (simp add: py_int_def show_int_def read_digits_digits)
  next
    case False
    obtain c cs where s: "show_nat (nat \<bar>n\<bar>) = c # cs" using d by (cases "show_nat (nat \<bar>n\<bar>)") auto
    with d have c: "is_digit c" "list_all is_digit (c # cs)" "digits_value (c # cs) = nat \<bar>n\<bar>" by simp_all
    have "strip (c # cs) = c # cs" by (rule strip_digits) (use c in simp_all)
    then have "py_int (c # cs) = Some n"
      using c False digit_not(3,4) [OF c(1)] read_digits_digits [OF c(2), of False 0]
      by (simp add: py_int_def del: read_digits.simps digits_value_Cons)
    with False s show ?thesis by (simp add: show_int_def)
  qed
  moreover have "show_int n \<noteq> []" using d by (auto simp: show_int_def)
  ultimately show ?thesis using assms by (auto simp: parse_int_def split: option.split)
qed

lemma parse_int_roundtrip_witness: "parse_int True (Some 1) (PStr (show_int 120)) = Inr (Some 120) \<and> show_int 120 = ''120''"
  using parse_int_roundtrip [of "Some 1" 120 True] by (simp add: show_int_def show_nat.simps digit_char_def)

subsection \<open>Reading back decimals\<close>

definition plain_number :: "string \<Rightarrow> string \<Rightarrow> string" where
  "plain_number ip fp = ip @ (if fp = [] then [] else CHR ''.'' # fp)"

lemma point_facts: "\<not> is_digit (CHR ''.'')" "lower_char (CHR ''.'') = CHR ''.''"
  by code_simp+

lemma take_digits:
  "list_all is_digit ip \<Longrightarrow> takeWhile is_digit ip = ip" "list_all is_digit ip \<Longrightarrow> dropWhile is_digit ip = []"
  "list_all is_digit ip \<Longrightarrow> \<not> is_digit c \<Longrightarrow> takeWhile is_digit (ip @ c # r) = ip"
  "list_all is_digit ip \<Longrightarrow> \<not> is_digit c \<Longrightarrow> dropWhile is_digit (ip @ c # r) = c # r"
  by (induction ip) auto

lemma read_plain_number:
  assumes "list_all is_digit ip" "list_all is_digit fp" "ip \<noteq> []"
  shows "read_number (plain_number ip fp) = Some (of_nat (digits_value (ip @ fp)) * pow10 (- int (length fp)))"
proof (cases fp)
  case Nil
  with assms show ?thesis by (simp add: plain_number_def read_number_def take_digits read_exponent_def)
next
  case (Cons c cs)
  with assms show ?thesis
    by (simp add: plain_number_def read_number_def take_digits point_facts read_exponent_def del: digits_value_Cons)
qed

lemma py_decimal_plain_number:
  assumes "list_all is_digit ip" "list_all is_digit fp" "ip \<noteq> []"
  shows "py_decimal (plain_number ip fp) = Some (Finite (of_nat (digits_value (ip @ fp)) * pow10 (- int (length fp))))"
proof -
  define t where "t = plain_number ip fp"
  have chars: "is_digit c \<or> c = CHR ''.''" if "c \<in> set t" for c
    using that assms by (auto simp: t_def plain_number_def list_all_iff split: if_splits)
  obtain c cs where c: "t = c # cs" "is_digit c" using assms by (cases ip) (auto simp: t_def plain_number_def)
  have last: "is_digit (last t)" using assms by (auto simp: t_def plain_number_def list_all_iff)
  have "strip t = t" unfolding strip_def by (rule strip_with_id) (use c last digit_not(1) in auto)
  moreover have "filter (\<lambda>c. c \<noteq> CHR ''_'') t = t" using chars digit_not(2) by (fastforce simp: filter_id_conv)
  moreover have "map lower_char t = t" using chars digit_not(7) point_facts(2) by (intro map_idI) blast
  moreover have "read_sign t = (False, t)" using digit_not(3,4) [OF c(2)] by (simp add: read_sign_def c(1))
  moreover have "t \<noteq> ''inf''" "t \<noteq> ''infinity''" "take 3 t \<noteq> ''nan''" "take 4 t \<noteq> ''snan''"
    using digit_not(8-10) [OF c(2)] by (simp_all add: c(1))
  ultimately have "py_decimal t = map_option (\<lambda>v. Finite v) (read_number t)" by (simp add: py_decimal_def)
  with read_plain_number [OF assms] show ?thesis by (simp add: t_def)
qed

lemma rstrip_zeros: "\<exists>j. fz = rstrip_char (CHR ''0'') fz @ replicate j (CHR ''0'')"
proof -
  have "takeWhile (\<lambda>x. x = CHR ''0'') (rev fz) = replicate (length (takeWhile (\<lambda>x. x = CHR ''0'') (rev fz))) (CHR ''0'')"
    by (rule replicate_eqI) (auto dest: set_takeWhileD)
  moreover have "rev fz = takeWhile (\<lambda>x. x = CHR ''0'') (rev fz) @ dropWhile (\<lambda>x. x = CHR ''0'') (rev fz)" by simp
  ultimately have "fz = rstrip_char (CHR ''0'') fz @ rev (replicate (length (takeWhile (\<lambda>x. x = CHR ''0'') (rev fz))) (CHR ''0''))"
    unfolding rstrip_char_def by (metis rev_append rev_rev_ident)
  then show ?thesis by (metis rev_replicate)
qed

lemma strip_zeros_and_point:
  assumes "list_all is_digit ip" "ip \<noteq> []" "list_all is_digit fz"
  shows "rstrip_char (CHR ''.'') (rstrip_char (CHR ''0'') (ip @ CHR ''.'' # fz)) = plain_number ip (rstrip_char (CHR ''0'') fz)"
proof -
  define f where "f = rstrip_char (CHR ''0'') fz"
  have 1: "rstrip_char (CHR ''0'') (ip @ CHR ''.'' # fz) = ip @ CHR ''.'' # f"
    by (cases "\<forall>x \<in> set (rev fz). x = CHR ''0''") (auto simp: rstrip_char_def f_def dropWhile_append dropWhile_eq_Nil_conv)
  have "list_all is_digit f" using rstrip_zeros [of fz] assms(3) unfolding f_def by (metis list_all_append)
  then have 2: "f \<noteq> [] \<Longrightarrow> last f \<noteq> CHR ''.''" "last ip \<noteq> CHR ''.''"
    using assms digit_not(5) by (auto simp: list_all_iff)
  show ?thesis unfolding 1 f_def [symmetric]
  proof (cases f rule: rev_cases)
    case Nil
    with 2(2) assms(2) show "rstrip_char (CHR ''.'') (ip @ CHR ''.'' # f) = plain_number ip f"
      by (cases ip rule: rev_cases) (simp_all add: rstrip_char_def plain_number_def)
  next
    case (snoc g c)
    with 2(1) show "rstrip_char (CHR ''.'') (ip @ CHR ''.'' # f) = plain_number ip f"
      by (simp add: rstrip_char_def plain_number_def)
  qed
qed

text \<open>A decimal that is not negative is printed as a plain number of its value.\<close>

lemma normalize_number_plain:
  assumes "0 \<le> c"
  shows "\<exists>ip fp. normalize_number c e = plain_number ip fp \<and> list_all is_digit ip \<and> list_all is_digit fp \<and> ip \<noteq> []
    \<and> of_nat (digits_value (ip @ fp)) * pow10 (- int (length fp)) = of_int c * pow10 e"
proof (cases "0 \<le> e")
  case True
  note d = show_nat_digits [of "nat (c * 10 ^ nat e)"]
  have s: "fixed_point c e = show_nat (nat (c * 10 ^ nat e))" using assms True by (simp add: fixed_point_def show_int_def not_less)
  have "CHR ''.'' \<notin> set (show_nat (nat (c * 10 ^ nat e)))" using d digit_not(5) by (auto simp: list_all_iff)
  then have "normalize_number c e = plain_number (show_nat (nat (c * 10 ^ nat e))) []"
    by (simp add: normalize_number_def s plain_number_def)
  moreover have "of_nat (nat (c * 10 ^ nat e)) = (of_int c * pow10 e :: rat)" using assms True by (simp add: pow10_def)
  ultimately show ?thesis using d by (intro exI [of _ "show_nat (nat (c * 10 ^ nat e))"] exI [of _ "[]"]) (simp add: pow10_def)
next
  case False
  define k n where "k = nat (- e)" and "n = nat c"
  define ip fr where "ip = show_nat (n div 10 ^ k)" and "fr = show_nat (n mod 10 ^ k)"
  define fz where "fz = replicate (k - length fr) (CHR ''0'') @ fr"
  have k: "0 < k" "e = - int k" using False by (simp_all add: k_def)
  have s: "fixed_point c e = ip @ CHR ''.'' # fz"
    using assms False by (simp add: fixed_point_def Let_def k_def [symmetric] n_def [symmetric] ip_def fr_def fz_def)
  have d: "list_all is_digit ip" "ip \<noteq> []" "digits_value ip = n div 10 ^ k" "list_all is_digit fr" "digits_value fr = n mod 10 ^ k"
    using show_nat_digits by (simp_all add: ip_def fr_def)
  have "length fr \<le> k" unfolding fr_def by (rule show_nat_length) (use k(1) in simp_all)
  then have len: "length fz = k" by (simp add: fz_def)
  have fz: "list_all is_digit fz" "digits_value fz = n mod 10 ^ k"
    using d(4,5) zeros_digits by (simp_all add: fz_def digits_value_append)
  define f where "f = rstrip_char (CHR ''0'') fz"
  obtain j where j: "fz = f @ replicate j (CHR ''0'')" using rstrip_zeros [of fz] unfolding f_def by blast
  have f: "list_all is_digit f" "k = length f + j" using fz(1) len unfolding j by simp_all
  have "digits_value (ip @ fz) = n" unfolding digits_value_append d(3) fz(2) len by (rule div_mult_mod_eq)
  then have v: "n = digits_value (ip @ f) * 10 ^ j" unfolding j by (simp add: digits_value_append algebra_simps power_add)
  have "pow10 (- int (length f)) = 10 ^ j * pow10 e"
    by (simp add: k(2) f(2) pow10_def power_add nat_add_distrib)
  then have "of_nat (digits_value (ip @ f)) * pow10 (- int (length f)) = of_nat n * pow10 e" by (simp add: v)
  moreover have "of_nat n = (of_int c :: rat)" using assms by (simp add: n_def)
  moreover have "normalize_number c e = plain_number ip f"
    by (simp add: normalize_number_def s strip_zeros_and_point [OF d(1,2) fz(1)] f_def)
  ultimately show ?thesis using d(1,2) f(1) by metis
qed

lemma plain_number_nonempty: "ip \<noteq> [] \<Longrightarrow> plain_number ip fp \<noteq> []"
  by (simp add: plain_number_def)

text \<open>C28: an amount that is not negative is read back from its printed form with exactly its value,
  within the bounds of the column it is parsed for.\<close>

theorem parse_money_roundtrip:
  fixes c e :: int
  defines "v \<equiv> of_int c * pow10 e"
  assumes "0 \<le> c" "v < 2 ^ 1024 - 2 ^ 970" "allow_zero \<or> c \<noteq> 0" "\<forall>f. field = Some f \<longrightarrow> v \<le> get_max_db_value f"
  shows "parse_money required allow_zero field (PStr (normalize_number c e)) = Inr (Some v)"
proof -
  obtain ip fp where n: "normalize_number c e = plain_number ip fp" "list_all is_digit ip" "list_all is_digit fp" "ip \<noteq> []"
    "of_nat (digits_value (ip @ fp)) * pow10 (- int (length fp)) = v"
    using normalize_number_plain [OF assms(2), of e] unfolding v_def by blast
  have "py_decimal (normalize_number c e) = Some (Finite v)" using py_decimal_plain_number [OF n(2-4)] n(1,5) by simp
  moreover have "0 \<le> v" "v = 0 \<longleftrightarrow> c = 0" using assms(2) pow10_pos [of e] by (auto simp: v_def)
  moreover have "normalize_number c e \<noteq> []" using n(1,4) plain_number_nonempty by simp
  ultimately show ?thesis using assms(3-5) by (auto simp: parse_money_def isfinite_def split: option.split)
qed

theorem parse_money_roundtrip_witness:
  "parse_money True False (Some (22, 10)) (PStr (normalize_number 1250 (- 3))) = Inr (Some (5 / 4))
   \<and> normalize_number 1250 (- 3) = ''1.25''"
proof -
  have v: "of_int 1250 * pow10 (- 3) = (5 / 4 :: rat)" "get_max_db_value (22, 10) = 999999999999 + 9999999999 / 10 ^ 10"
    by (simp_all add: pow10_def get_max_db_value_def dec_eval)
  have "normalize_number 1250 (- 3) = ''1.25''"
    by code_simp
  with parse_money_roundtrip [of 1250 "- 3" False "Some (22, 10)" True] v show ?thesis by simp
qed

lemma parse_money_accepts:
  assumes "parse_money required allow_zero field s = Inr (Some v)"
  shows "0 \<le> v \<and> (v = 0 \<longrightarrow> allow_zero) \<and> (val_truthy s \<longrightarrow> (\<forall>f. field = Some f \<longrightarrow> v \<le> get_max_db_value f))
    \<and> (\<not> val_truthy s \<longrightarrow> v = 0)"
proof (cases "val_truthy s")
  case False
  with assms show ?thesis by (auto simp: parse_money_def missing_def split: if_splits)
next
  case True
  then obtain x where x: "py_decimal (val_str s) = Some x"
    using assms by (cases "py_decimal (val_str s)") (simp_all add: parse_money_def)
  with True assms obtain d where d: "x = Finite d" by (cases x) (simp_all add: parse_money_def isfinite_def)
  show ?thesis
  proof (cases field)
    case None
    with True x d assms show ?thesis by (simp add: parse_money_def isfinite_def split: if_split_asm) linarith
  next
    case (Some f)
    with True x d assms show ?thesis by (simp add: parse_money_def isfinite_def split: if_split_asm) linarith
  qed
qed

text \<open>A signalling NaN is not reported as a parse error: the test for finiteness raises.\<close>

lemma parse_money_snan:
  "parse_money required allow_zero field (PStr ''sNaN'') = Inl (ValueError ''cannot convert signaling NaN to float'')"
proof -
  have "py_decimal ''sNaN'' = Some SNaN" by code_simp
  then show ?thesis by (simp add: parse_money_def isfinite_def)
qed

lemma parse_money_required:
  assumes "parse_money True False field s = Inr x"
  shows "\<exists>v. x = Some v \<and> 0 < v"
proof (cases x)
  case None
  then show ?thesis
    using assms
    by (cases "val_truthy s"; cases "py_decimal (val_str s)"; cases "the (py_decimal (val_str s))"; cases field)
      (simp_all add: parse_money_def missing_def isfinite_def split: if_split_asm)
next
  case (Some v)
  with parse_money_accepts [of True False field s v] assms show ?thesis by auto
qed

text \<open>The largest value of a column of at most 28 digits is computed without rounding.\<close>

lemma get_max_db_value_exact:
  assumes "p \<le> m" "m \<le> 28"
  shows "get_max_db_value (m, p) = pow10 (int m - int p) - pow10 (- int p)"
    "on_grid (- int p) (get_max_db_value (m, p))" "0 \<le> get_max_db_value (m, p)"
proof -
  have e: "pow10 (int m - int p) = 10 ^ m * pow10 (- int p)"
    using pow10_add [of "int m" "- int p"] by (simp add: pow10_def)
  have k: "pow10 (int m - int p) - pow10 (- int p) = of_int (10 ^ m - 1) * pow10 (- int p)" by (simp add: e algebra_simps)
  have g: "on_grid (- int p) (pow10 (int m - int p) - pow10 (- int p))" unfolding k by (simp add: on_grid_def)
  have nn: "0 \<le> pow10 (int m - int p) - pow10 (- int p)" unfolding k using pow10_pos [of "- int p"] by simp
  have "fits m p (pow10 (int m - int p) - pow10 (- int p))" using g nn pow10_pos [of "- int p"] by (simp add: fits_def)
  then have x: "ctx (pow10 (int m - int p) - pow10 (- int p)) = pow10 (int m - int p) - pow10 (- int p)"
    using ctx_fits assms(2) by blast
  then show "get_max_db_value (m, p) = pow10 (int m - int p) - pow10 (- int p)" by (simp add: get_max_db_value_def dsub_def)
  with g nn show "on_grid (- int p) (get_max_db_value (m, p))" "0 \<le> get_max_db_value (m, p)" by simp_all
qed

text \<open>C27: a monetary value that is accepted for a column of at most 28 digits is positive, unless zero
  is allowed, and what the column stores of it, whichever way it rounds, fits the column.\<close>

theorem parse_money_fits_column:
  assumes "parse_money required allow_zero (Some (m, p)) s = Inr (Some v)" "p \<le> m" "m \<le> 28"
  shows "0 \<le> v \<and> (v = 0 \<longrightarrow> allow_zero) \<and> fits m p (quantize_value r (- int p) v)"
proof -
  note mx = get_max_db_value_exact [OF assms(2,3)]
  have v: "0 \<le> v" "v = 0 \<longrightarrow> allow_zero" "v \<le> get_max_db_value (m, p)"
    using parse_money_accepts [OF assms(1)] mx(3) by auto
  have "quantize_value r (- int p) v \<le> get_max_db_value (m, p)" "0 \<le> quantize_value r (- int p) v"
    using quantize_value_mono [OF v(3), of r "- int p"] quantize_value_fix [OF mx(2)] v(1) by (simp_all add: qv.rv_nonneg)
  moreover have "get_max_db_value (m, p) < pow10 (int m - int p)" using pow10_pos [of "- int p"] by (simp add: mx(1))
  ultimately show ?thesis using v by (simp add: fits_def)
qed

theorem parse_money_fits_column_witness:
  "parse_money True False (Some (25, 10)) (PStr ''1.25'') = Inr (Some (5 / 4))
   \<and> fits 25 10 (quantize_value ROUND_HALF_UP (- 10) (5 / 4))"
proof -
  have "py_decimal ''1.25'' = Some (Finite (5 / 4))"
    using py_decimal_plain_number [of "''1''" "''25''"]
    by (simp add: plain_number_def is_digit_def digit_value_def pow10_def)
  then have "parse_money True False (Some (25, 10)) (PStr ''1.25'') = Inr (Some (5 / 4))"
    using get_max_db_value_exact(1) [of 10 25] by (simp add: parse_money_def isfinite_def pow10_def)
  with parse_money_fits_column [OF this, of ROUND_HALF_UP] show ?thesis by simp
qed

end
