(* ===== verification/Order_Entry.thy ===== *)
theory Order_Entry
  imports Matcher_Round Parsers
begin

section \<open>Placing orders\<close>

text \<open>
  \<open>MarketManager.create_order\<close> and its neighbours in
  \<^verbatim>\<open>src/core/exchange/market/marketmanager.py\<close>: every order of the exchange enters the table
  here. \<open>oenv\<close> is what the method reads from caches and settings: the markets, the price
  range of the estimator, the last trade and the mark price, the precisions of
  \<open>exchange.config\<close>. The id of the new row, a value of the table's sequence, is a parameter.

  A call ends in one of three ways, kept apart by \<open>refusal\<close>: it raises, it returns an error
  code, or it returns the order. The lemmas show what an accepted order satisfies, that
  a refused one leaves no trace but perhaps an empty wallet, that the table stays sound
  for the matcher, and how the price guards interact.
\<close>

subsection \<open>Binary floating point\<close>

text \<open>
  The price guard multiplies \<open>0.01\<close>, a binary64 number, by a whole number of percents and
  converts the product to a decimal: the product is rounded to 53 significant bits, the
  conversion is exact. The exponents stay far from the limits of the format.
\<close>

fun nbits :: "nat \<Rightarrow> nat" where
  "nbits n = (if n = 0 then 0 else Suc (nbits (n div 2)))"

declare nbits.simps [simp del]

definition pow2 :: "int \<Rightarrow> rat" where
  "pow2 e = (if 0 \<le> e then 2 ^ nat e else 1 / 2 ^ nat (- e))"

definition log2_floor :: "rat \<Rightarrow> int" where
  "log2_floor x =
     (case quotient_of \<bar>x\<bar> of (a, b) \<Rightarrow>
        let k = int (nbits (nat a)) - int (nbits (nat b))
        in if \<bar>x\<bar> < pow2 k then k - 1 else k)"

definition float64 :: "rat \<Rightarrow> rat" where
  "float64 x =
     (if x = 0 then 0
      else let e = log2_floor x - 52 in of_int (round_int ROUND_HALF_EVEN (x / pow2 e)) * pow2 e)"

definition float_0_01 :: rat where "float_0_01 = 5764607523034235 / 2 ^ 59"

subsection \<open>Requests and their environment\<close>

datatype refusal = Raised py_error | Rejected string

definition raising :: "'a result \<Rightarrow> refusal + 'a" where
  "raising m = (case m of Inl e \<Rightarrow> Inl (Raised e) | Inr x \<Rightarrow> Inr x)"

lemma raising_Inr [simp]: "raising m = Inr x \<longleftrightarrow> m = Inr x"
  by (cases m) (simp_all add: raising_def)

lemma raising_of_Inr [simp]: "raising (Inr x) = Inr x"
  by (simp add: raising_def)

text \<open>An argument may be left out, or be none of the values of its enumeration.\<close>

datatype 'a arg = Missing | Value 'a | Unknown

record market =
  mk_id :: nat
  mk_src :: nat
  mk_dst :: nat
  mk_is_active :: bool

record order_request =
  rq_user :: nat
  rq_type :: "order_type arg"
  rq_market :: "market option"
  rq_src :: nat
  rq_dst :: nat
  rq_execution :: "execution_type arg"
  rq_amount :: "rat option"
  rq_price :: "rat option"
  rq_param1 :: "rat option"
  rq_channel :: "nat option"
  rq_pair :: "order option"
  rq_margin :: bool
  rq_validated :: bool
  rq_allow_small :: bool
  rq_client_order_id :: "string option"
  rq_credit :: bool
  rq_debit :: bool

record oenv =
  oe_markets :: "market list"
  oe_execution_disabled :: "nat list"
  oe_price_range :: "nat \<Rightarrow> nat \<Rightarrow> rat \<times> rat"
  oe_price_precision :: "nat \<Rightarrow> int option"
  oe_amount_precision :: "nat \<Rightarrow> int option"
  oe_last_price :: "nat \<Rightarrow> rat option"
  oe_last_trade :: "nat \<Rightarrow> datetime option"
  oe_mark_price :: "nat \<Rightarrow> nat \<Rightarrow> rat option"
  oe_DISABLE_ORDER_PRICE_GUARD :: bool
  oe_ALLOW_SMALL_ORDERS :: bool
  oe_trader_bot :: "nat \<Rightarrow> bool"
  oe_now :: datetime
  oe_order_flags :: "nat \<Rightarrow> order_flags"
  oe_DST_CURRENCIES :: "nat list"
  oe_PMN :: nat
  oe_GALA :: nat
  oe_SOL :: nat

definition truthy :: "rat option \<Rightarrow> bool" where
  "truthy x \<longleftrightarrow> x \<noteq> None \<and> x \<noteq> Some 0"

text \<open>Comparing \<open>None\<close> with a number raises.\<close>

definition number :: "rat option \<Rightarrow> refusal + rat" where
  "number x = (case x of None \<Rightarrow> Inl (Raised TypeError) | Some v \<Rightarrow> Inr v)"

lemma number_Inr [simp]: "number x = Inr v \<longleftrightarrow> x = Some v"
  by (cases x) (simp_all add: number_def)

definition minOrders :: "(nat \<times> rat) list" where "minOrders = [(2, 500000), (13, 5)]"
definition maxOrders_default :: "(nat \<times> rat) list" where
  "maxOrders_default = [(2, 10000000000), (13, 10000000000)]"
definition maxOrders_spot :: "(nat \<times> rat) list" where "maxOrders_spot = [(2, 50000000000), (13, 200000)]"

subsection \<open>The steps of the method\<close>

definition get_for :: "oenv \<Rightarrow> nat \<Rightarrow> nat \<Rightarrow> market option" where
  "get_for env src dst = find (\<lambda>m. mk_src m = src \<and> mk_dst m = dst) (oe_markets env)"

text \<open>Market, side and execution type.\<close>

definition check_parameters :: "oenv \<Rightarrow> order_request \<Rightarrow> refusal + (market \<times> order_type \<times> execution_type)" where
  "check_parameters env rq =
     (case (case rq_market rq of Some m \<Rightarrow> Some m | None \<Rightarrow> get_for env (rq_src rq) (rq_dst rq)) of
        None \<Rightarrow> Inl (Rejected ''InvalidMarketPair'')
      | Some m \<Rightarrow>
          if \<not> mk_is_active m then Inl (Rejected ''MarketClosed'')
          else case rq_type rq of
                 Missing \<Rightarrow> Inl (Rejected ''InvalidOrderType'')
               | Unknown \<Rightarrow> Inl (Rejected ''InvalidOrderType'')
               | Value tp \<Rightarrow>
                   (case (case rq_execution rq of Missing \<Rightarrow> Value Limit | x \<Rightarrow> x) of
                      Value ex \<Rightarrow>
                        if ex = MarketExec \<and> mk_id m \<in> set (oe_execution_disabled env)
                        then Inl (Rejected ''MarketExecutionTypeTemporaryClosed'') else Inr (m, tp, ex)
                    | _ \<Rightarrow> Inl (Rejected ''InvalidExecutionType'')))"

definition request_trade_type :: "order_request \<Rightarrow> trade_type" where
  "request_trade_type rq =
     (if rq_margin rq then Margin else if rq_credit rq then Credit else if rq_debit rq then Debit else Spot)"

text \<open>The price of a market order; half of the price guard of the matcher is allowed.\<close>

definition unexpected_price :: "order_type \<Rightarrow> rat \<Rightarrow> rat \<times> rat \<Rightarrow> bool" where
  "unexpected_price tp price rng =
     (let allowed_change = MARKET_ORDER_MAX_PRICE_DIFF / 2
      in fst rng \<noteq> 0 \<and> snd rng \<noteq> 0
         \<and> (if tp = Sell then dmul (fst rng) (dadd 1 allowed_change) < price
            else price < dmul (snd rng) (dsub 1 allowed_change)))"

definition market_order_price ::
    "oenv \<Rightarrow> market \<Rightarrow> order_type \<Rightarrow> execution_type \<Rightarrow> rat option \<Rightarrow> rat option \<Rightarrow> refusal + rat option" where
  "market_order_price env m tp ex price param1 =
     (let rng = oe_price_range env (mk_src m) (mk_dst m)
      in if ex = MarketExec
         then if \<not> truthy price then Inr (Some (if tp = Sell then fst rng else snd rng))
              else if unexpected_price tp (the price) rng then Inl (Rejected ''UnexpectedMarketPrice'')
              else Inr price
         else if ex = StopMarket \<and> \<not> truthy price then Inr param1
         else Inr price)"

definition normalized_price :: "oenv \<Rightarrow> market \<Rightarrow> rat option \<Rightarrow> refusal + rat option" where
  "normalized_price env m price =
     (if truthy price
      then raising (case oe_price_precision env (mk_id m) of
             None \<Rightarrow> Inl KeyError
           | Some prec \<Rightarrow> rbind (quantize ROUND_HALF_EVEN prec (the price)) (\<lambda>p. Inr (Some p)))
      else Inr price)"

definition normalized_amount :: "oenv \<Rightarrow> market \<Rightarrow> bool \<Rightarrow> rat option \<Rightarrow> refusal + rat" where
  "normalized_amount env m allow_small amount =
     rbind (if truthy amount \<and> \<not> allow_small
            then raising (case oe_amount_precision env (mk_id m) of
                   None \<Rightarrow> Inl KeyError
                 | Some prec \<Rightarrow> rbind (quantize ROUND_DOWN prec (the amount)) (\<lambda>a. Inr (Some a)))
            else Inr amount)
       (\<lambda>amount. if truthy amount then Inr (the amount) else Inl (Rejected ''AmountTooLow''))"

definition check_stop_and_pair :: "order_request \<Rightarrow> execution_type \<Rightarrow> rat \<Rightarrow> refusal + unit" where
  "check_stop_and_pair rq ex amount =
     (if ex \<in> set STOP_EXECUTION_TYPES \<and> \<not> truthy (rq_param1 rq) then Inl (Rejected ''MissingStopPrice'')
      else case rq_pair rq of
             None \<Rightarrow> Inr ()
           | Some p \<Rightarrow>
               if o_pair p \<noteq> None \<or> o_execution p \<noteq> Limit then Inl (Rejected ''InvalidPair'')
               else if ex \<notin> set STOP_EXECUTION_TYPES \<or> amount \<noteq> o_amount p then Inl (Rejected ''InvalidPair'')
               else Inr ())"

definition check_paymon :: "oenv \<Rightarrow> market \<Rightarrow> rat option \<Rightarrow> refusal + unit" where
  "check_paymon env m price =
     (if mk_src m = oe_PMN env
      then rbind (number price) (\<lambda>p. if 85 / 1000 < p then Inl (Rejected ''MaxPaymonPriceIs0.085'') else Inr ())
      else Inr ())"

text \<open>The distance from the last trade that is allowed: ten percent and one more per minute.\<close>

definition allowed_change :: "oenv \<Rightarrow> nat \<Rightarrow> datetime \<Rightarrow> rat \<Rightarrow> rat" where
  "allowed_change env user last_trade last_price =
     (let percent = 10 + (oe_now env - last_trade) div 60000000;
          c = dmul (float64 (float_0_01 * of_int percent)) last_price;
          c = (if oe_trader_bot env user then dmul c 150 else c)
      in if user < 1000 then dmul c 15 else c)"

definition bad_for_last_trade :: "oenv \<Rightarrow> nat \<Rightarrow> market \<Rightarrow> order_type \<Rightarrow> rat option \<Rightarrow> refusal + bool" where
  "bad_for_last_trade env user m tp price =
     (case (oe_last_price env (mk_id m), oe_last_trade env (mk_id m)) of
        (Some lp, Some t) \<Rightarrow>
          if lp = 0 then Inr False
          else rbind (number price) (\<lambda>p.
            let c = allowed_change env user t lp
            in Inr (if tp = Sell then p < dsub lp c else dadd lp c < p))
      | _ \<Rightarrow> Inr False)"

definition bad_for_mark_price :: "oenv \<Rightarrow> market \<Rightarrow> order_type \<Rightarrow> rat option \<Rightarrow> bool \<Rightarrow> refusal + bool" where
  "bad_for_mark_price env m tp price bad =
     (if mk_src m \<in> {TETHER, oe_GALA env, oe_SOL env} \<or> \<not> truthy (oe_mark_price env (mk_src m) (mk_dst m)) then Inr bad
      else rbind (number price) (\<lambda>p.
        let mark = the (oe_mark_price env (mk_src m) (mk_dst m))
        in Inr (if tp = Sell then p < dmul (8 / 10) mark else dmul (12 / 10) mark < p)))"

definition is_bad_price ::
    "oenv \<Rightarrow> nat \<Rightarrow> market \<Rightarrow> order_type \<Rightarrow> execution_type \<Rightarrow> rat option \<Rightarrow> rat option \<Rightarrow> refusal + bool" where
  "is_bad_price env user m tp ex price param1 =
     rbind (if \<not> oe_DISABLE_ORDER_PRICE_GUARD env \<and> ex = Limit
            then rbind (bad_for_last_trade env user m tp price) (bad_for_mark_price env m tp price)
            else Inr False)
       (\<lambda>bad. if ex = StopMarket \<and> price \<noteq> param1
              then rbind (number price) (\<lambda>p. rbind (number param1) (\<lambda>q. Inr (if tp = Sell then q < p else p < q)))
              else Inr bad)"

text \<open>A stop order and its pair lie on the two sides of the market.\<close>

definition check_pair_price :: "oenv \<Rightarrow> order_request \<Rightarrow> market \<Rightarrow> order_type \<Rightarrow> rat option \<Rightarrow> refusal + unit" where
  "check_pair_price env rq m tp price =
     (case rq_pair rq of
        None \<Rightarrow> Inr ()
      | Some q \<Rightarrow>
          rbind (number (rq_param1 rq)) (\<lambda>stop.
          rbind (if truthy (oe_last_price env (mk_id m)) then Inr (the (oe_last_price env (mk_id m)))
                 else raising (ddiv (dadd (o_price q) stop) 2)) (\<lambda>lp.
          rbind (if tp = Sell
                 then if lp < o_price q \<and> stop < lp then rbind (number price) (\<lambda>p. Inr (p < o_price q)) else Inr False
                 else if o_price q < lp \<and> lp < stop then rbind (number price) (\<lambda>p. Inr (o_price q < p)) else Inr False)
            (\<lambda>ok. if ok then Inr () else Inl (Rejected ''PriceConditionFailed'')))))"

definition new_order ::
    "oenv \<Rightarrow> nat \<Rightarrow> order_request \<Rightarrow> market \<Rightarrow> order_type \<Rightarrow> execution_type \<Rightarrow> rat \<Rightarrow> rat \<Rightarrow> order" where
  "new_order env new_id rq m tp ex amount price =
     \<lparr>o_id = new_id, o_user = rq_user rq, o_created_at = oe_now env, o_src = mk_src m, o_dst = mk_dst m,
      o_channel = rq_channel rq, o_client_order_id = rq_client_order_id rq, o_type = tp, o_execution = ex,
      o_trade = request_trade_type rq, o_price = price, o_amount = amount, o_param1 = rq_param1 rq,
      o_status = (if ex \<in> set STOP_EXECUTION_TYPES then Inactive else Active),
      o_matched_amount = 0, o_matched_total_price = 0, o_fee = 0, o_pair = map_option o_id (rq_pair rq)\<rparr>"

definition check_value :: "oenv \<Rightarrow> order_request \<Rightarrow> order \<Rightarrow> refusal + unit" where
  "check_value env rq o1 =
     rbind (raising (total_price (fst (oe_price_range env (o_src o1) (o_dst o1))) o1)) (\<lambda>total.
       if \<not> oe_ALLOW_SMALL_ORDERS env \<and> \<not> rq_allow_small rq
          \<and> total < dmul (99 / 100) (case map_of minOrders (o_dst o1) of None \<Rightarrow> 0 | Some v \<Rightarrow> v)
       then Inl (Rejected ''SmallOrder'')
       else case map_of (if is_spot o1 then maxOrders_spot else maxOrders_default) (o_dst o1) of
              None \<Rightarrow> Inl (Raised KeyError)
            | Some mx \<Rightarrow> if \<not> is_market o1 \<and> mx \<le> total then Inl (Rejected ''LargeOrder'') else Inr ())"

text \<open>
  \<open>Wallet.validate_order\<close> on the unsaved order. A margin order has no position before it
  is saved, and asking for its positions raises; the margin manager places its orders as
  validated.
\<close>

definition check_funds :: "oenv \<Rightarrow> order_request \<Rightarrow> order \<Rightarrow> mdb \<Rightarrow> (refusal + unit) \<times> mdb" where
  "check_funds env rq o1 d =
     (if rq_validated rq then (Inr (), d)
      else if is_margin o1 then (Inl (Raised (ValueError ''unsaved'')), d)
      else case get_user_wallet (oe_DST_CURRENCIES env) d (o_user o1) (selling_currency o1) (wallet_type_of o1) True of
             (None, d1) \<Rightarrow> (Inl (Raised AttributeError), d1)
           | (Some w, d1) \<Rightarrow>
               (case validate_order o1 (rq_pair rq) w (active_balance d1 w (oe_order_flags env (o_user o1))) True of
                  (ok, err) \<Rightarrow> (if ok then Inr () else Inl (Rejected err), d1)))"

definition stored_order :: "order \<Rightarrow> order" where
  "stored_order o1 = o1\<lparr>o_price := col10 (o_price o1), o_amount := col10 (o_amount o1),
     o_param1 := map_option col10 (o_param1 o1)\<rparr>"

definition order_fits :: "order \<Rightarrow> bool" where
  "order_fits o1 \<longleftrightarrow> money_field (o_price o1) \<and> money_field (o_amount o1)
     \<and> (case o_param1 o1 of None \<Rightarrow> True | Some p \<Rightarrow> money_field p)"

text \<open>The constraints of the table, and then the insert and the link from the pair.\<close>

definition insert_order :: "order_request \<Rightarrow> order \<Rightarrow> mdb \<Rightarrow> (refusal + order) \<times> mdb" where
  "insert_order rq o1 d =
     (if \<not> order_fits (stored_order o1) then (Inl (Raised DataError), d)
      else if o_client_order_id o1 \<noteq> None
              \<and> list_ex (\<lambda>x. o_user x = o_user o1 \<and> o_client_order_id x = o_client_order_id o1
                            \<and> o_status x \<in> set OPEN_STATUSES) (orders d)
      then (Inl (Rejected ''DuplicateClientOrderId''), d)
      else if o_pair o1 \<noteq> None \<and> list_ex (\<lambda>x. o_pair x = o_pair o1) (orders d)
      then (Inl (Raised (IntegrityError ''pair_id'')), d)
      else (Inr o1, d\<lparr>orders := (case o_pair o1 of
                                    None \<Rightarrow> orders d
                                  | Some i \<Rightarrow> put_order (\<lambda>x. x\<lparr>o_pair := Some (o_id o1)\<rparr>) i (orders d))
                                @ [stored_order o1]\<rparr>))"

subsection \<open>The method\<close>

definition prepare_order :: "oenv \<Rightarrow> nat \<Rightarrow> order_request \<Rightarrow> refusal + order" where
  "prepare_order env new_id rq =
     rbind (check_parameters env rq) (\<lambda>(m, tp, ex).
     rbind (market_order_price env m tp ex (rq_price rq) (rq_param1 rq)) (\<lambda>price.
     rbind (normalized_price env m price) (\<lambda>price.
     rbind (normalized_amount env m (rq_allow_small rq) (rq_amount rq)) (\<lambda>amount.
     rbind (check_stop_and_pair rq ex amount) (\<lambda>_.
     rbind (check_paymon env m price) (\<lambda>_.
     rbind (is_bad_price env (rq_user rq) m tp ex price (rq_param1 rq)) (\<lambda>bad.
       if bad then Inl (Rejected ''BadPrice'')
       else rbind (check_pair_price env rq m tp price) (\<lambda>_.
            rbind (number price) (\<lambda>p.
              let o1 = new_order env new_id rq m tp ex amount p
              in rbind (check_value env rq o1) (\<lambda>_. Inr o1))))))))))"

definition create_order :: "oenv \<Rightarrow> nat \<Rightarrow> order_request \<Rightarrow> mdb \<Rightarrow> (refusal + order) \<times> mdb" where
  "create_order env new_id rq d =
     (case prepare_order env new_id rq of
        Inl e \<Rightarrow> (Inl e, d)
      | Inr o1 \<Rightarrow>
          (case check_funds env rq o1 d of
             (Inl e, d1) \<Rightarrow> (Inl e, d1)
           | (Inr _, d1) \<Rightarrow> insert_order rq o1 d1))"

definition create_sell_whole_balance_order ::
    "oenv \<Rightarrow> nat \<Rightarrow> wallet \<Rightarrow> nat \<Rightarrow> nat option \<Rightarrow> mdb \<Rightarrow> (refusal + order) \<times> mdb" where
  "create_sell_whole_balance_order env new_id w dst channel d =
     (let active = active_balance d w (oe_order_flags env (w_user w))
      in if money_is_zero active then (Inl (Rejected ''InsufficientBalance''), d)
         else create_order env new_id
           \<lparr>rq_user = w_user w, rq_type = Value Sell, rq_market = None, rq_src = w_currency w, rq_dst = dst,
            rq_execution = Value MarketExec, rq_amount = Some active, rq_price = None, rq_param1 = None,
            rq_channel = channel, rq_pair = None, rq_margin = False, rq_validated = True, rq_allow_small = True,
            rq_client_order_id = None, rq_credit = False, rq_debit = False\<rparr> d)"

subsection \<open>Channels\<close>

text \<open>User agents are ASCII strings.\<close>

definition user_agent_category :: "string \<Rightarrow> string" where
  "user_agent_category ua = (if CHR ''/'' \<in> set ua then takeWhile (\<lambda>c. c \<noteq> CHR ''/'') ua else [])"

definition API_CATEGORIES :: "string list" where
  "API_CATEGORIES = [''traderbot'', ''python-requests'', ''restsharp'', ''guzzlehttp'', ''python'', ''axios'']"

definition detect_order_channel :: "string option \<Rightarrow> bool \<Rightarrow> nat" where
  "detect_order_channel ua is_convert =
     (let ua = (case ua of None \<Rightarrow> [] | Some u \<Rightarrow> u);
          ua = (if ua = [] \<or> ua = ''-'' then ''TraderBot/NoUA'' else ua);
          category = user_agent_category ua;
          tp_offset = (if is_convert then 2 else 0)
      in if category = ''Android'' then CHANNEL_android + tp_offset
         else if category = ''iOSApp'' then CHANNEL_ios + tp_offset
         else if category = ''TraderBot'' \<and> take 17 ua = ''TraderBot/Nobitex'' then CHANNEL_api_internal
         else if map lower_char category \<in> set API_CATEGORIES then CHANNEL_api + tp_offset
         else if category = ''Mozilla'' then CHANNEL_web + tp_offset
         else if category = ''LocketWallet'' then CHANNEL_locket
         else CHANNEL_unknown)"

lemmas channel_codes = CHANNEL_android_def CHANNEL_ios_def CHANNEL_api_internal_def CHANNEL_api_def
  CHANNEL_web_def CHANNEL_locket_def CHANNEL_unknown_def

lemma detect_order_channel_range:
  "detect_order_channel ua cv \<in> {0, 1, 3, 11, 13, 21, 23, 31, 32, 33, 61}"
  by (simp add: detect_order_channel_def channel_codes Let_def)

text \<open>No user agent makes an order pass for one of the exchange's own: an order with a
  detected channel is never one placed by the system.\<close>

lemma detected_channel_not_system:
  "\<not> is_placed_by_system (o1\<lparr>o_channel := Some (detect_order_channel ua cv)\<rparr>)"
  using detect_order_channel_range [of ua cv] by (auto simp: is_placed_by_system_def CHANNEL_SYSTEM_RANGE_def)

subsection \<open>What an accepted order satisfies\<close>

lemma prepare_order_Inr:
  assumes "prepare_order env i rq = Inr o1"
  obtains m tp ex price0 amount p where
    "check_parameters env rq = Inr (m, tp, ex)"
    "market_order_price env m tp ex (rq_price rq) (rq_param1 rq) = Inr price0"
    "normalized_price env m price0 = Inr (Some p)"
    "normalized_amount env m (rq_allow_small rq) (rq_amount rq) = Inr amount"
    "check_stop_and_pair rq ex amount = Inr ()"
    "is_bad_price env (rq_user rq) m tp ex (Some p) (rq_param1 rq) = Inr False"
    "check_pair_price env rq m tp (Some p) = Inr ()"
    "o1 = new_order env i rq m tp ex amount p" "check_value env rq o1 = Inr ()"
  using assms by (auto simp: prepare_order_def rbind_eq_Inr_iff Let_def split: if_splits)

text \<open>What the API has made sure of before it asks for an order.\<close>

definition nonneg :: "rat option \<Rightarrow> bool" where
  "nonneg x = (case x of None \<Rightarrow> True | Some v \<Rightarrow> 0 \<le> v)"

definition valid_request :: "oenv \<Rightarrow> order_request \<Rightarrow> bool" where
  "valid_request env rq \<longleftrightarrow> nonneg (rq_amount rq) \<and> nonneg (rq_price rq) \<and> nonneg (rq_param1 rq)"

lemma market_order_price_nonneg:
  assumes "market_order_price env m tp ex price param1 = Inr q" "nonneg price" "nonneg param1"
    "\<forall>a b. 0 \<le> fst (oe_price_range env a b) \<and> 0 \<le> snd (oe_price_range env a b)"
  shows "nonneg q"
  using assms by (auto simp: market_order_price_def nonneg_def Let_def split: if_splits)

lemma normalized_price_facts:
  assumes "normalized_price env m price = Inr (Some p)"
  shows "nonneg price \<Longrightarrow> 0 \<le> p" "oe_price_precision env (mk_id m) = Some prec \<Longrightarrow> on_grid prec p"
  using assms by (auto simp: normalized_price_def rbind_eq_Inr_iff nonneg_def truthy_def
      dest: quantize_nonneg quantize_on_grid split: if_splits option.splits)

lemma normalized_amount_facts:
  assumes "normalized_amount env m sm amount = Inr a"
  shows "nonneg amount \<Longrightarrow> 0 < a"
    "\<not> sm \<Longrightarrow> oe_amount_precision env (mk_id m) = Some prec \<Longrightarrow> on_grid prec a"
    "\<not> sm \<Longrightarrow> nonneg amount \<Longrightarrow> \<exists>v. amount = Some v \<and> a \<le> v"
    "sm \<Longrightarrow> amount = Some a"
proof -
  have nz: "a \<noteq> 0" using assms by (auto simp: normalized_amount_def rbind_eq_Inr_iff truthy_def split: if_splits)
  show "0 < a" if n: "nonneg amount"
  proof -
    have "0 \<le> a" using assms n
      by (auto simp: normalized_amount_def rbind_eq_Inr_iff nonneg_def truthy_def
          dest: quantize_nonneg split: if_splits option.splits)
    with nz show ?thesis by simp
  qed
  show "on_grid prec a" if "\<not> sm" "oe_amount_precision env (mk_id m) = Some prec"
    using assms that by (auto simp: normalized_amount_def rbind_eq_Inr_iff truthy_def
        dest: quantize_on_grid split: if_splits option.splits)
  show "\<exists>v. amount = Some v \<and> a \<le> v" if "\<not> sm" "nonneg amount"
    using assms that by (auto simp: normalized_amount_def rbind_eq_Inr_iff truthy_def nonneg_def quantize_Inr
        quantize_down_le split: if_splits option.splits)
  show "amount = Some a" if "sm"
    using assms that by (auto simp: normalized_amount_def rbind_eq_Inr_iff truthy_def split: if_splits)
qed

lemma col10_pos_grid:
  assumes "on_grid e x" "- 10 \<le> e"
  shows "col10 x = x"
  using col10_fix [of x] on_grid_coarser [OF assms(1), of MAX_PRECISION] assms(2) by (simp add: MAX_PRECISION_def)

lemma insert_order_Inr:
  assumes "insert_order rq o1 d = (Inr o2, d')"
  shows "o2 = o1" "order_fits (stored_order o1)"
    "d' = d\<lparr>orders := (case o_pair o1 of None \<Rightarrow> orders d
             | Some i \<Rightarrow> put_order (\<lambda>x. x\<lparr>o_pair := Some (o_id o1)\<rparr>) i (orders d)) @ [stored_order o1]\<rparr>"
  using assms by (auto simp: insert_order_def split: if_splits)

lemma check_funds_db:
  assumes "check_funds env rq o1 d = (r, d1)"
  shows "d1 = d \<or> (\<exists>w. wallets d1 = wallets d @ [w] \<and> w_balance w = 0 \<and> w_blocked w = 0
             \<and> w_user w = o_user o1 \<and> d1 = d\<lparr>wallets := wallets d1, next_wallet_id := Suc (next_wallet_id d)\<rparr>)"
    "sound_db d \<Longrightarrow> sound_db d1" "orders d1 = orders d" "transactions d1 = transactions d" "trades d1 = trades d"
proof -
  have c: "d1 = d \<or> (\<exists>w. get_user_wallet (oe_DST_CURRENCIES env) d (o_user o1) (selling_currency o1) (wallet_type_of o1) True = (w, d1))"
    using assms by (auto simp: check_funds_def split: if_splits option.splits prod.splits)
  then show "d1 = d \<or> (\<exists>w. wallets d1 = wallets d @ [w] \<and> w_balance w = 0 \<and> w_blocked w = 0
             \<and> w_user w = o_user o1 \<and> d1 = d\<lparr>wallets := wallets d1, next_wallet_id := Suc (next_wallet_id d)\<rparr>)"
    by (auto simp: get_user_wallet_def Let_def split: if_splits option.splits)
  show "orders d1 = orders d" "trades d1 = trades d" using c by (auto dest: get_user_wallet_db(1,2) intro: trades_more)
  show "transactions d1 = transactions d"
    using c by (auto simp: get_user_wallet_def Let_def split: if_splits option.splits)
  show "sound_db d1" if s: "sound_db d"
    using c
  proof
    assume "\<exists>w. get_user_wallet (oe_DST_CURRENCIES env) d (o_user o1) (selling_currency o1) (wallet_type_of o1) True = (w, d1)"
    with s get_user_wallet_keeps_sound show ?thesis by blast
  qed (use s in simp)
qed

lemma create_order_Inr:
  assumes "create_order env i rq d = (Inr o1, d')"
  obtains d1 u where "prepare_order env i rq = Inr o1" "check_funds env rq o1 d = (Inr u, d1)"
    "insert_order rq o1 d1 = (Inr o1, d')"
proof -
  from assms obtain o0 where p: "prepare_order env i rq = Inr o0" by (auto simp: create_order_def split: sum.splits)
  obtain r d1 where f: "check_funds env rq o0 d = (r, d1)" by (rule prod.exhaust)
  with assms p obtain u where r: "r = Inr u" and s: "insert_order rq o0 d1 = (Inr o1, d')"
    by (auto simp: create_order_def split: sum.splits)
  have "o1 = o0" by (rule insert_order_Inr(1) [OF s])
  with p f r s that show ?thesis by blast
qed

lemma put_pair_inv:
  "list_all order_inv os \<Longrightarrow> list_all order_inv (put_order (\<lambda>x. x\<lparr>o_pair := q\<rparr>) i os)"
  by (induction os) (auto simp: put_order_def order_inv_def)

lemma sound_db_new_orders:
  "sound_db (d\<lparr>orders := os\<rparr>) \<longleftrightarrow> ledger_inv d \<and> solvent d \<and> list_all order_inv os
     \<and> distinct (map o_id os) \<and> distinct (trade_pairs (trades d)) \<and> db_grid d"
  by (simp add: sound_db_def ledger_inv_def solvent_def update_balance_from_transactions_def db_grid_def)

lemma create_order_keeps:
  assumes c: "create_order env i rq d = (Inr o1, d')" and d: "sound_db d" and i: "i \<notin> o_id ` set (orders d)"
    and rq: "valid_request env rq"
    and rng: "\<forall>a b. 0 \<le> fst (oe_price_range env a b) \<and> 0 \<le> snd (oe_price_range env a b)"
  shows "sound_db d' \<and> last (orders d') = stored_order o1 \<and> o_id o1 = i \<and> 0 < o_amount o1
     \<and> o_matched_amount o1 = 0 \<and> o_status o1 = (if o_execution o1 \<in> set STOP_EXECUTION_TYPES then Inactive else Active)
     \<and> transactions d' = transactions d \<and> trades d' = trades d"
proof -
  from create_order_Inr [OF c] obtain d1 u where p: "prepare_order env i rq = Inr o1"
    and f: "check_funds env rq o1 d = (Inr u, d1)" and s: "insert_order rq o1 d1 = (Inr o1, d')" .
  obtain m tp ex q amount price where
    mp: "market_order_price env m tp ex (rq_price rq) (rq_param1 rq) = Inr q"
    and np: "normalized_price env m q = Inr (Some price)"
    and na: "normalized_amount env m (rq_allow_small rq) (rq_amount rq) = Inr amount"
    and o1: "o1 = new_order env i rq m tp ex amount price"
    by (rule prepare_order_Inr [OF p]) blast
  note v = rq [unfolded valid_request_def]
  have a: "0 < amount" using normalized_amount_facts(1) [OF na] v by simp
  have pr: "0 \<le> price" using normalized_price_facts(1) [OF np] market_order_price_nonneg [OF mp _ _ rng] v by simp
  have fits: "order_fits (stored_order o1)" by (rule insert_order_Inr(2) [OF s])
  have m0: "money_field 0" by (simp add: money_field_def fits_def)
  have inv: "order_inv (stored_order o1)"
    using fits a pr m0 col10_nonneg [of amount] col10_nonneg [of price]
    by (simp add: order_inv_def order_fits_def stored_order_def o1 new_order_def)
  have ids: "o_id (stored_order o1) = i" by (simp add: stored_order_def o1 new_order_def)
  note d1 = check_funds_db [OF f]
  define os where "os = (case o_pair o1 of None \<Rightarrow> orders d1
      | Some j \<Rightarrow> put_order (\<lambda>x. x\<lparr>o_pair := Some (o_id o1)\<rparr>) j (orders d1))"
  have d': "d' = d1\<lparr>orders := os @ [stored_order o1]\<rparr>" using insert_order_Inr(3) [OF s] by (simp add: os_def)
  have s1: "list_all order_inv (orders d1)" "map o_id (orders d1) = map o_id (orders d)" "distinct (map o_id (orders d1))"
    using d1(2) [OF d] d1(3) by (simp_all add: sound_db_def)
  have os: "list_all order_inv os" "map o_id os = map o_id (orders d)"
    using s1 by (auto simp: os_def intro: put_pair_inv split: option.split)
  have "distinct (map o_id (os @ [stored_order o1]))"
    using i s1 ids os(2) by (simp add: image_set [symmetric])
  then have "sound_db d'" using d1(2) [OF d] os inv unfolding d' sound_db_new_orders by (simp add: sound_db_def)
  moreover have "last (orders d') = stored_order o1" by (simp add: d')
  moreover have "transactions d' = transactions d" "trades d' = trades d"
    using d1(4,5) by (simp_all add: d')
  ultimately show ?thesis using a by (simp add: o1 new_order_def)
qed

text \<open>All that an accepted order changes: its row, the link of its pair, and perhaps a new wallet.\<close>

lemma create_order_frame:
  assumes c: "create_order env i rq d = (Inr o1, d')"
  shows "o_user o1 = rq_user rq"
    "orders d' = (case rq_pair rq of
            None \<Rightarrow> orders d
          | Some q \<Rightarrow> put_order (\<lambda>x. x\<lparr>o_pair := Some i\<rparr>) (o_id q) (orders d)) @ [stored_order o1]"
    "wallets d' = wallets d
        \<or> (\<exists>w. wallets d' = wallets d @ [w] \<and> w_user w = rq_user rq \<and> w_balance w = 0 \<and> w_blocked w = 0)"
    "d' = d\<lparr>orders := orders d', wallets := wallets d', next_wallet_id := next_wallet_id d'\<rparr>"
proof -
  from create_order_Inr [OF c] obtain d1 u where p: "prepare_order env i rq = Inr o1"
    and f: "check_funds env rq o1 d = (Inr u, d1)" and s: "insert_order rq o1 d1 = (Inr o1, d')" .
  have o1: "o_id o1 = i" "o_user o1 = rq_user rq" "o_pair o1 = map_option o_id (rq_pair rq)"
    by (rule prepare_order_Inr [OF p], simp add: new_order_def)+
  then show "o_user o1 = rq_user rq" by simp
  note d' = insert_order_Inr(3) [OF s, unfolded o1 check_funds_db(3) [OF f]] and w = check_funds_db(1) [OF f, unfolded o1]
  show "orders d' = (case rq_pair rq of
            None \<Rightarrow> orders d
          | Some q \<Rightarrow> put_order (\<lambda>x. x\<lparr>o_pair := Some i\<rparr>) (o_id q) (orders d)) @ [stored_order o1]"
    by (simp add: d' split: option.split)
  show "wallets d' = wallets d
        \<or> (\<exists>w. wallets d' = wallets d @ [w] \<and> w_user w = rq_user rq \<and> w_balance w = 0 \<and> w_blocked w = 0)"
    using w by (auto simp: d')
  show "d' = d\<lparr>orders := orders d', wallets := wallets d', next_wallet_id := next_wallet_id d'\<rparr>"
    using w unfolding d' by auto
qed

text \<open>C9: an order that is accepted leaves the database sound for the matcher: its row is the
  last of the table, open, unfilled, with a positive amount, and belongs to the user who asked
  for it. All that changes besides is the link of its pair, and perhaps an empty wallet of
  that user that is new.\<close>

theorem create_order_sound:
  assumes c: "create_order env i rq d = (Inr o1, d')" and d: "sound_db d" and i: "i \<notin> o_id ` set (orders d)"
    and rq: "valid_request env rq"
    and rng: "\<forall>a b. 0 \<le> fst (oe_price_range env a b) \<and> 0 \<le> snd (oe_price_range env a b)"
  shows "sound_db d' \<and> o_id o1 = i \<and> o_user o1 = rq_user rq \<and> 0 < o_amount o1
     \<and> o_matched_amount o1 = 0 \<and> o_status o1 = (if o_execution o1 \<in> set STOP_EXECUTION_TYPES then Inactive else Active)
     \<and> orders d' = (case rq_pair rq of
            None \<Rightarrow> orders d
          | Some q \<Rightarrow> put_order (\<lambda>x. x\<lparr>o_pair := Some i\<rparr>) (o_id q) (orders d)) @ [stored_order o1]
     \<and> (wallets d' = wallets d
        \<or> (\<exists>w. wallets d' = wallets d @ [w] \<and> w_user w = rq_user rq \<and> w_balance w = 0 \<and> w_blocked w = 0))
     \<and> d' = d\<lparr>orders := orders d', wallets := wallets d', next_wallet_id := next_wallet_id d'\<rparr>"
  using create_order_keeps [OF c d i rq rng] create_order_frame [OF c] by blast

lemma create_order_ids:
  assumes "create_order env i rq d = (Inr o1, d')"
  shows "map o_id (orders d') = map o_id (orders d) @ [i]"
proof -
  from create_order_Inr [OF assms] obtain d1 u where p: "prepare_order env i rq = Inr o1"
    and f: "check_funds env rq o1 d = (Inr u, d1)" and s: "insert_order rq o1 d1 = (Inr o1, d')" .
  have "o_id o1 = i" by (rule prepare_order_Inr [OF p]) (simp add: new_order_def)
  then show ?thesis
    using insert_order_Inr(3) [OF s] check_funds_db(3) [OF f] by (simp add: stored_order_def split: option.split)
qed







lemma create_order_refused_keeps:
  assumes c: "create_order env i rq d = (Inl e, d')" and d: "sound_db d"
  shows "sound_db d'"
proof (cases "prepare_order env i rq")
  case (Inr o1)
  obtain r d1 where f: "check_funds env rq o1 d = (r, d1)" by (rule prod.exhaust)
  have "d' = d1" using c Inr f by (auto simp: create_order_def insert_order_def split: sum.splits if_splits)
  with check_funds_db(2) [OF f d] show ?thesis by simp
qed (use c d in \<open>simp add: create_order_def\<close>)

text \<open>A request that is refused, whether it raises or returns an error code, places no order,
  links no pair and posts no transaction; all it may leave is an empty wallet.\<close>

lemma create_order_refused:
  assumes c: "create_order env i rq d = (Inl e, d')"
  shows "orders d' = orders d \<and> transactions d' = transactions d \<and> trades d' = trades d
     \<and> (wallets d' = wallets d \<or> (\<exists>w. wallets d' = wallets d @ [w] \<and> w_balance w = 0 \<and> w_blocked w = 0))"
proof -
  have "d' = d \<or> (\<exists>o1 r. check_funds env rq o1 d = (r, d'))"
  proof (cases "prepare_order env i rq")
    case (Inr o1)
    obtain r d1 where f: "check_funds env rq o1 d = (r, d1)" by (rule prod.exhaust)
    have "d' = d1" using c Inr f by (auto simp: create_order_def insert_order_def split: sum.splits if_splits)
    with f show ?thesis by blast
  qed (use c in \<open>simp add: create_order_def\<close>)
  then show ?thesis using check_funds_db(1,3,4,5) by metis
qed

text \<open>C33: for a coin other than tether, gala and solana the guard of a limit order against the last
  trade is lost as soon as the market has a mark price: the second test overwrites the result
  of the first one instead of adding to it.\<close>

theorem mark_price_overrides_last_trade:
  assumes "truthy (oe_mark_price env (mk_src m) (mk_dst m))" "mk_src m \<notin> {TETHER, oe_GALA env, oe_SOL env}"
  shows "is_bad_price env u m tp Limit (Some p) param1
     = is_bad_price (env\<lparr>oe_last_price := lp, oe_last_trade := lt\<rparr>) u m tp Limit (Some p) param1"
proof -
  have "\<exists>b. bad_for_last_trade en u m tp (Some p) = Inr b" for en
    by (auto simp: bad_for_last_trade_def number_def Let_def split: option.split)
  then obtain b b' where "bad_for_last_trade env u m tp (Some p) = Inr b"
    "bad_for_last_trade (env\<lparr>oe_last_price := lp, oe_last_trade := lt\<rparr>) u m tp (Some p) = Inr b'" by metis
  with assms show ?thesis by (simp add: is_bad_price_def bad_for_mark_price_def)
qed

subsection \<open>Pairs\<close>

lemma check_pair_price_Inr:
  assumes "check_pair_price env rq m tp (Some p) = Inr u" "rq_pair rq = Some q"
  shows "\<exists>stop. rq_param1 rq = Some stop
     \<and> (if tp = Sell then stop < o_price q \<and> p < o_price q else o_price q < stop \<and> o_price q < p)"
  using assms by (auto simp: check_pair_price_def rbind_eq_Inr_iff split: if_splits)

text \<open>An accepted stop order with a pair has the amount of the pair and lies on the other side of
  the market: a pair of sells has the limit order above the stop order, a pair of buys below;
  and the two rows name each other.\<close>

lemma create_order_links:
  assumes c: "create_order env i rq d = (Inr o1, d')" and q: "rq_pair rq = Some q"
    and row: "find_order (orders d) (o_id q) = Some x" and i: "i \<notin> o_id ` set (orders d)"
  shows "o_amount o1 = o_amount q \<and> o_execution o1 \<in> set STOP_EXECUTION_TYPES \<and> o_execution q = Limit
     \<and> (if is_sell o1 then o_price o1 < o_price q else o_price q < o_price o1)
     \<and> find_order (orders d') i = Some (stored_order o1) \<and> o_pair (stored_order o1) = Some (o_id q)
     \<and> find_order (orders d') (o_id q) = Some (x\<lparr>o_pair := Some i\<rparr>)"
proof -
  from create_order_Inr [OF c] obtain d1 u where p: "prepare_order env i rq = Inr o1"
    and f: "check_funds env rq o1 d = (Inr u, d1)" and s: "insert_order rq o1 d1 = (Inr o1, d')" .
  obtain m tp ex amount price where sp: "check_stop_and_pair rq ex amount = Inr ()"
    and cp: "check_pair_price env rq m tp (Some price) = Inr ()"
    and o1: "o1 = new_order env i rq m tp ex amount price"
    by (rule prepare_order_Inr [OF p]) blast
  have fields: "o_id o1 = i" "o_pair o1 = Some (o_id q)" "o_id (stored_order o1) = i" "o_pair (stored_order o1) = Some (o_id q)"
    by (simp_all add: o1 new_order_def stored_order_def q)
  have d': "orders d' = put_order (\<lambda>x. x\<lparr>o_pair := Some i\<rparr>) (o_id q) (orders d) @ [stored_order o1]"
    using insert_order_Inr(3) [OF s] check_funds_db(3) [OF f] fields by simp
  have app: "find_order (xs @ [y]) j = (case find_order xs j of None \<Rightarrow> if o_id y = j then Some y else None | Some z \<Rightarrow> Some z)" for xs y j
    by (induction xs) (auto simp: find_order_def)
  have "map o_id (put_order (\<lambda>x. x\<lparr>o_pair := Some i\<rparr>) (o_id q) (orders d)) = map o_id (orders d)" by simp
  then have "find_order (put_order (\<lambda>x. x\<lparr>o_pair := Some i\<rparr>) (o_id q) (orders d)) i = None"
    using i unfolding find_order_None by (metis set_map)
  then have "find_order (orders d') i = Some (stored_order o1)" by (simp add: d' app fields)
  moreover have "find_order (orders d') (o_id q) = Some (x\<lparr>o_pair := Some i\<rparr>)"
    using row by (simp add: d' app find_put_order_same)
  moreover have "amount = o_amount q \<and> ex \<in> set STOP_EXECUTION_TYPES \<and> o_execution q = Limit"
    using sp q by (auto simp: check_stop_and_pair_def split: if_splits)
  moreover have "if tp = Sell then price < o_price q else o_price q < price"
    using check_pair_price_Inr [OF cp q] by auto
  ultimately show ?thesis using fields by (simp add: o1 new_order_def is_sell_def)
qed

end
