(* ===== verification/Order_Entry_Example.thy ===== *)
theory Order_Entry_Example
  imports Order_Entry
begin

section \<open>Worked order requests\<close>

text \<open>
  A user with five million rials places a limit buy, then asks for more than the wallet
  holds, and another user protects a resting sell with a stop order. The runs are the
  witnesses of the theorems on placing orders.
\<close>

definition oe_market :: market where
  "oe_market = \<lparr>mk_id = 1, mk_src = 10, mk_dst = 2, mk_is_active = True\<rparr>"

definition oe_env :: oenv where
  "oe_env = \<lparr>oe_markets = [oe_market], oe_execution_disabled = [], oe_price_range = (\<lambda>_ _. (0, 0)),
     oe_price_precision = (\<lambda>_. Some 1), oe_amount_precision = (\<lambda>_. Some (- 6)), oe_last_price = (\<lambda>_. Some 1000000),
     oe_last_trade = (\<lambda>_. None), oe_mark_price = (\<lambda>_ _. Some 1000000), oe_DISABLE_ORDER_PRICE_GUARD = False,
     oe_ALLOW_SMALL_ORDERS = False, oe_trader_bot = (\<lambda>_. False), oe_now = 1000,
     oe_order_flags = (\<lambda>_. \<lparr>no_order = False, recent_order = False\<rparr>), oe_DST_CURRENCIES = [2, 13],
     oe_PMN = 21, oe_GALA = 70, oe_SOL = 33\<rparr>"

definition oe_request :: "order_type \<Rightarrow> execution_type \<Rightarrow> rat \<Rightarrow> rat \<Rightarrow> order_request" where
  "oe_request tp ex amount price =
     \<lparr>rq_user = 22, rq_type = Value tp, rq_market = Some oe_market, rq_src = 10, rq_dst = 2, rq_execution = Value ex,
      rq_amount = Some amount, rq_price = Some price, rq_param1 = None, rq_channel = Some 31, rq_pair = None,
      rq_margin = False, rq_validated = False, rq_allow_small = False, rq_client_order_id = None, rq_credit = False,
      rq_debit = False\<rparr>"

definition oe_wallet :: wallet where
  "oe_wallet = \<lparr>w_id = 8, w_user = 22, w_currency = 2, w_type = WSpot, w_balance = 5000000, w_blocked = 0, w_active = True\<rparr>"

definition oe_db :: mdb where
  "oe_db = \<lparr>wallets = [oe_wallet],
     transactions = [\<lparr>tx_id = 5, tx_wallet = 8, tx_tp = TxDeposit, tx_amount = 5000000, tx_balance = 5000000,
                      tx_created_at = 0, tx_ref_module = None, tx_ref_id = None\<rparr>],
     next_tx_id = 7, next_wallet_id = 9, orders = [], withdraws = [], position_rows = [], trades = [],
     next_trade_id = 2, margin_changes = []\<rparr>"

definition oe_order :: order where
  "oe_order = new_order oe_env 4 (oe_request Buy Limit 2 1100000) oe_market Buy Limit 2 1100000"

lemma oe_quantize:
  "quantize ROUND_HALF_EVEN 1 1100000 = Inr 1100000" "quantize ROUND_DOWN (- 6) 2 = Inr 2"
  "dmul (6 / 5) 1000000 = 1200000" "dmul 1100000 2 = 2200000" "dmul (99 / 100) 500000 = 495000"
  "dsub 2 0 = 2" "dmul (dadd 5000000 0) 1 = 5000000" "dsub 5000000 0 = 5000000"
  by (simp_all add: dec_eval)

lemma oe_prepare: "prepare_order oe_env 4 (oe_request Buy Limit 2 1100000) = Inr oe_order"
proof -
  have s: "check_parameters oe_env (oe_request Buy Limit 2 1100000) = Inr (oe_market, Buy, Limit)"
    "market_order_price oe_env oe_market Buy Limit (Some 1100000) None = Inr (Some 1100000)"
    by (simp_all add: check_parameters_def market_order_price_def oe_request_def oe_market_def Let_def)
  have n: "normalized_price oe_env oe_market (Some 1100000) = Inr (Some 1100000)"
    "normalized_amount oe_env oe_market False (Some 2) = Inr 2"
    by (simp_all add: normalized_price_def normalized_amount_def truthy_def oe_env_def oe_quantize)
  have g: "check_stop_and_pair (oe_request Buy Limit 2 1100000) Limit 2 = Inr ()"
    "check_paymon oe_env oe_market (Some 1100000) = Inr ()"
    "is_bad_price oe_env 22 oe_market Buy Limit (Some 1100000) None = Inr False"
    "check_pair_price oe_env (oe_request Buy Limit 2 1100000) oe_market Buy (Some 1100000) = Inr ()"
    by (simp_all add: check_stop_and_pair_def check_paymon_def is_bad_price_def bad_for_last_trade_def bad_for_mark_price_def
        check_pair_price_def number_def truthy_def STOP_EXECUTION_TYPES_def oe_env_def oe_market_def oe_request_def
        oe_quantize TETHER_def)
  have v: "check_value oe_env (oe_request Buy Limit 2 1100000) oe_order = Inr ()"
    by (simp add: check_value_def oe_order_def new_order_def total_price_def is_sell_def is_spot_def request_trade_type_def
        is_market_def minOrders_def maxOrders_spot_def oe_request_def oe_market_def oe_quantize)
  have r: "rq_price (oe_request Buy Limit 2 1100000) = Some 1100000" "rq_param1 (oe_request Buy Limit 2 1100000) = None"
    "rq_amount (oe_request Buy Limit 2 1100000) = Some 2" "rq_user (oe_request Buy Limit 2 1100000) = 22"
    "\<not> rq_allow_small (oe_request Buy Limit 2 1100000)"
    by (simp_all add: oe_request_def)
  show ?thesis
    by (simp add: prepare_order_def s n g r number_def Let_def v [unfolded oe_order_def]) (simp add: oe_order_def)
qed

lemma oe_fields: "\<not> rq_validated (oe_request tp ex a p)" "\<not> is_margin oe_order" "o_user oe_order = 22"
    "selling_currency oe_order = 2" "wallet_type_of oe_order = WSpot" "rq_pair (oe_request tp ex a p) = None"
    "is_buy oe_order" "\<not> is_market oe_order" "o_price oe_order = 1100000" "o_amount oe_order = 2" "o_matched_amount oe_order = 0"
    "o_param1 oe_order = None" "o_pair oe_order = None" "o_client_order_id oe_order = None"
  by (simp_all add: oe_order_def new_order_def oe_request_def oe_market_def is_margin_def request_trade_type_def
      selling_currency_def is_sell_def wallet_type_of_def is_credit_def is_debit_def is_buy_def is_market_def
      MARKET_EXECUTION_TYPES_def)

lemma oe_funds: "check_funds oe_env (oe_request Buy Limit 2 1100000) oe_order oe_db = (Inr (), oe_db)"
proof -
  have w: "get_user_wallet (oe_DST_CURRENCIES oe_env) oe_db 22 2 WSpot True = (Some oe_wallet, oe_db)"
    by (simp add: get_user_wallet_def wallet_for_def oe_db_def oe_wallet_def)
  have a: "active_balance oe_db oe_wallet (oe_order_flags oe_env 22) = 5000000"
    by (simp add: active_balance_def blocked_balance_def get_balance_in_order_def get_blocked_balance_def in_order_rows_def
        get_financially_pending_requests_def oe_db_def oe_wallet_def oe_env_def) (simp add: dec_eval)
  have "validate_order oe_order None oe_wallet 5000000 True = (True, ''ok'')"
    by (simp add: validate_order_def oe_fields unmatched_total_price_def unmatched_amount_def oe_quantize oe_wallet_def Let_def)
  then show ?thesis by (simp add: check_funds_def oe_fields w a)
qed

lemma oe_money: "money_field 1100000" "money_field 2" "col10 1100000 = 1100000" "col10 2 = 2"
  by (simp_all add: money_field_def fits_def money_constants on_grid_iff col10_def dec_eval)

lemma oe_create:
  "create_order oe_env 4 (oe_request Buy Limit 2 1100000) oe_db = (Inr oe_order, oe_db\<lparr>orders := [oe_order]\<rparr>)"
proof -
  have st: "stored_order oe_order = oe_order"
    by (cases oe_order) (use oe_fields oe_money in \<open>simp add: stored_order_def\<close>)
  have "orders oe_db = []" by (simp add: oe_db_def)
  then show ?thesis
    by (simp add: create_order_def oe_prepare oe_funds insert_order_def st order_fits_def oe_fields oe_money)
qed

lemma oe_sound: "sound_db oe_db"
  by (simp add: sound_db_def ledger_inv_def solvent_def refs_unique_def update_balance_from_transactions_def tx_ref_def
      trade_pairs_def db_grid_def wallet_grid_def oe_db_def oe_wallet_def on_grid_def MAX_PRECISION_def dec_eval)

theorem create_order_sound_witness: "sound_db (oe_db\<lparr>orders := [oe_order]\<rparr>)"
proof -
  have v: "valid_request oe_env (oe_request Buy Limit 2 1100000)" by (simp add: valid_request_def nonneg_def oe_request_def)
  have r: "\<forall>a b. 0 \<le> fst (oe_price_range oe_env a b) \<and> 0 \<le> snd (oe_price_range oe_env a b)" by (simp add: oe_env_def)
  have "4 \<notin> o_id ` set (orders oe_db)" by (simp add: oe_db_def)
  from create_order_sound [OF oe_create oe_sound this v r] show ?thesis by simp
qed


lemma create_order_refused_witness:
  "create_order oe_env 4 ((oe_request Buy Limit 2 1100000)\<lparr>rq_market := None, rq_src := 99\<rparr>) oe_db
     = (Inl (Rejected ''InvalidMarketPair''), oe_db) \<and> orders oe_db = []"
proof -
  have c: "create_order oe_env 4 ((oe_request Buy Limit 2 1100000)\<lparr>rq_market := None, rq_src := 99\<rparr>) oe_db
     = (Inl (Rejected ''InvalidMarketPair''), oe_db)"
    by (simp add: create_order_def prepare_order_def check_parameters_def get_for_def oe_request_def oe_env_def oe_market_def)
  from create_order_refused [OF c] c show ?thesis by (simp add: oe_db_def)
qed

text \<open>A buy far above the last trade: the guard against the last trade alone refuses it, with a
  mark price it is accepted.\<close>

lemma oe_guard_eval:
  "is_bad_price (oe_env\<lparr>oe_last_price := \<lambda>_. Some 1000, oe_last_trade := \<lambda>_. Some 1000\<rparr>) 22 oe_market Buy Limit (Some 1100000) None = Inr False"
  by (simp add: is_bad_price_def bad_for_last_trade_def bad_for_mark_price_def number_def truthy_def oe_env_def
      oe_market_def oe_quantize TETHER_def Let_def)

theorem mark_price_overrides_last_trade_witness:
  "is_bad_price oe_env 22 oe_market Buy Limit (Some 1100000) None
     = is_bad_price (oe_env\<lparr>oe_last_price := \<lambda>_. Some 1000, oe_last_trade := \<lambda>_. Some 1000\<rparr>) 22 oe_market Buy Limit (Some 1100000) None
   \<and> is_bad_price (oe_env\<lparr>oe_last_price := \<lambda>_. Some 1000, oe_last_trade := \<lambda>_. Some 1000\<rparr>) 22 oe_market Buy Limit (Some 1100000) None = Inr False"
  using mark_price_overrides_last_trade [of oe_env oe_market 22 Buy 1100000 None "\<lambda>_. Some 1000" "\<lambda>_. Some 1000"] oe_guard_eval
  by (simp add: truthy_def oe_env_def oe_market_def TETHER_def)

subsection \<open>A pair\<close>

definition oe_pair :: order where
  "oe_pair = new_order oe_env 3 (oe_request Sell Limit 2 1200000) oe_market Sell Limit 2 1200000"

definition oe_stop :: order_request where
  "oe_stop = (oe_request Sell StopLimit 2 890000)\<lparr>rq_param1 := Some 900000, rq_pair := Some oe_pair, rq_validated := True\<rparr>"

definition oe_stop_order :: order where
  "oe_stop_order = new_order oe_env 4 oe_stop oe_market Sell StopLimit 2 890000"

lemma oe_stop_quantize:
  "quantize ROUND_HALF_EVEN 1 890000 = Inr 890000" "dmul 900000 2 = 1800000" "dmul (99 / 100) 500000 = 495000"
  "money_field 890000" "money_field 900000" "col10 890000 = 890000" "col10 900000 = 900000"
  by (simp_all add: money_field_def fits_def money_constants on_grid_iff col10_def dec_eval)

lemma oe_stop_sel:
  "rq_price oe_stop = Some 890000" "rq_param1 oe_stop = Some 900000" "rq_amount oe_stop = Some 2" "rq_user oe_stop = 22"
  "\<not> rq_allow_small oe_stop" "rq_pair oe_stop = Some oe_pair" "rq_validated oe_stop" "o_price oe_pair = 1200000"
  "o_amount oe_pair = 2" "o_pair oe_pair = None" "o_execution oe_pair = Limit" "o_id oe_pair = 3"
  "o_pair oe_stop_order = Some 3" "o_id oe_stop_order = 4" "o_client_order_id oe_stop_order = None"
  "o_price oe_stop_order = 890000" "o_amount oe_stop_order = 2" "o_param1 oe_stop_order = Some 900000"
  by (simp_all add: oe_stop_def oe_stop_order_def oe_pair_def oe_request_def new_order_def)

lemma oe_stop_prepare: "prepare_order oe_env 4 oe_stop = Inr oe_stop_order"
proof -
  have s: "check_parameters oe_env oe_stop = Inr (oe_market, Sell, StopLimit)"
    "market_order_price oe_env oe_market Sell StopLimit (Some 890000) (Some 900000) = Inr (Some 890000)"
    by (simp_all add: check_parameters_def market_order_price_def oe_stop_def oe_request_def oe_market_def Let_def)
  have n: "normalized_price oe_env oe_market (Some 890000) = Inr (Some 890000)"
    "normalized_amount oe_env oe_market False (Some 2) = Inr 2"
    by (simp_all add: normalized_price_def normalized_amount_def truthy_def oe_env_def oe_quantize oe_stop_quantize)
  have g: "check_stop_and_pair oe_stop StopLimit 2 = Inr ()" "check_paymon oe_env oe_market (Some 890000) = Inr ()"
    "is_bad_price oe_env 22 oe_market Sell StopLimit (Some 890000) (Some 900000) = Inr False"
    "check_pair_price oe_env oe_stop oe_market Sell (Some 890000) = Inr ()"
    by (simp_all add: check_stop_and_pair_def check_paymon_def is_bad_price_def check_pair_price_def number_def truthy_def
        STOP_EXECUTION_TYPES_def oe_stop_sel) (simp_all add: oe_env_def oe_market_def)
  have v: "check_value oe_env oe_stop oe_stop_order = Inr ()"
    by (simp add: check_value_def oe_stop_order_def new_order_def total_price_def is_sell_def is_spot_def request_trade_type_def
        is_market_def minOrders_def maxOrders_spot_def STOP_EXECUTION_TYPES_def oe_stop_def oe_request_def oe_market_def
        oe_stop_quantize)
  show ?thesis
    by (simp add: prepare_order_def s n g oe_stop_sel number_def Let_def v [unfolded oe_stop_order_def]) (simp add: oe_stop_order_def)
qed

lemma create_order_links_example:
  "\<exists>d'. create_order oe_env 4 oe_stop (oe_db\<lparr>orders := [oe_pair]\<rparr>) = (Inr oe_stop_order, d')
     \<and> find_order (orders d') 3 = Some (oe_pair\<lparr>o_pair := Some 4\<rparr>)"
proof -
  have "order_fits (stored_order oe_stop_order)"
    using oe_stop_quantize oe_money by (simp add: order_fits_def stored_order_def oe_stop_sel)
  then obtain d' where d': "create_order oe_env 4 oe_stop (oe_db\<lparr>orders := [oe_pair]\<rparr>) = (Inr oe_stop_order, d')"
    by (simp add: create_order_def oe_stop_prepare check_funds_def insert_order_def oe_stop_sel)
  have "find_order (orders (oe_db\<lparr>orders := [oe_pair]\<rparr>)) (o_id oe_pair) = Some oe_pair"
    "4 \<notin> o_id ` set (orders (oe_db\<lparr>orders := [oe_pair]\<rparr>))" by (simp_all add: find_order_def oe_stop_sel)
  from create_order_links [OF d' oe_stop_sel(6) this] d' show ?thesis by (simp add: oe_stop_sel)
qed

end
