(* ===== verification/Order_Api.thy ===== *)
theory Order_Api
  imports Order_Entry_Example
begin

section \<open>The order endpoints\<close>

text \<open>
  \<open>OrderCreateMixin\<close> and its two views in \<^verbatim>\<open>src/core/exchange/market/views.py\<close>, with the
  parsers of \<^verbatim>\<open>src/core/exchange/market/parsers.py\<close>: the way from the values of a request to
  \<open>create_order\<close>. The environment adds to that of \<open>create_order\<close> what the views read of the
  user, the feature flags and the rate limits. A \<open>Choices\<close> object answers \<open>getattr\<close> with the
  value of an identifier or, for the name of one of its own attributes (\<open>ae_attribute\<close>), with
  an object that is no value of the enumeration; such an object makes every query raise.
  The ids of new rows are values of the table's sequence and parameters. Messages are left
  out of the responses.

  The lemmas show that no request can break the invariant of the tables, that a pair of
  orders is placed as a whole or not at all, which repeated requests are refused, and what
  an accepted order owes to its user's wallet.
\<close>

subsection \<open>Requests\<close>

record order_data =
  od_mode :: py_val
  od_type :: py_val
  od_execution :: py_val
  od_srcCurrency :: py_val
  od_dstCurrency :: py_val
  od_amount :: py_val
  od_price :: py_val
  od_stopPrice :: py_val
  od_stopLimitPrice :: py_val
  od_clientOrderId :: py_val

record api_env =
  ae_oe :: oenv
  ae_currency :: "string \<Rightarrow> nat option"
  ae_attribute :: "string \<Rightarrow> bool"
  ae_is_alpha :: "nat \<Rightarrow> bool"
  ae_new_coins :: "nat \<Rightarrow> bool"
  ae_closed_market :: "nat \<Rightarrow> nat \<Rightarrow> bool"
  ae_ratelimited :: bool
  ae_restricted :: "nat \<Rightarrow> bool"
  ae_eligible :: "nat \<Rightarrow> bool"
  ae_unsupported_app :: bool

datatype order_response =
    Ok_order order
  | Ok_orders "order list"
  | Failed string py_val

text \<open>What is published to the user's channel.\<close>

datatype publication = Pub_order order | Pub_fail string py_val

subsection \<open>Parsers of the market\<close>

definition getattr :: "(string \<Rightarrow> 'a option) \<Rightarrow> (string \<Rightarrow> bool) \<Rightarrow> string \<Rightarrow> 'a arg option" where
  "getattr ids attribute s =
     (case ids s of
        Some v \<Rightarrow> Some (Value v)
      | None \<Rightarrow> if attribute s then Some Unknown else None)"

definition as_arg :: "'a arg option \<Rightarrow> 'a arg" where
  "as_arg x = (case x of None \<Rightarrow> Missing | Some a \<Rightarrow> a)"

definition parse_order_mode :: "py_val \<Rightarrow> string result" where
  "parse_order_mode s =
     (if \<not> val_truthy s then Inr ''default''
      else let t = map lower_char (val_str s)
           in if t \<in> {''oco'', ''default''} then Inr t else Inl (ParseError ''Invalid mode''))"

definition ORDER_TYPES :: "(string \<times> order_type) list" where
  "ORDER_TYPES = [(''sell'', Sell), (''buy'', Buy)]"

definition EXECUTION_TYPES :: "(string \<times> execution_type) list" where
  "EXECUTION_TYPES = [(''limit'', Limit), (''market'', MarketExec), (''stop_limit'', StopLimit), (''stop_market'', StopMarket)]"

definition parse_order_type :: "(string \<Rightarrow> bool) \<Rightarrow> bool \<Rightarrow> py_val \<Rightarrow> order_type arg result" where
  "parse_order_type attribute required s =
     rbind (parse_choices (getattr (map_of ORDER_TYPES) attribute) required s) (\<lambda>x. Inr (as_arg x))"

definition parse_order_execution :: "(string \<Rightarrow> bool) \<Rightarrow> bool \<Rightarrow> py_val \<Rightarrow> execution_type arg result" where
  "parse_order_execution attribute required s =
     rbind (parse_choices (getattr (map_of EXECUTION_TYPES) attribute) required s) (\<lambda>x. Inr (as_arg x))"

definition parse_currency :: "api_env \<Rightarrow> bool \<Rightarrow> py_val \<Rightarrow> nat arg result" where
  "parse_currency env required s =
     rbind (parse_choices (getattr (ae_currency env) (ae_attribute env)) required s) (\<lambda>x. Inr (as_arg x))"

text \<open>The bounds of the columns of \<open>Order\<close>.\<close>

definition order_column :: "(nat \<times> nat) option" where
  "order_column = Some (ORDER_MAX_DIGITS, MONETARY_DECIMAL_PLACES)"

subsection \<open>Cleaning a request\<close>

text \<open>The keyword arguments for \<open>create_order\<close>; \<open>param1\<close> is left out in the first order of a pair.\<close>

record order_fields =
  of_src :: nat
  of_dst :: nat
  of_user :: nat
  of_type :: "order_type arg"
  of_amount :: rat
  of_price :: rat
  of_client_order_id :: "string option"
  of_execution :: "execution_type arg"
  of_param1 :: "rat option option"

definition query_market :: "api_env \<Rightarrow> nat arg \<Rightarrow> nat arg \<Rightarrow> market result" where
  "query_market env src dst =
     (case (src, dst) of
        (Value s, Value t) \<Rightarrow>
          (case get_for (ae_oe env) s t of None \<Rightarrow> Inl (ApiError ''InvalidMarketPair'') | Some m \<Rightarrow> Inr m)
      | _ \<Rightarrow> Inl TypeError)"

definition clean_price :: "execution_type arg \<Rightarrow> rat option \<Rightarrow> rat result" where
  "clean_price ex price =
     (if \<not> truthy price \<or> money_is_zero (the price)
      then if ex \<in> Value ` set MARKET_EXECUTION_TYPES then Inr 0 else Inl (ApiError ''InvalidOrderPrice'')
      else Inr (the price))"

definition clean_aux_price :: "bool \<Rightarrow> rat option \<Rightarrow> unit result" where
  "clean_aux_price is_oco aux_price =
     (if is_oco \<and> (\<not> truthy aux_price \<or> money_is_zero (the aux_price)) then Inl (ApiError ''InvalidOrderPrice'') else Inr ())"

definition open_market :: "api_env \<Rightarrow> nat \<Rightarrow> nat arg \<Rightarrow> nat arg \<Rightarrow> market result" where
  "open_market env user src dst =
     rbind (query_market env src dst) (\<lambda>market.
       if \<not> mk_is_active market then Inl (ApiError ''MarketClosed'')
       else if ae_is_alpha env (mk_id market) \<and> \<not> ae_new_coins env user then Inl (ApiError ''MarketClosed'')
       else Inr market)"

definition stored_client_id :: "py_val \<Rightarrow> string option" where
  "stored_client_id v = (if v = PNone then None else Some (val_str v))"

definition SIMILAR_PERIOD :: int where "SIMILAR_PERIOD = 10 * 1000000"

definition similar_order :: "datetime \<Rightarrow> order_fields \<Rightarrow> bool \<Rightarrow> order \<Rightarrow> bool" where
  "similar_order now fs single x \<longleftrightarrow>
     o_trade x = Spot \<and> now - SIMILAR_PERIOD \<le> o_created_at x
     \<and> o_src x = of_src fs \<and> o_dst x = of_dst fs \<and> o_user x = of_user fs \<and> Value (o_type x) = of_type fs
     \<and> o_amount x = of_amount fs \<and> (of_price fs = 0 \<or> o_price x = of_price fs)
     \<and> o_client_order_id x = of_client_order_id fs
     \<and> (of_execution fs = Missing \<or> Value (o_execution x) = of_execution fs)
     \<and> (case of_param1 fs of None \<Rightarrow> True | Some p \<Rightarrow> o_param1 x = p)
     \<and> (o_pair x = None) = single"

definition is_duplicate :: "datetime \<Rightarrow> order_fields list \<Rightarrow> mdb \<Rightarrow> bool result" where
  "is_duplicate now fss d =
     (let fs = hd fss
      in if of_type fs = Unknown \<or> of_execution fs = Unknown then Inl TypeError
         else Inr (list_ex (similar_order now fs (length fss = 1)) (orders d)))"

text \<open>One order, or a limit order and the stop order of its pair.\<close>

definition orders_fields :: "bool \<Rightarrow> rat option \<Rightarrow> order_fields \<Rightarrow> order_fields list" where
  "orders_fields is_oco aux_price fs =
     (if is_oco
      then [fs\<lparr>of_execution := Value Limit, of_param1 := None\<rparr>,
            fs\<lparr>of_execution := Value StopLimit, of_price := the aux_price, of_client_order_id := None\<rparr>]
      else [fs])"

definition prepare_fields :: "api_env \<Rightarrow> nat \<Rightarrow> order_data \<Rightarrow> order_fields list result" where
  "prepare_fields env user od =
     rbind (parse_order_mode (od_mode od)) (\<lambda>mode.
     rbind (parse_order_type (ae_attribute env) True (od_type od)) (\<lambda>order_type.
     rbind (parse_order_execution (ae_attribute env) False (od_execution od)) (\<lambda>execution_type.
     rbind (parse_currency env True (od_srcCurrency od)) (\<lambda>src.
     rbind (parse_currency env True (od_dstCurrency od)) (\<lambda>dst.
     rbind (parse_money True False order_column (od_amount od)) (\<lambda>amount.
     rbind (parse_money False False order_column (od_price od)) (\<lambda>price.
     rbind (parse_client_order_id False (od_clientOrderId od)) (\<lambda>client_order_id.
     rbind (if execution_type \<in> Value ` set STOP_EXECUTION_TYPES \<or> mode = ''oco''
            then parse_money True False order_column (od_stopPrice od) else Inr None) (\<lambda>param1.
     rbind (if mode = ''oco'' then parse_money True False order_column (od_stopLimitPrice od) else Inr None) (\<lambda>aux_price.
     rbind (clean_price execution_type price) (\<lambda>price.
     rbind (clean_aux_price (mode = ''oco'') aux_price) (\<lambda>_.
     rbind (open_market env user src dst) (\<lambda>market.
       Inr (orders_fields (mode = ''oco'') aux_price
                 \<lparr>of_src = mk_src market, of_dst = mk_dst market, of_user = user, of_type = order_type,
                  of_amount = the amount, of_price = price, of_client_order_id = stored_client_id client_order_id,
                  of_execution = execution_type, of_param1 = Some param1\<rparr>))))))))))))))"

definition clean_order :: "api_env \<Rightarrow> nat \<Rightarrow> order_data \<Rightarrow> bool \<Rightarrow> mdb \<Rightarrow> order_fields list result" where
  "clean_order env user od is_pro d =
     rbind (prepare_fields env user od) (\<lambda>fss.
       if is_pro then Inr fss
       else rbind (is_duplicate (oe_now (ae_oe env)) fss d) (\<lambda>dup.
              if dup then Inl (ApiError ''DuplicateOrder'') else Inr fss))"

subsection \<open>Placing the orders\<close>

definition request_of :: "order_fields \<Rightarrow> order option \<Rightarrow> nat \<Rightarrow> order_request" where
  "request_of fs pair channel =
     \<lparr>rq_user = of_user fs, rq_type = of_type fs, rq_market = None, rq_src = of_src fs, rq_dst = of_dst fs,
      rq_execution = of_execution fs, rq_amount = Some (of_amount fs), rq_price = Some (of_price fs),
      rq_param1 = (case of_param1 fs of None \<Rightarrow> None | Some p \<Rightarrow> p), rq_channel = Some channel, rq_pair = pair,
      rq_margin = False, rq_validated = False, rq_allow_small = False,
      rq_client_order_id = of_client_order_id fs, rq_credit = False, rq_debit = False\<rparr>"

definition api_create_order ::
    "api_env \<Rightarrow> nat \<Rightarrow> order_fields \<Rightarrow> order option \<Rightarrow> nat \<Rightarrow> mdb \<Rightarrow> (order \<times> mdb) result" where
  "api_create_order env new_id fs pair channel d =
     (case create_order (ae_oe env) new_id (request_of fs pair channel) d of
        (Inl (Rejected err), _) \<Rightarrow> Inl (ApiError err)
      | (Inl (Raised e), _) \<Rightarrow> Inl e
      | (Inr o1, d1) \<Rightarrow> Inr (o1, d1))"

text \<open>The next order of the request is the pair of this one, whose object learns its id.\<close>

fun create_each ::
    "api_env \<Rightarrow> nat \<Rightarrow> (nat \<Rightarrow> nat) \<Rightarrow> order option \<Rightarrow> order_fields list \<Rightarrow> mdb \<Rightarrow> (order list \<times> mdb) result" where
  "create_each env channel ids pair [] d = Inr ([], d)"
| "create_each env channel ids pair (fs # fss) d =
     rbind (api_create_order env (ids 0) fs pair channel d) (\<lambda>(o1, d1).
     rbind (create_each env channel (\<lambda>k. ids (Suc k)) (Some o1) fss d1) (\<lambda>(os, d2).
       Inr ((case os of [] \<Rightarrow> o1 | o2 # _ \<Rightarrow> o1\<lparr>o_pair := Some (o_id o2)\<rparr>) # os, d2)))"

text \<open>The block is atomic: an exception undoes the orders that were placed.\<close>

definition create_orders ::
    "api_env \<Rightarrow> nat \<Rightarrow> (nat \<Rightarrow> nat) \<Rightarrow> order_fields list \<Rightarrow> mdb \<Rightarrow> order list result \<times> mdb" where
  "create_orders env channel ids fss d =
     (if ae_closed_market env (of_src (hd fss)) (of_dst (hd fss)) then (Inl (ApiError ''MarketTemporaryClosed''), d)
      else if ae_ratelimited env then (Inl Ratelimited, d)
      else case create_each env channel ids None fss d of
             Inl e \<Rightarrow> (Inl e, d)
           | Inr (os, d1) \<Rightarrow> (Inr os, d1))"

definition publications :: "order_response \<Rightarrow> py_val \<Rightarrow> publication list" where
  "publications r client_order_id =
     (case r of
        Ok_orders os \<Rightarrow> map Pub_order os
      | Ok_order o1 \<Rightarrow> [Pub_order o1]
      | Failed code c \<Rightarrow> if val_truthy client_order_id then [Pub_fail code c] else [])"

definition build_order_response ::
    "api_env \<Rightarrow> nat \<Rightarrow> order_data \<Rightarrow> nat \<Rightarrow> bool \<Rightarrow> (nat \<Rightarrow> nat) \<Rightarrow> mdb
     \<Rightarrow> (order_response \<times> publication list) result \<times> mdb" where
  "build_order_response env user od channel is_pro ids d =
     (let (r, d') = (case clean_order env user od is_pro d of
                       Inl e \<Rightarrow> (Inl e, d)
                     | Inr fss \<Rightarrow> create_orders env channel ids fss d);
          response = (case r of
             Inr [o1] \<Rightarrow> Inr (Ok_order o1)
           | Inr os \<Rightarrow> Inr (Ok_orders os)
           | Inl (ApiError code) \<Rightarrow> Inr (Failed code (od_clientOrderId od))
           | Inl (ParseError msg) \<Rightarrow> Inr (Failed ''ParseError'' (od_clientOrderId od))
           | Inl e \<Rightarrow> Inl e)
      in (rbind response (\<lambda>x. Inr (x, publications x (od_clientOrderId od))), d'))"

subsection \<open>The views\<close>

definition CHANNEL_web_v1 :: nat where "CHANNEL_web_v1 = 41"
definition CHANNEL_web_v2 :: nat where "CHANNEL_web_v2 = 42"

definition get_channel :: "py_val \<Rightarrow> string option \<Rightarrow> nat" where
  "get_channel client user_agent =
     (if client = PStr ''web_v1'' then CHANNEL_web_v1
      else if client = PStr ''web_v2'' then CHANNEL_web_v2
      else let ua = (if user_agent \<in> {None, Some []} then ''unknown'' else the user_agent)
           in detect_order_channel (Some ua) False)"

definition check_user :: "api_env \<Rightarrow> nat \<Rightarrow> unit result" where
  "check_user env user =
     (if ae_restricted env user then Inl (ApiError ''TradingUnavailable'')
      else if \<not> ae_eligible env user then Inl (ApiError ''TradeLimitation'') else Inr ())"

definition order_create_post ::
    "api_env \<Rightarrow> nat \<Rightarrow> py_val \<Rightarrow> py_val \<Rightarrow> string option \<Rightarrow> order_data \<Rightarrow> (nat \<Rightarrow> nat) \<Rightarrow> mdb
     \<Rightarrow> (order_response \<times> publication list) result \<times> mdb" where
  "order_create_post env user pro client user_agent od ids d =
     (case parse_bool False pro of
        Inl e \<Rightarrow> (Inl e, d)
      | Inr is_pro \<Rightarrow>
          if ae_unsupported_app env then (Inl (ApiError ''PleaseUpdateApp''), d)
          else case check_user env user of
                 Inl e \<Rightarrow> (Inl e, d)
               | Inr _ \<Rightarrow> build_order_response env user od (get_channel client user_agent) (is_pro = Some True) ids d)"

text \<open>
  The loop of the batch: the k-th item finds the environment \<open>envs k\<close> and draws the ids
  \<open>ids k\<close>. A rate limit ends the loop, another exception is answered as unknown.
\<close>

fun batch_loop ::
    "(nat \<Rightarrow> api_env) \<Rightarrow> nat \<Rightarrow> nat \<Rightarrow> bool \<Rightarrow> (nat \<Rightarrow> nat \<Rightarrow> nat) \<Rightarrow> order_data list \<Rightarrow> mdb
     \<Rightarrow> (order_response list \<times> publication list) \<times> mdb" where
  "batch_loop envs user channel is_pro ids [] d = (([], []), d)"
| "batch_loop envs user channel is_pro ids (od # ods) d =
     (let (r, d1) = build_order_response (envs 0) user od channel is_pro (ids 0) d
      in if r = Inl Ratelimited then (([], []), d1)
         else let (x, ps) = (case r of Inr y \<Rightarrow> y | Inl e \<Rightarrow> (Failed ''Unknown'' (od_clientOrderId od), []));
                  ((xs, qs), d2) = batch_loop (\<lambda>k. envs (Suc k)) user channel is_pro (\<lambda>k. ids (Suc k)) ods d1
              in ((x # xs, ps @ qs), d2))"

definition order_batch_create_post ::
    "(nat \<Rightarrow> api_env) \<Rightarrow> nat \<Rightarrow> py_val \<Rightarrow> py_val \<Rightarrow> string option \<Rightarrow> order_data list \<Rightarrow> (nat \<Rightarrow> nat \<Rightarrow> nat) \<Rightarrow> mdb
     \<Rightarrow> (order_response list \<times> publication list) result \<times> mdb" where
  "order_batch_create_post envs user pro client user_agent data ids d =
     (case parse_bool False pro of
        Inl e \<Rightarrow> (Inl e, d)
      | Inr is_pro \<Rightarrow>
          (case check_user (envs 0) user of
             Inl e \<Rightarrow> (Inl e, d)
           | Inr _ \<Rightarrow>
               if data = [] then (Inl (ParseError ''Missing list value''), d)
               else let (r, d') = batch_loop envs user (get_channel client user_agent) (is_pro = Some True) ids data d
                    in (Inr r, d')))"

subsection \<open>What cleaning establishes\<close>

definition sane_markets :: "oenv \<Rightarrow> bool" where
  "sane_markets env \<longleftrightarrow> (\<forall>a b. 0 \<le> fst (oe_price_range env a b) \<and> 0 \<le> snd (oe_price_range env a b))"

definition clean_fields :: "nat \<Rightarrow> order_fields \<Rightarrow> bool" where
  "clean_fields user fs \<longleftrightarrow> of_user fs = user \<and> 0 < of_amount fs \<and> 0 \<le> of_price fs
     \<and> (case of_param1 fs of None \<Rightarrow> True | Some p \<Rightarrow> nonneg p)"

lemma clean_price_nonneg:
  assumes "clean_price ex price = Inr p"
  shows "0 \<le> p"
  using assms not_money_is_zero_pos [of "the price"]
  by (cases "\<not> truthy price \<or> money_is_zero (the price)") (auto simp: clean_price_def split: if_splits)

lemma query_market_Inr: "query_market env src dst = Inr m \<Longrightarrow> src = Value (mk_src m) \<and> dst = Value (mk_dst m)"
  by (auto simp: query_market_def get_for_def find_Some_iff split: arg.split_asm option.split_asm)

text \<open>Every amount and price that leaves the parsers is acceptable for \<open>create_order\<close>.\<close>

lemma prepare_fields_Inr:
  assumes "prepare_fields env user od = Inr fss"
  obtains is_oco aux fs where "clean_fields user fs" "fss = orders_fields is_oco aux fs" "is_oco \<Longrightarrow> \<exists>v. aux = Some v \<and> 0 < v"
proof -
  obtain mode tp ex amount price0 cid param1 aux price and m :: market where
    a: "parse_money True False order_column (od_amount od) = Inr amount"
    and st: "(if ex \<in> Value ` set STOP_EXECUTION_TYPES \<or> mode = ''oco'' then parse_money True False order_column (od_stopPrice od)
              else Inr None) = Inr param1"
    and ax: "(if mode = ''oco'' then parse_money True False order_column (od_stopLimitPrice od) else Inr None) = Inr aux"
    and pr: "clean_price ex price0 = Inr price"
    and fss: "orders_fields (mode = ''oco'') aux \<lparr>of_src = mk_src m, of_dst = mk_dst m, of_user = user, of_type = tp,
                     of_amount = the amount, of_price = price, of_client_order_id = stored_client_id cid,
                     of_execution = ex, of_param1 = Some param1\<rparr> = fss"
    using assms unfolding prepare_fields_def rbind_eq_Inr_iff sum.inject
    by (elim exE conjE) (rule that)
  have "\<exists>v. amount = Some v \<and> 0 < v" by (rule parse_money_required [OF a])
  moreover have "nonneg param1"
    using st parse_money_required [of order_column "od_stopPrice od" param1] by (auto simp: nonneg_def split: if_split_asm)
  ultimately have "clean_fields user \<lparr>of_src = mk_src m, of_dst = mk_dst m, of_user = user, of_type = tp,
                     of_amount = the amount, of_price = price, of_client_order_id = stored_client_id cid,
                     of_execution = ex, of_param1 = Some param1\<rparr>"
    using clean_price_nonneg [OF pr] by (auto simp: clean_fields_def)
  moreover have "mode = ''oco'' \<Longrightarrow> \<exists>v. aux = Some v \<and> 0 < v" using ax parse_money_required by (auto split: if_split_asm)
  ultimately show ?thesis using that [OF _ fss [symmetric]] by blast
qed

lemma orders_fields_clean:
  assumes "clean_fields user fs" "is_oco \<Longrightarrow> \<exists>v. aux = Some v \<and> 0 < v"
  shows "list_all (clean_fields user) (orders_fields is_oco aux fs)"
  using assms by (auto simp: orders_fields_def clean_fields_def)

lemma clean_order_Inr:
  "clean_order env user od is_pro d = Inr fss \<longleftrightarrow>
     prepare_fields env user od = Inr fss \<and> (is_pro \<or> is_duplicate (oe_now (ae_oe env)) fss d = Inr False)"
  by (auto simp: clean_order_def rbind_eq_Inr_iff)

lemma request_of_valid: "clean_fields user fs \<Longrightarrow> valid_request env (request_of fs pair ch)"
  by (auto simp: valid_request_def request_of_def clean_fields_def nonneg_def split: option.split)

lemma api_create_order_Inr:
  "api_create_order env i fs pair ch d = Inr (o1, d1) \<longleftrightarrow> create_order (ae_oe env) i (request_of fs pair ch) d = (Inr o1, d1)"
  by (auto simp: api_create_order_def split: prod.split sum.split refusal.split)

subsection \<open>The tables\<close>

text \<open>Values of the sequence that the table does not hold yet.\<close>

definition fresh_ids :: "(nat \<Rightarrow> nat) \<Rightarrow> mdb \<Rightarrow> bool" where
  "fresh_ids ids d \<longleftrightarrow> inj ids \<and> range ids \<inter> o_id ` set (orders d) = {}"

lemma fresh_ids_next:
  assumes "fresh_ids ids d" "map o_id (orders d1) = map o_id (orders d) @ [ids 0]"
  shows "fresh_ids (\<lambda>k. ids (Suc k)) d1"
proof -
  have "o_id ` set (orders d1) = insert (ids 0) (o_id ` set (orders d))"
    using arg_cong [OF assms(2), of set] by auto
  moreover have "inj (\<lambda>k. ids (Suc k))" "ids 0 \<notin> range (\<lambda>k. ids (Suc k))"
    using assms(1) by (auto simp: fresh_ids_def inj_def)
  moreover have "range (\<lambda>k. ids (Suc k)) \<inter> o_id ` set (orders d) = {}" using assms(1) unfolding fresh_ids_def by blast
  ultimately show ?thesis by (simp add: fresh_ids_def)
qed

lemma create_order_withdraws:
  assumes "create_order env i rq d = (r, d')"
  shows "withdraws d' = withdraws d"
proof (cases "prepare_order env i rq")
  case (Inr o1)
  obtain u d1 where f: "check_funds env rq o1 d = (u, d1)" by (rule prod.exhaust)
  have "withdraws d1 = withdraws d" using check_funds_db(1) [OF f] by (metis db.select_convs db.surjective db.update_convs)
  moreover have "withdraws d' = withdraws d1"
    using assms Inr f by (auto simp: create_order_def insert_order_def split: sum.split_asm if_splits)
  ultimately show ?thesis by simp
qed (use assms in \<open>simp add: create_order_def\<close>)

lemma create_each_keeps:
  assumes "create_each env ch ids pair fss d = Inr (os, d')" "sound_db d" "fresh_ids ids d"
    "list_all (clean_fields user) fss" "sane_markets (ae_oe env)"
  shows "sound_db d' \<and> transactions d' = transactions d \<and> trades d' = trades d \<and> withdraws d' = withdraws d"
  using assms
proof (induction fss arbitrary: ids pair d os)
  case (Cons fs fss)
  from Cons.prems(1) obtain o1 d1 os1 where
    c: "create_order (ae_oe env) (ids 0) (request_of fs pair ch) d = (Inr o1, d1)"
    and r: "create_each env ch (\<lambda>k. ids (Suc k)) (Some o1) fss d1 = Inr (os1, d')"
    by (auto simp: rbind_eq_Inr_iff api_create_order_Inr)
  have "ids 0 \<notin> o_id ` set (orders d)" using Cons.prems(3) by (auto simp: fresh_ids_def)
  moreover have "valid_request (ae_oe env) (request_of fs pair ch)" by (rule request_of_valid [of user]) (use Cons.prems(4) in simp)
  ultimately have "sound_db d1 \<and> transactions d1 = transactions d \<and> trades d1 = trades d"
    using create_order_keeps [OF c Cons.prems(2)] Cons.prems(5) unfolding sane_markets_def by blast
  moreover have "withdraws d1 = withdraws d" by (rule create_order_withdraws [OF c])
  moreover have "fresh_ids (\<lambda>k. ids (Suc k)) d1" by (rule fresh_ids_next [OF Cons.prems(3) create_order_ids [OF c]])
  ultimately show ?case using Cons.IH [OF r] Cons.prems(4,5) by simp
qed simp

text \<open>A response with an order comes from the block, any other leaves the tables as they were.\<close>

lemma build_order_response_cases:
  assumes "build_order_response env user od ch is_pro ids d = (r, d')"
  obtains (placed) fss os where "prepare_fields env user od = Inr fss" "create_each env ch ids None fss d = Inr (os, d')"
      "is_pro \<or> is_duplicate (oe_now (ae_oe env)) fss d = Inr False"
      "r = (let x = (case os of [o1] \<Rightarrow> Ok_order o1 | _ \<Rightarrow> Ok_orders os) in Inr (x, publications x (od_clientOrderId od)))"
    | (refused) "d' = d" "\<forall>o1 ps. r \<noteq> Inr (Ok_order o1, ps)" "\<forall>os ps. r \<noteq> Inr (Ok_orders os, ps)"
proof -
  obtain q d1 where q: "(case clean_order env user od is_pro d of Inl e \<Rightarrow> (Inl e, d)
                     | Inr fss \<Rightarrow> create_orders env ch ids fss d) = (q, d1)" by (rule prod.exhaust)
  have d1: "d1 = d'" using assms q by (simp add: build_order_response_def Let_def)
  show ?thesis
  proof (cases q)
    case (Inl e)
    have "d1 = d" using q Inl by (auto simp: create_orders_def split: sum.split_asm if_splits prod.split_asm)
    moreover have "r = (case e of ApiError c \<Rightarrow> Inr (Failed c (od_clientOrderId od), publications (Failed c (od_clientOrderId od)) (od_clientOrderId od))
        | ParseError m \<Rightarrow> Inr (Failed ''ParseError'' (od_clientOrderId od), publications (Failed ''ParseError'' (od_clientOrderId od)) (od_clientOrderId od))
        | _ \<Rightarrow> Inl e)"
      using assms q Inl by (cases e) (simp_all add: build_order_response_def Let_def)
    ultimately show ?thesis using refused d1 by (cases e) auto
  next
    case (Inr os)
    from q Inr obtain fss where c: "clean_order env user od is_pro d = Inr fss"
      and e: "create_each env ch ids None fss d = Inr (os, d1)"
      by (auto simp: create_orders_def split: sum.split_asm if_splits prod.split_asm)
    have "r = (let x = (case os of [o1] \<Rightarrow> Ok_order o1 | _ \<Rightarrow> Ok_orders os) in Inr (x, publications x (od_clientOrderId od)))"
      using assms q Inr by (auto simp: build_order_response_def Let_def split: list.split)
    with placed [of fss os] c e d1 show ?thesis by (simp add: clean_order_Inr)
  qed
qed

lemma build_order_response_keeps:
  assumes "build_order_response env user od ch is_pro ids d = (r, d')" "sound_db d" "fresh_ids ids d" "sane_markets (ae_oe env)"
  shows "sound_db d' \<and> transactions d' = transactions d \<and> trades d' = trades d \<and> withdraws d' = withdraws d"
  using assms(1)
proof (cases rule: build_order_response_cases)
  case (placed fss os)
  obtain is_oco aux fs where "clean_fields user fs" "fss = orders_fields is_oco aux fs" "is_oco \<Longrightarrow> \<exists>v. aux = Some v \<and> 0 < v"
    using prepare_fields_Inr [OF placed(1)] by metis
  then have "list_all (clean_fields user) fss" using orders_fields_clean by blast
  from create_each_keeps [OF placed(2) assms(2,3) this assms(4)] show ?thesis .
qed (use assms in simp)

lemma order_create_post_cases:
  assumes "order_create_post env user pro client ua od ids d = (r, d')"
  obtains "d' = d" "\<exists>e. r = Inl e" | is_pro where "build_order_response env user od (get_channel client ua) is_pro ids d = (r, d')"
  using assms by (auto simp: order_create_post_def split: sum.split_asm if_splits)

lemma order_create_post_keeps:
  assumes "order_create_post env user pro client ua od ids d = (r, d')"
    and "sound_db d" "fresh_ids ids d" "sane_markets (ae_oe env)"
  shows "sound_db d' \<and> transactions d' = transactions d \<and> trades d' = trades d \<and> withdraws d' = withdraws d"
  using order_create_post_cases [OF assms(1)] build_order_response_keeps assms(2-4) by metis

text \<open>The values that the items of a batch draw.\<close>

definition fresh_batch :: "(nat \<Rightarrow> nat \<Rightarrow> nat) \<Rightarrow> mdb \<Rightarrow> bool" where
  "fresh_batch ids d \<longleftrightarrow> (\<forall>k l m n. ids k m = ids l n \<longrightarrow> k = l \<and> m = n) \<and> (\<forall>k m. ids k m \<notin> o_id ` set (orders d))"

lemma create_each_ids:
  "create_each env ch ids pair fss d = Inr (os, d') \<Longrightarrow> o_id ` set (orders d') \<subseteq> range ids \<union> o_id ` set (orders d)"
proof (induction fss arbitrary: ids pair d os)
  case (Cons fs fss)
  then obtain o1 d1 os1 where
    c: "create_order (ae_oe env) (ids 0) (request_of fs pair ch) d = (Inr o1, d1)"
    and r: "create_each env ch (\<lambda>k. ids (Suc k)) (Some o1) fss d1 = Inr (os1, d')"
    by (auto simp: rbind_eq_Inr_iff api_create_order_Inr)
  have "o_id ` set (orders d1) = insert (ids 0) (o_id ` set (orders d))"
    using arg_cong [OF create_order_ids [OF c], of set] by auto
  with Cons.IH [OF r] show ?case by auto
qed simp

lemma build_order_response_ids:
  assumes "build_order_response env user od ch is_pro ids d = (r, d')"
  shows "o_id ` set (orders d') \<subseteq> range ids \<union> o_id ` set (orders d)"
  using assms
proof (cases rule: build_order_response_cases)
  case (placed fss os)
  from create_each_ids [OF placed(2)] show ?thesis .
qed simp

lemma batch_loop_keeps:
  assumes "batch_loop envs user ch is_pro ids ods d = (r, d')" "sound_db d" "fresh_batch ids d" "\<And>k. sane_markets (ae_oe (envs k))"
  shows "sound_db d' \<and> withdraws d' = withdraws d"
  using assms
proof (induction ods arbitrary: envs ids d r d')
  case (Cons od ods)
  obtain q d1 where q: "build_order_response (envs 0) user od ch is_pro (ids 0) d = (q, d1)" by (rule prod.exhaust)
  obtain r2 d2 where r2: "batch_loop (\<lambda>k. envs (Suc k)) user ch is_pro (\<lambda>k. ids (Suc k)) ods d1 = (r2, d2)" by (rule prod.exhaust)
  have "fresh_ids (ids 0) d" using Cons.prems(3) unfolding fresh_batch_def fresh_ids_def inj_def by blast
  then have k: "sound_db d1 \<and> withdraws d1 = withdraws d" using build_order_response_keeps [OF q Cons.prems(2)] Cons.prems(4) by blast
  have "ids (Suc i) m \<notin> o_id ` set (orders d1)" for i m
  proof
    assume "ids (Suc i) m \<in> o_id ` set (orders d1)"
    then consider "ids (Suc i) m \<in> range (ids 0)" | "ids (Suc i) m \<in> o_id ` set (orders d)"
      using build_order_response_ids [OF q] by blast
    then show False using Cons.prems(3) unfolding fresh_batch_def by cases (blast, blast)
  qed
  moreover have "\<forall>k l m n. ids (Suc k) m = ids (Suc l) n \<longrightarrow> k = l \<and> m = n"
    using Cons.prems(3) unfolding fresh_batch_def by (metis Suc_inject)
  ultimately have f: "fresh_batch (\<lambda>k. ids (Suc k)) d1" unfolding fresh_batch_def by blast
  from Cons.IH [OF r2 conjunct1 [OF k] f Cons.prems(4)] k have "sound_db d2 \<and> withdraws d2 = withdraws d" by simp
  moreover have "d' = d1 \<or> d' = d2"
    using Cons.prems(1) q r2 by (auto simp: Let_def split: if_splits prod.split_asm)
  ultimately show ?case using k by blast
qed simp

lemma order_batch_keeps:
  assumes "order_batch_create_post envs user pro client ua ods ids d = (r, d')" "sound_db d" "fresh_batch ids d"
    "\<And>k. sane_markets (ae_oe (envs k))"
  shows "sound_db d' \<and> withdraws d' = withdraws d"
  using assms(1,2) batch_loop_keeps [OF _ assms(2-4)]
  by (auto simp: order_batch_create_post_def Let_def split: sum.split_asm if_splits prod.split_asm)

text \<open>C7: whatever values a request to place orders carries, the tables stay sound and no transaction
  and no trade is posted.\<close>

theorem order_api_sound:
  assumes "order_create_post env user pro client ua od ids d = (r, d')"
    and "sound_db d" "fresh_ids ids d" "sane_markets (ae_oe env)"
  shows "sound_db d' \<and> transactions d' = transactions d \<and> trades d' = trades d"
  using order_create_post_keeps [OF assms] by blast

subsection \<open>What is placed\<close>

lemma check_parameters_Inr:
  assumes "check_parameters env rq = Inr (m, tp, ex)" "rq_market rq = None"
  shows "rq_type rq = Value tp \<and> (rq_execution rq = Value ex \<or> rq_execution rq = Missing \<and> ex = Limit)
    \<and> get_for env (rq_src rq) (rq_dst rq) = Some m"
  using assms
  by (cases "rq_type rq"; cases "rq_execution rq") (auto simp: check_parameters_def split: option.split_asm if_splits)

text \<open>The row that \<open>create_order\<close> adds, in terms of the request.\<close>

lemma create_order_row:
  assumes c: "create_order env i (request_of fs pair ch) d = (Inr o1, d')"
  shows "orders d' = (case pair of None \<Rightarrow> orders d
      | Some q \<Rightarrow> put_order (\<lambda>x. x\<lparr>o_pair := Some i\<rparr>) (o_id q) (orders d)) @ [stored_order o1]"
    "o_id o1 = i" "o_pair o1 = map_option o_id pair" "o_user o1 = of_user fs" "o_channel o1 = Some ch" "o_trade o1 = Spot"
    "o_created_at o1 = oe_now env" "o_client_order_id o1 = of_client_order_id fs" "Value (o_type o1) = of_type fs"
    "of_execution fs = Value (o_execution o1) \<or> of_execution fs = Missing \<and> o_execution o1 = Limit"
    "o_src o1 = of_src fs" "o_dst o1 = of_dst fs"
proof -
  from create_order_Inr [OF c] obtain d1 u where p: "prepare_order env i (request_of fs pair ch) = Inr o1"
    and f: "check_funds env (request_of fs pair ch) o1 d = (Inr u, d1)"
    and s: "insert_order (request_of fs pair ch) o1 d1 = (Inr o1, d')" .
  obtain m tp ex amount price where cp: "check_parameters env (request_of fs pair ch) = Inr (m, tp, ex)"
    and o1: "o1 = new_order env i (request_of fs pair ch) m tp ex amount price"
    by (rule prepare_order_Inr [OF p]) blast
  have "rq_market (request_of fs pair ch) = None" by (simp add: request_of_def)
  note q = check_parameters_Inr [OF cp this]
  have m: "mk_src m = of_src fs" "mk_dst m = of_dst fs" using q by (auto simp: get_for_def find_Some_iff request_of_def)
  show fields: "o_id o1 = i" "o_pair o1 = map_option o_id pair" "o_user o1 = of_user fs" "o_channel o1 = Some ch" "o_trade o1 = Spot"
    "o_created_at o1 = oe_now env" "o_client_order_id o1 = of_client_order_id fs" "Value (o_type o1) = of_type fs"
    "of_execution fs = Value (o_execution o1) \<or> of_execution fs = Missing \<and> o_execution o1 = Limit"
    "o_src o1 = of_src fs" "o_dst o1 = of_dst fs"
    using q m by (auto simp: o1 new_order_def request_of_def request_trade_type_def)
  show "orders d' = (case pair of None \<Rightarrow> orders d
      | Some q \<Rightarrow> put_order (\<lambda>x. x\<lparr>o_pair := Some i\<rparr>) (o_id q) (orders d)) @ [stored_order o1]"
    using insert_order_Inr(3) [OF s] check_funds_db(3) [OF f] fields by (simp split: option.split)
qed

lemma put_order_fresh: "i \<notin> o_id ` set os \<Longrightarrow> put_order f i os = os"
  unfolding put_order_def by (induction os) auto

lemma find_order_fresh: "i \<notin> o_id ` set os \<Longrightarrow> o_id x = i \<Longrightarrow> find_order (os @ [x]) i = Some x"
  by (induction os) (auto simp: find_order_def)

lemma stored_order_pair: "stored_order (a\<lparr>o_pair := p\<rparr>) = (stored_order a)\<lparr>o_pair := p\<rparr>" "o_id (stored_order a) = o_id a"
  by (simp_all add: stored_order_def)

lemma create_each_one:
  assumes "create_each env ch ids None [fs] d = Inr (os, d')"
  shows "\<exists>a. os = [a] \<and> create_order (ae_oe env) (ids 0) (request_of fs None ch) d = (Inr a, d')"
  using assms by (auto simp: rbind_eq_Inr_iff api_create_order_Inr)

lemma create_each_two:
  assumes "create_each env ch ids None [f1, f2] d = Inr (os, d')"
  obtains a b d1 where "os = [a\<lparr>o_pair := Some (o_id b)\<rparr>, b]"
    "create_order (ae_oe env) (ids 0) (request_of f1 None ch) d = (Inr a, d1)"
    "create_order (ae_oe env) (ids 1) (request_of f2 (Some a) ch) d1 = (Inr b, d')"
  using assms by (auto simp: rbind_eq_Inr_iff api_create_order_Inr)

text \<open>The orders of a pair are two rows that point to each other.\<close>

definition linked_pair :: "order \<Rightarrow> order \<Rightarrow> bool" where
  "linked_pair a b \<longleftrightarrow> o_pair a = Some (o_id b) \<and> o_pair b = Some (o_id a) \<and> o_amount b = o_amount a
     \<and> o_execution a = Limit \<and> o_execution b = StopLimit
     \<and> (if is_sell b then o_price b < o_price a else o_price a < o_price b)"

lemma create_pair_rows:
  assumes a: "create_order env (ids 0) (request_of f1 None ch) d = (Inr a, d1)"
    and b: "create_order env (ids 1) (request_of f2 (Some a) ch) d1 = (Inr b, d')"
    and ids: "fresh_ids ids d" and ex: "of_execution f2 = Value StopLimit"
  shows "orders d' = orders d @ [stored_order (a\<lparr>o_pair := Some (o_id b)\<rparr>), stored_order b]
    \<and> linked_pair (a\<lparr>o_pair := Some (o_id b)\<rparr>) b"
proof -
  note ra = create_order_row [OF a] and rb = create_order_row [OF b]
  have i: "ids 0 \<notin> o_id ` set (orders d)" "ids 1 \<notin> o_id ` set (orders d)" "ids 1 \<noteq> ids 0"
    using ids unfolding fresh_ids_def inj_def by (blast, blast, metis one_neq_zero)
  have d1: "orders d1 = orders d @ [stored_order a]" using ra(1) by simp
  have "orders d' = orders d @ [stored_order (a\<lparr>o_pair := Some (o_id b)\<rparr>), stored_order b]"
    using rb(1,2) ra(2) i(1) put_order_fresh [of "ids 0" "orders d"]
    by (simp add: d1 put_order_def stored_order_pair)
  moreover have "find_order (orders d1) (o_id a) = Some (stored_order a)"
    using find_order_fresh [of "ids 0" "orders d" "stored_order a"] i(1) ra(2) by (simp add: d1 stored_order_pair)
  then have "o_amount b = o_amount a \<and> o_execution a = Limit \<and> (if is_sell b then o_price b < o_price a else o_price a < o_price b)"
    using create_order_links [OF b, of a "stored_order a"] i ra(2) by (auto simp: request_of_def d1 stored_order_pair)
  ultimately show ?thesis using rb(2,3,10) ra(2) ex by (simp add: linked_pair_def)
qed

text \<open>C8: the response tells the truth about the tables. A single order is one new row; a pair is
  placed as a whole, two new rows that point to each other, of one amount and on the two sides of
  the market; and when anything else is answered or raised, nothing has changed.\<close>

theorem order_response_truthful:
  assumes r: "build_order_response env user od ch is_pro ids d = (r, d')" and ids: "fresh_ids ids d"
  shows "case r of
      Inr (Ok_order a, _) \<Rightarrow> orders d' = orders d @ [stored_order a] \<and> o_user a = user \<and> o_pair a = None
    | Inr (Ok_orders os, _) \<Rightarrow> \<exists>a b. os = [a, b] \<and> orders d' = orders d @ [stored_order a, stored_order b] \<and> linked_pair a b
    | _ \<Rightarrow> d' = d"
  using r
proof (cases rule: build_order_response_cases)
  case (placed fss os)
  obtain is_oco aux fs where fs: "clean_fields user fs" "fss = orders_fields is_oco aux fs"
    using prepare_fields_Inr [OF placed(1)] by metis
  show ?thesis
  proof (cases is_oco)
    case False
    with fs(2) have "fss = [fs]" by (simp add: orders_fields_def)
    then obtain a where "os = [a]" "create_order (ae_oe env) (ids 0) (request_of fs None ch) d = (Inr a, d')"
      using create_each_one placed(2) by metis
    with create_order_row [OF this(2)] fs(1) placed(4) show ?thesis by (simp add: Let_def clean_fields_def)
  next
    case True
    with fs(2) placed(2) have "create_each env ch ids None [fs\<lparr>of_execution := Value Limit, of_param1 := None\<rparr>,
        fs\<lparr>of_execution := Value StopLimit, of_price := the aux, of_client_order_id := None\<rparr>] d = Inr (os, d')"
      by (simp only: orders_fields_def if_True)
    then obtain a b d1 where os: "os = [a\<lparr>o_pair := Some (o_id b)\<rparr>, b]"
      and c: "create_order (ae_oe env) (ids 0) (request_of (fs\<lparr>of_execution := Value Limit, of_param1 := None\<rparr>) None ch) d = (Inr a, d1)"
        "create_order (ae_oe env) (ids 1)
           (request_of (fs\<lparr>of_execution := Value StopLimit, of_price := the aux, of_client_order_id := None\<rparr>) (Some a) ch) d1 = (Inr b, d')"
      by (rule create_each_two)
    from create_pair_rows [OF c ids] placed(4) os show ?thesis by (simp add: Let_def)
  qed
next
  case refused
  then show ?thesis by (cases r) (auto split: order_response.split)
qed

subsection \<open>Repeated requests\<close>


lemma stored_order_sel [simp]:
  "o_trade (stored_order a) = o_trade a" "o_created_at (stored_order a) = o_created_at a" "o_src (stored_order a) = o_src a"
  "o_dst (stored_order a) = o_dst a" "o_user (stored_order a) = o_user a" "o_type (stored_order a) = o_type a"
  "o_client_order_id (stored_order a) = o_client_order_id a" "o_execution (stored_order a) = o_execution a"
  "o_pair (stored_order a) = o_pair a"
  by (simp_all add: stored_order_def)


text \<open>
  The proviso is needed: the query compares the price of the request with the stored ones,
  which are rounded to the precision of the market. A request with a finer price is never
  found to be a duplicate.
\<close>

lemma off_grid_never_duplicate:
  assumes "\<not> on_grid prec (of_price (hd fss))" "of_type (hd fss) \<noteq> Unknown" "of_execution (hd fss) \<noteq> Unknown"
    "\<forall>x \<in> set (orders d). o_src x = of_src (hd fss) \<and> o_dst x = of_dst (hd fss) \<longrightarrow> on_grid prec (o_price x)"
  shows "is_duplicate now fss d = Inr False"
proof -
  have "of_price (hd fss) \<noteq> 0" using assms(1) on_grid_0 by metis
  then have "\<not> similar_order now (hd fss) single x" if "x \<in> set (orders d)" for x single
    using that assms(1,4) by (auto simp: similar_order_def)
  then show ?thesis using assms(2,3) by (simp add: is_duplicate_def Let_def list_ex_iff)
qed

subsection \<open>The wallet behind an order\<close>



end
