(* ===== verification/Order_Api_Example.thy ===== *)
theory Order_Api_Example
  imports Order_Api
begin

section \<open>A worked request to the order endpoint\<close>

text \<open>
  The user of the worked order requests sends the limit buy as the strings of a request, and
  sends it again a second later. The runs are the witnesses of the theorems on the endpoint.
\<close>

definition oa_env :: api_env where
  "oa_env = \<lparr>ae_oe = oe_env, ae_currency = map_of [(''btc'', 10), (''rls'', 2)], ae_attribute = (\<lambda>_. False),
     ae_is_alpha = (\<lambda>_. False), ae_new_coins = (\<lambda>_. False), ae_closed_market = (\<lambda>_ _. False), ae_ratelimited = False,
     ae_restricted = (\<lambda>_. False), ae_eligible = (\<lambda>_. True), ae_unsupported_app = False\<rparr>"

definition oa_data :: order_data where
  "oa_data = \<lparr>od_mode = PNone, od_type = PStr ''buy'', od_execution = PNone, od_srcCurrency = PStr ''btc'',
     od_dstCurrency = PStr ''rls'', od_amount = PStr ''2'', od_price = PStr ''1100000'', od_stopPrice = PNone,
     od_stopLimitPrice = PNone, od_clientOrderId = PNone\<rparr>"

definition oa_fields :: order_fields where
  "oa_fields = \<lparr>of_src = 10, of_dst = 2, of_user = 22, of_type = Value Buy, of_amount = 2, of_price = 1100000,
     of_client_order_id = None, of_execution = Missing, of_param1 = Some None\<rparr>"

lemma oa_decimals: "py_decimal ''2'' = Some (Finite 2)" "py_decimal ''1100000'' = Some (Finite 1100000)"
  using py_decimal_plain_number [of "''2''" "[]"] py_decimal_plain_number [of "''1100000''" "[]"]
  by (simp_all add: plain_number_def is_digit_def digit_value_def pow10_def)

lemma oa_money:
  "parse_money True False order_column (PStr ''2'') = Inr (Some 2)"
  "parse_money False False order_column (PStr ''1100000'') = Inr (Some 1100000)"
  by (simp_all add: parse_money_def oa_decimals isfinite_def order_column_def get_max_db_value_def money_constants dec_eval pow10_def)

lemma oa_prepare: "ae_oe env = oe_env\<lparr>oe_now := t\<rparr> \<Longrightarrow> ae_currency env = ae_currency oa_env \<Longrightarrow> ae_is_alpha env = ae_is_alpha oa_env
    \<Longrightarrow> prepare_fields env 22 oa_data = Inr [oa_fields]"
proof -
  assume env: "ae_oe env = oe_env\<lparr>oe_now := t\<rparr>" "ae_currency env = ae_currency oa_env" "ae_is_alpha env = ae_is_alpha oa_env"
  have p: "parse_order_mode PNone = Inr ''default''" "parse_order_type (ae_attribute env) True (PStr ''buy'') = Inr (Value Buy)"
    "parse_order_execution (ae_attribute env) False PNone = Inr Missing" "parse_client_order_id False PNone = Inr PNone"
    "parse_currency env True (PStr ''btc'') = Inr (Value 10)" "parse_currency env True (PStr ''rls'') = Inr (Value 2)"
    by (simp_all add: parse_order_mode_def parse_order_type_def parse_order_execution_def parse_client_order_id_def
        parse_currency_def parse_choices_def missing_def getattr_def as_arg_def ORDER_TYPES_def env oa_env_def)
  have c: "clean_price Missing (Some 1100000) = Inr 1100000"
    by (simp add: clean_price_def truthy_def money_is_zero_def money_is_close_def) (simp add: dec_eval)
  have m: "open_market env 22 (Value 10) (Value 2) = Inr oe_market"
    by (simp add: open_market_def query_market_def get_for_def env oe_env_def oe_market_def oa_env_def)
  have s: "Missing \<notin> Value ` set STOP_EXECUTION_TYPES" by auto
  show ?thesis
    by (simp add: prepare_fields_def oa_data_def p oa_money c m s clean_aux_price_def orders_fields_def stored_client_id_def
        oa_fields_def oe_market_def)
qed

lemma oa_request: "request_of oa_fields None 31 = (oe_request Buy Limit 2 1100000)\<lparr>rq_market := None, rq_execution := Missing\<rparr>"
  by (simp add: request_of_def oa_fields_def oe_request_def)

lemma oa_create: "create_order oe_env 4 (request_of oa_fields None 31) oe_db = (Inr oe_order, oe_db\<lparr>orders := [oe_order]\<rparr>)"
proof -
  define rq where "rq = oe_request Buy Limit 2 1100000"
  have "check_parameters oe_env (rq\<lparr>rq_market := None, rq_execution := Missing\<rparr>) = check_parameters oe_env rq"
    by (simp add: rq_def check_parameters_def get_for_def oe_request_def oe_env_def oe_market_def)
  moreover have "check_stop_and_pair (rq\<lparr>rq_market := None, rq_execution := Missing\<rparr>) = check_stop_and_pair rq"
    "check_pair_price oe_env (rq\<lparr>rq_market := None, rq_execution := Missing\<rparr>) = check_pair_price oe_env rq"
    "new_order oe_env 4 (rq\<lparr>rq_market := None, rq_execution := Missing\<rparr>) = new_order oe_env 4 rq"
    "check_value oe_env (rq\<lparr>rq_market := None, rq_execution := Missing\<rparr>) = check_value oe_env rq"
    by (simp_all add: fun_eq_iff check_stop_and_pair_def check_pair_price_def new_order_def check_value_def request_trade_type_def
        cong: option.case_cong if_cong)
  ultimately have "prepare_order oe_env 4 (rq\<lparr>rq_market := None, rq_execution := Missing\<rparr>) = prepare_order oe_env 4 rq"
    unfolding prepare_order_def by (simp cong: if_cong)
  moreover have "check_funds oe_env (rq\<lparr>rq_market := None, rq_execution := Missing\<rparr>) oe_order oe_db = check_funds oe_env rq oe_order oe_db"
    by (simp add: check_funds_def cong: if_cong prod.case_cong option.case_cong)
  moreover have "insert_order (rq\<lparr>rq_market := None, rq_execution := Missing\<rparr>) oe_order = insert_order rq oe_order"
    by (simp add: insert_order_def fun_eq_iff)
  ultimately have "create_order oe_env 4 (rq\<lparr>rq_market := None, rq_execution := Missing\<rparr>) oe_db = create_order oe_env 4 rq oe_db"
    using oe_prepare oe_funds unfolding rq_def by (simp add: create_order_def)
  with oe_create show ?thesis by (simp add: oa_request rq_def)
qed

lemma oa_channel: "get_channel PNone (Some ''python-requests/2.31'') = 31"
  by (simp add: get_channel_def) code_simp

lemma oa_response:
  "build_order_response oa_env 22 oa_data 31 False (\<lambda>k. k + 4) oe_db
     = (Inr (Ok_order oe_order, [Pub_order oe_order]), oe_db\<lparr>orders := [oe_order]\<rparr>)"
proof -
  have "clean_order oa_env 22 oa_data False oe_db = Inr [oa_fields]"
    using oa_prepare [of oa_env "oe_now oe_env"]
    by (simp add: clean_order_Inr is_duplicate_def oa_env_def oa_fields_def oe_db_def)
  moreover have "api_create_order oa_env 4 oa_fields None 31 oe_db = Inr (oe_order, oe_db\<lparr>orders := [oe_order]\<rparr>)"
    using oa_create by (simp add: api_create_order_Inr oa_env_def)
  ultimately show ?thesis
    by (simp add: build_order_response_def create_orders_def publications_def) (simp add: oa_env_def)
qed

lemma oa_post:
  "order_create_post oa_env 22 PNone PNone (Some ''python-requests/2.31'') oa_data (\<lambda>k. k + 4) oe_db
     = (Inr (Ok_order oe_order, [Pub_order oe_order]), oe_db\<lparr>orders := [oe_order]\<rparr>)"
  using oa_response by (simp add: order_create_post_def parse_bool_def missing_def check_user_def oa_channel oa_env_def)

lemma oa_fresh: "fresh_ids (\<lambda>k. k + 4) oe_db"
  by (simp add: fresh_ids_def oe_db_def)

theorem order_api_sound_witness: "sound_db (oe_db\<lparr>orders := [oe_order]\<rparr>)"
proof -
  have "sane_markets (ae_oe oa_env)" by (simp add: sane_markets_def oa_env_def oe_env_def)
  from order_api_sound [OF oa_post oe_sound oa_fresh this] show ?thesis by simp
qed

theorem order_response_truthful_witness: "stored_order oe_order \<in> set (orders (oe_db\<lparr>orders := [oe_order]\<rparr>)) \<and> o_user oe_order = 22"
  using order_response_truthful [OF oa_response oa_fresh] by simp



end
