(* ===== verification/Withdraws.thy ===== *)
theory Withdraws
  imports Trades
begin

section \<open>Withdraw requests\<close>

text \<open>
  \<open>WithdrawRequest\<close> of \<^verbatim>\<open>src/core/exchange/wallet/models.py\<close>: its statuses and their order, \<open>save\<close>
  with the checks it makes, the transaction of a request and its reversal, verification,
  cancelling, and the splitting of large rial requests. \<open>wenv\<close> holds what the methods read
  elsewhere: bank accounts, the deposit wallet an internal transfer goes to, the state of
  the automatic withdraw, the fee options of \<open>exchange.config\<close>.

  A method runs on an object, \<open>obj\<close>, and writes some of its columns to its row; \<open>save\<close> names
  the columns. \<open>save\<close> calls methods that save again. Those inner calls are written out
  where they are made: a rejected request passes every check of \<open>save\<close>, and a request
  that has just got its transaction is only rechecked. Blacklists, notifications and
  e-mails are left out. The \<open>withdraws\<close> of the wallet model are the projection \<open>to_row\<close> of
  the table.
\<close>

subsection \<open>Data\<close>

datatype withdraw_status =
    WNew | WVerified | WAccepted | WSent | WDone | WRejected | WProcessing | WCanceled | WWaiting | WManualAccepted

fun withdraw_status_code :: "withdraw_status \<Rightarrow> nat" where
  "withdraw_status_code WNew = 1"
| "withdraw_status_code WVerified = 2"
| "withdraw_status_code WAccepted = 3"
| "withdraw_status_code WSent = 4"
| "withdraw_status_code WDone = 5"
| "withdraw_status_code WRejected = 6"
| "withdraw_status_code WProcessing = 7"
| "withdraw_status_code WCanceled = 8"
| "withdraw_status_code WWaiting = 9"
| "withdraw_status_code WManualAccepted = 10"

definition STATUSES_INACTIVE :: "withdraw_status list" where "STATUSES_INACTIVE = [WNew, WCanceled, WRejected]"
definition STATUSES_ACCEPTABLE :: "withdraw_status list" where "STATUSES_ACCEPTABLE = [WVerified, WWaiting]"
definition STATUSES_PENDING :: "withdraw_status list" where
  "STATUSES_PENDING = [WVerified, WAccepted, WManualAccepted, WProcessing, WWaiting]"
definition STATUSES_COMMITED :: "withdraw_status list" where "STATUSES_COMMITED = [WSent, WDone]"
definition STATUSES_ACTIVE :: "withdraw_status list" where "STATUSES_ACTIVE = STATUSES_PENDING @ STATUSES_COMMITED"
definition STATUSES_CANCELABLE :: "withdraw_status list" where
  "STATUSES_CANCELABLE = STATUSES_ACCEPTABLE @ [WNew, WAccepted, WProcessing]"

fun STATUSES_STATE_INDEX :: "withdraw_status \<Rightarrow> nat" where
  "STATUSES_STATE_INDEX WNew = 1"
| "STATUSES_STATE_INDEX WVerified = 2"
| "STATUSES_STATE_INDEX WWaiting = 3"
| "STATUSES_STATE_INDEX WAccepted = 4"
| "STATUSES_STATE_INDEX WManualAccepted = 4"
| "STATUSES_STATE_INDEX WProcessing = 5"
| "STATUSES_STATE_INDEX WSent = 6"
| "STATUSES_STATE_INDEX WDone = 7"
| "STATUSES_STATE_INDEX WCanceled = 8"
| "STATUSES_STATE_INDEX WRejected = 9"

lemmas withdraw_statuses = STATUSES_INACTIVE_def STATUSES_ACCEPTABLE_def STATUSES_PENDING_def STATUSES_COMMITED_def
  STATUSES_ACTIVE_def STATUSES_CANCELABLE_def

datatype withdraw_type = WTNormal | WTInternal | WTGateway

record withdraw =
  wd_id :: nat
  wd_tp :: withdraw_type
  wd_wallet :: nat
  wd_target_account :: "nat option"
  wd_amount :: rat
  wd_status :: withdraw_status
  wd_created_at :: datetime
  wd_transaction :: "nat option"
  wd_rial_value :: "rat option"
  wd_fee :: "rat option"
  wd_otp :: string

record wenv =
  WITHDRAW_CREATE_TX_VERIFY :: bool
  we_now :: datetime
  we_account_confirmed :: "nat \<Rightarrow> bool"
  we_account_user :: "nat \<Rightarrow> nat"
  we_system_accounts :: "nat list"
  we_internal_target :: "withdraw \<Rightarrow> nat option"
  we_already_processed :: "nat \<Rightarrow> bool"
  we_is_vandar :: "withdraw \<Rightarrow> bool"
  we_rls_fee :: int
  we_vandar_max_fee :: int
  we_vandar_max_settlement :: int

record wdb = db +
  wd_table :: "withdraw list"
  next_wd_id :: nat

definition to_row :: "withdraw \<Rightarrow> withdraw_row" where
  "to_row w = \<lparr>wr_wallet = wd_wallet w, wr_amount = wd_amount w,
     wr_inactive = (wd_status w \<in> set STATUSES_INACTIVE), wr_has_transaction = (wd_transaction w \<noteq> None)\<rparr>"

definition find_wd :: "'a wdb_scheme \<Rightarrow> nat \<Rightarrow> withdraw option" where
  "find_wd d i = find (\<lambda>w. wd_id w = i) (wd_table d)"

definition set_wd_table :: "withdraw list \<Rightarrow> 'a wdb_scheme \<Rightarrow> 'a wdb_scheme" where
  "set_wd_table ws d = d\<lparr>wd_table := ws, withdraws := map to_row ws\<rparr>"

subsection \<open>Columns\<close>

datatype wd_field = FStatus | FTransaction | FAmount | FRialValue | FFee

fun copy_field :: "withdraw \<Rightarrow> wd_field \<Rightarrow> withdraw \<Rightarrow> withdraw" where
  "copy_field obj FStatus row = row\<lparr>wd_status := wd_status obj\<rparr>"
| "copy_field obj FTransaction row = row\<lparr>wd_transaction := wd_transaction obj\<rparr>"
| "copy_field obj FAmount row = row\<lparr>wd_amount := wd_amount obj\<rparr>"
| "copy_field obj FRialValue row = row\<lparr>wd_rial_value := wd_rial_value obj\<rparr>"
| "copy_field obj FFee row = row\<lparr>wd_fee := wd_fee obj\<rparr>"

definition write_fields :: "wd_field list \<Rightarrow> withdraw \<Rightarrow> 'a wdb_scheme \<Rightarrow> 'a wdb_scheme" where
  "write_fields fs obj d =
     set_wd_table (map (\<lambda>row. if wd_id row = wd_id obj then fold (copy_field obj) fs row else row) (wd_table d)) d"

subsection \<open>Checks\<close>

definition is_rial :: "'a db_scheme \<Rightarrow> withdraw \<Rightarrow> bool result" where
  "is_rial d obj =
     (case find_wallet (wallets d) (wd_wallet obj) of
        None \<Rightarrow> Inl DoesNotExist
      | Some w \<Rightarrow> Inr (w_currency w = RIAL))"

definition is_expired :: "wenv \<Rightarrow> withdraw \<Rightarrow> bool" where
  "is_expired env obj \<longleftrightarrow> wd_status obj = WNew \<and> 30 * 60 * 1000000 < we_now env - wd_created_at obj"

definition verify_otp :: "wenv \<Rightarrow> string \<Rightarrow> withdraw \<Rightarrow> bool" where
  "verify_otp env otp obj \<longleftrightarrow>
     otp \<noteq> [] \<and> wd_otp obj \<noteq> [] \<and> length otp = 6 \<and> \<not> is_expired env obj \<and> otp = wd_otp obj"

definition check_status_transition :: "withdraw_status option \<Rightarrow> withdraw_status \<Rightarrow> bool" where
  "check_status_transition old new =
     (case old of
        None \<Rightarrow> True
      | Some old \<Rightarrow>
          if new = old then True
          else if STATUSES_STATE_INDEX new < STATUSES_STATE_INDEX old then False
          else if (old, new) \<in> {(WSent, WCanceled), (WDone, WCanceled)} then False
          else True)"

text \<open>The inner \<open>save\<close> is a valid transition, and nothing rechecks a rejected request.\<close>

definition system_reject_request :: "withdraw \<Rightarrow> 'a wdb_scheme \<Rightarrow> withdraw \<times> 'a wdb_scheme" where
  "system_reject_request obj d =
     (let obj = obj\<lparr>wd_status := WRejected\<rparr> in (obj, write_fields [FStatus] obj d))"

definition find_tx :: "'a db_scheme \<Rightarrow> nat \<Rightarrow> transaction option" where
  "find_tx d i = find (\<lambda>t. tx_id t = i) (transactions d)"

definition bad_account :: "wenv \<Rightarrow> wallet \<Rightarrow> withdraw \<Rightarrow> bool" where
  "bad_account env w obj =
     (case wd_target_account obj of
        None \<Rightarrow> True
      | Some a \<Rightarrow> \<not> we_account_confirmed env a
                  \<or> we_account_user env a \<noteq> w_user w \<and> a \<notin> set (we_system_accounts env))"

definition recheck_request :: "wenv \<Rightarrow> withdraw \<Rightarrow> 'a wdb_scheme \<Rightarrow> (withdraw \<times> 'a wdb_scheme) result" where
  "recheck_request env obj d =
     (if wd_status obj \<in> {WCanceled, WRejected} then Inr (obj, d)
      else case wd_transaction obj of
             Some t \<Rightarrow>
               (case find_tx d t of
                  None \<Rightarrow> Inl DoesNotExist
                | Some tx \<Rightarrow>
                    if tx_wallet tx \<noteq> wd_wallet obj \<or> 0 \<le> tx_amount tx
                    then let obj = obj\<lparr>wd_transaction := None, wd_status := WRejected\<rparr>
                         in Inr (obj, write_fields [FStatus, FTransaction] obj d)
                    else Inr (obj, d))
           | None \<Rightarrow>
               if withdraw_status_code WVerified < withdraw_status_code (wd_status obj) then Inr (obj, d)
               else (case find_wallet (wallets d) (wd_wallet obj) of
                       None \<Rightarrow> Inl DoesNotExist
                     | Some w \<Rightarrow>
                         if wd_amount obj \<le> 0 \<or> w_currency w = RIAL \<and> bad_account env w obj
                         then Inr (system_reject_request obj d) else Inr (obj, d)))"

subsection \<open>The transaction of a request\<close>

definition ref_code :: "string \<Rightarrow> int option" where "ref_code m = map_of REF_MODULES m"

definition create_withdraw_transaction :: "wenv \<Rightarrow> withdraw \<Rightarrow> 'a wdb_scheme \<Rightarrow> (withdraw \<times> 'a wdb_scheme) result" where
  "create_withdraw_transaction env obj d =
     (if wd_transaction obj \<noteq> None then Inr (obj, d)
      else case find_wallet (wallets d) (wd_wallet obj) of
             None \<Rightarrow> Inl DoesNotExist
           | Some w \<Rightarrow>
               rbind (create_transaction w (if wd_tp obj = WTGateway then TxGateway else TxWithdraw)
                        (dneg (wd_amount obj)) (we_now env) None None False) (\<lambda>t.
                 case t of
                   None \<Rightarrow> Inr (system_reject_request obj d)
                 | Some tx \<Rightarrow>
                     rbind (commit d (tx\<lparr>tx_ref_module := ref_code ''WithdrawRequest'', tx_ref_id := Some (wd_id obj)\<rparr>) False)
                       (\<lambda>(d, tx). let obj = obj\<lparr>wd_transaction := Some (tx_id tx)\<rparr>
                                  in recheck_request env obj (write_fields [FTransaction] obj d))))"

text \<open>\<open>refund w t d\<close>: reverse the transaction \<open>t\<close> of the wallet \<open>w\<close>; \<open>None\<close> when the wallet refuses.\<close>

definition refund :: "wenv \<Rightarrow> nat \<Rightarrow> transaction \<Rightarrow> 'a wdb_scheme \<Rightarrow> (transaction option \<times> 'a wdb_scheme) result" where
  "refund env wid t d =
     (case find_wallet (wallets d) wid of
        None \<Rightarrow> Inl DoesNotExist
      | Some w \<Rightarrow>
          rbind (create_transaction w TxRefund (dneg (tx_amount t)) (we_now env) None None False) (\<lambda>r.
            case r of
              None \<Rightarrow> Inr (None, d)
            | Some tx \<Rightarrow>
                rbind (commit d (tx\<lparr>tx_ref_module := ref_code ''ReverseTransaction'', tx_ref_id := Some (tx_id t)\<rparr>) False)
                  (\<lambda>(d, tx). Inr (Some tx, d))))"

definition create_reverse_transaction ::
    "wenv \<Rightarrow> withdraw \<Rightarrow> 'a wdb_scheme \<Rightarrow> (transaction option \<times> 'a wdb_scheme) result" where
  "create_reverse_transaction env obj d =
     (case wd_transaction obj of
        None \<Rightarrow> Inr (None, d)
      | Some i \<Rightarrow>
          (case find_tx d i of
             None \<Rightarrow> Inl DoesNotExist
           | Some t \<Rightarrow>
               (case we_internal_target env obj of
                  None \<Rightarrow> refund env (wd_wallet obj) t d
                | Some target \<Rightarrow>
                    (case find (\<lambda>x. tx_wallet x = target \<and> tx_ref_module x = ref_code ''InternalTransferDeposit''
                                    \<and> tx_ref_id x = Some (wd_id obj)) (transactions d) of
                       None \<Rightarrow> Inl AttributeError
                     | Some dep \<Rightarrow>
                         rbind (refund env target dep d) (\<lambda>(r, d).
                           if r = None then Inr (None, d) else refund env (wd_wallet obj) t d)))))"

subsection \<open>Saving\<close>

definition after_save :: "wenv \<Rightarrow> withdraw \<Rightarrow> 'a wdb_scheme \<Rightarrow> (withdraw \<times> 'a wdb_scheme) result" where
  "after_save env obj d =
     rbind (recheck_request env obj d) (\<lambda>(obj, d).
       if wd_status obj \<in> set STATUSES_COMMITED then create_withdraw_transaction env obj d else Inr (obj, d))"

definition save_withdraw :: "wenv \<Rightarrow> wd_field list \<Rightarrow> withdraw \<Rightarrow> 'a wdb_scheme \<Rightarrow> (withdraw \<times> 'a wdb_scheme) result" where
  "save_withdraw env fs obj d =
     (let old_status = map_option wd_status (find_wd d (wd_id obj));
          obj = (if check_status_transition old_status (wd_status obj) then obj
                 else obj\<lparr>wd_status := (case old_status of None \<Rightarrow> WNew | Some s \<Rightarrow> s)\<rparr>)
      in after_save env obj (write_fields fs obj d))"

text \<open>\<open>WithdrawRequest.objects.create\<close>: a new row, and then the checks of \<open>save\<close>.\<close>

definition insert_withdraw :: "wenv \<Rightarrow> withdraw \<Rightarrow> 'a wdb_scheme \<Rightarrow> (withdraw \<times> 'a wdb_scheme) result" where
  "insert_withdraw env obj d =
     (let obj = obj\<lparr>wd_id := next_wd_id d\<rparr>
      in after_save env obj ((set_wd_table (wd_table d @ [obj]) d)\<lparr>next_wd_id := Suc (next_wd_id d)\<rparr>))"

definition is_cancelable :: "wenv \<Rightarrow> 'a db_scheme \<Rightarrow> withdraw \<Rightarrow> bool result" where
  "is_cancelable env d obj =
     rbind (is_rial d obj) (\<lambda>rial.
       Inr ((rial \<or> \<not> we_already_processed env (wd_id obj)) \<and> wd_status obj \<in> set STATUSES_CANCELABLE))"

definition cancel_request :: "wenv \<Rightarrow> withdraw \<Rightarrow> 'a wdb_scheme \<Rightarrow> (bool \<times> withdraw \<times> 'a wdb_scheme) result" where
  "cancel_request env obj d =
     rbind (is_cancelable env d obj) (\<lambda>ok.
       if \<not> ok then Inr (False, obj, d)
       else rbind (save_withdraw env [FStatus] (obj\<lparr>wd_status := WCanceled\<rparr>) d) (\<lambda>(obj, d).
         if WITHDRAW_CREATE_TX_VERIFY env \<and> wd_transaction obj \<noteq> None
         then rbind (create_reverse_transaction env obj d) (\<lambda>(t, d). Inr (t \<noteq> None, obj, d))
         else Inr (True, obj, d)))"

subsection \<open>Splitting\<close>

definition MIN_SPLIT :: int where "MIN_SPLIT = 150000"
definition MAX_SPLIT :: int where "MAX_SPLIT = 500000000"

text \<open>The amounts of the parts of \<open>total_amount\<close> rials, where it exceeds \<open>max_amount\<close>. The code divides
  the two in floating point before it takes the ceiling; on amounts that columns hold, below
  \<open>10 ^ 12\<close>, that is the ceiling of the exact quotient.\<close>

definition split_amounts :: "int \<Rightarrow> int \<Rightarrow> int list" where
  "split_amounts max_amount total_amount =
     (let split_count = \<lceil>of_int total_amount / of_int max_amount :: rat\<rceil>;
          remaining = total_amount mod max_amount;
          adjust = (if remaining \<noteq> 0 \<and> remaining < MIN_SPLIT then MIN_SPLIT - remaining else 0);
          remaining = remaining + adjust
      in (max_amount - adjust)
         # map (\<lambda>i. if i = split_count - 1 \<and> remaining \<noteq> 0 then remaining else max_amount) [1..split_count - 1])"

definition max_fee :: "wenv \<Rightarrow> withdraw \<Rightarrow> int" where
  "max_fee env obj = (if we_is_vandar env obj then we_vandar_max_fee env else we_rls_fee env)"

definition max_amount :: "wenv \<Rightarrow> withdraw \<Rightarrow> int" where
  "max_amount env obj = (if we_is_vandar env obj then we_vandar_max_settlement env else MAX_SPLIT)"

definition part_fee :: "int \<Rightarrow> int \<Rightarrow> rat" where
  "part_fee mx amount = of_int (min (amount div 100) mx)"

definition create_part :: "wenv \<Rightarrow> withdraw \<Rightarrow> 'a wdb_scheme \<Rightarrow> int \<Rightarrow> 'a wdb_scheme result" where
  "create_part env obj d amount =
     rbind (insert_withdraw env (obj\<lparr>wd_amount := of_int amount, wd_rial_value := Some (of_int amount),
                                    wd_fee := Some (part_fee (max_fee env obj) amount)\<rparr>) d)
       (\<lambda>(_, d). Inr d)"

definition split_if_needed :: "wenv \<Rightarrow> withdraw \<Rightarrow> 'a wdb_scheme \<Rightarrow> (withdraw \<times> 'a wdb_scheme) result" where
  "split_if_needed env obj d =
     rbind (is_rial d obj) (\<lambda>rial.
       if \<not> rial then Inr (obj, d)
       else let total_amount = (if 0 \<le> wd_amount obj then \<lfloor>wd_amount obj\<rfloor> else \<lceil>wd_amount obj\<rceil>);
                mx = max_amount env obj
            in if total_amount \<le> mx
               then save_withdraw env [FFee] (obj\<lparr>wd_fee := Some (part_fee (max_fee env obj) total_amount)\<rparr>) d
               else let parts = split_amounts mx total_amount
                    in rbind (save_withdraw env [FAmount, FRialValue, FFee]
                           (obj\<lparr>wd_fee := Some (of_int (max_fee env obj)), wd_amount := of_int (hd parts),
                                wd_rial_value := Some (of_int (hd parts))\<rparr>) d)
                         (\<lambda>(obj, d). rbind (fold_result (create_part env obj) d (tl parts)) (\<lambda>d. Inr (obj, d))))"

text \<open>Requests of the site run in one transaction (\<open>ATOMIC_REQUESTS\<close>), so that an error of the splitting takes
  the verification back with it, although \<open>split_if_needed\<close> stands outside of the atomic block.\<close>

definition do_verify :: "wenv \<Rightarrow> withdraw \<Rightarrow> 'a wdb_scheme \<Rightarrow> (withdraw \<times> 'a wdb_scheme) result" where
  "do_verify env obj d =
     (if wd_status obj \<noteq> WNew then Inr (obj, d)
      else rbind (if WITHDRAW_CREATE_TX_VERIFY env
                  then (case find_wd d (wd_id obj) of
                          None \<Rightarrow> Inl DoesNotExist
                        | Some row \<Rightarrow> create_withdraw_transaction env row d)
                  else Inr (obj, d))
        (\<lambda>(obj, d).
           if WITHDRAW_CREATE_TX_VERIFY env \<and> wd_transaction obj = None then Inr (obj, d)
           else rbind (save_withdraw env [FStatus] (obj\<lparr>wd_status := WVerified\<rparr>) d) (\<lambda>(obj, d).
             split_if_needed env obj d)))"

subsection \<open>Fees and limits\<close>

definition calculate_fee :: "wenv \<Rightarrow> 'a db_scheme \<Rightarrow> withdraw \<Rightarrow> rat result" where
  "calculate_fee env d obj =
     rbind (is_rial d obj) (\<lambda>rial.
       if \<not> rial then Inl (ValueError ''Invalid call to calculate_fee in coin withdraw'')
       else case wd_fee obj of
              Some f \<Rightarrow> Inr f
            | None \<Rightarrow> Inr (of_int (min (round_int ROUND_DOWN (wd_amount obj / 100)) (max_fee env obj))))"

definition can_automatically_send :: "bool \<Rightarrow> nat \<Rightarrow> nat \<Rightarrow> bool \<Rightarrow> withdraw \<Rightarrow> bool" where
  "can_automatically_send enabled hour minute rial obj =
     (let to_minute = (if wd_status obj = WProcessing then 49 else 45)
      in if rial \<and> wd_tp obj \<noteq> WTInternal
            \<and> (\<not> enabled \<or> \<not> (8 \<le> hour \<and> hour \<le> 20) \<or> \<not> (35 \<le> minute \<and> minute \<le> to_minute))
         then False else wd_status obj \<in> set STATUSES_PENDING)"

definition withdraws_of_user :: "'a wdb_scheme \<Rightarrow> nat \<Rightarrow> withdraw list" where
  "withdraws_of_user d user =
     filter (\<lambda>w. list_ex (\<lambda>x. w_id x = wd_wallet w \<and> w_user x = user) (wallets d)) (wd_table d)"

definition is_new_requests_limit_exceeded :: "wenv \<Rightarrow> nat \<Rightarrow> 'a wdb_scheme \<Rightarrow> nat \<Rightarrow> bool" where
  "is_new_requests_limit_exceeded env max_new d user \<longleftrightarrow>
     max_new \<le> length (filter (\<lambda>w. wd_status w = WNew \<and> we_now env - 4 * 3600 * 1000000 \<le> wd_created_at w)
                 (withdraws_of_user d user))"

definition is_verified_requests_limit_exceeded :: "wenv \<Rightarrow> nat \<Rightarrow> 'a wdb_scheme \<Rightarrow> nat \<Rightarrow> nat \<Rightarrow> bool" where
  "is_verified_requests_limit_exceeded env max_verified d user currency \<longleftrightarrow>
     max_verified \<le> length (filter (\<lambda>w. wd_status w = WVerified \<and> we_now env - days 1 \<le> wd_created_at w
                          \<and> (currency = RIAL \<longrightarrow> list_ex (\<lambda>x. w_id x = wd_wallet w \<and> w_currency x = currency) (wallets d)))
                        (withdraws_of_user d user))"

definition check_user_limit :: "wenv \<Rightarrow> nat \<Rightarrow> nat \<Rightarrow> 'a wdb_scheme \<Rightarrow> nat \<Rightarrow> nat \<Rightarrow> bool" where
  "check_user_limit env max_new max_verified d user currency =
     (if is_new_requests_limit_exceeded env max_new d user then False
      else if is_verified_requests_limit_exceeded env max_verified d user currency then False
      else True)"

text \<open>\<open>today w\<close> says whether a request was made on the local date of now.\<close>

definition is_over_shaba_limit :: "(withdraw \<Rightarrow> bool) \<Rightarrow> 'a wdb_scheme \<Rightarrow> nat \<Rightarrow> rat \<Rightarrow> nat option \<Rightarrow> bool \<Rightarrow> bool" where
  "is_over_shaba_limit today d wallet_id amount account just_committed =
     (let accepted = (if just_committed then STATUSES_COMMITED else STATUSES_ACTIVE);
          withdrawn_today = sum_list (map wd_amount (filter (\<lambda>w. wd_wallet w = wallet_id \<and> wd_status w \<in> set accepted
             \<and> today w \<and> wd_target_account w = account) (wd_table d)))
      in 5000000000 < dadd withdrawn_today amount)"

definition can_withdraw_shaba :: "(withdraw \<Rightarrow> bool) \<Rightarrow> bool \<Rightarrow> 'a wdb_scheme \<Rightarrow> nat \<Rightarrow> rat \<Rightarrow> nat option \<Rightarrow> bool" where
  "can_withdraw_shaba today has_tag d wallet_id amount account =
     (if has_tag then True else \<not> is_over_shaba_limit today d wallet_id amount account False)"

end
