(* ===== verification/Withdraws_Claims.thy ===== *)
theory Withdraws_Claims
  imports Withdraws
begin

section \<open>Properties of withdraw requests\<close>

text \<open>
  First the splitting of a rial request as arithmetic, then what \<open>save\<close> does to the status
  of a row, then the money: a request takes its amount once, a cancelled one gives it
  back. The last theorems are about two situations where it gives back too much.
\<close>

subsection \<open>The parts of a split request\<close>

lemma ceiling_quotient:
  fixes t m :: int
  assumes "0 < m"
  shows "\<lceil>of_int t / of_int m :: rat\<rceil> = (if t mod m = 0 then t div m else t div m + 1)"
proof -
  have t: "of_int t = of_int m * of_int (t div m) + (of_int (t mod m) :: rat)"
    by (metis mult_div_mod_eq of_int_add of_int_mult)
  have r: "0 \<le> t mod m" "t mod m < m" using assms by simp_all
  have q: "of_int t / of_int m = (of_int (t mod m) / of_int m :: rat) + of_int (t div m)"
    unfolding t using assms by (simp add: field_simps)
  have "\<lceil>of_int (t mod m) / of_int m :: rat\<rceil> = (if t mod m = 0 then 0 else 1)"
  proof (cases "t mod m = 0")
    case False
    with r have "0 < t mod m" by simp
    then have "0 < (of_int (t mod m) / of_int m :: rat)" using assms by simp
    moreover have "of_int (t mod m) / of_int m \<le> (1 :: rat)" using less_imp_le [OF r(2)] assms by (simp add: divide_le_eq del: pos_mod_bound)
    ultimately have "\<lceil>of_int (t mod m) / of_int m :: rat\<rceil> = 1" by (simp add: ceiling_eq_iff)
    with False show ?thesis by simp
  qed simp
  then show ?thesis unfolding q ceiling_add_of_int by simp
qed

lemma sum_list_const: "(\<And>x. x \<in> set xs \<Longrightarrow> f x = c) \<Longrightarrow> sum_list (map f xs) = int (length xs) * c"
  by (induction xs) (simp_all add: algebra_simps)

lemma split_tail_sum:
  fixes n r m :: int
  assumes "1 < n"
  shows "sum_list (map (\<lambda>i. if i = n - 1 \<and> r \<noteq> 0 then r else m) [1..n - 1])
    = (n - 2) * m + (if r \<noteq> 0 then r else m)"
proof -
  have e: "[1..n - 1] = [1..n - 2] @ [n - 1]"
    using upto_rec2 [of 1 "n - 1"] assms by simp
  have "sum_list (map (\<lambda>i. if i = n - 1 \<and> r \<noteq> 0 then r else m) [1..n - 2]) = int (length [1..n - 2]) * m"
    by (rule sum_list_const) auto
  then show ?thesis using assms unfolding e by simp
qed

lemma split_amounts_exact_parts:
  assumes m: "2 * MIN_SPLIT \<le> mx" and t: "mx < tot"
  shows "sum_list (split_amounts mx tot) = tot
     \<and> (\<forall>x \<in> set (split_amounts mx tot). MIN_SPLIT \<le> x \<and> x \<le> mx)"
proof -
  define r where "r = tot mod mx"
  define adj where "adj = (if r \<noteq> 0 \<and> r < MIN_SPLIT then MIN_SPLIT - r else 0)"
  define n where "n = \<lceil>of_int tot / of_int mx :: rat\<rceil>"
  have pos: "0 < mx" "0 < MIN_SPLIT" using m by (simp_all add: MIN_SPLIT_def)
  have r: "0 \<le> r" "r < mx" using pos by (simp_all add: r_def)
  have n: "n = (if r = 0 then tot div mx else tot div mx + 1)"
    unfolding n_def r_def by (rule ceiling_quotient) (rule pos)
  have tt: "tot = mx * (tot div mx) + r" by (simp add: r_def)
  have "1 \<le> tot div mx" using t pos by (simp add: pos_imp_zdiv_pos_iff le_less_trans less_imp_le int_one_le_iff_zero_less)
  moreover have "tot div mx \<noteq> 1 \<or> r \<noteq> 0" using tt t by auto
  ultimately have n1: "1 < n" unfolding n by (cases "r = 0") auto
  have parts: "split_amounts mx tot
      = (mx - adj) # map (\<lambda>i. if i = n - 1 \<and> r + adj \<noteq> 0 then r + adj else mx) [1..n - 1]"
    by (simp add: split_amounts_def Let_def r_def adj_def n_def)
  have adj: "0 \<le> adj" "adj \<le> MIN_SPLIT" "r + adj \<noteq> 0 \<Longrightarrow> MIN_SPLIT \<le> r + adj \<and> r + adj \<le> mx"
    "r + adj = 0 \<longleftrightarrow> r = 0" "r = 0 \<Longrightarrow> adj = 0"
    using r m pos by (auto simp: adj_def)
  have "sum_list (split_amounts mx tot)
      = mx - adj + ((n - 2) * mx + (if r + adj \<noteq> 0 then r + adj else mx))"
    unfolding parts using split_tail_sum [OF n1, of "r + adj" mx] by simp
  also have "\<dots> = tot" using adj n tt by (cases "r = 0") (simp_all add: algebra_simps)
  finally have "sum_list (split_amounts mx tot) = tot" .
  moreover have "\<forall>x \<in> set (split_amounts mx tot). MIN_SPLIT \<le> x \<and> x \<le> mx"
    unfolding parts using adj m pos by auto
  ultimately show ?thesis by blast
qed

text \<open>Splitting loses nothing: the parts of a rial request add up to it, and every part
  lies between the smallest amount worth a payment and the largest one the bank takes.\<close>

lemma split_amounts_exact:
  assumes m: "2 * MIN_SPLIT \<le> mx" and t: "mx < tot"
  shows "sum_list (split_amounts mx tot) = tot
     \<and> (\<forall>x \<in> set (split_amounts mx tot). MIN_SPLIT \<le> x \<and> x \<le> mx)"
  by (rule split_amounts_exact_parts [OF m t])

lemma split_amounts_exact_witness:
  "sum_list (split_amounts MAX_SPLIT 1000000001) = 1000000001 \<and> split_amounts MAX_SPLIT 1000000001 = [499850001, 500000000, 150000]"
proof -
  have "\<lceil>of_int 1000000001 / of_int MAX_SPLIT :: rat\<rceil> = 3"
    using ceiling_quotient [of MAX_SPLIT 1000000001] by (simp add: MAX_SPLIT_def)
  moreover have "[1..2 :: int] = [1, 2]" by (simp add: upto.simps)
  ultimately have "split_amounts MAX_SPLIT 1000000001 = [499850001, 500000000, 150000]"
    by (simp add: split_amounts_def Let_def MAX_SPLIT_def MIN_SPLIT_def)
  then show ?thesis using split_amounts_exact [of MAX_SPLIT 1000000001] by (simp add: MAX_SPLIT_def MIN_SPLIT_def)
qed

subsection \<open>Rows\<close>

lemma copy_field_id [simp]: "wd_id (copy_field obj f row) = wd_id row"
  by (cases f) simp_all

lemma fold_copy_id [simp]: "wd_id (fold (copy_field obj) fs row) = wd_id row"
  by (induction fs arbitrary: row) simp_all

lemma find_map_wd:
  "(\<And>w. wd_id (f w) = wd_id w) \<Longrightarrow>
   find (\<lambda>w. wd_id w = i) (map (\<lambda>w. if wd_id w = j then f w else w) ws)
     = (if i = j then map_option f (find (\<lambda>w. wd_id w = i) ws) else find (\<lambda>w. wd_id w = i) ws)"
  by (induction ws) auto

lemma find_write_fields:
  "find_wd (write_fields fs obj d) i
     = (if i = wd_id obj then map_option (fold (copy_field obj) fs) (find_wd d i) else find_wd d i)"
  unfolding find_wd_def write_fields_def set_wd_table_def by (simp add: find_map_wd)

lemma fold_copy_status:
  "wd_status (fold (copy_field obj) fs row) = (if FStatus \<in> set fs then wd_status obj else wd_status row)"
proof (induction fs arbitrary: row)
  case (Cons f fs)
  then show ?case by (cases f) simp_all
qed simp

text \<open>The part of the database that holds money.\<close>

definition same_money :: "'a wdb_scheme \<Rightarrow> 'a wdb_scheme \<Rightarrow> bool" where
  "same_money d d' \<longleftrightarrow> wallets d' = wallets d \<and> transactions d' = transactions d \<and> next_tx_id d' = next_tx_id d
     \<and> next_wallet_id d' = next_wallet_id d"

lemma same_money_refl [simp]: "same_money d d"
  by (simp add: same_money_def)

lemma same_money_trans: "same_money a b \<Longrightarrow> same_money b c \<Longrightarrow> same_money a c"
  by (simp add: same_money_def)

lemma same_money_write [simp]: "same_money d (write_fields fs obj d)"
  by (simp add: same_money_def write_fields_def set_wd_table_def)

lemma same_money_balance: "same_money d d' \<Longrightarrow> balance_of d' i = balance_of d i"
  by (simp add: same_money_def balance_of_def)

lemma same_money_ledger: "same_money d d' \<Longrightarrow> ledger_inv d' = ledger_inv d"
  by (simp add: same_money_def ledger_inv_def update_balance_from_transactions_def)

subsection \<open>Statuses\<close>

text \<open>What happens to the row of a request: it is there, with its status or rejected.\<close>

definition kept_or_rejected :: "nat \<Rightarrow> 'a wdb_scheme \<Rightarrow> 'a wdb_scheme \<Rightarrow> bool" where
  "kept_or_rejected i d d' \<longleftrightarrow>
     (\<forall>row. find_wd d i = Some row \<longrightarrow>
        (\<exists>row'. find_wd d' i = Some row' \<and> wd_status row' \<in> {wd_status row, WRejected}))"

lemma kept_refl [simp]: "kept_or_rejected i d d"
  by (auto simp: kept_or_rejected_def)

lemma kept_trans:
  assumes ab: "kept_or_rejected i a b" and bc: "kept_or_rejected i b c"
  shows "kept_or_rejected i a c"
  unfolding kept_or_rejected_def
proof (intro allI impI)
  fix row
  assume "find_wd a i = Some row"
  then obtain r1 where 1: "find_wd b i = Some r1" "wd_status r1 \<in> {wd_status row, WRejected}"
    using ab by (auto simp: kept_or_rejected_def)
  then obtain r2 where "find_wd c i = Some r2" "wd_status r2 \<in> {wd_status r1, WRejected}"
    using bc by (auto simp: kept_or_rejected_def)
  with 1 show "\<exists>row'. find_wd c i = Some row' \<and> wd_status row' \<in> {wd_status row, WRejected}" by auto
qed

lemma kept_write:
  "FStatus \<notin> set fs \<or> wd_status obj = WRejected \<Longrightarrow> kept_or_rejected i d (write_fields fs obj d)"
  by (auto simp: kept_or_rejected_def find_write_fields fold_copy_status split: if_splits)

lemma kept_reject: "kept_or_rejected i d (snd (system_reject_request obj d))"
  by (simp add: system_reject_request_def Let_def kept_write)

lemma recheck_cases:
  assumes "recheck_request env obj d = Inr (obj', d')"
  shows "obj' = obj \<and> d' = d \<or> (\<exists>fs. wd_status obj' = WRejected \<and> wd_id obj' = wd_id obj
     \<and> wd_transaction obj' = None \<and> d' = write_fields fs obj' d)"
  using assms unfolding recheck_request_def Let_def system_reject_request_def
  by (auto split: if_splits option.split_asm)

lemma recheck_kept:
  assumes "recheck_request env obj d = Inr (obj', d')"
  shows "kept_or_rejected i d d' \<and> same_money d d'"
  using recheck_cases [OF assms] kept_write by fastforce

lemma commit_wd: "commit d tx neg = Inr (d', tx') \<Longrightarrow> find_wd d' i = find_wd d i"
  by (auto simp: commit_Inr find_wd_def)

lemma create_wd_tx_kept:
  assumes "create_withdraw_transaction env obj d = Inr (obj', d')"
  shows "kept_or_rejected i d d' \<and> (wd_transaction obj' \<noteq> None \<or> wd_status obj' = WRejected) \<and> wd_id obj' = wd_id obj"
proof (cases "wd_transaction obj")
  case None
  obtain w where w: "find_wallet (wallets d) (wd_wallet obj) = Some w"
    using assms None by (auto simp: create_withdraw_transaction_def split: option.split_asm)
  from assms None w consider "(obj', d') = system_reject_request obj d"
    | tx d1 tx1 where "commit d tx False = Inr (d1, tx1)"
      "recheck_request env (obj\<lparr>wd_transaction := Some (tx_id tx1)\<rparr>)
         (write_fields [FTransaction] (obj\<lparr>wd_transaction := Some (tx_id tx1)\<rparr>) d1) = Inr (obj', d')"
    by (auto simp: create_withdraw_transaction_def rbind_eq_Inr_iff Let_def split: option.split_asm)
  then show ?thesis
  proof cases
    case 1
    then show ?thesis using kept_reject [of i d obj] by (auto simp: system_reject_request_def Let_def)
  next
    case 2
    have "kept_or_rejected i d d1" using commit_wd [OF 2(1)] by (auto simp: kept_or_rejected_def)
    moreover have "kept_or_rejected i d1 d'"
      using recheck_kept [OF 2(2), of i] kept_write [of "[FTransaction]"] kept_trans by (metis empty_iff list.set(1) set_ConsD wd_field.distinct(1))
    ultimately show ?thesis using recheck_cases [OF 2(2)] kept_trans by fastforce
  qed
qed (use assms in \<open>auto simp: create_withdraw_transaction_def\<close>)

lemma after_save_kept:
  assumes "after_save env obj d = Inr (obj', d')"
  shows "kept_or_rejected i d d'" "wd_status obj' \<in> set STATUSES_COMMITED \<Longrightarrow> wd_transaction obj' \<noteq> None"
proof -
  from assms obtain o1 d1 where r: "recheck_request env obj d = Inr (o1, d1)"
    and c: "(if wd_status o1 \<in> set STATUSES_COMMITED then create_withdraw_transaction env o1 d1 else Inr (o1, d1)) = Inr (obj', d')"
    by (auto simp: after_save_def rbind_eq_Inr_iff)
  show "kept_or_rejected i d d'"
    using recheck_kept [OF r, of i] c create_wd_tx_kept [of env o1 d1 obj' d' i] kept_trans by (fastforce split: if_splits)
  show "wd_transaction obj' \<noteq> None" if "wd_status obj' \<in> set STATUSES_COMMITED"
    using c create_wd_tx_kept [of env o1 d1 obj' d'] that by (auto simp: withdraw_statuses split: if_splits)
qed

lemma rejected_last: "check_status_transition old WRejected"
proof (cases old)
  case (Some a)
  then show ?thesis by (cases a) (simp_all add: check_status_transition_def)
qed (simp add: check_status_transition_def)

lemma transition_order:
  "check_status_transition (Some a) b \<Longrightarrow>
     STATUSES_STATE_INDEX a \<le> STATUSES_STATE_INDEX b \<and> (a \<in> set STATUSES_COMMITED \<longrightarrow> b \<noteq> WCanceled)"
  by (auto simp: check_status_transition_def withdraw_statuses split: if_splits)

text \<open>C15: whatever a caller writes into a request, saving it never moves its row back in the order
  of the statuses, and never cancels a request that has been sent.\<close>

theorem withdraw_status_order:
  assumes s: "save_withdraw env fs obj d = Inr (obj', d')" and row: "find_wd d (wd_id obj) = Some row"
  shows "\<exists>row'. find_wd d' (wd_id obj) = Some row'
     \<and> STATUSES_STATE_INDEX (wd_status row) \<le> STATUSES_STATE_INDEX (wd_status row')
     \<and> (wd_status row \<in> set STATUSES_COMMITED \<longrightarrow> wd_status row' \<noteq> WCanceled)"
proof -
  define o1 where "o1 = (if check_status_transition (Some (wd_status row)) (wd_status obj) then obj
                 else obj\<lparr>wd_status := wd_status row\<rparr>)"
  define row1 where "row1 = fold (copy_field o1) fs row"
  have id: "wd_id o1 = wd_id obj" by (simp add: o1_def)
  have a: "after_save env o1 (write_fields fs o1 d) = Inr (obj', d')"
    using s row unfolding save_withdraw_def o1_def Let_def
    by (cases "check_status_transition (Some (wd_status row)) (wd_status obj)") simp_all
  have r1: "find_wd (write_fields fs o1 d) (wd_id obj) = Some row1"
    using row by (simp add: find_write_fields id row1_def)
  have c1: "check_status_transition (Some (wd_status row)) (wd_status row1)"
    by (simp add: row1_def fold_copy_status o1_def) (simp add: check_status_transition_def)
  from after_save_kept(1) [OF a, of "wd_id obj"] r1 obtain row' where
    "find_wd d' (wd_id obj) = Some row'" "wd_status row' \<in> {wd_status row1, WRejected}"
    by (auto simp: kept_or_rejected_def)
  with c1 rejected_last transition_order show ?thesis by (metis insert_iff singletonD)
qed

text \<open>A request that is sent or done after it is saved has its transaction.\<close>

lemma committed_withdraw_paid:
  assumes "save_withdraw env fs obj d = Inr (obj', d')" "wd_status obj' \<in> set STATUSES_COMMITED"
  shows "wd_transaction obj' \<noteq> None"
  using assms after_save_kept(2) unfolding save_withdraw_def Let_def by blast

subsection \<open>Money\<close>

lemma ref_codes: "ref_code ''WithdrawRequest'' = Some 32" "ref_code ''ReverseTransaction'' = Some 51"
  "ref_code ''InternalTransferDeposit'' = Some 33"
  by (simp_all add: ref_code_def REF_MODULES_def)

lemma money_minus:
  assumes "money_field a"
  shows "dneg a = - a" "dneg (- a) = a" "quantize ROUND_HALF_EVEN MAX_PRECISION (- a) = Inr (- a)"
    "quantize ROUND_HALF_EVEN MAX_PRECISION a = Inr a"
proof -
  show "dneg a = - a" "dneg (- a) = a" using money_field_ctx [OF assms] by (simp_all add: dneg_def ctx_minus)
  show "quantize ROUND_HALF_EVEN MAX_PRECISION (- a) = Inr (- a)"
    by (rule money_quantize) (use assms in \<open>simp add: money_field_def\<close>)
  show "quantize ROUND_HALF_EVEN MAX_PRECISION a = Inr a" by (rule money_quantize [OF assms])
qed

lemma find_snoc: "find P (xs @ [y]) = (case find P xs of None \<Rightarrow> if P y then Some y else None | Some x \<Rightarrow> Some x)"
  by (induction xs) simp_all

lemma find_tx_new:
  assumes "ledger_inv d" "commit d tx neg = Inr (d', tx')"
  shows "find_tx d' (tx_id tx') = Some tx'"
proof -
  have "find (\<lambda>t. tx_id t = next_tx_id d) (transactions d) = None"
    using assms(1) by (auto simp: ledger_inv_def find_None_iff)
  then have "find (\<lambda>t. tx_id t = next_tx_id d) (transactions d @ [tx']) = (if tx_id tx' = next_tx_id d then Some tx' else None)"
    by (simp add: find_snoc)
  then show ?thesis using assms(2) by (auto simp: find_tx_def commit_Inr)
qed

lemma commit_is_rial: "commit d tx neg = Inr (d', tx') \<Longrightarrow> is_rial d' obj = is_rial d obj"
  by (cases "tx_wallet tx = wd_wallet obj") (auto simp: commit_Inr is_rial_def find_put_wallet split: option.split)

text \<open>Taking the amount of a request: refused, or one debit of the amount.\<close>

lemma withdraw_debit:
  assumes c: "create_withdraw_transaction env obj d = Inr (obj', d')" and new: "wd_transaction obj = None"
    and a: "money_field (wd_amount obj)" "0 < wd_amount obj" and inv: "ledger_inv d"
    and ok: "wd_status obj \<notin> {WCanceled, WRejected}"
  shows "wd_status obj' = WRejected \<and> wd_transaction obj' = None \<and> same_money d d'
    \<or> (\<exists>t tx. obj' = obj\<lparr>wd_transaction := Some t\<rparr> \<and> find_tx d' t = Some tx \<and> tx_amount tx = - wd_amount obj
         \<and> tx_wallet tx = wd_wallet obj \<and> transactions d' = transactions d @ [tx] \<and> ledger_inv d'
         \<and> wd_table d' = map (\<lambda>row. if wd_id row = wd_id obj then row\<lparr>wd_transaction := Some t\<rparr> else row) (wd_table d)
         \<and> next_wd_id d' = next_wd_id d \<and> is_rial d' obj = is_rial d obj
         \<and> (\<forall>i. balance_of d' i = map_option (\<lambda>b. b - (if i = wd_wallet obj then wd_amount obj else 0)) (balance_of d i)))"
proof -
  obtain w where w: "find_wallet (wallets d) (wd_wallet obj) = Some w"
    using c new by (auto simp: create_withdraw_transaction_def split: option.split_asm)
  define tp where "tp = (if wd_tp obj = WTGateway then TxGateway else TxWithdraw)"
  from c new w consider "(obj', d') = system_reject_request obj d"
    | tx d1 tx1 where "create_transaction w tp (- wd_amount obj) (we_now env) None None False = Inr (Some tx)"
      "commit d (tx\<lparr>tx_ref_module := Some 32, tx_ref_id := Some (wd_id obj)\<rparr>) False = Inr (d1, tx1)"
      "recheck_request env (obj\<lparr>wd_transaction := Some (tx_id tx1)\<rparr>)
         (write_fields [FTransaction] (obj\<lparr>wd_transaction := Some (tx_id tx1)\<rparr>) d1) = Inr (obj', d')"
    by (auto simp: create_withdraw_transaction_def rbind_eq_Inr_iff Let_def tp_def ref_codes money_minus(1) [OF a(1)]
        split: option.split_asm)
  then show ?thesis
  proof cases
    case 1
    then show ?thesis using new by (simp add: system_reject_request_def Let_def)
  next
    case 2
    define o1 where "o1 = obj\<lparr>wd_transaction := Some (tx_id tx1)\<rparr>"
    define d2 where "d2 = write_fields [FTransaction] o1 d1"
    note f = create_transaction_Some [OF 2(1)]
    have wid: "w_id w = wd_wallet obj" using find_wallet_Some [OF w] by simp
    have tx1: "tx_amount tx1 = - wd_amount obj" "tx_wallet tx1 = wd_wallet obj"
      using f 2(2) wid money_minus(3) [OF a(1)] by (auto simp: commit_Inr)
    have ft: "find_tx d2 (tx_id tx1) = Some tx1"
      using find_tx_new [OF inv 2(2)] by (simp add: d2_def find_tx_def write_fields_def set_wd_table_def)
    have fin: "obj' = o1" "d' = d2"
      using 2(3) ft tx1 a(2) ok by (auto simp: recheck_request_def o1_def [symmetric] d2_def [symmetric])
        (auto simp: o1_def)
    have "ledger_inv d2" using commit_keeps_ledger_inv [OF inv 2(2)] by (simp add: d2_def same_money_ledger [OF same_money_write])
    moreover have "transactions d2 = transactions d @ [tx1]" "next_wd_id d2 = next_wd_id d"
      "wd_table d2 = map (\<lambda>row. if wd_id row = wd_id obj then row\<lparr>wd_transaction := Some (tx_id tx1)\<rparr> else row) (wd_table d)"
      using 2(2) by (auto simp: d2_def commit_Inr write_fields_def set_wd_table_def o1_def)
    moreover have "is_rial d2 obj = is_rial d obj"
      using commit_is_rial [OF 2(2)] by (simp add: d2_def is_rial_def write_fields_def set_wd_table_def)
    moreover have "balance_of d2 i = map_option (\<lambda>b. b - (if i = wd_wallet obj then wd_amount obj else 0)) (balance_of d i)" for i
      using commit_balance_of [OF 2(2), of i] f tx1 wid 2(2) same_money_balance [OF same_money_write, of "[FTransaction]" o1 d1 i]
      by (cases "balance_of d i") (auto simp: d2_def commit_Inr)
    ultimately show ?thesis using ft tx1 unfolding fin o1_def by blast
  qed
qed

text \<open>A request whose transaction is in order passes the checks of \<open>save\<close> as it is.\<close>

definition paid :: "withdraw \<Rightarrow> 'a wdb_scheme \<Rightarrow> transaction \<Rightarrow> bool" where
  "paid obj d tx \<longleftrightarrow> (\<exists>t. wd_transaction obj = Some t \<and> find_tx d t = Some tx)
     \<and> tx_wallet tx = wd_wallet obj \<and> tx_amount tx < 0"

lemma paid_same: "same_money d d' \<Longrightarrow> paid obj d' tx = paid obj d tx"
  by (simp add: paid_def find_tx_def same_money_def)

lemma after_save_paid: "paid obj d tx \<Longrightarrow> after_save env obj d = Inr (obj, d)"
  by (auto simp: after_save_def recheck_request_def paid_def create_withdraw_transaction_def rbind_def)

definition guarded :: "withdraw \<Rightarrow> 'a wdb_scheme \<Rightarrow> withdraw" where
  "guarded obj d =
     (case find_wd d (wd_id obj) of
        None \<Rightarrow> obj
      | Some row \<Rightarrow> if check_status_transition (Some (wd_status row)) (wd_status obj) then obj
                    else obj\<lparr>wd_status := wd_status row\<rparr>)"

lemma guarded_sel [simp]:
  "wd_id (guarded obj d) = wd_id obj" "wd_transaction (guarded obj d) = wd_transaction obj"
  "wd_wallet (guarded obj d) = wd_wallet obj" "wd_amount (guarded obj d) = wd_amount obj"
  by (simp_all add: guarded_def split: option.split)

lemma paid_guarded [simp]: "paid (guarded obj d0) d tx = paid obj d tx"
  by (simp add: paid_def)

lemma save_paid:
  assumes "paid obj d tx"
  shows "save_withdraw env fs obj d = Inr (guarded obj d, write_fields fs (guarded obj d) d)"
proof -
  have "save_withdraw env fs obj d = after_save env (guarded obj d) (write_fields fs (guarded obj d) d)"
    by (auto simp: save_withdraw_def guarded_def Let_def check_status_transition_def split: option.split)
  moreover have "paid (guarded obj d) (write_fields fs (guarded obj d) d) tx"
    using assms paid_same [OF same_money_write] by (metis paid_guarded)
  ultimately show ?thesis using after_save_paid by metis
qed

lemma create_part_paid:
  assumes "paid obj d tx"
  shows "\<exists>d' p. create_part env obj d a = Inr d' \<and> same_money d d' \<and> wd_table d' = wd_table d @ [p]
    \<and> wd_status p = wd_status obj \<and> wd_transaction p = wd_transaction obj \<and> wd_wallet p = wd_wallet obj \<and> wd_id p = next_wd_id d
    \<and> wd_amount p = of_int a \<and> next_wd_id d' = Suc (next_wd_id d)"
proof -
  define p where "p = obj\<lparr>wd_amount := of_int a, wd_rial_value := Some (of_int a),
      wd_fee := Some (part_fee (max_fee env obj) a)\<rparr>\<lparr>wd_id := next_wd_id d\<rparr>"
  define d' where "d' = (set_wd_table (wd_table d @ [p]) d)\<lparr>next_wd_id := Suc (next_wd_id d)\<rparr>"
  have sm: "same_money d d'" by (simp add: d'_def same_money_def set_wd_table_def)
  have "paid p d' tx" using assms unfolding paid_same [OF sm] by (simp add: paid_def p_def)
  from after_save_paid [OF this, of env] have "create_part env obj d a = Inr d'"
    by (simp add: create_part_def insert_withdraw_def p_def d'_def Let_def)
  with sm show ?thesis by (intro exI [of _ d'] exI [of _ p]) (simp add: d'_def p_def set_wd_table_def)
qed

lemma create_parts_paid:
  assumes "paid obj d tx"
  shows "\<exists>d' ps. fold_result (create_part env obj) d xs = Inr d' \<and> same_money d d' \<and> wd_table d' = wd_table d @ ps
    \<and> map wd_amount ps = map of_int xs
    \<and> (\<forall>p \<in> set ps. wd_status p = wd_status obj \<and> wd_transaction p = wd_transaction obj \<and> wd_wallet p = wd_wallet obj
         \<and> next_wd_id d \<le> wd_id p)"
  using assms
proof (induction xs arbitrary: d)
  case (Cons x xs)
  from create_part_paid [OF Cons.prems, of env x] obtain d1 p where
    1: "create_part env obj d x = Inr d1" "same_money d d1" "wd_table d1 = wd_table d @ [p]" "wd_status p = wd_status obj"
      "wd_transaction p = wd_transaction obj" "wd_wallet p = wd_wallet obj" "wd_id p = next_wd_id d" "wd_amount p = of_int x" "next_wd_id d1 = Suc (next_wd_id d)"
    by blast
  have "paid obj d1 tx" using Cons.prems paid_same [OF 1(2)] by simp
  from Cons.IH [OF this] obtain d2 ps where
    2: "fold_result (create_part env obj) d1 xs = Inr d2" "same_money d1 d2" "wd_table d2 = wd_table d1 @ ps"
      "map wd_amount ps = map of_int xs"
      "\<forall>p \<in> set ps. wd_status p = wd_status obj \<and> wd_transaction p = wd_transaction obj \<and> wd_wallet p = wd_wallet obj
         \<and> next_wd_id d1 \<le> wd_id p"
    by blast
  have "same_money d d2" by (rule same_money_trans [OF 1(2) 2(2)])
  moreover have "\<forall>q \<in> set (p # ps). wd_status q = wd_status obj \<and> wd_transaction q = wd_transaction obj \<and> wd_wallet q = wd_wallet obj
      \<and> next_wd_id d \<le> wd_id q"
    using 1 2(5) by (auto simp: Suc_le_eq less_imp_le)
  ultimately show ?case using 1 2 by (intro exI [of _ d2] exI [of _ "p # ps"]) simp
qed simp

lemma table_write_id:
  "map wd_id (wd_table (write_fields fs obj d)) = map wd_id (wd_table d)" "next_wd_id (write_fields fs obj d) = next_wd_id d"
  by (simp_all add: write_fields_def set_wd_table_def)

definition whole_rials :: "rat \<Rightarrow> int" where
  "whole_rials a = (if 0 \<le> a then \<lfloor>a\<rfloor> else \<lceil>a\<rceil>)"

definition first_part :: "wenv \<Rightarrow> withdraw \<Rightarrow> withdraw" where
  "first_part env obj =
     (let x = hd (split_amounts (max_amount env obj) (whole_rials (wd_amount obj)))
      in obj\<lparr>wd_fee := Some (of_int (max_fee env obj)), wd_amount := of_int x, wd_rial_value := Some (of_int x)\<rparr>)"

lemma first_part_sel [simp]:
  "wd_id (first_part env obj) = wd_id obj" "wd_transaction (first_part env obj) = wd_transaction obj"
  "wd_wallet (first_part env obj) = wd_wallet obj" "wd_status (first_part env obj) = wd_status obj"
  "paid (first_part env obj) d tx = paid obj d tx"
  by (simp_all add: first_part_def Let_def paid_def)

lemma split_paid_big:
  assumes s: "split_if_needed env obj d = Inr (obj', d')" and p: "paid obj d tx"
    and b: "is_rial d obj = Inr True" "max_amount env obj < whole_rials (wd_amount obj)"
  shows "obj' = guarded (first_part env obj) d
    \<and> fold_result (create_part env obj') (write_fields [FAmount, FRialValue, FFee] obj' d)
        (tl (split_amounts (max_amount env obj) (whole_rials (wd_amount obj)))) = Inr d'"
proof -
  have "save_withdraw env [FAmount, FRialValue, FFee] (first_part env obj) d
      = Inr (guarded (first_part env obj) d, write_fields [FAmount, FRialValue, FFee] (guarded (first_part env obj) d) d)"
    by (rule save_paid [where tx = tx]) (simp add: p)
  then show ?thesis
    using s b unfolding split_if_needed_def Let_def whole_rials_def [symmetric]
    by (auto simp: first_part_def [unfolded Let_def, symmetric] rbind_eq_Inr_iff)
qed

lemma split_paid_small:
  assumes s: "split_if_needed env obj d = Inr (obj', d')" and p: "paid obj d tx"
    and b: "\<not> (is_rial d obj = Inr True \<and> max_amount env obj < whole_rials (wd_amount obj))"
  shows "obj' = obj \<and> d' = d \<or> (\<exists>f. obj' = guarded (obj\<lparr>wd_fee := f\<rparr>) d \<and> d' = write_fields [FFee] obj' d)"
proof -
  have pp: "paid (obj\<lparr>wd_fee := f\<rparr>) d tx" for f using p by (simp add: paid_def)
  from s obtain rial where r: "is_rial d obj = Inr rial" by (auto simp: split_if_needed_def rbind_eq_Inr_iff)
  show ?thesis
  proof (cases rial)
    case True
    with b r have "whole_rials (wd_amount obj) \<le> max_amount env obj" by simp
    with s r True show ?thesis
      unfolding split_if_needed_def Let_def whole_rials_def [symmetric] by (auto simp: save_paid [OF pp])
  qed (use s r in \<open>simp add: split_if_needed_def\<close>)
qed

text \<open>Splitting a request that is paid for moves no money.\<close>

lemma split_paid:
  assumes s: "split_if_needed env obj d = Inr (obj', d')" and p: "paid obj d tx"
  shows "same_money d d' \<and> wd_id obj' = wd_id obj \<and> wd_transaction obj' = wd_transaction obj \<and> wd_wallet obj' = wd_wallet obj"
proof (cases "is_rial d obj = Inr True \<and> max_amount env obj < whole_rials (wd_amount obj)")
  case True
  define d1 where "d1 = write_fields [FAmount, FRialValue, FFee] obj' d"
  note b = split_paid_big [OF s p conjunct1 [OF True] conjunct2 [OF True], folded d1_def]
  have sm: "same_money d d1" by (simp add: d1_def)
  have "paid obj' d1 tx" using b p paid_same [OF sm] by simp
  from create_parts_paid [OF this, of env "tl (split_amounts (max_amount env obj) (whole_rials (wd_amount obj)))"] b
  have "same_money d1 d'" by auto
  then show ?thesis using b same_money_trans [OF sm] by simp
next
  case False
  from split_paid_small [OF s p False] show ?thesis by auto
qed

subsection \<open>Verifying and cancelling\<close>

lemma guarded_verify:
  assumes "find_wd d (wd_id obj) = Some row" "wd_status row = WNew" "wd_status obj = WVerified"
  shows "guarded obj d = obj"
  using assms by (simp add: guarded_def check_status_transition_def)

text \<open>Verifying with immediate transactions: the request is rejected, or it is paid and split.\<close>

lemma do_verify_paid:
  assumes v: "do_verify env obj d = Inr (obj1, d1)" and flag: "WITHDRAW_CREATE_TX_VERIFY env"
    and row: "find_wd d (wd_id obj) = Some obj" "wd_status obj = WNew" "wd_transaction obj = None"
    and a: "money_field (wd_amount obj)" "0 < wd_amount obj" and inv: "ledger_inv d"
  shows "wd_transaction obj1 = None \<and> wd_status obj1 = WRejected
    \<or> (\<exists>t tx d0. let o2 = obj\<lparr>wd_transaction := Some t, wd_status := WVerified\<rparr>; d2 = write_fields [FStatus] o2 d0
         in paid o2 d2 tx \<and> tx_amount tx = - wd_amount obj \<and> ledger_inv d0 \<and> next_wd_id d0 = next_wd_id d
            \<and> split_if_needed env o2 d2 = Inr (obj1, d1) \<and> is_rial d2 o2 = is_rial d obj
            \<and> wd_table d0 = map (\<lambda>r. if wd_id r = wd_id obj then r\<lparr>wd_transaction := Some t\<rparr> else r) (wd_table d)
            \<and> (\<forall>i. balance_of d2 i = map_option (\<lambda>b. b - (if i = wd_wallet obj then wd_amount obj else 0)) (balance_of d i)))"
proof -
  from v flag row obtain x where "create_withdraw_transaction env obj d = Inr x"
    by (auto simp: do_verify_def rbind_eq_Inr_iff)
  then obtain o1 d0 where c: "create_withdraw_transaction env obj d = Inr (o1, d0)" by (cases x) simp
  have k: "if wd_transaction o1 = None then (obj1, d1) = (o1, d0)
       else rbind (save_withdraw env [FStatus] (o1\<lparr>wd_status := WVerified\<rparr>) d0)
            (\<lambda>(obj, d). split_if_needed env obj d) = Inr (obj1, d1)"
    using v flag row c by (auto simp: do_verify_def split: if_splits)
  from withdraw_debit [OF c row(3) a inv] row(2) consider
      "wd_status o1 = WRejected" "wd_transaction o1 = None"
    | t tx where "o1 = obj\<lparr>wd_transaction := Some t\<rparr>" "find_tx d0 t = Some tx" "tx_amount tx = - wd_amount obj"
        "tx_wallet tx = wd_wallet obj" "ledger_inv d0" "next_wd_id d0 = next_wd_id d" "is_rial d0 obj = is_rial d obj"
        "wd_table d0 = map (\<lambda>r. if wd_id r = wd_id obj then r\<lparr>wd_transaction := Some t\<rparr> else r) (wd_table d)"
        "\<forall>i. balance_of d0 i = map_option (\<lambda>b. b - (if i = wd_wallet obj then wd_amount obj else 0)) (balance_of d i)"
    by auto
  then show ?thesis
  proof cases
    case 1
    with k show ?thesis by simp
  next
    case 2
    define o2 where "o2 = obj\<lparr>wd_transaction := Some t, wd_status := WVerified\<rparr>"
    define d2 where "d2 = write_fields [FStatus] o2 d0"
    have "find_wd d0 (wd_id o2) = Some (obj\<lparr>wd_transaction := Some t\<rparr>)"
      using row(1) 2(8) by (simp add: find_wd_def o2_def find_map_wd)
    then have g: "guarded o2 d0 = o2" using row(2)
      by (intro guarded_verify [where row = "obj\<lparr>wd_transaction := Some t\<rparr>"]) (simp_all add: o2_def)
    have p: "paid o2 d0 tx" using 2(2-4) a(2) by (simp add: paid_def o2_def)
    have "o1\<lparr>wd_status := WVerified\<rparr> = o2" "wd_transaction o1 \<noteq> None" by (simp_all add: 2(1) o2_def)
    with k save_paid [OF p, of env "[FStatus]"] have sp: "split_if_needed env o2 d2 = Inr (obj1, d1)"
      by (simp add: g d2_def)
    have "paid o2 d2 tx" using p by (simp add: d2_def paid_same [OF same_money_write])
    moreover have "balance_of d2 i = balance_of d0 i" for i by (simp add: d2_def same_money_balance [OF same_money_write])
    moreover have "is_rial d2 o2 = is_rial d0 obj" by (simp add: is_rial_def d2_def o2_def write_fields_def set_wd_table_def)
    ultimately show ?thesis
      using 2(3,5-9) sp unfolding Let_def o2_def [symmetric] d2_def [symmetric]
      by (intro disjI2 exI [of _ t] exI [of _ tx] exI [of _ d0]) (simp add: o2_def [symmetric] d2_def [symmetric])
  qed
qed

lemma refund_effect:
  assumes r: "refund env i t d = Inr (Some tx, d')" and a: "money_field a" "tx_amount t = - a"
  shows "balance_of d' j = map_option (\<lambda>b. b + (if j = i then a else 0)) (balance_of d j)" "wd_table d' = wd_table d"
proof -
  from r obtain w where w: "find_wallet (wallets d) i = Some w" by (auto simp: refund_def split: option.split_asm)
  with r obtain tx0 where c: "create_transaction w TxRefund (dneg (tx_amount t)) (we_now env) None None False = Inr (Some tx0)"
    and cm: "commit d (tx0\<lparr>tx_ref_module := Some 51, tx_ref_id := Some (tx_id t)\<rparr>) False = Inr (d', tx)"
    by (auto simp: refund_def rbind_eq_Inr_iff ref_codes split: option.split_asm)
  note f = create_transaction_Some [OF c]
  have "tx_amount tx0 = a" using f money_minus [OF a(1)] by (simp add: a(2))
  moreover have "tx_wallet tx0 = i" using f find_wallet_Some [OF w] by simp
  ultimately show "balance_of d' j = map_option (\<lambda>b. b + (if j = i then a else 0)) (balance_of d j)"
    using commit_balance_of [OF cm, of j] by (cases "balance_of d j") auto
  show "wd_table d' = wd_table d" using cm by (auto simp: commit_Inr)
qed

text \<open>Cancelling a paid request that is not an internal transfer.\<close>

lemma cancel_paid:
  assumes c: "cancel_request env obj d = Inr (True, obj', d')" and flag: "WITHDRAW_CREATE_TX_VERIFY env"
    and p: "paid obj d tx" and ext: "\<forall>w. we_internal_target env w = None"
    and a: "money_field a" "tx_amount tx = - a"
  shows "balance_of d' j = map_option (\<lambda>b. b + (if j = wd_wallet obj then a else 0)) (balance_of d j)
    \<and> wd_table d' = wd_table (write_fields [FStatus] (guarded (obj\<lparr>wd_status := WCanceled\<rparr>) d) d)"
proof -
  define o1 where "o1 = guarded (obj\<lparr>wd_status := WCanceled\<rparr>) d"
  define d1 where "d1 = write_fields [FStatus] o1 d"
  have pc: "paid (obj\<lparr>wd_status := WCanceled\<rparr>) d tx" using p by (simp add: paid_def)
  have p1: "paid o1 d1 tx" using pc by (simp add: o1_def d1_def paid_same [OF same_money_write])
  from c save_paid [OF pc, of env "[FStatus]", folded o1_def, folded d1_def] flag p1
  obtain r where "create_reverse_transaction env o1 d1 = Inr (Some r, d')"
    by (auto simp: cancel_request_def rbind_eq_Inr_iff paid_def split: if_splits)
  then have "refund env (wd_wallet obj) tx d1 = Inr (Some r, d')"
    using p1 ext by (auto simp: create_reverse_transaction_def paid_def o1_def)
  from refund_effect [OF this a] show ?thesis
    by (simp add: d1_def o1_def same_money_balance [OF same_money_write])
qed

lemma guarded_same_status:
  assumes "\<forall>row. find_wd d (wd_id obj) = Some row \<longrightarrow> wd_status row = wd_status obj"
  shows "guarded obj d = obj"
  using assms by (auto simp: guarded_def check_status_transition_def split: option.split)

text \<open>The rows of the parts of a split request.\<close>

lemma split_paid_parts:
  assumes s: "split_if_needed env obj d = Inr (obj1, d1)" and p: "paid obj d tx"
    and big: "is_rial d obj = Inr True" "max_amount env obj < whole_rials (wd_amount obj)" "2 * MIN_SPLIT \<le> max_amount env obj"
    and st: "\<forall>row. find_wd d (wd_id obj) = Some row \<longrightarrow> wd_status row = wd_status obj"
  shows "\<exists>ps. wd_table d1 = wd_table (write_fields [FAmount, FRialValue, FFee] obj1 d) @ ps \<and> ps \<noteq> []
     \<and> obj1 = first_part env obj \<and> 0 < wd_amount obj1
     \<and> (\<forall>q \<in> set ps. wd_status q = wd_status obj \<and> wd_transaction q = wd_transaction obj \<and> wd_wallet q = wd_wallet obj
          \<and> next_wd_id d \<le> wd_id q \<and> 0 < wd_amount q)"
proof -
  define parts where "parts = split_amounts (max_amount env obj) (whole_rials (wd_amount obj))"
  define d4 where "d4 = write_fields [FAmount, FRialValue, FFee] obj1 d"
  note sb = split_paid_big [OF s p big(1,2), folded parts_def d4_def]
  have g: "obj1 = first_part env obj" using sb guarded_same_status [of d "first_part env obj"] st by simp
  have "paid obj1 d4 tx" using g p by (simp add: d4_def paid_same [OF same_money_write])
  from create_parts_paid [OF this, of env "tl parts"] sb obtain ps where
    ps: "wd_table d1 = wd_table d4 @ ps" "map wd_amount ps = map of_int (tl parts)"
      "\<forall>p \<in> set ps. wd_status p = wd_status obj1 \<and> wd_transaction p = wd_transaction obj1 \<and> wd_wallet p = wd_wallet obj1
         \<and> next_wd_id d4 \<le> wd_id p"
    by auto
  have split: "sum_list parts = whole_rials (wd_amount obj)" "\<forall>x \<in> set parts. MIN_SPLIT \<le> x \<and> x \<le> max_amount env obj"
    using split_amounts_exact_parts [OF big(3,2)] by (simp_all add: parts_def)
  obtain y ys where y: "parts = y # ys" by (cases parts) (use split big in \<open>auto simp: MIN_SPLIT_def\<close>)
  with split big(2) have "ys \<noteq> []" by auto
  then have "ps \<noteq> []" using ps(2) y by auto
  moreover have "wd_amount obj1 = of_int y" using y by (simp add: g first_part_def parts_def [symmetric] Let_def)
  moreover have "0 < wd_amount q" if "q \<in> set ps" for q
  proof -
    have "wd_amount q \<in> of_int ` set ys" using ps(2) y that by (metis image_eqI list.sel(3) list.set_map)
    then show ?thesis using split(2) y by (auto simp: MIN_SPLIT_def)
  qed
  moreover have "0 < y" using split(2) y by (simp add: MIN_SPLIT_def)
  ultimately show ?thesis using ps(1,3) unfolding d4_def
    by (intro exI [of _ ps]) (simp add: g table_write_id)
qed

text \<open>What verification has done when the request is not rejected.\<close>

lemma verified_row:
  assumes v: "do_verify env obj d = Inr (obj1, d1)" and ok: "\<not> (wd_transaction obj1 = None \<and> wd_status obj1 = WRejected)"
    and flag: "WITHDRAW_CREATE_TX_VERIFY env"
    and row: "find_wd d (wd_id obj) = Some obj" "wd_status obj = WNew" "wd_transaction obj = None"
    and a: "money_field (wd_amount obj)" "0 < wd_amount obj" and inv: "ledger_inv d"
  obtains t tx o2 d3 where "o2 = obj\<lparr>wd_transaction := Some t, wd_status := WVerified\<rparr>"
    "paid o2 d3 tx" "tx_amount tx = - wd_amount obj" "split_if_needed env o2 d3 = Inr (obj1, d1)"
    "paid obj1 d1 tx" "wd_wallet obj1 = wd_wallet obj" "wd_id obj1 = wd_id obj" "same_money d3 d1"
    "next_wd_id d3 = next_wd_id d" "is_rial d3 o2 = is_rial d obj"
    "wd_table d3 = map (\<lambda>r. if wd_id r = wd_id obj then r\<lparr>wd_transaction := Some t, wd_status := WVerified\<rparr> else r) (wd_table d)"
    "\<forall>i. balance_of d1 i = map_option (\<lambda>b. b - (if i = wd_wallet obj then wd_amount obj else 0)) (balance_of d i)"
proof -
  from do_verify_paid [OF v flag row a inv, unfolded Let_def] ok obtain t tx d0 o2 d3 where
    3: "o2 = obj\<lparr>wd_transaction := Some t, wd_status := WVerified\<rparr>" "d3 = write_fields [FStatus] o2 d0"
      "paid o2 d3 tx" "tx_amount tx = - wd_amount obj" "split_if_needed env o2 d3 = Inr (obj1, d1)"
      "next_wd_id d0 = next_wd_id d" "is_rial d3 o2 = is_rial d obj"
      "wd_table d0 = map (\<lambda>r. if wd_id r = wd_id obj then r\<lparr>wd_transaction := Some t\<rparr> else r) (wd_table d)"
      "\<forall>i. balance_of d3 i = map_option (\<lambda>b. b - (if i = wd_wallet obj then wd_amount obj else 0)) (balance_of d i)"
    by blast
  note sp = split_paid [OF 3(5,3)]
  have "paid obj1 d3 tx" using 3(3) sp by (simp add: paid_def)
  then have p1: "paid obj1 d1 tx" using paid_same [OF conjunct1 [OF sp]] by simp
  have "wd_table d3 = map (\<lambda>r. if wd_id r = wd_id obj then r\<lparr>wd_transaction := Some t, wd_status := WVerified\<rparr> else r) (wd_table d)"
    by (simp add: 3(1,2,8) write_fields_def set_wd_table_def)
  moreover have "balance_of d1 i = balance_of d3 i" for i using sp same_money_balance by blast
  ultimately show ?thesis
    using 3 sp p1 by (intro that [of o2 t d3 tx]) (simp_all add: table_write_id)
qed

lemma verified_paid:
  assumes v: "do_verify env obj d = Inr (obj1, d1)" and c: "cancel_request env obj1 d1 = Inr (True, obj2, d2)"
    and flag: "WITHDRAW_CREATE_TX_VERIFY env"
    and row: "find_wd d (wd_id obj) = Some obj" "wd_status obj = WNew" "wd_transaction obj = None"
    and a: "money_field (wd_amount obj)" "0 < wd_amount obj" and inv: "ledger_inv d"
  obtains tx where "paid obj1 d1 tx" "tx_amount tx = - wd_amount obj" "wd_wallet obj1 = wd_wallet obj"
    "\<forall>i. balance_of d1 i = map_option (\<lambda>b. b - (if i = wd_wallet obj then wd_amount obj else 0)) (balance_of d i)"
proof -
  have "\<not> (wd_transaction obj1 = None \<and> wd_status obj1 = WRejected)"
    using c by (auto simp: cancel_request_def is_cancelable_def rbind_eq_Inr_iff withdraw_statuses)
  from v this flag row a inv show ?thesis by (rule verified_row) (erule that; assumption)
qed

lemma rows_of_first:
  assumes "\<And>r. r \<in> set (wd_table d) \<Longrightarrow> wd_id r = i \<Longrightarrow> r = obj" "obj1 = first_part env obj" "wd_id obj1 = i"
    and q: "q \<in> set (wd_table (write_fields [FAmount, FRialValue, FFee] obj1 d))" "wd_id q = i"
  shows "q = obj1"
proof -
  from q(1) obtain r where r: "r \<in> set (wd_table d)"
    "q = (if wd_id r = wd_id obj1 then fold (copy_field obj1) [FAmount, FRialValue, FFee] r else r)"
    by (auto simp: write_fields_def set_wd_table_def)
  have "r = obj" using assms(1) [OF r(1)] q(2) r(2) by (simp split: if_splits)
  then show ?thesis using r(2) assms(2,3) by (cases obj) (simp add: first_part_def Let_def)
qed

lemma rows_of_parts:
  assumes t: "wd_table d1 = wd_table (write_fields [FAmount, FRialValue, FFee] obj1 d) @ ps"
    and only: "\<And>r. r \<in> set (wd_table d) \<Longrightarrow> wd_id r = i \<Longrightarrow> r = obj" and o1: "obj1 = first_part env obj" "wd_id obj1 = i"
    and old: "\<forall>r \<in> set (wd_table d). wd_id r < n" and P: "P obj1" "\<forall>q \<in> set ps. P q"
  shows "\<forall>q \<in> set (wd_table d1). wd_id q = i \<or> n \<le> wd_id q \<longrightarrow> P q"
proof (intro ballI impI)
  fix q assume q: "q \<in> set (wd_table d1)" "wd_id q = i \<or> n \<le> wd_id q"
  show "P q"
  proof (cases "q \<in> set ps")
    case False
    with q(1) have m: "q \<in> set (wd_table (write_fields [FAmount, FRialValue, FFee] obj1 d))" by (simp add: t)
    then have "wd_id q \<in> set (map wd_id (wd_table d))" by (metis table_write_id(1) image_eqI list.set_map)
    then have "wd_id q < n" using old by auto
    then have "q = obj1" using rows_of_first [OF only o1 m] q(2) by simp
    then show ?thesis using P(1) by simp
  qed (use P(2) in simp)
qed

text \<open>The parts of a verified request that is split, when ids are fresh.\<close>

lemma verified_parts:
  assumes v: "do_verify env obj d = Inr (obj1, d1)" and ok: "wd_transaction obj1 \<noteq> None"
    and flag: "WITHDRAW_CREATE_TX_VERIFY env"
    and row: "find_wd d (wd_id obj) = Some obj" "wd_status obj = WNew" "wd_transaction obj = None"
    and a: "money_field (wd_amount obj)" "0 < wd_amount obj" and inv: "ledger_inv d"
    and big: "is_rial d obj = Inr True" "max_amount env obj < whole_rials (wd_amount obj)"
    and mx: "\<forall>t st. we_is_vandar env (obj\<lparr>wd_transaction := t, wd_status := st\<rparr>) = we_is_vandar env obj"
      "2 * MIN_SPLIT \<le> max_amount env obj"
    and ids: "distinct (map wd_id (wd_table d))" "\<forall>r \<in> set (wd_table d). wd_id r < next_wd_id d"
  obtains t tx where "find_tx d1 t = Some tx" "tx_wallet tx = wd_wallet obj" "tx_amount tx = - wd_amount obj"
    "\<forall>q \<in> set (wd_table d1). wd_id q = wd_id obj \<or> next_wd_id d \<le> wd_id q \<longrightarrow>
        wd_status q = WVerified \<and> wd_transaction q = Some t \<and> wd_wallet q = wd_wallet obj \<and> 0 < wd_amount q"
    "\<exists>q \<in> set (wd_table d1). wd_id q = wd_id obj" "\<exists>q \<in> set (wd_table d1). next_wd_id d \<le> wd_id q"
    "\<forall>i. balance_of d1 i = map_option (\<lambda>b. b - (if i = wd_wallet obj then wd_amount obj else 0)) (balance_of d i)"
proof -
  from ok have "\<not> (wd_transaction obj1 = None \<and> wd_status obj1 = WRejected)" by simp
  from v this flag row a inv obtain t tx o2 d3 where 3: "o2 = obj\<lparr>wd_transaction := Some t, wd_status := WVerified\<rparr>"
    "paid o2 d3 tx" "tx_amount tx = - wd_amount obj" "split_if_needed env o2 d3 = Inr (obj1, d1)"
    "paid obj1 d1 tx" "wd_wallet obj1 = wd_wallet obj" "wd_id obj1 = wd_id obj" "same_money d3 d1"
    "next_wd_id d3 = next_wd_id d" "is_rial d3 o2 = is_rial d obj"
    "wd_table d3 = map (\<lambda>r. if wd_id r = wd_id obj then r\<lparr>wd_transaction := Some t, wd_status := WVerified\<rparr> else r) (wd_table d)"
    "\<forall>i. balance_of d1 i = map_option (\<lambda>b. b - (if i = wd_wallet obj then wd_amount obj else 0)) (balance_of d i)"
    by (rule verified_row)
  have mem: "obj \<in> set (wd_table d)" using row(1) by (auto simp: find_wd_def find_Some_iff)
  have only: "r = obj" if "r \<in> set (wd_table d)" "wd_id r = wd_id obj" for r
    using that mem ids(1) by (metis distinct_map inj_onD)
  have mxs: "max_amount env o2 = max_amount env obj" using mx(1) by (simp add: max_amount_def 3(1))
  have "\<forall>r. find_wd d3 (wd_id o2) = Some r \<longrightarrow> wd_status r = wd_status o2"
    by (auto simp: find_wd_def find_Some_iff 3(1,11))
  with split_paid_parts [OF 3(4,2)] big mx(2) mxs 3(1,9,10) obtain ps where
    ps: "wd_table d1 = wd_table (write_fields [FAmount, FRialValue, FFee] obj1 d3) @ ps" "ps \<noteq> []"
      "obj1 = first_part env o2" "0 < wd_amount obj1"
      "\<forall>q \<in> set ps. wd_status q = WVerified \<and> wd_transaction q = Some t \<and> wd_wallet q = wd_wallet obj
          \<and> next_wd_id d \<le> wd_id q \<and> 0 < wd_amount q" by auto
  have o2: "r = o2" if "r \<in> set (wd_table d3)" "wd_id r = wd_id obj" for r
    using that only by (auto simp: 3(1,11) split: if_splits)
  have old: "\<forall>r \<in> set (wd_table d3). wd_id r < next_wd_id d" using ids(2) by (auto simp: 3(11))
  have o1: "wd_status obj1 = WVerified" "wd_transaction obj1 = Some t" by (simp_all add: ps(3) 3(1))
  have "\<forall>q \<in> set (wd_table d1). wd_id q = wd_id obj \<or> next_wd_id d \<le> wd_id q \<longrightarrow>
        wd_status q = WVerified \<and> wd_transaction q = Some t \<and> wd_wallet q = wd_wallet obj \<and> 0 < wd_amount q"
    by (rule rows_of_parts [OF ps(1) o2 ps(3) 3(7) old]) (use ps(4,5) o1 3(6) in simp_all)
  moreover have "wd_id obj \<in> set (map wd_id (wd_table (write_fields [FAmount, FRialValue, FFee] obj1 d3)))"
    unfolding table_write_id using mem by (force simp: 3(11))
  then have "\<exists>q \<in> set (wd_table d1). wd_id q = wd_id obj" by (auto simp: ps(1))
  moreover have "\<exists>q \<in> set (wd_table d1). next_wd_id d \<le> wd_id q" using ps(2,5) by (cases ps) (auto simp: ps(1))
  ultimately show ?thesis using that 3(3,5,6,12) o1(2) by (auto simp: paid_def)
qed

text \<open>C16: verifying a request and cancelling it again gives every wallet the balance it had, when
  the amount is taken at verification.\<close>

theorem verify_cancel_roundtrip:
  assumes v: "do_verify env obj d = Inr (obj1, d1)" and c: "cancel_request env obj1 d1 = Inr (True, obj2, d2)"
    and flag: "WITHDRAW_CREATE_TX_VERIFY env" and ext: "\<forall>w. we_internal_target env w = None"
    and row: "find_wd d (wd_id obj) = Some obj" "wd_status obj = WNew" "wd_transaction obj = None"
    and a: "money_field (wd_amount obj)" "0 < wd_amount obj" and inv: "ledger_inv d"
  shows "balance_of d2 i = balance_of d i"
proof -
  obtain tx where p: "paid obj1 d1 tx" "tx_amount tx = - wd_amount obj" "wd_wallet obj1 = wd_wallet obj"
    "\<forall>i. balance_of d1 i = map_option (\<lambda>b. b - (if i = wd_wallet obj then wd_amount obj else 0)) (balance_of d i)"
    by (rule verified_paid [OF v c flag row a inv]) blast
  from cancel_paid [OF c flag p(1) ext a(1) p(2), of i] p(3,4) show ?thesis by (cases "balance_of d i") simp_all
qed

text \<open>C34: where the amount of a request is taken at verification, a large rial request is split into
  parts that share one transaction; cancelling any one of them gives back the amount of all of
  them, unless it goes to an internal wallet, and all the other parts stay verified, with the
  transaction that marks them as paid for.\<close>

theorem split_cancel_refunds_all:
  assumes v: "do_verify env obj d = Inr (obj1, d1)" and ok: "wd_transaction obj1 \<noteq> None"
    and part: "part \<in> set (wd_table d1)" "wd_id part = wd_id obj \<or> next_wd_id d \<le> wd_id part"
    and c: "cancel_request env part d1 = Inr (True, part', d2)"
    and flag: "WITHDRAW_CREATE_TX_VERIFY env" and ext: "\<forall>w. we_internal_target env w = None"
    and row: "find_wd d (wd_id obj) = Some obj" "wd_status obj = WNew" "wd_transaction obj = None"
    and a: "money_field (wd_amount obj)" "0 < wd_amount obj" and inv: "ledger_inv d"
    and big: "is_rial d obj = Inr True" "max_amount env obj < whole_rials (wd_amount obj)"
    and mx: "\<forall>t st. we_is_vandar env (obj\<lparr>wd_transaction := t, wd_status := st\<rparr>) = we_is_vandar env obj"
      "2 * MIN_SPLIT \<le> max_amount env obj"
    and ids: "distinct (map wd_id (wd_table d))" "\<forall>r \<in> set (wd_table d). wd_id r < next_wd_id d"
  shows "balance_of d2 i = balance_of d i
     \<and> (\<forall>q \<in> set (wd_table d2). (wd_id q = wd_id obj \<or> next_wd_id d \<le> wd_id q) \<and> wd_id q \<noteq> wd_id part \<longrightarrow>
          wd_status q = WVerified \<and> wd_transaction q = wd_transaction part \<and> 0 < wd_amount q)
     \<and> (\<exists>q \<in> set (wd_table d2). (wd_id q = wd_id obj \<or> next_wd_id d \<le> wd_id q) \<and> wd_id q \<noteq> wd_id part)"
proof -
  from v ok flag row a inv big mx ids obtain t tx where 3: "find_tx d1 t = Some tx" "tx_wallet tx = wd_wallet obj"
    "tx_amount tx = - wd_amount obj"
    "\<forall>q \<in> set (wd_table d1). wd_id q = wd_id obj \<or> next_wd_id d \<le> wd_id q \<longrightarrow>
        wd_status q = WVerified \<and> wd_transaction q = Some t \<and> wd_wallet q = wd_wallet obj \<and> 0 < wd_amount q"
    "\<exists>q \<in> set (wd_table d1). wd_id q = wd_id obj" "\<exists>q \<in> set (wd_table d1). next_wd_id d \<le> wd_id q"
    "\<forall>i. balance_of d1 i = map_option (\<lambda>b. b - (if i = wd_wallet obj then wd_amount obj else 0)) (balance_of d i)"
    by (rule verified_parts)
  have pt: "wd_transaction part = Some t" "wd_wallet part = wd_wallet obj" using 3(4) part by blast+
  have "paid part d1 tx" using pt 3(1-3) a(2) by (simp add: paid_def)
  note cp = cancel_paid [OF c flag this ext a(1) 3(3), of i]
  have rows: "q \<in> set (wd_table d2) \<longleftrightarrow> q \<in> set (wd_table d1)" if "wd_id q \<noteq> wd_id part" for q
    using cp that by (auto simp: write_fields_def set_wd_table_def image_iff split: if_splits)
  have "balance_of d2 i = balance_of d i" using cp 3(7) pt(2) by (cases "balance_of d i") simp_all
  moreover have "wd_id obj < next_wd_id d" using row(1) ids(2) by (auto simp: find_wd_def find_Some_iff)
  then have "\<exists>q \<in> set (wd_table d1). (wd_id q = wd_id obj \<or> next_wd_id d \<le> wd_id q) \<and> wd_id q \<noteq> wd_id part"
    using 3(5,6) by (metis linorder_not_le)
  ultimately show ?thesis using 3(4) pt(1) rows by auto
qed

text \<open>C35: where the amount of a request is taken at verification, cancelling works on a stale object: a
  request that has been sent in the meantime keeps its status, and its amount is given back all
  the same, unless it goes to an internal wallet.\<close>

theorem stale_cancel_refunds_sent:
  assumes c: "cancel_request env obj d = Inr (True, obj', d')" and flag: "WITHDRAW_CREATE_TX_VERIFY env"
    and ext: "\<forall>w. we_internal_target env w = None" and p: "paid obj d tx"
    and a: "money_field a" "tx_amount tx = - a"
    and row: "find_wd d (wd_id obj) = Some row" "wd_status row \<in> set STATUSES_COMMITED"
  shows "balance_of d' (wd_wallet obj) = map_option (\<lambda>b. b + a) (balance_of d (wd_wallet obj))
     \<and> map_option wd_status (find_wd d' (wd_id obj)) = Some (wd_status row)"
proof -
  note cp = cancel_paid [OF c flag p ext a, of "wd_wallet obj"]
  have "guarded (obj\<lparr>wd_status := WCanceled\<rparr>) d = obj\<lparr>wd_status := wd_status row\<rparr>"
    using row by (auto simp: guarded_def check_status_transition_def withdraw_statuses)
  then have "find_wd d' (wd_id obj) = find_wd (write_fields [FStatus] (obj\<lparr>wd_status := wd_status row\<rparr>) d) (wd_id obj)"
    using cp by (simp add: find_wd_def)
  then show ?thesis using cp row by (simp add: find_write_fields)
qed

end
