(* ===== verification/Withdraws_Example.thy ===== *)
theory Withdraws_Example
  imports Withdraws_Claims
begin

section \<open>A worked withdraw request\<close>

text \<open>
  A rial request of ninety million tomans from a wallet of a hundred million: verifying it
  takes the amount and splits the request in two, cancelling the first half gives the
  whole amount back. The states of the run are the witnesses of the theorems.
\<close>

definition wx_env :: wenv where
  "wx_env = \<lparr>WITHDRAW_CREATE_TX_VERIFY = True, we_now = 1000, we_account_confirmed = (\<lambda>_. True),
     we_account_user = (\<lambda>_. 22), we_system_accounts = [], we_internal_target = (\<lambda>_. None),
     we_already_processed = (\<lambda>_. False), we_is_vandar = (\<lambda>_. False), we_rls_fee = 40000,
     we_vandar_max_fee = 50000, we_vandar_max_settlement = 1000000000\<rparr>"

definition wx_req :: "nat \<Rightarrow> rat \<Rightarrow> withdraw_status \<Rightarrow> nat option \<Rightarrow> rat option \<Rightarrow> rat option \<Rightarrow> withdraw" where
  "wx_req i a st tx rv fee = \<lparr>wd_id = i, wd_tp = WTNormal, wd_wallet = 8, wd_target_account = Some 1, wd_amount = a,
     wd_status = st, wd_created_at = 0, wd_transaction = tx, wd_rial_value = rv, wd_fee = fee, wd_otp = ''123456''\<rparr>"

definition wx_wallet :: "rat \<Rightarrow> wallet" where
  "wx_wallet b = \<lparr>w_id = 8, w_user = 22, w_currency = 2, w_type = WSpot, w_balance = b, w_blocked = 0, w_active = True\<rparr>"

definition wx_tx :: "nat \<Rightarrow> tx_type \<Rightarrow> rat \<Rightarrow> rat \<Rightarrow> int option \<Rightarrow> nat option \<Rightarrow> datetime \<Rightarrow> transaction" where
  "wx_tx i tp a b m r t = \<lparr>tx_id = i, tx_wallet = 8, tx_tp = tp, tx_amount = a, tx_balance = b, tx_created_at = t,
     tx_ref_module = m, tx_ref_id = r\<rparr>"

definition wx_db :: "rat \<Rightarrow> transaction list \<Rightarrow> nat \<Rightarrow> withdraw list \<Rightarrow> nat \<Rightarrow> wdb" where
  "wx_db b txs n ws k = \<lparr>wallets = [wx_wallet b], transactions = txs, next_tx_id = n, next_wallet_id = 9, orders = [],
     withdraws = map to_row ws, position_rows = [], wd_table = ws, next_wd_id = k\<rparr>"

definition wx_deposit :: transaction where "wx_deposit = wx_tx 5 TxDeposit 1000000000 1000000000 None None 0"
definition wx_debit :: transaction where "wx_debit = wx_tx 6 TxWithdraw (- 900000000) 100000000 (Some 32) (Some 4) 1000"

definition wx_new :: withdraw where "wx_new = wx_req 4 900000000 WNew None None None"
definition wx_first :: withdraw where
  "wx_first = wx_req 4 500000000 WVerified (Some 6) (Some 500000000) (Some 40000)"
definition wx_second :: withdraw where
  "wx_second = wx_req 5 400000000 WVerified (Some 6) (Some 400000000) (Some 40000)"

definition wx_start :: wdb where "wx_start = wx_db 1000000000 [wx_deposit] 6 [wx_new] 5"
definition wx_split :: wdb where "wx_split = wx_db 100000000 [wx_deposit, wx_debit] 7 [wx_first, wx_second] 6"

lemmas wx_defs = wx_req_def wx_wallet_def wx_tx_def wx_db_def wx_deposit_def wx_debit_def wx_new_def wx_first_def
  wx_second_def wx_start_def wx_split_def

lemma wx_arith:
  "dneg 900000000 = - 900000000" "quantize ROUND_HALF_EVEN MAX_PRECISION (- 900000000) = Inr (- 900000000)"
  "dadd 1000000000 (- 900000000) = 100000000" "dneg (- 900000000) = 900000000"
  "quantize ROUND_HALF_EVEN MAX_PRECISION 900000000 = Inr 900000000" "dadd 100000000 900000000 = 1000000000"
  "money_field 900000000"
  by (simp_all add: MAX_PRECISION_def dec_eval money_field_def fits_def money_constants on_grid_iff)

lemma wx_parts: "split_amounts 500000000 900000000 = [500000000, 400000000]"
proof -
  have "\<lceil>of_int 900000000 / of_int 500000000 :: rat\<rceil> = 2" using ceiling_quotient [of 500000000 900000000] by simp
  moreover have "[1..1 :: int] = [1]" by simp
  ultimately show ?thesis by (simp add: split_amounts_def Let_def MIN_SPLIT_def)
qed

lemma wx_debited:
  "create_withdraw_transaction wx_env wx_new wx_start
   = Inr (wx_new\<lparr>wd_transaction := Some 6\<rparr>, wx_db 100000000 [wx_deposit, wx_debit] 7 [wx_new\<lparr>wd_transaction := Some 6\<rparr>] 5)"
  by (simp add: create_withdraw_transaction_def create_transaction_def check_transaction_def is_balance_allowed_def
      commit_def ref_taken_def find_wallet_def put_wallet_def recheck_request_def find_tx_def write_fields_def
      set_wd_table_def ref_codes wx_arith wx_env_def wx_defs Let_def)

lemma wx_saved:
  "save_withdraw wx_env [FStatus] (wx_req 4 900000000 WVerified (Some 6) None None)
     (wx_db 100000000 [wx_deposit, wx_debit] 7 [wx_new\<lparr>wd_transaction := Some 6\<rparr>] 5)
   = Inr (wx_req 4 900000000 WVerified (Some 6) None None,
          wx_db 100000000 [wx_deposit, wx_debit] 7 [wx_req 4 900000000 WVerified (Some 6) None None] 5)"
  by (simp add: save_withdraw_def after_save_def check_status_transition_def find_wd_def recheck_request_def find_tx_def
      write_fields_def set_wd_table_def withdraw_statuses wx_defs Let_def)

lemma wx_splits:
  "split_if_needed wx_env (wx_req 4 900000000 WVerified (Some 6) None None)
     (wx_db 100000000 [wx_deposit, wx_debit] 7 [wx_req 4 900000000 WVerified (Some 6) None None] 5)
   = Inr (wx_first, wx_split)"
  by (simp add: split_if_needed_def is_rial_def find_wallet_def max_amount_def max_fee_def MAX_SPLIT_def RIAL_def wx_parts
      save_withdraw_def after_save_def check_status_transition_def find_wd_def recheck_request_def find_tx_def
      write_fields_def set_wd_table_def withdraw_statuses create_part_def insert_withdraw_def part_fee_def wx_env_def wx_defs Let_def)

lemma wx_verify: "do_verify wx_env wx_new wx_start = Inr (wx_first, wx_split)"
proof -
  have "find_wd wx_start (wd_id wx_new) = Some wx_new" "wd_status wx_new = WNew" "WITHDRAW_CREATE_TX_VERIFY wx_env"
    by (simp_all add: find_wd_def wx_defs wx_env_def)
  moreover have "wx_new\<lparr>wd_transaction := Some 6\<rparr>\<lparr>wd_status := WVerified\<rparr> = wx_req 4 900000000 WVerified (Some 6) None None"
    by (simp add: wx_defs)
  ultimately show ?thesis by (simp add: do_verify_def wx_debited wx_saved wx_splits)
qed

lemma wx_cancel: "\<exists>o2 d2. cancel_request wx_env wx_first wx_split = Inr (True, o2, d2)"
  by (simp add: cancel_request_def is_cancelable_def is_rial_def find_wallet_def RIAL_def save_withdraw_def after_save_def
      check_status_transition_def find_wd_def recheck_request_def find_tx_def write_fields_def set_wd_table_def
      withdraw_statuses create_reverse_transaction_def refund_def create_transaction_def check_transaction_def
      is_balance_allowed_def commit_def ref_taken_def put_wallet_def ref_codes wx_arith wx_env_def wx_defs Let_def)

subsection \<open>Witnesses\<close>

lemma wx_facts:
  "find_wd wx_start (wd_id wx_new) = Some wx_new" "wd_status wx_new = WNew" "wd_transaction wx_new = None"
  "money_field (wd_amount wx_new)" "0 < wd_amount wx_new" "WITHDRAW_CREATE_TX_VERIFY wx_env"
  "\<forall>w. we_internal_target wx_env w = None" "wd_id wx_new < next_wd_id wx_start" "wd_id wx_new = 4"
  by (simp_all add: find_wd_def wx_defs wx_env_def wx_arith)

lemma wx_ledger: "ledger_inv wx_start"
  by (simp add: ledger_inv_def refs_unique_def tx_ref_def update_balance_from_transactions_def wx_defs)

theorem withdraw_status_order_witness:
  "\<exists>d'. save_withdraw wx_env [FStatus] (wx_first\<lparr>wd_status := WNew\<rparr>) wx_split = Inr (wx_first, d')
     \<and> map_option wd_status (find_wd d' 4) = Some WVerified"
proof -
  have r: "find_wd wx_split (wd_id (wx_first\<lparr>wd_status := WNew\<rparr>)) = Some wx_first" by (simp add: find_wd_def wx_defs)
  have s: "save_withdraw wx_env [FStatus] (wx_first\<lparr>wd_status := WNew\<rparr>) wx_split = Inr (wx_first, wx_split)"
    by (simp add: save_withdraw_def after_save_def check_status_transition_def find_wd_def recheck_request_def find_tx_def
        write_fields_def set_wd_table_def withdraw_statuses wx_defs Let_def)
  from withdraw_status_order [OF s r] s show ?thesis by (auto simp: find_wd_def wx_defs)
qed

lemma committed_withdraw_paid_witness:
  "\<exists>o' d'. save_withdraw wx_env [FStatus] (wx_new\<lparr>wd_status := WSent\<rparr>) wx_start = Inr (o', d')
     \<and> wd_status o' = WSent \<and> wd_transaction o' \<noteq> None"
proof -
  obtain o' d' where s: "save_withdraw wx_env [FStatus] (wx_new\<lparr>wd_status := WSent\<rparr>) wx_start = Inr (o', d')" "wd_status o' = WSent"
    by (simp add: save_withdraw_def after_save_def check_status_transition_def find_wd_def recheck_request_def find_tx_def
        create_withdraw_transaction_def create_transaction_def check_transaction_def is_balance_allowed_def commit_def
        ref_taken_def find_wallet_def put_wallet_def write_fields_def set_wd_table_def withdraw_statuses ref_codes wx_arith
        wx_env_def wx_defs Let_def)
  then show ?thesis using committed_withdraw_paid [OF s(1)] by (auto simp: withdraw_statuses)
qed

theorem verify_cancel_roundtrip_witness:
  "\<exists>o2 d2. cancel_request wx_env wx_first wx_split = Inr (True, o2, d2) \<and> balance_of d2 8 = Some 1000000000"
proof -
  obtain o2 d2 where c: "cancel_request wx_env wx_first wx_split = Inr (True, o2, d2)" using wx_cancel by blast
  have "balance_of d2 8 = balance_of wx_start 8"
    by (rule verify_cancel_roundtrip [OF wx_verify c wx_facts(6,7,1-5) wx_ledger])
  moreover have "balance_of wx_start 8 = Some 1000000000" by (simp add: balance_of_def find_wallet_def wx_defs)
  ultimately show ?thesis using c by auto
qed

text \<open>Cancelling the second part.\<close>

lemma wx_cancel_second: "\<exists>o2 d2. cancel_request wx_env wx_second wx_split = Inr (True, o2, d2)"
  by (simp add: cancel_request_def is_cancelable_def is_rial_def find_wallet_def RIAL_def save_withdraw_def after_save_def
      check_status_transition_def find_wd_def recheck_request_def find_tx_def write_fields_def set_wd_table_def
      withdraw_statuses create_reverse_transaction_def refund_def create_transaction_def check_transaction_def
      is_balance_allowed_def commit_def ref_taken_def put_wallet_def ref_codes wx_arith wx_env_def wx_defs Let_def)

theorem split_cancel_refunds_all_witness:
  "\<exists>o2 d2. cancel_request wx_env wx_second wx_split = Inr (True, o2, d2) \<and> balance_of d2 8 = balance_of wx_start 8
     \<and> list_ex (\<lambda>part. wd_id part \<noteq> wd_id wx_second \<and> wd_status part = WVerified \<and> wd_transaction part \<noteq> None) (wd_table d2)"
proof -
  obtain o2 d2 where c: "cancel_request wx_env wx_second wx_split = Inr (True, o2, d2)" using wx_cancel_second by blast
  have big: "is_rial wx_start wx_new = Inr True" "max_amount wx_env wx_new < whole_rials (wd_amount wx_new)"
    "\<forall>t st. we_is_vandar wx_env (wx_new\<lparr>wd_transaction := t, wd_status := st\<rparr>) = we_is_vandar wx_env wx_new" "2 * MIN_SPLIT \<le> max_amount wx_env wx_new"
    by (simp_all add: is_rial_def find_wallet_def max_amount_def whole_rials_def MAX_SPLIT_def MIN_SPLIT_def RIAL_def wx_env_def wx_defs)
  have part: "wx_second \<in> set (wd_table wx_split)" "wd_id wx_second = wd_id wx_new \<or> next_wd_id wx_start \<le> wd_id wx_second"
    "wd_transaction wx_first \<noteq> None" "wd_transaction wx_second \<noteq> None" by (simp_all add: wx_defs)
  have ids: "distinct (map wd_id (wd_table wx_start))" "\<forall>r \<in> set (wd_table wx_start). wd_id r < next_wd_id wx_start"
    by (simp_all add: wx_defs)
  from split_cancel_refunds_all [OF wx_verify part(3,1,2) c wx_facts(6,7,1-5) wx_ledger big ids, of 8] c part(4)
  show ?thesis unfolding list_ex_iff by metis
qed

definition wx_sent :: wdb where
  "wx_sent = wx_db 100000000 [wx_deposit, wx_debit] 7 [wx_first\<lparr>wd_status := WSent\<rparr>, wx_second] 6"

theorem stale_cancel_refunds_sent_witness:
  "\<exists>o2 d2. cancel_request wx_env wx_first wx_sent = Inr (True, o2, d2) \<and> balance_of d2 8 = Some 1000000000
     \<and> map_option wd_status (find_wd d2 4) = Some WSent"
proof -
  obtain o2 d2 where c: "cancel_request wx_env wx_first wx_sent = Inr (True, o2, d2)"
    by (simp add: cancel_request_def is_cancelable_def is_rial_def find_wallet_def RIAL_def save_withdraw_def after_save_def
      check_status_transition_def find_wd_def recheck_request_def find_tx_def write_fields_def set_wd_table_def
      withdraw_statuses create_reverse_transaction_def refund_def create_transaction_def check_transaction_def
      create_withdraw_transaction_def is_balance_allowed_def commit_def ref_taken_def put_wallet_def ref_codes wx_arith
      wx_env_def wx_sent_def wx_defs Let_def)
  have p: "paid wx_first wx_sent wx_debit" by (simp add: paid_def find_tx_def wx_sent_def wx_defs)
  have a: "tx_amount wx_debit = - 900000000" "wd_wallet wx_first = 8" "wd_id wx_first = 4" by (simp_all add: wx_defs)
  have r: "find_wd wx_sent (wd_id wx_first) = Some (wx_first\<lparr>wd_status := WSent\<rparr>)"
    "wd_status (wx_first\<lparr>wd_status := WSent\<rparr>) \<in> set STATUSES_COMMITED"
    by (simp_all add: find_wd_def wx_sent_def wx_defs withdraw_statuses)
  have "balance_of wx_sent 8 = Some 100000000" by (simp add: balance_of_def find_wallet_def wx_sent_def wx_defs)
  with stale_cancel_refunds_sent [OF c wx_facts(6,7) p wx_arith(7) a(1) r] c show ?thesis by (simp add: a)
qed

end
