(* ===== verification/Order_Cancel.thy ===== *)
theory Order_Cancel
  imports Order_Entry Matcher_Example
begin

section \<open>Cancelling orders\<close>

text \<open>
  \<^verbatim>\<open>src/core/exchange/market/order_cancel.py\<close> and the three views of \<^verbatim>\<open>market/views.py\<close> that
  cancel: one order, the old orders of a user, and a batch of ids. The inputs are the
  parsed ones. Messages to the websocket are left out. Querysets are lazy: the rows the
  views report are read after the update. The signal of \<^verbatim>\<open>margin/signals.py\<close> records one
  change for every saved margin order; the changes are read as a set, and the model
  records them in the order of the table.

  The lemmas show which rows a batch closes and that its answer is true to the table.
\<close>

subsection \<open>Bulk cancelling\<close>

definition CANCEL_ORDER_BATCH_SIZE :: nat where "CANCEL_ORDER_BATCH_SIZE = 20"

text \<open>The queryset \<open>filter_orders\<close>. A range lookup includes both ends, and \<open>exclude\<close> keeps null columns.\<close>

definition in_system_range :: "order \<Rightarrow> bool" where
  "in_system_range x =
     (case o_channel x of
        None \<Rightarrow> False
      | Some c \<Rightarrow> fst CHANNEL_SYSTEM_RANGE \<le> c \<and> c \<le> snd CHANNEL_SYSTEM_RANGE)"

definition base_query :: "order list \<Rightarrow> nat list \<Rightarrow> nat option \<Rightarrow> order \<Rightarrow> bool" where
  "base_query os order_ids user_id x \<longleftrightarrow>
     (o_id x \<in> set order_ids
      \<or> (case o_pair x of
           None \<Rightarrow> False
         | Some j \<Rightarrow> j \<in> set order_ids
             \<and> (case find_order os j of None \<Rightarrow> False | Some p \<Rightarrow> o_status p \<in> set OPEN_STATUSES)))
     \<and> (case user_id of None \<Rightarrow> True | Some u \<Rightarrow> o_user x = u)"

definition filter_orders :: "order list \<Rightarrow> nat list \<Rightarrow> nat option \<Rightarrow> order list" where
  "filter_orders os order_ids user_id =
     filter (\<lambda>x. base_query os order_ids user_id x \<and> o_status x \<in> set OPEN_STATUSES
        \<and> o_trade x \<in> {Spot, Margin} \<and> \<not> in_system_range x) os"

text \<open>The result: the rows of the answer, the ids that were closed, and the new database.\<close>

definition cancel_orders :: "nat list \<Rightarrow> nat option \<Rightarrow> mdb \<Rightarrow> order list \<times> nat list \<times> mdb" where
  "cancel_orders order_ids user_id d =
     (let found = filter_orders (orders d) order_ids user_id;
          ids = map o_id found;
          os = map (\<lambda>x. if o_id x \<in> set ids \<and> o_status x \<in> set OPEN_STATUSES then set_status Canceled x else x) (orders d);
          d' = post_process_updated_margin_orders found (d\<lparr>orders := os\<rparr>)
      in (filter (\<lambda>x. o_id x \<in> set order_ids \<and> (case user_id of None \<Rightarrow> True | Some u \<Rightarrow> o_user x = u)) os, ids, d'))"

definition cancel_batch_of_orders :: "nat \<Rightarrow> nat list \<Rightarrow> mdb \<Rightarrow> order list \<times> nat list \<times> mdb" where
  "cancel_batch_of_orders user_id order_ids d = cancel_orders order_ids (Some user_id) d"

definition bulk_cancel_orders :: "nat list \<Rightarrow> mdb \<Rightarrow> order list \<times> nat list \<times> mdb" where
  "bulk_cancel_orders order_ids d = cancel_orders order_ids None d"

subsection \<open>The views\<close>

text \<open>
  \<open>orders_update_status\<close>: the order of the user, by id or by the client's id. An inactive
  order is exchanged with its unfilled pair first, so the pair closes first.
\<close>

definition requested_order :: "order list \<Rightarrow> nat \<Rightarrow> nat option \<Rightarrow> string option \<Rightarrow> order result" where
  "requested_order os user order_id client_order_id =
     (if order_id = None \<and> client_order_id = None then Inl (ApiError ''NullIdAndClientOrderId'')
      else case find (\<lambda>x. o_user x = user
               \<and> (case order_id of
                    Some i \<Rightarrow> o_id x = i
                  | None \<Rightarrow> o_client_order_id x = client_order_id \<and> o_status x \<in> set OPEN_STATUSES)) os of
             None \<Rightarrow> Inl (ApiError ''NotFound'')
           | Some x \<Rightarrow> Inr x)"

definition order_changes :: "order list \<Rightarrow> order list \<Rightarrow> nat list" where
  "order_changes os os' =
     map (o_id \<circ> fst) (filter (\<lambda>(x, y). is_margin x \<and> o_status y \<noteq> o_status x) (zip os os'))"

definition orders_update_status ::
    "nat \<Rightarrow> nat option \<Rightarrow> string option \<Rightarrow> order_status \<Rightarrow> mdb \<Rightarrow> ((bool \<times> order option) \<times> mdb) result" where
  "orders_update_status user order_id client_order_id status d =
     rbind (requested_order (orders d) user order_id client_order_id) (\<lambda>x.
       let (self, pair_obj) =
             (case pair_of (orders d) x of
                Some p \<Rightarrow> if o_status x = Inactive \<and> o_matched_amount p = 0 then (p, Some x) else (x, None)
              | None \<Rightarrow> (x, None));
           (ok, _, os) = update_status (orders d) self pair_obj status True
       in Inr ((ok, find_order os (o_id self)),
               d\<lparr>orders := os, margin_changes := margin_changes d @ order_changes (orders d) os\<rparr>))"

text \<open>\<open>hours\<close> is a float; zero asks for nothing.\<close>

definition old_orders ::
    "datetime \<Rightarrow> nat \<Rightarrow> nat option \<Rightarrow> nat option \<Rightarrow> rat option \<Rightarrow> execution_type option \<Rightarrow> trade_type option \<Rightarrow> order list \<Rightarrow> nat list" where
  "old_orders now user src dst hours execution trade os =
     map o_id (sort_key o_created_at (filter (\<lambda>x. o_user x = user \<and> o_status x = Active
        \<and> (case src of None \<Rightarrow> True | Some c \<Rightarrow> o_src x = c) \<and> (case dst of None \<Rightarrow> True | Some c \<Rightarrow> o_dst x = c)
        \<and> (case hours of
             None \<Rightarrow> True
           | Some h \<Rightarrow> h = 0 \<or> o_created_at x < now - round_int ROUND_HALF_EVEN (float64 (h * 60)) * 60000000)
        \<and> (case execution of None \<Rightarrow> True | Some e \<Rightarrow> o_execution x = e)
        \<and> (case trade of None \<Rightarrow> True | Some t \<Rightarrow> o_trade x = t)) os))"

definition orders_cancel_old ::
    "datetime \<Rightarrow> nat \<Rightarrow> nat option \<Rightarrow> nat option \<Rightarrow> rat option \<Rightarrow> execution_type option \<Rightarrow> trade_type option \<Rightarrow> mdb \<Rightarrow> mdb" where
  "orders_cancel_old now user src dst hours execution trade d =
     snd (snd (cancel_batch_of_orders user (old_orders now user src dst hours execution trade (orders d)) d))"

text \<open>The message of one order in the answer to a batch; \<open>None\<close> is the status ok.\<close>

definition order_result :: "nat list \<Rightarrow> order \<Rightarrow> string option" where
  "order_result filtered_order_ids x =
     (if o_status x = Canceled
      then if o_id x \<in> set filtered_order_ids then None else Some ''The order is already canceled.''
      else if o_status x = Done then Some ''The order is already completed.''
      else if is_placed_by_system x then Some ''Systematically placed orders are immutable.''
      else Some ''This order cannot be canceled.'')"

definition orders_cancel_batch ::
    "nat \<Rightarrow> nat list \<Rightarrow> mdb \<Rightarrow> ((nat \<times> string option) list) result \<times> mdb" where
  "orders_cancel_batch user order_ids_data d =
     (if order_ids_data = [] then (Inl (ApiError ''orderIdsListIsEmpty''), d)
      else if CANCEL_ORDER_BATCH_SIZE < length order_ids_data then (Inl (ApiError ''batchSize''), d)
      else let order_ids = remdups order_ids_data;
               (rows, filtered_order_ids, d') = cancel_batch_of_orders user order_ids d
           in (Inr (map (\<lambda>x. (o_id x, order_result filtered_order_ids x)) rows
                    @ map (\<lambda>i. (i, Some ''The order id not found''))
                        (filter (\<lambda>i. i \<notin> o_id ` set rows) order_ids)), d'))"

subsection \<open>What a batch does to the table\<close>

lemma filter_orders_ids:
  assumes "distinct (map o_id os)" "x \<in> set os"
  shows "o_id x \<in> o_id ` set (filter_orders os order_ids user) \<longleftrightarrow> x \<in> set (filter_orders os order_ids user)"
  using assms by (auto simp: filter_orders_def distinct_map inj_on_def)

lemma cancel_orders_table:
  assumes "distinct (map o_id (orders d))" "cancel_orders order_ids user d = (rows, ids, d')"
  shows "orders d' = map (\<lambda>x. if x \<in> set (filter_orders (orders d) order_ids user) then set_status Canceled x else x) (orders d)"
    "ids = map o_id (filter_orders (orders d) order_ids user)"
    "rows = filter (\<lambda>x. o_id x \<in> set order_ids \<and> (case user of None \<Rightarrow> True | Some u \<Rightarrow> o_user x = u)) (orders d')"
    "d' = d\<lparr>orders := orders d', margin_changes := margin_changes d'\<rparr>"
proof -
  define found where "found = filter_orders (orders d) order_ids user"
  have os: "map (\<lambda>x. if o_id x \<in> set (map o_id found) \<and> o_status x \<in> set OPEN_STATUSES then set_status Canceled x else x) (orders d)
      = map (\<lambda>x. if x \<in> set found then set_status Canceled x else x) (orders d)"
    by (rule map_cong) (use filter_orders_ids [OF assms(1)] in \<open>auto simp: found_def filter_orders_def\<close>)
  from assms(2) show "orders d' = map (\<lambda>x. if x \<in> set (filter_orders (orders d) order_ids user) then set_status Canceled x else x) (orders d)"
    "ids = map o_id (filter_orders (orders d) order_ids user)"
    "rows = filter (\<lambda>x. o_id x \<in> set order_ids \<and> (case user of None \<Rightarrow> True | Some u \<Rightarrow> o_user x = u)) (orders d')"
    "d' = d\<lparr>orders := orders d', margin_changes := margin_changes d'\<rparr>"
    unfolding cancel_orders_def found_def [symmetric] Let_def os
    by (auto simp: post_process_updated_margin_orders_def)
qed

lemma cancel_orders_keeps_sound:
  assumes "cancel_orders order_ids user d = (rows, ids, d')" "sound_db d"
  shows "sound_db d'"
proof -
  have d: "distinct (map o_id (orders d))" "list_all order_inv (orders d)" using assms(2) by (simp_all add: sound_db_def)
  note t = cancel_orders_table [OF d(1) assms(1)]
  have "list_all order_inv (orders d')" using d(2) by (auto simp: t(1) list_all_iff)
  moreover have "map o_id (orders d') = map o_id (orders d)" by (simp add: t(1))
  ultimately have "sound_db (d\<lparr>orders := orders d'\<rparr>)" by (intro sound_db_orders [OF assms(2)])
  then have "sound_db (d\<lparr>orders := orders d', margin_changes := margin_changes d'\<rparr>)" by (simp add: sound_db_margin_changes)
  with t(4) show ?thesis by simp
qed

lemma update_status_keeps_sound:
  assumes "update_status (orders d) self p st manual = (ok, self', os)" "sound_db d"
  shows "sound_db (d\<lparr>orders := os\<rparr>)"
proof -
  have put: "map (set_status New) (put_order (set_status st) i xs) = map (set_status New) xs" for i xs
    by (induction xs) (simp_all add: put_order_def set_status_def)
  have same: "map (set_status New) os = map (set_status New) (orders d)" and ids: "map o_id os = map o_id (orders d)"
    using assms(1)
    by (auto simp: update_status_def Let_def update_status_row_only_status update_status_row_ids put
        split: if_splits option.split_asm)
  from assms(2) have "list_all order_inv (orders d)" by (simp add: sound_db_def)
  from order_inv_same_but_status [OF same this] ids show ?thesis by (rule sound_db_orders [OF assms(2)])
qed

lemma orders_update_status_Inr:
  assumes "orders_update_status user i c st d = Inr (r, d')"
  obtains self p ok self' os where "update_status (orders d) self p st True = (ok, self', os)"
    "d' = d\<lparr>orders := os, margin_changes := margin_changes d @ order_changes (orders d) os\<rparr>"
proof -
  from assms obtain x where x: "requested_order (orders d) user i c = Inr x"
    by (auto simp: orders_update_status_def rbind_eq_Inr_iff)
  obtain self p where sp: "(case pair_of (orders d) x of
        Some p \<Rightarrow> if o_status x = Inactive \<and> o_matched_amount p = 0 then (p, Some x) else (x, None)
      | None \<Rightarrow> (x, None)) = (self, p)" by (rule prod.exhaust)
  obtain ok self' os where u: "update_status (orders d) self p st True = (ok, self', os)" by (rule prod_cases3)
  show ?thesis using assms x sp u by (intro that [OF u]) (simp add: orders_update_status_def)
qed

lemma orders_update_status_keeps_sound:
  assumes "orders_update_status user i c st d = Inr (r, d')" "sound_db d"
  shows "sound_db d' \<and> withdraws d' = withdraws d"
  using assms(1)
proof (rule orders_update_status_Inr)
  fix self p ok self' os
  assume u: "update_status (orders d) self p st True = (ok, self', os)"
    and d': "d' = d\<lparr>orders := os, margin_changes := margin_changes d @ order_changes (orders d) os\<rparr>"
  from update_status_keeps_sound [OF u assms(2)] show ?thesis by (simp add: d' sound_db_margin_changes)
qed

subsection \<open>The answer to a batch\<close>

text \<open>What the caller may close: an open order of one's own, spot or margin, not placed by the system.\<close>

definition may_cancel :: "nat \<Rightarrow> order \<Rightarrow> bool" where
  "may_cancel user x \<longleftrightarrow> o_user x = user \<and> o_status x \<in> set OPEN_STATUSES \<and> o_trade x \<in> {Spot, Margin} \<and> \<not> in_system_range x"

lemma filter_orders_may:
  "x \<in> set (filter_orders os order_ids (Some user)) \<Longrightarrow> may_cancel user x"
  "x \<in> set os \<Longrightarrow> o_id x \<in> set order_ids \<Longrightarrow> x \<in> set (filter_orders os order_ids (Some user)) \<longleftrightarrow> may_cancel user x"
  by (auto simp: filter_orders_def base_query_def may_cancel_def)

lemma filter_orders_row:
  "map (\<lambda>x. if x \<in> set (filter_orders os (remdups data) (Some user)) then set_status Canceled x else x) os
   = map (\<lambda>x. if may_cancel user x
            \<and> (o_id x \<in> set data
               \<or> (\<exists>j \<in> set data. o_pair x = Some j \<and> (\<exists>p. find_order os j = Some p \<and> o_status p \<in> set OPEN_STATUSES)))
          then set_status Canceled x else x) os"
  by (rule map_cong [OF refl]) (auto simp: filter_orders_def base_query_def may_cancel_def split: option.split_asm)

lemma find_order_iff:
  "distinct (map o_id os) \<Longrightarrow> find_order os i = Some x \<longleftrightarrow> x \<in> set os \<and> o_id x = i"
  by (induction os) (auto simp: find_order_def image_iff)

lemma find_order_cancelled:
  assumes "distinct (map o_id os)" "find_order os i = Some x"
  shows "find_order (map (\<lambda>y. if P y then set_status Canceled y else y) os) i = Some (if P x then set_status Canceled x else x)"
  using assms by (induction os) (auto simp: find_order_def)

lemma order_result_None:
  "order_result ids x = None \<longleftrightarrow> o_status x = Canceled \<and> o_id x \<in> set ids"
  "None = order_result ids x \<longleftrightarrow> o_status x = Canceled \<and> o_id x \<in> set ids"
  by (simp_all add: order_result_def)

lemma batch_Inr:
  assumes "orders_cancel_batch user data d = (Inr res, d')"
  obtains rows ids where "cancel_orders (remdups data) (Some user) d = (rows, ids, d')"
    "res = map (\<lambda>x. (o_id x, order_result ids x)) rows @ map (\<lambda>i. (i, Some ''The order id not found''))
             (filter (\<lambda>i. i \<notin> o_id ` set rows) (remdups data))"
proof -
  obtain rows ids d1 where c: "cancel_orders (remdups data) (Some user) d = (rows, ids, d1)" by (rule prod_cases3)
  with assms that show ?thesis
    by (auto simp: orders_cancel_batch_def cancel_batch_of_orders_def Let_def split: if_splits)
qed

lemma batch_keys:
  assumes d: "distinct (map o_id (orders d))" and c: "cancel_orders (remdups data) (Some user) d = (rows, ids, d')"
  shows "distinct (map o_id rows)" "o_id ` set rows \<subseteq> set data"
proof -
  note t = cancel_orders_table [OF d c]
  have "map o_id (orders d') = map o_id (orders d)" by (simp add: t(1))
  with d show "distinct (map o_id rows)" by (simp add: t(3) distinct_map_filter)
  show "o_id ` set rows \<subseteq> set data" by (auto simp: t(3))
qed

lemma batch_ok:
  assumes d: "distinct (map o_id (orders d))" and c: "cancel_orders (remdups data) (Some user) d = (rows, ids, d')"
  shows "(\<exists>y \<in> set rows. o_id y = i \<and> o_status y = Canceled \<and> i \<in> set ids)
     \<longleftrightarrow> i \<in> set data \<and> (\<exists>x \<in> set (orders d). o_id x = i \<and> may_cancel user x)"
proof
  note t = cancel_orders_table [OF d c]
  {
    assume "\<exists>y \<in> set rows. o_id y = i \<and> o_status y = Canceled \<and> i \<in> set ids"
    then have "i \<in> set data" "i \<in> set ids" by (auto simp: t(3))
    then obtain x where "x \<in> set (filter_orders (orders d) (remdups data) (Some user))" "o_id x = i" by (auto simp: t(2))
    moreover from this have "x \<in> set (orders d)" by (simp add: filter_orders_def)
    ultimately show "i \<in> set data \<and> (\<exists>x \<in> set (orders d). o_id x = i \<and> may_cancel user x)"
      using \<open>i \<in> set data\<close> filter_orders_may(1) by blast
  next
    assume "i \<in> set data \<and> (\<exists>x \<in> set (orders d). o_id x = i \<and> may_cancel user x)"
    then obtain x where x: "i \<in> set data" "x \<in> set (orders d)" "o_id x = i" "may_cancel user x" by blast
    then have f: "x \<in> set (filter_orders (orders d) (remdups data) (Some user))" by (simp add: filter_orders_may(2))
    with x have "set_status Canceled x \<in> set rows" "i \<in> set ids"
      by (auto simp: t(3) t(1) t(2) may_cancel_def intro!: image_eqI [of _ _ x])
    with x show "\<exists>y \<in> set rows. o_id y = i \<and> o_status y = Canceled \<and> i \<in> set ids"
      by (intro bexI [of _ "set_status Canceled x"]) simp_all
  }
qed

text \<open>C32: the answer to a batch has one entry for every id that was asked for, and an entry is ok
  exactly when the id names an order the user may cancel, which is cancelled now. Besides the
  named orders only those are cancelled whose pair is named and open, where the user may cancel
  them too; every other row is as before, and no balance, transaction or trade changes.\<close>

theorem cancel_batch_truthful:
  assumes b: "orders_cancel_batch user data d = (Inr res, d')" and s: "sound_db d"
  shows "distinct (map fst res) \<and> set (map fst res) = set data
     \<and> (\<forall>i. (i, None) \<in> set res \<longleftrightarrow> i \<in> set data \<and> (\<exists>x. find_order (orders d) i = Some x \<and> may_cancel user x))
     \<and> (\<forall>i. (i, None) \<in> set res \<longrightarrow>
          find_order (orders d') i = map_option (set_status Canceled) (find_order (orders d) i))
     \<and> orders d' = map (\<lambda>x. if may_cancel user x
            \<and> (o_id x \<in> set data
               \<or> (\<exists>j \<in> set data. o_pair x = Some j \<and> (\<exists>p. find_order (orders d) j = Some p \<and> o_status p \<in> set OPEN_STATUSES)))
          then set_status Canceled x else x) (orders d)
     \<and> wallets d' = wallets d \<and> transactions d' = transactions d \<and> trades d' = trades d"
proof -
  from s have d: "distinct (map o_id (orders d))" by (simp add: sound_db_def)
  obtain rows ids where c: "cancel_orders (remdups data) (Some user) d = (rows, ids, d')"
    and res: "res = map (\<lambda>x. (o_id x, order_result ids x)) rows @ map (\<lambda>i. (i, Some ''The order id not found''))
             (filter (\<lambda>i. i \<notin> o_id ` set rows) (remdups data))"
    by (rule batch_Inr [OF b])
  note t = cancel_orders_table [OF d c] and k = batch_keys [OF d c]
  have keys: "map fst res = map o_id rows @ filter (\<lambda>i. i \<notin> o_id ` set rows) (remdups data)"
    by (simp add: res comp_def)
  have "distinct (map fst res)" "set (map fst res) = set data" using k(1,2) by (auto simp: keys)
  moreover have ok: "(i, None) \<in> set res \<longleftrightarrow> i \<in> set data \<and> (\<exists>x. find_order (orders d) i = Some x \<and> may_cancel user x)" for i
  proof -
    have "(i, None) \<in> set res \<longleftrightarrow> (\<exists>y \<in> set rows. o_id y = i \<and> o_status y = Canceled \<and> i \<in> set ids)"
      by (auto simp: res order_result_None image_iff)
    also have "\<dots> \<longleftrightarrow> i \<in> set data \<and> (\<exists>x \<in> set (orders d). o_id x = i \<and> may_cancel user x)"
      by (rule batch_ok [OF d c])
    finally show ?thesis by (auto simp: find_order_iff [OF d])
  qed
  moreover have "find_order (orders d') i = map_option (set_status Canceled) (find_order (orders d) i)"
    if "(i, None) \<in> set res" for i
  proof -
    from that ok obtain x where x: "i \<in> set data" "find_order (orders d) i = Some x" "may_cancel user x" by blast
    then have "x \<in> set (filter_orders (orders d) (remdups data) (Some user))"
      using find_order_Some [OF x(2)] by (simp add: filter_orders_may(2))
    with x(2) show ?thesis by (simp add: t(1) find_order_cancelled [OF d])
  qed
  moreover note t(1) [unfolded filter_orders_row]
  moreover obtain os m where "d' = d\<lparr>orders := os, margin_changes := m\<rparr>" using t(4) by blast
  then have "wallets d' = wallets d" "transactions d' = transactions d" "trades d' = trades d" by simp_all
  ultimately show ?thesis by blast
qed

theorem cancel_batch_truthful_witness:
  "\<exists>res d'. orders_cancel_batch 21 [3, 4, 9] ex_db = (Inr res, d') \<and> (3, None) \<in> set res \<and> (4, None) \<notin> set res
     \<and> find_order (orders d') 3 = Some (set_status Canceled ex_sell)"
proof -
  obtain res d' where b: "orders_cancel_batch 21 [3, 4, 9] ex_db = (Inr res, d')"
    by (cases "cancel_batch_of_orders 21 [3, 4, 9] ex_db") (auto simp: orders_cancel_batch_def CANCEL_ORDER_BATCH_SIZE_def)
  have x: "find_order (orders ex_db) 3 = Some ex_sell" "find_order (orders ex_db) 4 = Some ex_buy"
    "may_cancel 21 ex_sell" "\<not> may_cancel 21 ex_buy"
    by (simp_all add: find_order_def may_cancel_def OPEN_STATUSES_def in_system_range_def CHANNEL_SYSTEM_RANGE_def ex_data)
  note c = cancel_batch_truthful [OF b ex_sound]
  have "(3, None) \<in> set res" "(4, None) \<notin> set res" using c x by auto
  moreover from c [THEN conjunct2, THEN conjunct2, THEN conjunct2, THEN conjunct1, rule_format, OF this(1)]
  have "find_order (orders d') 3 = Some (set_status Canceled ex_sell)" using x by simp
  ultimately show ?thesis using b by blast
qed

subsection \<open>One order or a batch\<close>

text \<open>The pair of an order, if it has one, names the order back, is unfilled, and may be cancelled when open.\<close>

definition well_paired :: "order list \<Rightarrow> nat \<Rightarrow> order \<Rightarrow> bool" where
  "well_paired os user x \<longleftrightarrow>
     list_all (\<lambda>y. (o_pair y = Some (o_id x)) = (o_pair x = Some (o_id y))
        \<and> (o_pair x = Some (o_id y) \<longrightarrow> y \<noteq> x \<and> o_matched_amount y = 0 \<and> o_user y = user
              \<and> o_trade y \<in> {Spot, Margin} \<and> \<not> in_system_range y)) os"

definition closed_with :: "order \<Rightarrow> order \<Rightarrow> order" where
  "closed_with x y =
     (if y = x \<or> o_pair x = Some (o_id y) \<and> o_status y \<in> set OPEN_STATUSES then set_status Canceled y else y)"

lemma open_valid: "o_status x \<in> set OPEN_STATUSES \<longleftrightarrow> is_valid_transition (o_status x) Canceled"
  by (auto simp: is_valid_transition_def OPEN_STATUSES_def)

lemma not_system: "\<not> in_system_range x \<Longrightarrow> \<not> is_placed_by_system x"
  by (auto simp: in_system_range_def is_placed_by_system_def split: option.split_asm)

lemma batch_of_one:
  assumes d: "distinct (map o_id (orders d))" and x: "x \<in> set (orders d)" "may_cancel user x" "well_paired (orders d) user x"
  shows "orders (snd (snd (cancel_batch_of_orders user [o_id x] d))) = map (closed_with x) (orders d)"
proof -
  obtain rows ids d' where c: "cancel_orders [o_id x] (Some user) d = (rows, ids, d')" by (rule prod_cases3)
  have f: "find_order (orders d) (o_id x) = Some x" using d x(1) by (simp add: find_order_iff)
  have open_x: "o_status x \<in> set OPEN_STATUSES" using x(2) by (simp add: may_cancel_def)
  have "y \<in> set (filter_orders (orders d) [o_id x] (Some user))
      \<longleftrightarrow> y = x \<or> o_pair x = Some (o_id y) \<and> o_status y \<in> set OPEN_STATUSES" if y: "y \<in> set (orders d)" for y
  proof -
    have "o_id y = o_id x \<longleftrightarrow> y = x" using d x(1) y by (auto simp: distinct_map inj_on_def)
    moreover have "(o_pair y = Some (o_id x)) = (o_pair x = Some (o_id y))"
      "o_pair x = Some (o_id y) \<Longrightarrow> y \<noteq> x \<and> o_user y = user \<and> o_trade y \<in> {Spot, Margin} \<and> \<not> in_system_range y"
      using x(3) y by (auto simp: well_paired_def list_all_iff)
    ultimately show ?thesis
      using x(2) y f open_x by (auto simp: filter_orders_def base_query_def may_cancel_def split: option.split)
  qed
  then have "orders d' = map (closed_with x) (orders d)"
    unfolding cancel_orders_table(1) [OF d c] by (intro map_cong) (auto simp: closed_with_def)
  with c show ?thesis by (simp add: cancel_batch_of_orders_def)
qed

lemma map_put_order:
  "distinct (map o_id os) \<Longrightarrow> x \<in> set os \<Longrightarrow> put_order f (o_id x) os = map (\<lambda>y. if y = x then f y else y) os"
  by (auto simp: put_order_def distinct_map inj_on_def)

lemma cancel_row_again:
  assumes "find_order os i = Some x" "o_status x = Canceled"
  shows "update_status_row os i Canceled manual = (False, os)"
  using assms by (auto simp: update_status_row.simps [of os i] is_valid_transition_def)

lemma cancel_pair_row:
  assumes d: "distinct (map o_id os)" and q: "find_order os j = Some q" "\<not> in_system_range q" "o_pair q = Some (o_id x)" "j \<noteq> o_id x"
    and x: "find_order os (o_id x) = Some (set_status Canceled x)"
  shows "snd (update_status_row os j Canceled True)
    = map (\<lambda>y. if o_id y = j \<and> o_status y \<in> set OPEN_STATUSES then set_status Canceled y else y) os"
proof (cases "o_status q \<in> set OPEN_STATUSES")
  case True
  define os' where "os' = put_order (set_status Canceled) j os"
  have "find_order os' (o_id x) = Some (set_status Canceled x)" using x q(4) by (simp add: os'_def find_put_order_other)
  then have "pair_of os' q = Some (set_status Canceled x)" "update_status_row os' (o_id x) Canceled True = (False, os')"
    using q(3) cancel_row_again by (simp_all add: pair_of_def)
  then have "snd (update_status_row os j Canceled True) = os'"
    using True q not_system [OF q(2)] by (auto simp: update_status_row.simps [of os j] open_valid os'_def [symmetric] Let_def)
  moreover have "y = q" if "y \<in> set os" "o_id y = j" for y using that d q(1) by (metis find_order_iff option.inject)
  ultimately show ?thesis using True by (auto simp: os'_def put_order_def)
next
  case False
  have "y = q" if "y \<in> set os" "o_id y = j" for y using that d q(1) by (metis find_order_iff option.inject)
  then have "map (\<lambda>y. if o_id y = j \<and> o_status y \<in> set OPEN_STATUSES then set_status Canceled y else y) os = os"
    using False by (intro map_idI) auto
  with False q(1) show ?thesis by (simp add: update_status_row.simps [of os j] open_valid)
qed

lemma cancel_of_one:
  assumes d: "distinct (map o_id os)" and x: "x \<in> set os" "may_cancel user x" "well_paired os user x"
  shows "snd (snd (do_cancel os x None True)) = map (closed_with x) os"
proof -
  define os' where "os' = put_order (set_status Canceled) (o_id x) os"
  have ok: "is_valid_transition (o_status x) Canceled" "\<not> is_placed_by_system x"
    using x(2) not_system open_valid by (auto simp: may_cancel_def)
  have m: "os' = map (\<lambda>y. if y = x then set_status Canceled y else y) os" unfolding os'_def by (rule map_put_order [OF d x(1)])
  have d': "distinct (map o_id os')" using d by (simp add: os'_def)
  have fx: "find_order os (o_id x) = Some x" using d x(1) by (simp add: find_order_iff)
  show ?thesis
  proof (cases "pair_of os' x")
    case None
    have "map o_id os' = map o_id os" by (simp add: os'_def)
    then have "o_id ` set os' = o_id ` set os" by (metis set_map)
    with None have "o_pair x \<noteq> Some (o_id y)" if "y \<in> set os" for y
      using that by (auto simp: pair_of_def find_order_None split: option.split_asm)
    then have "map (closed_with x) os = os'" by (auto simp: m closed_with_def)
    with None ok show ?thesis by (simp add: do_cancel_def update_status_def os'_def [symmetric] Let_def)
  next
    case (Some q)
    then obtain j where j: "o_pair x = Some j" "find_order os' j = Some q" by (auto simp: pair_of_def split: option.split_asm)
    have "\<exists>y \<in> set os. o_id y = j" using find_order_Some [OF j(2)] by (auto simp: m split: if_splits)
    then obtain y where y: "y \<in> set os" "o_id y = j" by blast
    have w: "y \<noteq> x" "o_pair y = Some (o_id x)" "o_matched_amount y = 0" "\<not> in_system_range y"
      using x(3) y j(1) by (auto simp: well_paired_def list_all_iff)
    have "j \<noteq> o_id x" using w(1) y x(1) d by (auto simp: distinct_map inj_on_def)
    then have "find_order os j = Some q" using j(2) by (simp add: os'_def find_put_order_other)
    moreover have "find_order os j = Some y" using y d by (simp add: find_order_iff)
    ultimately have q: "q = y" by simp
    have "find_order os' (o_id x) = Some (set_status Canceled x)" by (simp add: os'_def find_put_order_same fx)
    from cancel_pair_row [OF d' j(2) _ _ \<open>j \<noteq> o_id x\<close> this] w q
    have "snd (update_status_row os' j Canceled True)
      = map (\<lambda>y. if o_id y = j \<and> o_status y \<in> set OPEN_STATUSES then set_status Canceled y else y) os'" by simp
    also have "\<dots> = map (closed_with x) os" using \<open>j \<noteq> o_id x\<close> j(1) by (auto simp: m closed_with_def)
    finally show ?thesis
      using Some ok q w(3) y by (simp add: do_cancel_def update_status_def os'_def [symmetric] Let_def)
  qed
qed

text \<open>Cancelling one order through the method of the order and cancelling it as a batch of one
  close the same rows, where its pair is unfilled and names it back.\<close>

lemma single_cancel_as_batch:
  assumes "distinct (map o_id (orders d))" "x \<in> set (orders d)" "may_cancel user x" "well_paired (orders d) user x"
  shows "orders (snd (snd (cancel_batch_of_orders user [o_id x] d))) = snd (snd (do_cancel (orders d) x None True))"
  using batch_of_one [OF assms] cancel_of_one [OF assms] by simp

text \<open>A sell with its stop order, and a batch of one on it.\<close>

definition oc_limit :: order where "oc_limit = (ex_order 3 21 Sell 120 3 10)\<lparr>o_pair := Some 5\<rparr>"
definition oc_stop :: order where
  "oc_stop = (ex_order 5 21 Sell 90 3 10)\<lparr>o_pair := Some 3, o_execution := StopLimit, o_param1 := Some 95, o_status := Inactive\<rparr>"

lemma single_cancel_as_batch_witness:
  "orders (snd (snd (cancel_batch_of_orders 21 [3] (ex_db\<lparr>orders := [oc_limit, oc_stop, ex_buy]\<rparr>))))
     = snd (snd (do_cancel [oc_limit, oc_stop, ex_buy] oc_limit None True))
   \<and> snd (snd (do_cancel [oc_limit, oc_stop, ex_buy] oc_limit None True))
     = [set_status Canceled oc_limit, set_status Canceled oc_stop, ex_buy]"
proof -
  define d where "d = ex_db\<lparr>orders := [oc_limit, oc_stop, ex_buy]\<rparr>"
  have o: "o_id oc_limit = 3" "o_id oc_stop = 5" "o_id ex_buy = 4" "o_pair oc_limit = Some 5" "o_pair ex_buy = None"
    "o_pair oc_stop = Some 3" "o_status oc_stop = Inactive" "oc_stop \<noteq> oc_limit" "ex_buy \<noteq> oc_limit"
    by (simp_all add: oc_limit_def oc_stop_def ex_data)
  have p: "distinct (map o_id (orders d))" "oc_limit \<in> set (orders d)" "orders d = [oc_limit, oc_stop, ex_buy]"
    by (simp_all add: d_def o)
  have m: "may_cancel 21 oc_limit"
    by (simp add: may_cancel_def OPEN_STATUSES_def in_system_range_def CHANNEL_SYSTEM_RANGE_def oc_limit_def ex_order_def)
  have w: "well_paired (orders d) 21 oc_limit"
    by (simp add: p(3) well_paired_def o) (simp add: oc_stop_def ex_order_def in_system_range_def CHANNEL_SYSTEM_RANGE_def)
  have "map (closed_with oc_limit) (orders d) = [set_status Canceled oc_limit, set_status Canceled oc_stop, ex_buy]"
    by (simp add: p(3) closed_with_def o OPEN_STATUSES_def)
  with single_cancel_as_batch [OF p(1,2) m w] cancel_of_one [OF p(1,2) m w] show ?thesis
    by (simp add: d_def [symmetric] p(3) o)
qed

end
