(* ===== verification/Conservation.thy ===== *)
theory Conservation
  imports TradeProcessor_Claims
begin

section \<open>Trading creates no money\<close>

text \<open>
  The matcher takes the two sides of a trade out of the wallets and the trade processor,
  possibly much later, pays them out less the fees. The theorem joins the two: what the
  processor pays in any currency is at most what the match took in it, whatever the fees
  and the roundings are.
\<close>

definition total_of :: "nat \<Rightarrow> 'a db_scheme \<Rightarrow> rat" where
  "total_of c d = sum_list (map w_balance (filter (\<lambda>w. w_currency w = c) (wallets d)))"

definition currency_in :: "'a db_scheme \<Rightarrow> nat \<Rightarrow> nat option" where
  "currency_in d i = map_option w_currency (find_wallet (wallets d) i)"

lemma put_wallet_total:
  assumes "distinct (map w_id ws)" "find_wallet ws i = Some row"
  shows "sum_list (map w_balance (filter (\<lambda>w. w_currency w = c) (put_wallet (\<lambda>w. w\<lparr>w_balance := b\<rparr>) i ws)))
    = sum_list (map w_balance (filter (\<lambda>w. w_currency w = c) ws)) + (if w_currency row = c then b - w_balance row else 0)"
  using assms
proof (induction ws)
  case (Cons w ws)
  show ?case
  proof (cases "w_id w = i")
    case True
    have "i \<notin> w_id ` set ws" using True Cons.prems(1) by auto
    then have "put_wallet (\<lambda>w. w\<lparr>w_balance := b\<rparr>) i ws = ws" unfolding put_wallet_def by (intro map_idI) auto
    moreover have "row = w" using True Cons.prems(2) by (simp add: find_wallet_def)
    ultimately show ?thesis using True by (simp add: put_wallet_def)
  next
    case False
    with Cons show ?thesis by (simp add: find_wallet_def put_wallet_def)
  qed
qed (simp add: find_wallet_def)

lemma commit_total:
  assumes c: "commit d tx neg = Inr (d', tx')" and dist: "distinct (map w_id (wallets d))"
  shows "total_of k d' = total_of k d + (if currency_in d (tx_wallet tx) = Some k then tx_amount tx else 0)"
    "currency_in d' j = currency_in d j" "distinct (map w_id (wallets d'))"
proof -
  from c obtain row where row: "find_wallet (wallets d) (tx_wallet tx) = Some row"
    and d': "wallets d' = put_wallet (\<lambda>w. w\<lparr>w_balance := w_balance row + tx_amount tx\<rparr>) (tx_wallet tx) (wallets d)"
    by (auto simp: commit_Inr)
  show "total_of k d' = total_of k d + (if currency_in d (tx_wallet tx) = Some k then tx_amount tx else 0)"
    using put_wallet_total [OF dist row, of k] by (simp add: total_of_def d' currency_in_def row)
  show "currency_in d' j = currency_in d j"
    by (simp add: currency_in_def d' find_put_wallet option.map_comp comp_def)
  show "distinct (map w_id (wallets d'))" using dist by (simp add: d')
qed

lemma quantize_le: "quantize m e x = Inr p \<Longrightarrow> quantize m e y = Inr q \<Longrightarrow> x \<le> y \<Longrightarrow> p \<le> q"
  by (simp add: quantize_Inr quantize_value_mono)

lemma deposit_total:
  assumes dep: "deposit_tx d w a m i now = Inr (x, d')" and dist: "distinct (map w_id (wallets d))"
    and b: "a \<le> b" "0 \<le> b" "quantize ROUND_HALF_EVEN MAX_PRECISION b = Inr v"
  shows "total_of k d' \<le> total_of k d + (if currency_in d (w_id w) = Some k then v else 0)"
    "currency_in d' j = currency_in d j" "distinct (map w_id (wallets d'))"
proof -
  have v0: "0 \<le> v" using quantize_nonneg b(2,3) by blast
  from dep obtain tx where tx: "create_transaction w TxBuy a now (Some m) (Some i) True = Inr tx"
    and k: "(case tx of None \<Rightarrow> Inr (None, d) | Some tx \<Rightarrow> rbind (commit d tx True) (\<lambda>(d', tx'). Inr (Some tx', d'))) = Inr (x, d')"
    by (auto simp: deposit_tx_def rbind_eq_Inr_iff)
  have "total_of k d' \<le> total_of k d + (if currency_in d (w_id w) = Some k then v else 0)
      \<and> currency_in d' j = currency_in d j \<and> distinct (map w_id (wallets d'))"
  proof (cases tx)
    case (Some y)
    then obtain y' where c: "commit d y True = Inr (d', y')" using k by (auto simp: rbind_eq_Inr_iff)
    note f = create_transaction_Some [OF tx [unfolded Some]]
    then have "tx_amount y \<le> v" using quantize_le [OF _ b(3,1)] by blast
    with commit_total [OF c dist] f show ?thesis by simp
  qed (use k v0 dist in simp)
  then show "total_of k d' \<le> total_of k d + (if currency_in d (w_id w) = Some k then v else 0)"
    "currency_in d' j = currency_in d j" "distinct (map w_id (wallets d'))" by blast+
qed

text \<open>The processor pays at most the total price and the amount.\<close>

lemma fill_total:
  assumes f: "fill_trade_transactions env now so bo (Some sw) (Some bw) ids t d = (r, d')"
    and dist: "distinct (map w_id (wallets d))"
    and fees: "\<And>x. t_sell_fee t = Some x \<Longrightarrow> dsub (matched_total_price t) x \<le> matched_total_price t"
      "\<And>x. t_buy_fee t = Some x \<Longrightarrow> dsub (t_amount t) x \<le> t_amount t"
    and q: "0 \<le> matched_total_price t" "quantize ROUND_HALF_EVEN MAX_PRECISION (matched_total_price t) = Inr v"
      "0 \<le> t_amount t" "quantize ROUND_HALF_EVEN MAX_PRECISION (t_amount t) = Inr a"
  shows "total_of k d' \<le> total_of k d + (if currency_in d (w_id sw) = Some k then v else 0)
     + (if currency_in d (w_id bw) = Some k then a else 0)"
proof -
  have pos: "0 \<le> v" "0 \<le> a" using quantize_nonneg q by blast+
  show ?thesis
  proof (cases r)
    case (Inl e)
    from fill_Inl [OF f [unfolded Inl]] show ?thesis
    proof (elim disjE exE conjE)
      fix fs x1
      assume "t_sell_fee t = Some fs" and d: "deposit_tx d sw (dsub (matched_total_price t) fs) 43 (t_id t) now = Inr (x1, d')"
      from deposit_total(1) [OF d dist fees(1) q(1,2), of k] \<open>t_sell_fee t = Some fs\<close> pos show ?thesis by auto
    qed (use pos in simp)
  next
    case (Inr t')
    from f [unfolded Inr] show ?thesis
    proof (rule fill_Inr)
      fix fs fb x1 x2 d1
      assume s: "t_sell_fee t = Some fs" and b: "t_buy_fee t = Some fb"
        and d1: "deposit_tx d sw (dsub (matched_total_price t) fs) 43 (t_id t) now = Inr (x1, d1)"
        and d2: "deposit_tx d1 bw (dsub (t_amount t) fb) 44 (t_id t) now = Inr (x2, d')"
      note e1 = deposit_total [OF d1 dist fees(1) [OF s] q(1,2)]
      note e2 = deposit_total(1) [OF d2 e1(3) fees(2) [OF b] q(3,4), of k]
      from e1(1) [of k] e2 e1(2) show ?thesis by simp
    qed
  qed
qed

lemma process_total:
  assumes p: "process_trade env saves now so bo (Some sw) (Some bw) ids t st = (ok, st')"
    and dist: "distinct (map w_id (wallets (tp_db st)))"
    and fees: "\<And>x. t_sell_fee t = Some x \<Longrightarrow> dsub (matched_total_price t) x \<le> matched_total_price t"
      "\<And>x. t_buy_fee t = Some x \<Longrightarrow> dsub (t_amount t) x \<le> t_amount t"
    and q: "0 \<le> matched_total_price t" "quantize ROUND_HALF_EVEN MAX_PRECISION (matched_total_price t) = Inr v"
      "0 \<le> t_amount t" "quantize ROUND_HALF_EVEN MAX_PRECISION (t_amount t) = Inr a"
  shows "total_of k (tp_db st') \<le> total_of k (tp_db st) + (if currency_in (tp_db st) (w_id sw) = Some k then v else 0)
     + (if currency_in (tp_db st) (w_id bw) = Some k then a else 0)"
proof (cases "all_ids_set t")
  case True
  have "0 \<le> v" "0 \<le> a" using quantize_nonneg q by blast+
  with True p show ?thesis by (simp add: process_trade_def)
next
  case False
  obtain r d where f: "fill_trade_transactions env now so bo (Some sw) (Some bw) ids t (tp_db st) = (r, d)" by (rule prod.exhaust)
  have "total_of k (tp_db st') = total_of k d"
    using p False f by (cases r) (auto simp: process_trade_def total_of_def split: if_splits)
  with fill_total [OF f dist fees q] show ?thesis by simp
qed

text \<open>The match takes the amount and the rounded total.\<close>

lemma trade_effect_total:
  assumes e: "trade_effect env sell buy amount price maker sf bf s t s'" and a: "money_field amount"
    and v: "quantize ROUND_HALF_EVEN MAX_PRECISION (dmul amount price) = Inr v" and dist: "distinct (map w_id (wallets (mdb s)))"
  shows "total_of k (mdb s') = total_of k (mdb s)
      - (if currency_in (mdb s) (w_id (the (wallet_obj (obj s sell)))) = Some k then amount else 0)
      - (if currency_in (mdb s) (w_id (the (wallet_obj (obj s buy)))) = Some k then v else 0)"
  using e a v
proof (rule trade_effect_commits)
  fix d1 d2 d3 tx1 tx2 tx1' tx2' os
  assume d1: "wallets d1 = wallets (mdb s)" and c: "commit d1 tx1 False = Inr (d2, tx1')" "commit d2 tx2 False = Inr (d3, tx2')"
    and s': "mdb s' = d3\<lparr>orders := os\<rparr>"
    and tx: "tx_amount tx1 = - amount" "tx_wallet tx1 = w_id (the (wallet_obj (obj s sell)))"
      "tx_amount tx2 = - v" "tx_wallet tx2 = w_id (the (wallet_obj (obj s buy)))"
  have d: "distinct (map w_id (wallets d1))" using dist d1 by simp
  have t0: "total_of k d1 = total_of k (mdb s)" "total_of k (mdb s') = total_of k d3" "currency_in d1 j = currency_in (mdb s) j" for j
    by (simp_all add: total_of_def currency_in_def d1 s')
  note c1 = commit_total [OF c(1) d] and c2 = commit_total [OF c(2) commit_total(3) [OF c(1) d]]
  show ?thesis by (simp add: t0 c1(1,2) c2(1) tx)
qed

text \<open>The trade as the processor reads it from its row.\<close>

lemma stored_trade_values:
  assumes "on_grid MAX_PRECISION (t_amount t)" "on_grid MAX_PRECISION (t_price t)"
  shows "t_amount (stored_trade t) = t_amount t" "matched_total_price (stored_trade t) = matched_total_price t"
  using assms by (simp_all add: stored_trade_def matched_total_price_def col10_fix)

lemma less_fee: "ctx x = x \<Longrightarrow> 0 \<le> f \<Longrightarrow> dsub x f \<le> x"
  using ctx_mono [of "x - f" x] by (simp add: dsub_def)

lemma match_fees_nonneg:
  assumes "match_fees env so bo amount price = Inr fees" "0 \<le> amount" "0 \<le> price"
    and "valid_user_fees (manual_fee env (o_user so))" "valid_user_fees (manual_fee env (o_user bo))"
  shows "0 \<le> fst fees \<and> 0 \<le> snd fees"
  using assms fee_nonneg dmul_nonneg [OF assms(2,3)]
  by (auto simp: match_fees_def rbind_eq_Inr_iff Let_def split: if_splits)

text \<open>What a match has fixed about its trade, and what it took.\<close>

lemma match_two_orders_takes:
  assumes m: "match_two_orders env sell buy s = Inr (Some t, s')"
    and inv: "minv s" and prec: "MAX_PRECISION \<le> the (amount_precision env)"
    and refs: "sell_ref s sell" "buy_ref s buy"
    and live: "\<not> is_spent (the_order s sell)" "\<not> is_spent (the_order s buy)"
    and cr: "crosses (the_order s sell) (the_order s buy)"
    and w: "wallet_obj (obj s sell) = Some sw" "wallet_obj (obj s buy) = Some bw"
    and valid: "valid_user_fees (manual_fee env (o_user (the_order s sell)))" "valid_user_fees (manual_fee env (o_user (the_order s buy)))"
  obtains v fs fb where "quantize ROUND_HALF_EVEN MAX_PRECISION (dmul (t_amount t) (t_price t)) = Inr v"
    "money_field (t_amount t)" "0 < t_amount t" "0 < t_price t" "on_grid MAX_PRECISION (t_price t)"
    "t_sell_fee t = Some fs" "0 \<le> fs" "t_buy_fee t = Some fb" "0 \<le> fb"
    "\<And>k. total_of k (mdb s') = total_of k (mdb s) - (if currency_in (mdb s) (w_id sw) = Some k then t_amount t else 0)
        - (if currency_in (mdb s) (w_id bw) = Some k then v else 0)"
  using m refs live cr w
proof (rule match_two_orders_made)
  fix s1 fees
  assume st: "msteps env s s1" and s1: "mdb s1 = mdb s" "\<And>q. the_order s1 q = the_order s q"
    "w_id (the (wallet_obj (obj s1 sell))) = w_id sw" "w_id (the (wallet_obj (obj s1 buy))) = w_id bw"
    and rdy: "trade_ready env sell buy (t_amount t) (t_price t) s1"
    and mf: "match_fees env (the_order s sell) (the_order s buy) (t_amount t) (t_price t) = Inr fees"
    and e: "trade_effect env sell buy (t_amount t) (t_price t) (seller_is_maker (the_order s sell) (the_order s buy))
       (fst fees) (snd fees) s1 t s'"
  from e obtain v where v: "quantize ROUND_HALF_EVEN MAX_PRECISION (dmul (t_amount t) (t_price t)) = Inr v"
    and grow: "grow_order (the_order s sell) (t_amount t) (t_price t) (fst fees) = Inr (the_order s' sell)"
    unfolding trade_effect_def s1(2) by blast
  have inv1: "minv s1" by (rule minv_steps [OF st inv prec])
  note b = trade_ready_bounds [OF rdy inv1 prec, unfolded s1(2)]
  have o: "order_inv (the_order s sell)" "order_inv (the_order s buy)"
    using minv_order [OF inv] refs by (auto simp: sell_ref_def buy_ref_def)
  have a: "money_field (t_amount t)" by (rule fill_amount_exact(2) [OF o(1) grow b(1,2,4)])
  have p: "t_price t = match_price (the_order s sell) (the_order s buy)" using rdy s1(2) by (simp add: trade_ready_def Let_def)
  have grid: "on_grid MAX_PRECISION (t_price t)" unfolding p
    using o by (auto simp: match_price_def order_inv_def intro: money_field_grid)
  have pos: "0 < t_price t" using b(5) by (simp add: fair_price_def)
  have "distinct (map w_id (wallets (mdb s1)))" using inv1 by (simp add: minv_def ledger_inv_def)
  from trade_effect_total [OF e a v this] have tot: "total_of k (mdb s') = total_of k (mdb s)
      - (if currency_in (mdb s) (w_id sw) = Some k then t_amount t else 0)
      - (if currency_in (mdb s) (w_id bw) = Some k then v else 0)" for k
    by (simp add: s1)
  have f: "t_sell_fee t = Some (fst fees)" "t_buy_fee t = Some (snd fees)" using trade_effect_commits [OF e a v] by metis+
  have "0 \<le> fst fees" "0 \<le> snd fees" using match_fees_nonneg [OF mf _ _ valid] b(1) pos by auto
  then show thesis by (rule that [OF v a b(1) pos grid f(1) _ f(2) _ tot])
qed

text \<open>C2: whenever the processor credits a trade, in any later database, no currency gains more
  than the match took out of it: trading creates no money.\<close>

theorem trade_creates_no_money:
  assumes m: "match_two_orders env sell buy s = Inr (Some t, s')"
    and inv: "minv s" and prec: "MAX_PRECISION \<le> the (amount_precision env)"
    and refs: "sell_ref s sell" "buy_ref s buy"
    and live: "\<not> is_spent (the_order s sell)" "\<not> is_spent (the_order s buy)"
    and cr: "crosses (the_order s sell) (the_order s buy)"
    and w: "wallet_obj (obj s sell) = Some sw" "wallet_obj (obj s buy) = Some bw"
    and valid: "valid_user_fees (manual_fee env (o_user (the_order s sell)))" "valid_user_fees (manual_fee env (o_user (the_order s buy)))"
    and p: "process_trade env' saves now so bo (Some dsw) (Some dbw) ids (stored_trade t) st = (ok, st')"
    and dist: "distinct (map w_id (wallets (tp_db st)))"
    and cur: "currency_in (tp_db st) (w_id dsw) = currency_in (mdb s) (w_id bw)"
      "currency_in (tp_db st) (w_id dbw) = currency_in (mdb s) (w_id sw)"
  shows "total_of k (tp_db st') - total_of k (tp_db st) \<le> total_of k (mdb s) - total_of k (mdb s')"
  using m inv prec refs live cr w valid
proof (rule match_two_orders_takes)
  fix v fs fb
  assume v: "quantize ROUND_HALF_EVEN MAX_PRECISION (dmul (t_amount t) (t_price t)) = Inr v"
    and t: "money_field (t_amount t)" "0 < t_amount t" "0 < t_price t" "on_grid MAX_PRECISION (t_price t)"
    and fees: "t_sell_fee t = Some fs" "0 \<le> fs" "t_buy_fee t = Some fb" "0 \<le> fb"
    and tot: "\<And>k. total_of k (mdb s') = total_of k (mdb s) - (if currency_in (mdb s) (w_id sw) = Some k then t_amount t else 0)
        - (if currency_in (mdb s) (w_id bw) = Some k then v else 0)"
  note u = stored_trade_values [OF money_field_grid [OF t(1)] t(4)]
  have mtp: "matched_total_price t = dmul (t_amount t) (t_price t)"
    by (simp add: matched_total_price_def dmul_def mult.commute)
  have "0 \<le> dmul (t_amount t) (t_price t)" "ctx (dmul (t_amount t) (t_price t)) = dmul (t_amount t) (t_price t)"
    using t by (auto simp: dmul_def ctx.rv_nonneg)
  moreover have "t_sell_fee (stored_trade t) = Some (rounded_col10 fs)" "t_buy_fee (stored_trade t) = Some (rounded_col10 fb)"
    by (simp_all add: stored_trade_def fees)
  ultimately show ?thesis
    using process_total [OF p dist, of v "t_amount t" k] u mtp v t money_quantize [OF t(1)] fees less_fee tot [of k] cur
    by (simp add: col10_nonneg)
qed

theorem trade_creates_no_money_witness:
  "total_of 2 (tp_db tp_st2) - total_of 2 (tp_db tp_st0) \<le> 200
   \<and> total_of 2 (mdb (ex_s True True [3, 4])) - total_of 2 (mdb ex_s3) = 200"
proof -
  let ?s = "ex_s True True [3, 4]"
  have st: "stored_trade ex_trade = ex_trade"
    by (simp add: stored_trade_def ex_trade_def new_trade_def col10_def rounded_col10_def dec_eval)
  have d: "distinct (map w_id (wallets (tp_db tp_st0)))" by (simp add: tp_st0_def tp_dbs ex_wallet_def)
  have c: "currency_in (tp_db tp_st0) (w_id (ex_wallet 9 21 2 0)) = currency_in (mdb ?s) (w_id (ex_wallet 8 22 2 1000))"
    "currency_in (tp_db tp_st0) (w_id (ex_wallet 10 22 10 0)) = currency_in (mdb ?s) (w_id (ex_wallet 7 21 10 5))"
    by (simp_all add: currency_in_def find_wallet_def tp_st0_def tp_dbs ex_wallet_def)
  have p: "MAX_PRECISION \<le> the (amount_precision ex_env)" by (simp add: MAX_PRECISION_def)
  have v: "valid_user_fees (manual_fee ex_env u)" for u by (simp add: valid_user_fees_def)
  have "total_of 2 (mdb ?s) = 1000" "total_of 2 (mdb ex_s3) = 800"
    by (simp_all add: total_of_def ex_db_def ex_wallet_def) (simp_all add: ex_s3_def ex_db3_def ex_db2_def ex_db1_def ex_db_def ex_wallet_def)
  moreover have "total_of 2 (tp_db tp_st2) - total_of 2 (tp_db tp_st0) \<le> total_of 2 (mdb ?s) - total_of 2 (mdb ex_s3)"
    by (rule trade_creates_no_money [OF ex_two_orders ex_minv p ex_refs ex_live _ _ v v _ d c])
      (use tp_run in \<open>simp_all add: st\<close>)
  ultimately show ?thesis by simp
qed

end
