(* ===== verification/Transfers.thy ===== *)
theory Transfers
  imports Conservation Order_Api
begin

section \<open>Transfers between the wallets of a user\<close>

text \<open>
  \<open>transfer_balance\<close> and \<open>create_bulk_transfer\<close> of \<^verbatim>\<open>src/core/exchange/wallet/functions.py\<close>, the
  views of \<^verbatim>\<open>wallet/views.py\<close> that call them with their parser, and the \<open>WalletTransactionManager\<close>
  of \<^verbatim>\<open>wallet/wallet_manager.py\<close>, which posts many transactions of one wallet at once. The
  currencies that the credit, debit and margin wallets accept are fields of the environment.
  All of it runs in transactions: an error leaves no database behind.

  The lemmas show that a transfer moves exactly its amount, that transfers conserve every
  currency when their amounts have at most 28 digits and need not otherwise, and that posting at
  once is posting one by one.
\<close>

subsection \<open>One transfer\<close>

record transfer_env =
  te_credit_currencies :: "nat list"
  te_debit_currencies :: "nat list"
  te_MARGIN_CURRENCIES :: "nat list"
  te_DST_CURRENCIES :: "nat list"
  te_now :: datetime
  te_order_flags :: "nat \<Rightarrow> order_flags"

record transfer_result =
  tr_src :: wallet
  tr_dst :: wallet
  tr_amount :: rat
  tr_src_tx :: transaction
  tr_dst_tx :: transaction

definition transfer_allowed :: "transfer_env \<Rightarrow> nat \<Rightarrow> rat \<Rightarrow> wallet_type \<Rightarrow> wallet_type \<Rightarrow> unit result" where
  "transfer_allowed env currency amount src_type dst_type =
     (if dst_type = WCredit \<and> currency \<notin> set (te_credit_currencies env) then Inl (ApiError ''UnsupportedCoin'')
      else if dst_type = WDebit \<and> currency \<notin> set (te_debit_currencies env) then Inl (ApiError ''UnsupportedCoin'')
      else if dst_type = WMargin \<and> currency \<notin> set (te_MARGIN_CURRENCIES env) then Inl (ApiError ''UnsupportedCoin'')
      else if money_is_zero amount then Inl (ApiError ''InvalidAmount'')
      else if src_type = dst_type then Inl (ApiError ''SameDestination'')
      else Inr ())"

text \<open>A missing spot wallet is treated like an empty one; the target is created when it is missing.\<close>

definition transfer_source ::
    "transfer_env \<Rightarrow> nat \<Rightarrow> nat \<Rightarrow> rat \<Rightarrow> wallet_type \<Rightarrow> 'a db_scheme \<Rightarrow> wallet result" where
  "transfer_source env user currency amount src_type d =
     (case wallet_for (wallets d) user currency src_type of
        None \<Rightarrow> Inl (ApiError (if src_type \<noteq> WSpot then ''WalletNotFound'' else ''InsufficientBalance''))
      | Some w \<Rightarrow> if active_balance d w (te_order_flags env user) < amount then Inl (ApiError ''InsufficientBalance'')
                  else Inr w)"

definition transfer_target ::
    "transfer_env \<Rightarrow> nat \<Rightarrow> nat \<Rightarrow> wallet_type \<Rightarrow> 'a db_scheme \<Rightarrow> (wallet \<times> 'a db_scheme) result" where
  "transfer_target env user currency dst_type d =
     (case wallet_for (wallets d) user currency dst_type of
        Some w \<Rightarrow> Inr (w, d)
      | None \<Rightarrow>
          (case get_user_wallet (te_DST_CURRENCIES env) d user currency dst_type True of
             (None, _) \<Rightarrow> Inl (ApiError ''WalletNotFound'')
           | (Some w, d1) \<Rightarrow> Inr (w, d1)))"

text \<open>\<open>commit\<close> of a transaction that was not created raises.\<close>

definition commit_created ::
    "'a db_scheme \<Rightarrow> transaction option \<Rightarrow> bool \<Rightarrow> ('a db_scheme \<times> transaction) result" where
  "commit_created d tx allow_negative_balance =
     (case tx of None \<Rightarrow> Inl AttributeError | Some t \<Rightarrow> commit d t allow_negative_balance)"

definition transfer_balance ::
    "transfer_env \<Rightarrow> nat \<Rightarrow> nat \<Rightarrow> rat \<Rightarrow> wallet_type \<Rightarrow> wallet_type \<Rightarrow> 'a db_scheme
     \<Rightarrow> (transfer_result \<times> 'a db_scheme) result" where
  "transfer_balance env user currency amount src_type dst_type d =
     rbind (transfer_allowed env currency amount src_type dst_type) (\<lambda>_.
     rbind (transfer_source env user currency amount src_type d) (\<lambda>src.
     rbind (transfer_target env user currency dst_type d) (\<lambda>(dst, d1).
     rbind (create_transaction src TxTransfer (dneg amount) (te_now env) None None False) (\<lambda>src_tx.
     rbind (create_transaction dst TxTransfer amount (te_now env) None None True) (\<lambda>dst_tx.
     rbind (commit_created d1 src_tx False) (\<lambda>(d2, src_tx).
     rbind (commit_created d2 dst_tx True) (\<lambda>(d3, dst_tx).
       Inr (\<lparr>tr_src = the (find_wallet (wallets d3) (w_id src)), tr_dst = the (find_wallet (wallets d3) (w_id dst)),
             tr_amount = amount, tr_src_tx = src_tx, tr_dst_tx = dst_tx\<rparr>, d3))))))))"

subsection \<open>Many transfers\<close>

record bulk_transfer =
  bt_src_type :: "wallet_type arg"
  bt_dst_type :: "wallet_type arg"
  bt_transfers :: "(nat arg \<times> rat) list"

record bulk_request =
  br_user :: nat
  br_src_type :: wallet_type
  br_dst_type :: wallet_type
  br_amounts :: "(nat \<times> rat) list"
  br_transactions :: "nat list"

definition transfer_each ::
    "transfer_env \<Rightarrow> nat \<Rightarrow> wallet_type \<Rightarrow> wallet_type \<Rightarrow> transfer_result list \<times> 'a db_scheme \<Rightarrow> nat \<times> rat
     \<Rightarrow> (transfer_result list \<times> 'a db_scheme) result" where
  "transfer_each env user src_type dst_type st t =
     (case (st, t) of ((rs, d), (currency, amount)) \<Rightarrow>
        rbind (transfer_balance env user currency amount src_type dst_type d) (\<lambda>(r, d1). Inr (rs @ [r], d1)))"

definition create_bulk_transfer ::
    "transfer_env \<Rightarrow> nat \<Rightarrow> wallet_type \<Rightarrow> wallet_type \<Rightarrow> (nat \<times> rat) list \<Rightarrow> 'a db_scheme
     \<Rightarrow> ((transfer_result list \<times> bulk_request) \<times> 'a db_scheme) result" where
  "create_bulk_transfer env user src_type dst_type ts d =
     rbind (fold_result (transfer_each env user src_type dst_type) ([], d) ts) (\<lambda>(rs, d1).
       Inr ((rs, \<lparr>br_user = user, br_src_type = src_type, br_dst_type = dst_type, br_amounts = ts,
                  br_transactions = concat (map (\<lambda>r. [tx_id (tr_src_tx r), tx_id (tr_dst_tx r)]) rs)\<rparr>), d1))"

subsection \<open>The views\<close>

definition WALLET_TYPE :: "(string \<times> wallet_type) list" where
  "WALLET_TYPE = [(''spot'', WSpot), (''margin'', WMargin), (''credit'', WCredit), (''debit'', WDebit)]"

definition parse_wallet_type :: "(string \<Rightarrow> bool) \<Rightarrow> py_val \<Rightarrow> wallet_type arg result" where
  "parse_wallet_type attribute s =
     rbind (parse_choices (getattr (map_of WALLET_TYPE) attribute) True s) (\<lambda>x. Inr (as_arg x))"

text \<open>The value of a key that comes again replaces the first one.\<close>

definition put_item :: "'k \<Rightarrow> 'v \<Rightarrow> ('k \<times> 'v) list \<Rightarrow> ('k \<times> 'v) list" where
  "put_item k v xs =
     (if k \<in> fst ` set xs then map (\<lambda>(a, b). if a = k then (a, v) else (a, b)) xs else xs @ [(k, v)])"

text \<open>\<open>transfers\<close> is the list of the request, \<open>None\<close> when it has none; an item is a currency and an amount.\<close>

definition parse_bulk_wallet_transfer ::
    "api_env \<Rightarrow> nat \<Rightarrow> py_val \<Rightarrow> py_val \<Rightarrow> (py_val \<times> py_val) list option \<Rightarrow> bulk_transfer result" where
  "parse_bulk_wallet_transfer env max_len src_type dst_type transfers =
     (case transfers of
        None \<Rightarrow> Inl (ParseError ''transfers is missing'')
      | Some items \<Rightarrow>
          if items = [] then Inl (ParseError ''transfers is empty'')
          else if max_len < length items then Inl (ParseError ''List is too long'')
          else rbind (parse_wallet_type (ae_attribute env) src_type) (\<lambda>src.
               rbind (parse_wallet_type (ae_attribute env) dst_type) (\<lambda>dst.
               rbind (fold_result (\<lambda>ts (c, a).
                        rbind (parse_currency env True c) (\<lambda>currency.
                        rbind (parse_money True False None a) (\<lambda>amount.
                          Inr (put_item currency (the amount) ts)))) [] items) (\<lambda>ts.
                 Inr \<lparr>bt_src_type = src, bt_dst_type = dst, bt_transfers = ts\<rparr>))))"

text \<open>No user may take from a credit or debit wallet, or fill a debit wallet. An object that is no
  value of the enumeration raises at the latest in the query for the wallets.\<close>

definition check_wallet_types :: "wallet_type arg \<Rightarrow> wallet_type arg \<Rightarrow> unit result" where
  "check_wallet_types src dst =
     (if src \<in> {Value WCredit, Value WDebit} then Inl (ApiError ''InvalidSrc'')
      else if dst = Value WDebit then Inl (ApiError ''InvalidDst'')
      else Inr ())"

definition transfer_balance_post ::
    "api_env \<Rightarrow> transfer_env \<Rightarrow> nat \<Rightarrow> py_val \<Rightarrow> py_val \<Rightarrow> py_val \<Rightarrow> py_val \<Rightarrow> 'a db_scheme
     \<Rightarrow> (transfer_result \<times> 'a db_scheme) result" where
  "transfer_balance_post aenv env user currency amount src dst d =
     rbind (parse_currency aenv True currency) (\<lambda>c.
     rbind (parse_money True False None amount) (\<lambda>a.
     rbind (parse_wallet_type (ae_attribute aenv) src) (\<lambda>s.
     rbind (parse_wallet_type (ae_attribute aenv) dst) (\<lambda>t.
     rbind (check_wallet_types s t) (\<lambda>_.
       case (c, s, t) of
         (Value c, Value s, Value t) \<Rightarrow> transfer_balance env user c (the a) s t d
       | _ \<Rightarrow> Inl TypeError)))))"

definition value_items :: "(nat arg \<times> rat) list \<Rightarrow> (nat \<times> rat) list result" where
  "value_items ts =
     fold_result (\<lambda>xs (c, a). case c of Value k \<Rightarrow> Inr (xs @ [(k, a)]) | _ \<Rightarrow> Inl TypeError) [] ts"

definition bulk_transfer_post ::
    "api_env \<Rightarrow> transfer_env \<Rightarrow> nat \<Rightarrow> py_val \<Rightarrow> py_val \<Rightarrow> (py_val \<times> py_val) list option \<Rightarrow> 'a db_scheme
     \<Rightarrow> ((transfer_result list \<times> bulk_request) \<times> 'a db_scheme) result" where
  "bulk_transfer_post aenv env user src dst transfers d =
     rbind (parse_bulk_wallet_transfer aenv 20 src dst transfers) (\<lambda>data.
     rbind (check_wallet_types (bt_src_type data) (bt_dst_type data)) (\<lambda>_.
       case (bt_src_type data, bt_dst_type data) of
         (Value s, Value t) \<Rightarrow>
           rbind (value_items (bt_transfers data)) (\<lambda>ts. create_bulk_transfer env user s t ts d)
       | _ \<Rightarrow> Inl TypeError))"

subsection \<open>Posting many transactions of one wallet\<close>

text \<open>The wallet object, whose balance runs ahead of the row, and the transactions collected so far.\<close>

record tx_manager =
  tm_wallet :: wallet
  tm_starting_balance :: rat
  tm_transactions :: "transaction list"

definition new_tx_manager :: "wallet \<Rightarrow> tx_manager" where
  "new_tx_manager w = \<lparr>tm_wallet = w, tm_starting_balance = w_balance w, tm_transactions = []\<rparr>"

definition add_transaction ::
    "tx_type \<Rightarrow> rat \<Rightarrow> datetime \<Rightarrow> string option \<Rightarrow> nat option \<Rightarrow> bool \<Rightarrow> tx_manager \<Rightarrow> tx_manager result" where
  "add_transaction tp amount created_at ref_module ref_id allow_negative_balance m =
     rbind (create_transaction (tm_wallet m) tp amount created_at
              (case ref_module of None \<Rightarrow> None | Some r \<Rightarrow> map_of REF_MODULES r) ref_id allow_negative_balance) (\<lambda>txn.
       case txn of
         None \<Rightarrow> Inl (ValueError ''Transaction would result in negative wallet balance'')
       | Some t \<Rightarrow>
           Inr (m\<lparr>tm_wallet := (tm_wallet m)\<lparr>w_balance := dadd (w_balance (tm_wallet m)) (tx_amount t)\<rparr>,
                  tm_transactions := tm_transactions m @ [t]\<rparr>))"

text \<open>The balances after each transaction, computed backwards from the balance after the last one.\<close>

fun back_balances :: "rat \<Rightarrow> rat \<Rightarrow> transaction list \<Rightarrow> transaction list" where
  "back_balances updated prev_amount [] = []"
| "back_balances updated prev_amount (t # ts) =
     t\<lparr>tx_balance := dsub updated prev_amount\<rparr> # back_balances updated (dadd prev_amount (tx_amount t)) ts"

fun number_from :: "nat \<Rightarrow> transaction list \<Rightarrow> transaction list" where
  "number_from n [] = []"
| "number_from n (t # ts) = t\<lparr>tx_id := n\<rparr> # number_from (Suc n) ts"

text \<open>\<open>bulk_create\<close>: the unique references are checked against the table and among the new rows.\<close>

fun refs_free :: "transaction list \<Rightarrow> transaction list \<Rightarrow> bool" where
  "refs_free txs [] = True"
| "refs_free txs (t # ts) = (\<not> ref_taken txs t \<and> refs_free (txs @ [t]) ts)"

definition commit_all :: "tx_manager \<Rightarrow> bool \<Rightarrow> 'a db_scheme \<Rightarrow> (tx_manager \<times> 'a db_scheme) result" where
  "commit_all m allow_negative_balance d =
     (let total_delta = fold (\<lambda>t s. dadd s (tx_amount t)) (tm_transactions m) 0
      in case find_wallet (wallets d) (w_id (tm_wallet m)) of
           None \<Rightarrow> Inl (ApiError ''InsufficientBalance'')
         | Some row \<Rightarrow>
             let updated_balance = w_balance row + total_delta;
                 txs = number_from (next_tx_id d) (rev (back_balances updated_balance 0 (rev (tm_transactions m))))
             in if updated_balance < 0 \<and> \<not> allow_negative_balance then Inl (ApiError ''InsufficientBalance'')
                else if \<not> refs_free (transactions d) txs then Inl (IntegrityError ''unique_ref'')
                else Inr (\<lparr>tm_wallet = (tm_wallet m)\<lparr>w_balance := updated_balance\<rparr>,
                           tm_starting_balance = updated_balance, tm_transactions = []\<rparr>,
                          d\<lparr>wallets := put_wallet (\<lambda>w. w\<lparr>w_balance := updated_balance\<rparr>) (w_id (tm_wallet m)) (wallets d),
                            transactions := transactions d @ txs,
                            next_tx_id := next_tx_id d + length txs\<rparr>))"

subsection \<open>What a transfer does\<close>

lemma commit_created_Inr:
  "commit_created d tx neg = Inr (d', tx') \<longleftrightarrow> (\<exists>t. tx = Some t \<and> commit d t neg = Inr (d', tx'))"
  by (auto simp: commit_created_def split: option.split)

lemma transfer_source_Inr:
  assumes "transfer_source env user c amount tp d = Inr w"
  shows "wallet_for (wallets d) user c tp = Some w \<and> amount \<le> active_balance d w (te_order_flags env user)"
  using assms by (auto simp: transfer_source_def not_less split: option.split_asm if_splits)

lemma wallet_for_Some:
  "wallet_for ws u c tp = Some w \<Longrightarrow> w \<in> set ws \<and> w_user w = u \<and> w_currency w = c \<and> w_type w = tp"
  by (auto simp: wallet_for_def find_Some_iff)

lemma transfer_target_get:
  assumes "transfer_target env user c tp d = Inr (w, d1)"
  shows "\<exists>D. get_user_wallet D d user c tp True = (Some w, d1)"
proof (cases "wallet_for (wallets d) user c tp")
  case None
  then show ?thesis using assms by (auto simp: transfer_target_def split: prod.split_asm option.split_asm)
next
  case (Some v)
  then have "get_user_wallet [c] d user c tp True = (Some w, d1)"
    using assms by (simp add: transfer_target_def get_user_wallet_def)
  then show ?thesis by blast
qed

lemma get_user_wallet_row:
  assumes "get_user_wallet D d u c tp True = (Some w, d1)"
  shows "w \<in> set (wallets d1) \<and> w_user w = u \<and> w_currency w = c \<and> w_type w = tp"
  using assms
  by (auto simp: get_user_wallet_def Let_def dest: wallet_for_Some split: if_splits option.split_asm)

text \<open>A wallet that is created holds nothing.\<close>

lemma get_user_wallet_total: "get_user_wallet D d u c tp cr = (w, d1) \<Longrightarrow> total_of k d1 = total_of k d"
  by (auto simp: get_user_wallet_def Let_def total_of_def split: if_splits option.split_asm)

lemma get_user_wallet_balance_of:
  assumes "ledger_inv d" "get_user_wallet D d u c tp cr = (w, d1)" "i \<in> w_id ` set (wallets d)"
  shows "find_wallet (wallets d1) i = find_wallet (wallets d) i"
proof -
  have "find_wallet (ws @ [v]) i = find_wallet ws i" if "i \<in> w_id ` set ws" for ws v
    using that by (induction ws) (auto simp: find_wallet_def)
  then show ?thesis using assms(2,3) by (auto simp: get_user_wallet_def Let_def split: if_splits option.split_asm)
qed

text \<open>A transfer without its fuss: two commits on the rows of two wallets of the user.\<close>

lemma transfer_balance_Inr:
  assumes "transfer_balance env user c amount s t d = Inr (r, d')"
  obtains src dst d1 D x y x' y' d2 where
    "\<not> money_is_zero amount" "s \<noteq> t" "wallet_for (wallets d) user c s = Some src"
    "amount \<le> active_balance d src (te_order_flags env user)" "get_user_wallet D d user c t True = (Some dst, d1)"
    "create_transaction src TxTransfer (dneg amount) (te_now env) None None False = Inr (Some x)"
    "create_transaction dst TxTransfer amount (te_now env) None None True = Inr (Some y)"
    "commit d1 x False = Inr (d2, x')" "commit d2 y True = Inr (d', y')"
    "r = \<lparr>tr_src = the (find_wallet (wallets d') (w_id src)), tr_dst = the (find_wallet (wallets d') (w_id dst)),
             tr_amount = amount, tr_src_tx = x', tr_dst_tx = y'\<rparr>"
proof -
  obtain src dst d1 x y x' y' d2 u where
    a: "transfer_allowed env c amount s t = Inr u" and sr: "transfer_source env user c amount s d = Inr src"
    and tg: "transfer_target env user c t d = Inr (dst, d1)"
    and k: "create_transaction src TxTransfer (dneg amount) (te_now env) None None False = Inr (Some x)"
      "create_transaction dst TxTransfer amount (te_now env) None None True = Inr (Some y)"
      "commit d1 x False = Inr (d2, x')" "commit d2 y True = Inr (d', y')"
    and r: "\<lparr>tr_src = the (find_wallet (wallets d') (w_id src)), tr_dst = the (find_wallet (wallets d') (w_id dst)),
             tr_amount = amount, tr_src_tx = x', tr_dst_tx = y'\<rparr> = r"
    using assms unfolding transfer_balance_def rbind_eq_Inr_iff
    by (clarsimp simp: rbind_eq_Inr_iff commit_created_Inr)
  obtain D where "get_user_wallet D d user c t True = (Some dst, d1)" using transfer_target_get [OF tg] by blast
  moreover have "\<not> money_is_zero amount" "s \<noteq> t" using a by (auto simp: transfer_allowed_def split: if_splits)
  ultimately show ?thesis using that transfer_source_Inr [OF sr] k r [symmetric] by blast
qed

lemma wallet_for_row:
  assumes "ledger_inv d" "wallet_for (wallets d) u c tp = Some w"
  shows "find_wallet (wallets d) (w_id w) = Some w"
  by (rule find_wallet_in_set) (use assms wallet_for_Some [OF assms(2)] in \<open>simp_all add: ledger_inv_def\<close>)

text \<open>The two wallets of a transfer are two rows.\<close>

lemma transfer_rows:
  assumes inv: "ledger_inv d" and src: "wallet_for (wallets d) user c s = Some src" and st: "s \<noteq> t"
    and g: "get_user_wallet D d user c t True = (Some dst, d1)"
  shows "find_wallet (wallets d1) (w_id src) = Some src" "find_wallet (wallets d1) (w_id dst) = Some dst" "w_id src \<noteq> w_id dst"
proof -
  note d = get_user_wallet_row [OF g] and s = wallet_for_Some [OF src]
  have i1: "ledger_inv d1" by (rule get_user_wallet_keeps_ledger_inv [OF inv g])
  show f: "find_wallet (wallets d1) (w_id src) = Some src"
    using get_user_wallet_balance_of [OF inv g, of "w_id src"] s wallet_for_row [OF inv src] by simp
  show fd: "find_wallet (wallets d1) (w_id dst) = Some dst"
    by (rule find_wallet_in_set) (use i1 d in \<open>simp_all add: ledger_inv_def\<close>)
  show "w_id src \<noteq> w_id dst"
  proof
    assume "w_id src = w_id dst"
    with f fd have "Some src = Some dst" by metis
    with s d st show False by simp
  qed
qed

lemma transfer_amounts:
  assumes "create_transaction src TxTransfer (dneg amount) now None None False = Inr (Some x)"
    and "create_transaction dst TxTransfer amount now None None True = Inr (Some y)" and "ctx amount = amount"
  shows "quantize ROUND_HALF_EVEN MAX_PRECISION amount = Inr (tx_amount y)" "tx_amount x = - tx_amount y"
    "tx_wallet x = w_id src" "tx_wallet y = w_id dst"
  using create_transaction_Some [OF assms(1)] create_transaction_Some [OF assms(2)] dneg_ctx [OF assms(3)]
  by (simp_all add: quantize_Inr quantize_half_even_minus)

lemma transfer_effect:
  assumes t: "transfer_balance env user c amount s t d = Inr (r, d')" and inv: "ledger_inv d" and a: "ctx amount = amount"
  obtains src dst q where
    "wallet_for (wallets d) user c s = Some src" "amount \<le> active_balance d src (te_order_flags env user)"
    "quantize ROUND_HALF_EVEN MAX_PRECISION amount = Inr q" "0 \<le> q" "w_user dst = user" "w_currency dst = c" "w_type dst = t"
    "find_wallet (wallets d') (w_id src) = Some (src\<lparr>w_balance := w_balance src - q\<rparr>)"
    "find_wallet (wallets d') (w_id dst) = Some (dst\<lparr>w_balance := w_balance dst + q\<rparr>)"
    "\<And>i. i \<in> w_id ` set (wallets d) - {w_id src, w_id dst} \<Longrightarrow> find_wallet (wallets d') i = find_wallet (wallets d) i"
    "\<And>k. total_of k d' = total_of k d"
  using t
proof (rule transfer_balance_Inr)
  fix src dst d1 D x y x' y' d2
  assume z: "\<not> money_is_zero amount" and st: "s \<noteq> t" and src: "wallet_for (wallets d) user c s = Some src"
    and free: "amount \<le> active_balance d src (te_order_flags env user)" and g: "get_user_wallet D d user c t True = (Some dst, d1)"
    and k: "create_transaction src TxTransfer (dneg amount) (te_now env) None None False = Inr (Some x)"
      "create_transaction dst TxTransfer amount (te_now env) None None True = Inr (Some y)"
    and c: "commit d1 x False = Inr (d2, x')" "commit d2 y True = Inr (d', y')"
  note am = transfer_amounts [OF k a] and rows = transfer_rows [OF inv src st g] and d = get_user_wallet_row [OF g]
  have dist: "distinct (map w_id (wallets d1))"
    using get_user_wallet_keeps_ledger_inv [OF inv g] by (simp add: ledger_inv_def)
  have w2: "wallets d2 = put_wallet (\<lambda>w. w\<lparr>w_balance := w_balance src - tx_amount y\<rparr>) (w_id src) (wallets d1)"
    using c(1) rows(1) am by (simp add: commit_Inr)
  have f2: "find_wallet (wallets d2) (w_id dst) = Some dst" using rows by (simp add: w2 find_put_wallet)
  have w': "wallets d' = put_wallet (\<lambda>w. w\<lparr>w_balance := w_balance dst + tx_amount y\<rparr>) (w_id dst) (wallets d2)"
    using c(2) f2 am by (simp add: commit_Inr)
  have "total_of n d' = total_of n d" for n
    using commit_total(1) [OF c(1) dist, of n] commit_total(1) [OF c(2) commit_total(3) [OF c(1) dist], of n]
      f2 get_user_wallet_total [OF g, of n] rows am wallet_for_Some [OF src] d
    by (simp add: currency_in_def)
  moreover have "0 \<le> tx_amount y" using quantize_nonneg [OF am(1)] not_money_is_zero_pos [OF z] by simp
  moreover have "find_wallet (wallets d') (w_id src) = Some (src\<lparr>w_balance := w_balance src - tx_amount y\<rparr>)"
    "find_wallet (wallets d') (w_id dst) = Some (dst\<lparr>w_balance := w_balance dst + tx_amount y\<rparr>)"
    using rows by (simp_all add: w' w2 find_put_wallet)
  moreover have "find_wallet (wallets d') i = find_wallet (wallets d) i"
    if "i \<in> w_id ` set (wallets d) - {w_id src, w_id dst}" for i
    using that get_user_wallet_balance_of [OF inv g, of i] by (simp add: w' w2 find_put_wallet)
  ultimately show thesis using that [OF src free am(1)] d by blast
qed

text \<open>C21: a transfer of an amount of at most 28 digits moves exactly the amount, rounded to the precision
  of the columns, from one wallet of the user to another one of the same currency, when the free
  balance of the first covers it; no other balance changes, and no currency gains or loses.
  With more digits the two sides may differ.\<close>

theorem transfer_exact:
  assumes "transfer_balance env user c amount s t d = Inr (r, d')" "ledger_inv d" "ctx amount = amount"
  shows "\<exists>src dst q. wallet_for (wallets d) user c s = Some src \<and> w_user dst = user \<and> w_currency dst = c \<and> w_type dst = t
     \<and> amount \<le> active_balance d src (te_order_flags env user)
     \<and> quantize ROUND_HALF_EVEN MAX_PRECISION amount = Inr q \<and> 0 \<le> q
     \<and> find_wallet (wallets d') (w_id src) = Some (src\<lparr>w_balance := w_balance src - q\<rparr>)
     \<and> find_wallet (wallets d') (w_id dst) = Some (dst\<lparr>w_balance := w_balance dst + q\<rparr>)
     \<and> (\<forall>i \<in> w_id ` set (wallets d) - {w_id src, w_id dst}. find_wallet (wallets d') i = find_wallet (wallets d) i)
     \<and> (\<forall>k. total_of k d' = total_of k d)"
proof -
  obtain src dst q where "wallet_for (wallets d) user c s = Some src" "amount \<le> active_balance d src (te_order_flags env user)"
    "quantize ROUND_HALF_EVEN MAX_PRECISION amount = Inr q" "0 \<le> q" "w_user dst = user" "w_currency dst = c" "w_type dst = t"
    "find_wallet (wallets d') (w_id src) = Some (src\<lparr>w_balance := w_balance src - q\<rparr>)"
    "find_wallet (wallets d') (w_id dst) = Some (dst\<lparr>w_balance := w_balance dst + q\<rparr>)"
    "\<And>i. i \<in> w_id ` set (wallets d) - {w_id src, w_id dst} \<Longrightarrow> find_wallet (wallets d') i = find_wallet (wallets d) i"
    "\<And>k. total_of k d' = total_of k d"
    by (rule transfer_effect [OF assms]) blast
  then show ?thesis by blast
qed

subsection \<open>Digits beyond the twenty-eighth\<close>

text \<open>
  Negation rounds to the 28 digits of the context before the amount is rounded to the
  columns, the amount itself is rounded once. The two sides of a transfer can differ.
\<close>

definition long_amount :: rat where "long_amount = 1 + 5 / 10 ^ 11 + 1 / 10 ^ 30"

lemma long_amount_rounds:
  "quantize ROUND_HALF_EVEN MAX_PRECISION (dneg long_amount) = Inr (- 1)"
  "quantize ROUND_HALF_EVEN MAX_PRECISION long_amount = Inr (1 + 1 / 10 ^ 10)"
  by (simp_all add: long_amount_def MAX_PRECISION_def dec_eval)

text \<open>C23: a transfer of an amount with more than 28 digits can create money: with
  1.000000000050000000000000000001 the target gains the ten-billionth that the source does not lose.\<close>

theorem transfer_creates_money:
  assumes t: "transfer_balance env user c long_amount s t d = Inr (r, d')" and inv: "ledger_inv d"
  shows "total_of c d' = total_of c d + 1 / 10 ^ 10"
  using t
proof (rule transfer_balance_Inr)
  fix src dst d1 D x y x' y' d2
  assume st: "s \<noteq> t" and src: "wallet_for (wallets d) user c s = Some src"
    and g: "get_user_wallet D d user c t True = (Some dst, d1)"
    and k: "create_transaction src TxTransfer (dneg long_amount) (te_now env) None None False = Inr (Some x)"
      "create_transaction dst TxTransfer long_amount (te_now env) None None True = Inr (Some y)"
    and c: "commit d1 x False = Inr (d2, x')" "commit d2 y True = Inr (d', y')"
  have am: "tx_amount x = - 1" "tx_amount y = 1 + 1 / 10 ^ 10" "tx_wallet x = w_id src" "tx_wallet y = w_id dst"
    using create_transaction_Some [OF k(1)] create_transaction_Some [OF k(2)] long_amount_rounds by simp_all
  note rows = transfer_rows [OF inv src st g]
  have dist: "distinct (map w_id (wallets d1))"
    using get_user_wallet_keeps_ledger_inv [OF inv g] by (simp add: ledger_inv_def)
  have "currency_in d1 (w_id src) = Some c" "currency_in d1 (w_id dst) = Some c"
    using rows wallet_for_Some [OF src] get_user_wallet_row [OF g] by (simp_all add: currency_in_def)
  then show ?thesis
    using commit_total(1) [OF c(1) dist, of c] commit_total(1) [OF c(2) commit_total(3) [OF c(1) dist], of c]
      commit_total(2) [OF c(1) dist] get_user_wallet_total [OF g, of c] am by simp
qed

subsection \<open>The tables\<close>

lemma commit_keeps_sound:
  assumes d: "sound_db d" and c: "commit d tx neg = Inr (d', tx')" and g: "on_grid MAX_PRECISION (tx_amount tx)"
    and n: "neg \<longrightarrow> 0 \<le> tx_amount tx"
  shows "sound_db d' \<and> withdraws d' = withdraws d"
proof -
  have "0 \<le> w_balance row + tx_amount tx" if "find_wallet (wallets d) (tx_wallet tx) = Some row" for row
    using c n d that find_wallet_Some [OF that] by (fastforce simp: commit_Inr sound_db_def solvent_def list_all_iff)
  then have "commit d tx False = Inr (d', tx')" using c by (auto simp: commit_Inr)
  from commit_keeps_solvent [OF _ this] have "solvent d'" using d by (simp add: sound_db_def)
  moreover have "ledger_inv d'" "db_grid d'"
    using commit_keeps_ledger_inv [OF _ c] commit_grid [OF _ c g] d by (simp_all add: sound_db_def)
  ultimately show ?thesis
    using d commit_frame [OF c] trades_more [OF commit_frame(6) [OF c]] by (simp add: sound_db_def)
qed

lemma transfer_keeps_sound:
  assumes t: "transfer_balance env user c amount s t d = Inr (r, d')" and d: "sound_db d"
  shows "sound_db d' \<and> withdraws d' = withdraws d"
  using t
proof (rule transfer_balance_Inr)
  fix src dst d1 D x y x' y' d2
  assume z: "\<not> money_is_zero amount" and g: "get_user_wallet D d user c t True = (Some dst, d1)"
    and k: "create_transaction src TxTransfer (dneg amount) (te_now env) None None False = Inr (Some x)"
      "create_transaction dst TxTransfer amount (te_now env) None None True = Inr (Some y)"
    and c: "commit d1 x False = Inr (d2, x')" "commit d2 y True = Inr (d', y')"
  have q: "on_grid MAX_PRECISION (tx_amount x)" "on_grid MAX_PRECISION (tx_amount y)" "0 \<le> tx_amount y"
    using create_transaction_Some [OF k(1)] create_transaction_Some [OF k(2)] quantize_on_grid quantize_nonneg
      not_money_is_zero_pos [OF z] by (auto simp: less_imp_le)
  from get_user_wallet_keeps_sound [OF d g] have "sound_db d1" "withdraws d1 = withdraws d" by simp_all
  with commit_keeps_sound [OF _ c(1) q(1)] commit_keeps_sound [OF _ c(2) q(2)] q(3) show ?thesis by simp
qed

lemma transfer_each_Inr:
  "transfer_each env user s t (rs, d) (c, a) = Inr (rs1, d1) \<longleftrightarrow>
     (\<exists>r. transfer_balance env user c a s t d = Inr (r, d1) \<and> rs1 = rs @ [r])"
  by (auto simp: transfer_each_def rbind_eq_Inr_iff)

lemma transfer_each_keeps:
  assumes "fold_result (transfer_each env user s t) (rs, d) ts = Inr (rs', d')" "sound_db d"
  shows "sound_db d' \<and> withdraws d' = withdraws d"
  using assms
proof (induction ts arbitrary: rs d)
  case (Cons x ts)
  obtain c a where x: "x = (c, a)" by (rule prod.exhaust)
  from Cons.prems(1) obtain r d1 where r: "transfer_balance env user c a s t d = Inr (r, d1)"
    and k: "fold_result (transfer_each env user s t) (rs @ [r], d1) ts = Inr (rs', d')"
    by (auto simp: x transfer_each_Inr rbind_eq_Inr_iff)
  from transfer_keeps_sound [OF r Cons.prems(2)] Cons.IH [OF k] show ?case by simp
qed simp

lemma bulk_keeps_sound:
  "create_bulk_transfer env user s t ts d = Inr (x, d') \<Longrightarrow> sound_db d \<Longrightarrow> sound_db d' \<and> withdraws d' = withdraws d"
  using transfer_each_keeps [of env user s t "[]" d ts] by (auto simp: create_bulk_transfer_def rbind_eq_Inr_iff)

lemma transfer_post_keeps:
  assumes "transfer_balance_post aenv env user cur am src dst d = Inr (r, d')" "sound_db d"
  shows "sound_db d' \<and> withdraws d' = withdraws d"
proof -
  from assms(1) obtain c a s t where "(case (c, s, t) of (Value c, Value s, Value t) \<Rightarrow> transfer_balance env user c (the a) s t d
       | _ \<Rightarrow> Inl TypeError) = Inr (r, d')"
    unfolding transfer_balance_post_def rbind_eq_Inr_iff by blast
  then obtain c' s' t' where "transfer_balance env user c' (the a) s' t' d = Inr (r, d')"
    by (cases c; cases s; cases t) simp_all
  from transfer_keeps_sound [OF this assms(2)] show ?thesis .
qed

lemma bulk_post_keeps:
  assumes "bulk_transfer_post aenv env user src dst items d = Inr (x, d')" "sound_db d"
  shows "sound_db d' \<and> withdraws d' = withdraws d"
proof -
  from assms(1) obtain data :: bulk_transfer where "(case (bt_src_type data, bt_dst_type data) of
         (Value s, Value t) \<Rightarrow> rbind (value_items (bt_transfers data)) (\<lambda>ts. create_bulk_transfer env user s t ts d)
       | _ \<Rightarrow> Inl TypeError) = Inr (x, d')"
    unfolding bulk_transfer_post_def rbind_eq_Inr_iff by blast
  then obtain s t ts where "create_bulk_transfer env user s t ts d = Inr (x, d')"
    by (cases "bt_src_type data"; cases "bt_dst_type data") (auto simp: rbind_eq_Inr_iff)
  from bulk_keeps_sound [OF this assms(2)] show ?thesis .
qed

text \<open>A bulk of transfers conserves every currency and touches no other user.\<close>

lemma bulk_conserves:
  assumes "fold_result (transfer_each env user s t) (rs, d) ts = Inr (rs', d')" "ledger_inv d" "\<forall>(c, a) \<in> set ts. ctx a = a"
  shows "(\<forall>k. total_of k d' = total_of k d) \<and> length rs' = length rs + length ts"
  using assms
proof (induction ts arbitrary: rs d)
  case (Cons x ts)
  obtain c a where x: "x = (c, a)" by (rule prod.exhaust)
  from Cons.prems(1) obtain r d1 where r: "transfer_balance env user c a s t d = Inr (r, d1)"
    and k: "fold_result (transfer_each env user s t) (rs @ [r], d1) ts = Inr (rs', d')"
    by (auto simp: x transfer_each_Inr rbind_eq_Inr_iff)
  have "ctx a = a" using Cons.prems(3) by (simp add: x)
  from transfer_effect [OF r Cons.prems(2) this] have tot: "total_of n d1 = total_of n d" for n by metis
  have "ledger_inv d1"
    using r
  proof (rule transfer_balance_Inr)
    fix src dst d0 D x y x' y' d2
    assume g: "get_user_wallet D d user c t True = (Some dst, d0)" and cs: "commit d0 x False = Inr (d2, x')" "commit d2 y True = Inr (d1, y')"
    from commit_keeps_ledger_inv [OF commit_keeps_ledger_inv [OF get_user_wallet_keeps_ledger_inv [OF Cons.prems(2) g] cs(1)] cs(2)]
    show "ledger_inv d1" .
  qed
  with Cons.IH [OF k] Cons.prems(3) tot show ?case by simp
qed simp

subsection \<open>Posting at once and one by one\<close>

fun balances_from :: "rat \<Rightarrow> transaction list \<Rightarrow> transaction list" where
  "balances_from b [] = []"
| "balances_from b (t # ts) = t\<lparr>tx_balance := b + tx_amount t\<rparr> # balances_from (b + tx_amount t) ts"

definition amounts :: "transaction list \<Rightarrow> rat" where "amounts ts = sum_list (map tx_amount ts)"

lemma amounts_simps [simp]: "amounts [] = 0" "amounts (t # ts) = tx_amount t + amounts ts" "amounts (ts @ us) = amounts ts + amounts us"
  by (simp_all add: amounts_def)

lemma balances_from_snoc:
  "balances_from b (ts @ [t]) = balances_from b ts @ [t\<lparr>tx_balance := b + amounts ts + tx_amount t\<rparr>]"
  by (induction ts arbitrary: b) (simp_all add: add.assoc)

text \<open>The balances on the way all fit the column.\<close>

definition running_fits :: "rat \<Rightarrow> transaction list \<Rightarrow> bool" where
  "running_fits b ts \<longleftrightarrow> (\<forall>k. balance_field (b + amounts (take k ts)))"

lemma running_fits_simps [simp]:
  "running_fits b [] \<longleftrightarrow> balance_field b"
  "running_fits b (t # ts) \<longleftrightarrow> balance_field b \<and> running_fits (b + tx_amount t) ts"
proof -
  have "(\<forall>k. balance_field (b + amounts (take k (t # ts)))) \<longleftrightarrow>
      balance_field b \<and> (\<forall>k. balance_field (b + amounts (take (Suc k) (t # ts))))"
    by (metis add.right_neutral amounts_simps(1) not0_implies_Suc take0)
  then show "running_fits b (t # ts) \<longleftrightarrow> balance_field b \<and> running_fits (b + tx_amount t) ts"
    by (simp add: running_fits_def add.assoc)
qed (simp add: running_fits_def)

lemma running_fits_snoc: "running_fits b (ts @ [t]) \<Longrightarrow> running_fits b ts \<and> balance_field (b + amounts ts + tx_amount t)"
proof -
  assume r: "running_fits b (ts @ [t])"
  have "balance_field (b + amounts (take k ts))" for k
    using r [unfolded running_fits_def, rule_format, of "min k (length ts)"] by (cases "k \<le> length ts") simp_all
  moreover have "balance_field (b + amounts ts + tx_amount t)"
    using r [unfolded running_fits_def, rule_format, of "Suc (length ts)"] by (simp add: add.assoc)
  ultimately show ?thesis by (simp add: running_fits_def)
qed

lemma running_fits_end: "running_fits b ts \<Longrightarrow> balance_field (b + amounts ts)"
  unfolding running_fits_def by (metis order_refl take_all)

lemma running_fits_start: "running_fits b ts \<Longrightarrow> balance_field b"
  unfolding running_fits_def by (metis add.right_neutral amounts_simps(1) take0)

lemma exact_difference: "balance_field x \<Longrightarrow> balance_field y \<Longrightarrow> ctx (x - y) = x - y"
  using balance_dsub [of x y] by (simp add: dsub_def)

lemma total_delta_exact: "running_fits b ts \<Longrightarrow> fold (\<lambda>t s. dadd s (tx_amount t)) ts 0 = amounts ts"
proof (induction ts rule: rev_induct)
  case (snoc t ts)
  from running_fits_snoc [OF snoc.prems] have f: "running_fits b ts" "balance_field (b + amounts ts + tx_amount t)" by simp_all
  have "ctx (amounts ts + tx_amount t) = amounts ts + tx_amount t"
    using exact_difference [OF f(2) running_fits_start [OF f(1)]] by simp
  with snoc.IH f(1) show ?case by (simp add: dadd_def)
qed simp

lemma back_balances_exact:
  "running_fits b ts \<Longrightarrow> balance_field u \<Longrightarrow> u - p = b + amounts ts \<Longrightarrow> rev (back_balances u p (rev ts)) = balances_from b ts"
proof (induction ts arbitrary: p rule: rev_induct)
  case (snoc t ts)
  from running_fits_snoc [OF snoc.prems(1)] have f: "running_fits b ts" "balance_field (b + amounts ts + tx_amount t)" by simp_all
  have "dsub u p = b + amounts ts + tx_amount t" using snoc.prems(3) f(2) by (simp add: dsub_def add.assoc)
  moreover have p: "p + tx_amount t = u - (b + amounts ts)" using snoc.prems(3) by simp
  then have "dadd p (tx_amount t) = p + tx_amount t"
    using exact_difference [OF snoc.prems(2) running_fits_end [OF f(1)]] by (simp add: dadd_def)
  moreover have "rev (back_balances u (p + tx_amount t) (rev ts)) = balances_from b ts"
    by (rule snoc.IH [OF f(1) snoc.prems(2)]) (use p in simp)
  ultimately show ?case by (simp add: balances_from_snoc)
qed simp

lemma put_wallet_twice:
  "(\<And>w. w_id (g w) = w_id w) \<Longrightarrow> put_wallet f i (put_wallet g i ws) = put_wallet (\<lambda>w. f (g w)) i ws"
  by (simp add: put_wallet_def)

lemma put_wallet_same:
  assumes "distinct (map w_id ws)" "find_wallet ws i = Some row"
  shows "put_wallet (\<lambda>w. w\<lparr>w_balance := w_balance row\<rparr>) i ws = ws"
proof -
  have "(if w_id w = i then w\<lparr>w_balance := w_balance row\<rparr> else w) = w" if "w \<in> set ws" for w
    using find_wallet_in_set [OF assms(1) that] assms(2) by auto
  then show ?thesis unfolding put_wallet_def by (intro map_idI)
qed

definition post_any :: "'a db_scheme \<Rightarrow> transaction \<Rightarrow> 'a db_scheme result" where
  "post_any d tx = rbind (commit d tx True) (\<lambda>(d1, tx1). Inr d1)"

lemma posts_one_wallet:
  assumes "find_wallet (wallets d) i = Some row" "distinct (map w_id (wallets d))" "\<forall>t \<in> set ts. tx_wallet t = i"
    "refs_free (transactions d) (number_from (next_tx_id d) (balances_from (w_balance row) ts))"
  shows "fold_result post_any d ts = Inr (d\<lparr>wallets := put_wallet (\<lambda>w. w\<lparr>w_balance := w_balance row + amounts ts\<rparr>) i (wallets d),
     transactions := transactions d @ number_from (next_tx_id d) (balances_from (w_balance row) ts),
     next_tx_id := next_tx_id d + length ts\<rparr>)"
  using assms
proof (induction ts arbitrary: d row)
  case Nil
  then show ?case by (simp add: put_wallet_same)
next
  case (Cons t ts)
  define row1 d1 where "row1 = row\<lparr>w_balance := w_balance row + tx_amount t\<rparr>"
    and "d1 = d\<lparr>wallets := put_wallet (\<lambda>w. w\<lparr>w_balance := w_balance row + tx_amount t\<rparr>) i (wallets d),
       transactions := transactions d @ [t\<lparr>tx_id := next_tx_id d, tx_balance := w_balance row + tx_amount t\<rparr>],
       next_tx_id := Suc (next_tx_id d)\<rparr>"
  have eq: "t\<lparr>tx_balance := w_balance row + tx_amount t, tx_id := next_tx_id d\<rparr> = t\<lparr>tx_id := next_tx_id d, tx_balance := w_balance row + tx_amount t\<rparr>"
    by simp
  have "\<not> ref_taken (transactions d) t" using Cons.prems(4) by (simp add: ref_taken_def)
  then have post: "post_any d t = Inr d1"
    using Cons.prems(1,3) by (simp add: post_any_def commit_def d1_def Let_def)
  have "find_wallet (wallets d1) i = Some row1" using Cons.prems(1) by (simp add: d1_def row1_def find_put_wallet)
  moreover have "distinct (map w_id (wallets d1))" using Cons.prems(2) by (simp add: d1_def)
  moreover have "refs_free (transactions d1) (number_from (next_tx_id d1) (balances_from (w_balance row1) ts))"
    using Cons.prems(4) by (simp add: d1_def row1_def eq)
  ultimately show ?case
    using Cons.IH [of d1 row1] Cons.prems(3) post by (simp add: d1_def row1_def eq put_wallet_twice add.assoc)
qed

text \<open>C22: posting all transactions of a manager at once, one update of the wallet and the balances
  computed backwards, leaves the same tables as committing them one after another, as long as
  the balances on the way fit the column.\<close>

theorem commit_all_as_commits:
  assumes c: "commit_all m neg d = Inr (m', d')" and inv: "ledger_inv d"
    and own: "\<forall>t \<in> set (tm_transactions m). tx_wallet t = w_id (tm_wallet m)"
    and row: "find_wallet (wallets d) (w_id (tm_wallet m)) = Some row"
    and fits: "running_fits (w_balance row) (tm_transactions m)"
  shows "fold_result post_any d (tm_transactions m) = Inr d' \<and> tm_transactions m' = []
    \<and> w_balance (tm_wallet m') = w_balance row + amounts (tm_transactions m)"
proof -
  define ts u where "ts = tm_transactions m" and "u = w_balance row + amounts ts"
  note fits = fits [folded ts_def]
  have tot: "fold (\<lambda>t s. dadd s (tx_amount t)) ts 0 = amounts ts" by (rule total_delta_exact [OF fits])
  have bck: "rev (back_balances u 0 (rev ts)) = balances_from (w_balance row) ts"
    by (rule back_balances_exact [OF fits]) (use running_fits_end [OF fits] in \<open>simp_all add: u_def\<close>)
  have len: "length (number_from n (balances_from b xs)) = length xs" for n b xs
    by (induction xs arbitrary: n b) simp_all
  have free: "refs_free (transactions d) (number_from (next_tx_id d) (balances_from (w_balance row) ts))"
    and d': "d' = d\<lparr>wallets := put_wallet (\<lambda>w. w\<lparr>w_balance := u\<rparr>) (w_id (tm_wallet m)) (wallets d),
       transactions := transactions d @ number_from (next_tx_id d) (balances_from (w_balance row) ts),
       next_tx_id := next_tx_id d + length ts\<rparr>"
    and m': "m' = \<lparr>tm_wallet = (tm_wallet m)\<lparr>w_balance := u\<rparr>, tm_starting_balance = u, tm_transactions = []\<rparr>"
    using c row by (simp_all add: commit_all_def Let_def ts_def [symmetric] tot u_def [symmetric] bck len split: if_split_asm)
  have "distinct (map w_id (wallets d))" using inv by (simp add: ledger_inv_def)
  from posts_one_wallet [OF row this _ free] own show ?thesis by (simp add: d' m' u_def ts_def)
qed

end
