(* ===== verification/Pools.thy ===== *)
theory Pools
  imports Transfers Positions
begin

section \<open>Liquidity pools\<close>

text \<open>
  \<^verbatim>\<open>src/core/exchange/pool\<close>: users delegate coins to the pool of a currency, whose manager lends them to
  margin traders, and take them back with revoke requests, which are paid, the oldest first, when
  the wallet of the pool can pay them. The tables of the pools stand beside the database of the
  wallets. SQL arithmetic on columns is exact; arithmetic of Python objects rounds.

  Settings rows, prices of coins, the margin orders with the side of their position, and
  the precisions of \<open>exchange.config\<close> are fields of the environment. All operations but the
  payment of revoke requests run in one transaction.
\<close>

subsection \<open>Tables\<close>

record pool =
  pl_id :: nat
  pl_currency :: nat
  pl_capacity :: rat
  pl_filled_capacity :: rat
  pl_revoked_capacity :: rat
  pl_manager :: nat
  pl_is_active :: bool
  pl_is_private :: bool

datatype access_type = LiquidityProvider | Trader

record pool_access =
  pa_access_type :: access_type
  pa_user_type :: "nat option"
  pa_user :: "nat option"
  pa_pool :: nat
  pa_is_active :: bool

record user_delegation =
  ud_id :: nat
  ud_pool :: nat
  ud_user :: nat
  ud_balance :: rat
  ud_created_at :: datetime
  ud_closed_at :: "datetime option"
  ud_total_profit :: rat

record delegation_transaction =
  dt_id :: nat
  dt_user_delegation :: nat
  dt_amount :: rat
  dt_created_at :: datetime
  dt_transaction :: "nat option"

datatype revoke_status = RevokeNew | RevokePaid

record revoke_request =
  rv_id :: nat
  rv_amount :: rat
  rv_created_at :: datetime
  rv_status :: revoke_status
  rv_delegation_transaction :: "nat option"
  rv_user_delegation :: nat

record pool_tables =
  pt_pools :: "pool list"
  pt_accesses :: "pool_access list"
  pt_delegations :: "user_delegation list"
  pt_transactions :: "delegation_transaction list"
  pt_revokes :: "revoke_request list"
  pt_next_id :: nat

record pool_user =
  pu_id :: nat
  pu_type :: nat

record pool_env =
  ple_precision :: "nat \<Rightarrow> decrep"
  ple_DST_CURRENCIES :: "nat list"
  ple_min_delegation :: "rat option"
  ple_max_delegation :: "nat \<Rightarrow> rat option"
  ple_coin_price :: "nat \<Rightarrow> rat"
  ple_margin_orders :: "(order \<times> order_type) list"
  ple_positions :: "position list"
  ple_order_flags :: "nat \<Rightarrow> order_flags"
  ple_hash :: "string \<Rightarrow> int"
  ple_now :: datetime

text \<open>Ids come from one counter; the code has one for each table.\<close>

definition find_pool :: "pool_tables \<Rightarrow> nat \<Rightarrow> pool option" where
  "find_pool p i = find (\<lambda>x. pl_id x = i) (pt_pools p)"

definition find_delegation :: "pool_tables \<Rightarrow> nat \<Rightarrow> user_delegation option" where
  "find_delegation p i = find (\<lambda>x. ud_id x = i) (pt_delegations p)"

definition put_pool :: "(pool \<Rightarrow> pool) \<Rightarrow> nat \<Rightarrow> pool_tables \<Rightarrow> pool_tables" where
  "put_pool f i p = p\<lparr>pt_pools := map (\<lambda>x. if pl_id x = i then f x else x) (pt_pools p)\<rparr>"

definition put_delegation :: "(user_delegation \<Rightarrow> user_delegation) \<Rightarrow> nat \<Rightarrow> pool_tables \<Rightarrow> pool_tables" where
  "put_delegation f i p = p\<lparr>pt_delegations := map (\<lambda>x. if ud_id x = i then f x else x) (pt_delegations p)\<rparr>"

subsection \<open>Limits of a pool\<close>

definition USER_TYPES :: "nat list" where
  "USER_TYPES = [0, 10, 20, 30, 40, 42, 44, 45, 46, 90, 91, 92, 99, 100, 101, 102]"

definition USER_TYPE_LEVEL1 :: nat where "USER_TYPE_LEVEL1 = 44"

definition is_user_type_eligible_to_delegate :: "nat \<Rightarrow> bool" where
  "is_user_type_eligible_to_delegate user_type \<longleftrightarrow> USER_TYPE_LEVEL1 \<le> user_type"

definition unfilled_capacity :: "pool \<Rightarrow> rat" where
  "unfilled_capacity pl = dsub (dadd (pl_capacity pl) (pl_revoked_capacity pl)) (pl_filled_capacity pl)"

definition calc_amount_in_token :: "pool_env \<Rightarrow> nat \<Rightarrow> rat \<Rightarrow> rat option result" where
  "calc_amount_in_token env currency amount_in_rls =
     (if currency = RIAL then Inr (Some amount_in_rls)
      else if ple_coin_price env currency = 0 then Inr None
      else rbind (ddiv amount_in_rls (ple_coin_price env currency)) (\<lambda>x.
           rbind (quantize_number x (ple_precision env currency) ROUND_HALF_UP) (\<lambda>y. Inr (Some y))))"

definition min_delegation :: "pool_env \<Rightarrow> pool \<Rightarrow> rat result" where
  "min_delegation env pl =
     rbind (calc_amount_in_token env (pl_currency pl)
              (case ple_min_delegation env of None \<Rightarrow> 3000000 | Some x \<Rightarrow> x)) (\<lambda>a.
       Inr (case a of None \<Rightarrow> dmul (pl_capacity pl) (1 / 100) | Some a \<Rightarrow> a))"

text \<open>An unset limit is that of the next lower type of user, down to the first one that may not delegate.\<close>

function get_max_delegation :: "pool_env \<Rightarrow> pool \<Rightarrow> nat \<Rightarrow> rat result" where
  "get_max_delegation env pl user_type =
     (let max_delegation_in_rial = (case ple_max_delegation env user_type of None \<Rightarrow> - 1 | Some x \<Rightarrow> x)
      in if max_delegation_in_rial = - 1
         then (case filter (\<lambda>t. t < user_type) (rev USER_TYPES) of
                 [] \<Rightarrow> Inr 0
               | t # _ \<Rightarrow> if \<not> is_user_type_eligible_to_delegate t then Inr 0 else get_max_delegation env pl t)
         else rbind (calc_amount_in_token env (pl_currency pl) max_delegation_in_rial) (\<lambda>a.
                Inr (case a of None \<Rightarrow> dmul (pl_capacity pl) (1 / 10) | Some a \<Rightarrow> a)))"
  by pat_completeness auto
termination
  by (relation "measure (\<lambda>(_, _, t). t)") (auto dest: filter_eq_ConsD)

declare get_max_delegation.simps [simp del]

definition has_provider_access :: "pool_tables \<Rightarrow> pool \<Rightarrow> pool_user \<Rightarrow> bool" where
  "has_provider_access p pl user \<longleftrightarrow>
     \<not> pl_is_private pl
     \<or> list_ex (\<lambda>a. pa_pool a = pl_id pl \<and> pa_access_type a = LiquidityProvider \<and> pa_is_active a
                  \<and> (pa_user a = Some (pu_id user) \<or> pa_user_type a = Some (pu_type user))) (pt_accesses p)"

subsection \<open>The balance of a pool\<close>

definition get_margin_balance_in_order :: "(order \<times> order_type) list \<Rightarrow> nat \<Rightarrow> rat" where
  "get_margin_balance_in_order os currency =
     sum_list (map (\<lambda>(x, _). (o_amount x - o_matched_amount x) * (if o_type x = Buy then o_price x else 1))
       (filter (\<lambda>(x, side). o_status x \<in> {Active, Inactive} \<and> o_trade x = Margin \<and> side = o_type x
          \<and> \<not> (o_pair x \<noteq> None \<and> o_matched_amount x = 0 \<and> o_execution x = Limit)
          \<and> (if o_type x = Buy then o_dst x else o_src x) = currency) os))"

definition get_margin_balance_in_temporal_assessment :: "position list \<Rightarrow> nat \<Rightarrow> rat" where
  "get_margin_balance_in_temporal_assessment ps currency =
     sum_list (map p_earned (filter (\<lambda>x. (case p_pnl x of None \<Rightarrow> True | Some pnl \<Rightarrow> 0 < pnl \<and> p_pnl_transaction x = None)
       \<and> p_side x = Buy \<and> 0 < p_earned x \<and> p_dst x = currency) ps))"

text \<open>The spot wallet of a user is created when it is missing.\<close>

definition pool_wallet :: "pool_env \<Rightarrow> nat \<Rightarrow> nat \<Rightarrow> 'a db_scheme \<Rightarrow> wallet \<times> 'a db_scheme" where
  "pool_wallet env user currency d =
     (case get_user_wallet (ple_DST_CURRENCIES env) d user currency WSpot True of (w, d1) \<Rightarrow> (the w, d1))"

definition unblocked_balance :: "pool_env \<Rightarrow> pool \<Rightarrow> 'a db_scheme \<Rightarrow> rat \<times> 'a db_scheme" where
  "unblocked_balance env pl d =
     (let in_order = get_margin_balance_in_order (ple_margin_orders env) (pl_currency pl);
          blocked = (if pl_currency pl \<in> set (ple_DST_CURRENCIES env)
                     then dadd in_order (get_margin_balance_in_temporal_assessment (ple_positions env) (pl_currency pl))
                     else in_order)
      in case pool_wallet env (pl_manager pl) (pl_currency pl) d of
           (w, d1) \<Rightarrow> (dsub (w_balance w) blocked, d1))"

subsection \<open>Updates of the capacities\<close>

text \<open>A value too large for its column raises \<open>DataError\<close>; the amounts are rounded to the precision of
  the coin before, so that the columns do not round them again. Both updates are checked by the constraint
  \<open>pool_capacity_limit\<close>.\<close>

definition column_fits :: "nat \<Rightarrow> rat \<Rightarrow> bool" where
  "column_fits max_digits x \<longleftrightarrow> \<bar>x\<bar> < pow10 (int max_digits - int MONETARY_DECIMAL_PLACES)"

definition save_pool :: "(pool \<Rightarrow> pool) \<Rightarrow> nat \<Rightarrow> pool_tables \<Rightarrow> pool_tables result" where
  "save_pool f i p =
     (case find_pool p i of
        None \<Rightarrow> Inl DoesNotExist
      | Some pl \<Rightarrow>
          if \<not> (column_fits BALANCE_MAX_DIGITS (pl_filled_capacity (f pl)) \<and> column_fits BALANCE_MAX_DIGITS (pl_revoked_capacity (f pl)))
          then Inl DataError
          else if 0 \<le> pl_filled_capacity (f pl) \<and> pl_filled_capacity (f pl) \<le> pl_capacity (f pl) + pl_revoked_capacity (f pl)
          then Inr (put_pool f i p) else Inl (IntegrityError ''pool_capacity_limit''))"

definition update_filled_capacity :: "nat \<Rightarrow> rat \<Rightarrow> pool_tables \<Rightarrow> pool_tables result" where
  "update_filled_capacity i amount = save_pool (\<lambda>pl. pl\<lparr>pl_filled_capacity := pl_filled_capacity pl + amount\<rparr>) i"

definition update_revoke_capacity :: "nat \<Rightarrow> rat \<Rightarrow> pool_tables \<Rightarrow> pool_tables result" where
  "update_revoke_capacity i amount = save_pool (\<lambda>pl. pl\<lparr>pl_revoked_capacity := pl_revoked_capacity pl + amount\<rparr>) i"

text \<open>\<open>UserDelegation.update_balance\<close>: a delegation is closed when nothing is left of it.\<close>

definition update_balance :: "pool_env \<Rightarrow> nat \<Rightarrow> rat \<Rightarrow> pool_tables \<Rightarrow> pool_tables result" where
  "update_balance env i amount p =
     (case find_delegation p i of
        None \<Rightarrow> Inl DoesNotExist
      | Some u \<Rightarrow>
          let f = (\<lambda>x. x\<lparr>ud_balance := ud_balance x + amount,
                         ud_closed_at := if ud_balance x \<le> - amount then Some (ple_now env) else None\<rparr>)
          in if \<not> column_fits BALANCE_MAX_DIGITS (ud_balance (f u)) then Inl DataError
             else if ud_balance (f u) < 0 then Inl (IntegrityError ''delegation_non_negative_balance'')
             else if ud_closed_at (f u) = None \<and>
                     list_ex (\<lambda>x. ud_id x \<noteq> i \<and> ud_pool x = ud_pool u \<and> ud_user x = ud_user u \<and> ud_closed_at x = None) (pt_delegations p)
             then Inl (IntegrityError ''unique_active_user_delegation'')
             else rbind (update_filled_capacity (ud_pool u) amount (put_delegation f i p)) (\<lambda>p1.
                    if amount < 0 then update_revoke_capacity (ud_pool u) amount p1 else Inr p1))"

subsection \<open>Delegation transactions\<close>

definition clean_delegation ::
    "pool_env \<Rightarrow> pool \<Rightarrow> user_delegation \<Rightarrow> rat \<Rightarrow> 'a db_scheme \<Rightarrow> 'a db_scheme result" where
  "clean_delegation env pl u amount d =
     (if amount = 0 \<or> money_is_zero (ctx \<bar>amount\<bar>) then Inl (ApiError ''InvalidDelegationAmount'')
      else if amount < 0
      then (case pool_wallet env (pl_manager pl) (pl_currency pl) d of (w, d1) \<Rightarrow>
              if dadd (active_balance d1 w (ple_order_flags env (pl_manager pl))) amount < 0
              then Inl (ApiError ''InsufficientBalance'') else Inr d1)
      else if unfilled_capacity pl < amount then Inl (ApiError ''ExceedCapacity'')
      else (case pool_wallet env (ud_user u) (pl_currency pl) d of (w, d1) \<Rightarrow>
              if active_balance d1 w (ple_order_flags env (ud_user u)) < amount
              then Inl (ApiError ''InsufficientBalance'') else Inr d1))"

definition create_delegation_transaction ::
    "pool_env \<Rightarrow> pool \<Rightarrow> user_delegation \<Rightarrow> rat \<Rightarrow> nat \<Rightarrow> string \<Rightarrow> string \<Rightarrow> 'a db_scheme
     \<Rightarrow> (transaction \<times> 'a db_scheme) result" where
  "create_delegation_transaction env pl u amount i src_ref dst_ref d =
     (case pool_wallet env (ud_user u) (pl_currency pl) d of (src, d1) \<Rightarrow>
      rbind (create_transaction src TxDelegate (dneg amount) (ple_now env) None None False) (\<lambda>src_tx.
      case pool_wallet env (pl_manager pl) (pl_currency pl) d1 of (dst, d2) \<Rightarrow>
      rbind (create_transaction dst TxDelegate amount (ple_now env) None None False) (\<lambda>dst_tx.
      rbind (commit_created d2 (map_option (set_ref (ple_hash env) (Some (src_ref, i))) src_tx) False) (\<lambda>(d3, src_tx).
      rbind (commit_created d3 (map_option (set_ref (ple_hash env) (Some (dst_ref, i))) dst_tx) False) (\<lambda>(d4, dst_tx).
        Inr (src_tx, d4))))))"

text \<open>\<open>DelegationTransaction.objects.create\<close>: \<open>save\<close> of a new object with its signal.\<close>

definition create_delegation_row ::
    "pool_env \<Rightarrow> nat \<Rightarrow> rat \<Rightarrow> pool_tables \<Rightarrow> 'a db_scheme \<Rightarrow> (delegation_transaction \<times> pool_tables \<times> 'a db_scheme) result" where
  "create_delegation_row env ud amount p d =
     (case find_delegation p ud of
        None \<Rightarrow> Inl DoesNotExist
      | Some u \<Rightarrow>
     (case find_pool p (ud_pool u) of
        None \<Rightarrow> Inl DoesNotExist
      | Some pl \<Rightarrow>
          rbind (clean_delegation env pl u amount d) (\<lambda>d1.
          let i = pt_next_id p;
              row = \<lparr>dt_id = i, dt_user_delegation = ud, dt_amount = amount, dt_created_at = ple_now env, dt_transaction = None\<rparr>
          in if \<not> column_fits TRANSACTION_MAX_DIGITS amount then Inl DataError
             else rbind (update_balance env ud amount (p\<lparr>pt_next_id := Suc i\<rparr>)) (\<lambda>p1.
             rbind (create_delegation_transaction env pl u amount i
                      (if amount < 0 then ''DelegationRevokeDst'' else ''DelegationSrc'')
                      (if amount < 0 then ''DelegationRevokeSrc'' else ''DelegationDst'') d1) (\<lambda>(tx, d2).
               let row1 = row\<lparr>dt_transaction := Some (tx_id tx)\<rparr>
               in Inr (row1, p1\<lparr>pt_transactions := pt_transactions p1 @ [row1]\<rparr>, d2))))))"

subsection \<open>Delegating\<close>

text \<open>\<open>get_or_create\<close> of the open delegation of the user.\<close>

definition open_delegation :: "nat \<Rightarrow> nat \<Rightarrow> user_delegation \<Rightarrow> bool" where
  "open_delegation pool user x \<longleftrightarrow> ud_pool x = pool \<and> ud_user x = user \<and> ud_closed_at x = None"

definition new_delegation :: "pool_env \<Rightarrow> nat \<Rightarrow> nat \<Rightarrow> pool_tables \<Rightarrow> user_delegation \<times> pool_tables" where
  "new_delegation env pool user p =
     (let u = \<lparr>ud_id = pt_next_id p, ud_pool = pool, ud_user = user, ud_balance = 0, ud_created_at = ple_now env,
               ud_closed_at = None, ud_total_profit = 0\<rparr>
      in (u, p\<lparr>pt_delegations := pt_delegations p @ [u], pt_next_id := Suc (pt_next_id p)\<rparr>))"

definition get_or_create_delegation :: "pool_env \<Rightarrow> nat \<Rightarrow> nat \<Rightarrow> pool_tables \<Rightarrow> user_delegation \<times> pool_tables" where
  "get_or_create_delegation env pool user p =
     (case find (open_delegation pool user) (pt_delegations p) of
        Some u \<Rightarrow> (u, p)
      | None \<Rightarrow> new_delegation env pool user p)"

definition pool_of_delegation :: "pool_tables \<Rightarrow> nat \<Rightarrow> nat option" where
  "pool_of_delegation p ud = map_option ud_pool (find_delegation p ud)"

definition has_unpaid_revoke :: "nat \<Rightarrow> nat \<Rightarrow> pool_tables \<Rightarrow> bool" where
  "has_unpaid_revoke pool user p =
     list_ex (\<lambda>r. rv_status r = RevokeNew
        \<and> (case find_delegation p (rv_user_delegation r) of None \<Rightarrow> False | Some u \<Rightarrow> ud_user u = user \<and> ud_pool u = pool))
       (pt_revokes p)"

definition create_delegation ::
    "pool_env \<Rightarrow> pool \<Rightarrow> pool_user \<Rightarrow> rat \<Rightarrow> pool_tables \<Rightarrow> 'a db_scheme
     \<Rightarrow> (nat \<times> pool_tables \<times> 'a db_scheme) result" where
  "create_delegation env pl user amount p d =
     rbind (quantize_number amount (ple_precision env (pl_currency pl)) ROUND_DOWN) (\<lambda>amount.
     if money_is_zero amount then Inl (ParseError ''Only positive values are allowed for monetary values.'')
     else if \<not> is_user_type_eligible_to_delegate (pu_type user) then Inl (ApiError ''PermissionDenied'')
     else if \<not> has_provider_access p pl user then Inl (ApiError ''NoAccess'')
     else if unfilled_capacity pl < amount then Inl (ApiError ''ExceedCapacity'')
     else rbind (min_delegation env pl) (\<lambda>mn.
     if amount < min mn (unfilled_capacity pl) then Inl (ApiError ''LowDelegationAmount'')
     else case get_or_create_delegation env (pl_id pl) (pu_id user) p of (u, p1) \<Rightarrow>
     rbind (get_max_delegation env pl (pu_type user)) (\<lambda>mx.
     if mx < dadd amount (ud_balance u) then Inl (ApiError ''HighDelegationAmount'')
     else if has_unpaid_revoke (pl_id pl) (pu_id user) p1 then Inl (ApiError ''DelegateWhenRevokeInProgress'')
     else rbind (create_delegation_row env (ud_id u) amount p1 d) (\<lambda>(row, p2, d2). Inr (ud_id u, p2, d2)))))"

text \<open>\<open>LiquidityPoolDelegateView.post\<close> and the answers for the exceptions it catches.\<close>

definition delegate_error :: "py_error \<Rightarrow> py_error" where
  "delegate_error e =
     (case e of
        IntegrityError _ \<Rightarrow> ApiError ''ExceedPoolCapacity''
      | ApiError s \<Rightarrow>
          if s = ''ExceedCapacity'' then ApiError ''ExceedPoolCapacity''
          else if s = ''InsufficientBalance'' then ApiError ''InsufficientWalletBalance''
          else if s = ''NoAccess'' then ApiError ''NotFound'' else ApiError s
      | _ \<Rightarrow> e)"

definition pool_delegate_post ::
    "pool_env \<Rightarrow> pool_user \<Rightarrow> nat \<Rightarrow> py_val \<Rightarrow> pool_tables \<Rightarrow> 'a db_scheme
     \<Rightarrow> (nat \<times> pool_tables \<times> 'a db_scheme) result" where
  "pool_delegate_post env user i amount p d =
     rbind (parse_money True False None amount) (\<lambda>a.
       case find_pool p i of
         None \<Rightarrow> Inl (ApiError ''NotFound'')
       | Some pl \<Rightarrow>
           if \<not> pl_is_active pl then Inl (ApiError ''NotFound'')
           else (case create_delegation env pl user (the a) p d of
                   Inl e \<Rightarrow> Inl (delegate_error e)
                 | Inr r \<Rightarrow> Inr r))"

subsection \<open>Taking back\<close>

definition open_revokes :: "pool_tables \<Rightarrow> nat \<Rightarrow> rat" where
  "open_revokes p ud = sum_list (map rv_amount (filter (\<lambda>r. rv_user_delegation r = ud \<and> rv_status r = RevokeNew) (pt_revokes p)))"

definition maximum_withdrawal_amount :: "pool_tables \<Rightarrow> user_delegation \<Rightarrow> rat" where
  "maximum_withdrawal_amount p u = dsub (ud_balance u) (open_revokes p (ud_id u))"

definition create_delegation_revoke_request ::
    "pool_env \<Rightarrow> pool \<Rightarrow> user_delegation \<Rightarrow> rat \<Rightarrow> pool_tables \<Rightarrow> (revoke_request \<times> pool_tables) result" where
  "create_delegation_revoke_request env pl u amount p =
     rbind (quantize ROUND_DOWN (dexp (ple_precision env (pl_currency pl))) amount) (\<lambda>amount.
     rbind (min_delegation env pl) (\<lambda>mn.
     if amount < min mn (maximum_withdrawal_amount p u) then Inl (ApiError ''LowDelegationAmount'')
     else if maximum_withdrawal_amount p u < amount then Inl (ApiError ''InvalidDelegationAmount'')
     else let r = \<lparr>rv_id = pt_next_id p, rv_amount = amount, rv_created_at = ple_now env, rv_status = RevokeNew,
                   rv_delegation_transaction = None, rv_user_delegation = ud_id u\<rparr>
          in if \<not> column_fits TRANSACTION_MAX_DIGITS amount then Inl DataError
             else rbind (update_revoke_capacity (ud_pool u) amount
                      (p\<lparr>pt_revokes := pt_revokes p @ [r], pt_next_id := Suc (pt_next_id p)\<rparr>)) (\<lambda>p1. Inr (r, p1))))"

text \<open>\<open>DelegationRevokeRequestCreateView.post\<close>.\<close>

definition revoke_error :: "py_error \<Rightarrow> py_error" where
  "revoke_error e = (case e of IntegrityError _ \<Rightarrow> ApiError ''InvalidDelegationAmount'' | _ \<Rightarrow> e)"

definition pool_revoke_post ::
    "pool_env \<Rightarrow> pool_user \<Rightarrow> nat \<Rightarrow> py_val \<Rightarrow> pool_tables \<Rightarrow> (revoke_request \<times> pool_tables) result" where
  "pool_revoke_post env user i amount p =
     rbind (parse_money True False None amount) (\<lambda>a.
       case find_delegation p i of
         None \<Rightarrow> Inl (ApiError ''NotFound'')
       | Some u \<Rightarrow>
           if ud_user u \<noteq> pu_id user \<or> ud_closed_at u \<noteq> None then Inl (ApiError ''NotFound'')
           else (case find_pool p (ud_pool u) of
                   None \<Rightarrow> Inl DoesNotExist
                 | Some pl \<Rightarrow>
                     if \<not> pl_is_active pl then Inl (ApiError ''PermissionDenied'')
                     else (case create_delegation_revoke_request env pl u (the a) p of
                             Inl e \<Rightarrow> Inl (revoke_error e)
                           | Inr r \<Rightarrow> Inr r)))"

subsection \<open>Paying the requests\<close>

definition put_revoke :: "(revoke_request \<Rightarrow> revoke_request) \<Rightarrow> nat \<Rightarrow> pool_tables \<Rightarrow> pool_tables" where
  "put_revoke f i p = p\<lparr>pt_revokes := map (\<lambda>x. if rv_id x = i then f x else x) (pt_revokes p)\<rparr>"

definition settle_delegation_revoke_request ::
    "pool_env \<Rightarrow> revoke_request \<Rightarrow> pool_tables \<Rightarrow> 'a db_scheme \<Rightarrow> (pool_tables \<times> 'a db_scheme) result" where
  "settle_delegation_revoke_request env r p d =
     rbind (create_delegation_row env (rv_user_delegation r) (dneg (rv_amount r)) p d) (\<lambda>(row, p1, d1).
       Inr (put_revoke (\<lambda>x. x\<lparr>rv_status := RevokePaid, rv_delegation_transaction := Some (dt_id row)\<rparr>) (rv_id r) p1, d1))"

text \<open>A wallet that the check creates stays, whatever the outcome; the payment itself is a savepoint.\<close>

definition check_settlement ::
    "pool_env \<Rightarrow> revoke_request \<Rightarrow> pool_tables \<Rightarrow> 'a db_scheme \<Rightarrow> unit result \<times> pool_tables \<times> 'a db_scheme" where
  "check_settlement env r p d =
     (case find_delegation p (rv_user_delegation r) of
        None \<Rightarrow> (Inl DoesNotExist, p, d)
      | Some u \<Rightarrow>
     (case find_pool p (ud_pool u) of
        None \<Rightarrow> (Inl DoesNotExist, p, d)
      | Some pl \<Rightarrow>
     (case unblocked_balance env pl d of (balance, d1) \<Rightarrow>
        if balance < rv_amount r then (Inl (ApiError ''InsufficientBalance''), p, d1)
        else (case settle_delegation_revoke_request env r p d1 of
                Inl e \<Rightarrow> (Inl e, p, d1)
              | Inr (p1, d2) \<Rightarrow> (Inr (), p1, d2)))))"

text \<open>The first request that cannot be paid ends the run of its pool.\<close>

fun settle_requests ::
    "pool_env \<Rightarrow> revoke_request list \<Rightarrow> pool_tables \<Rightarrow> 'a db_scheme \<Rightarrow> pool_tables \<times> 'a db_scheme" where
  "settle_requests env [] p d = (p, d)"
| "settle_requests env (r # rs) p d =
     (case check_settlement env r p d of
        (Inl _, p1, d1) \<Rightarrow> (p1, d1)
      | (Inr _, p1, d1) \<Rightarrow> settle_requests env rs p1 d1)"

definition new_requests :: "nat option \<Rightarrow> pool_tables \<Rightarrow> revoke_request list" where
  "new_requests pool_id p =
     sort_key rv_created_at
       (filter (\<lambda>r. rv_status r = RevokeNew \<and> (pool_id = None \<or> pool_of_delegation p (rv_user_delegation r) = pool_id))
          (pt_revokes p))"

definition pools_in_order :: "pool_tables \<Rightarrow> revoke_request list \<Rightarrow> nat list" where
  "pools_in_order p rs = rev (remdups (rev (List.map_filter (\<lambda>r. pool_of_delegation p (rv_user_delegation r)) rs)))"

definition check_delegation_revoke_request ::
    "pool_env \<Rightarrow> nat option \<Rightarrow> pool_tables \<Rightarrow> 'a db_scheme \<Rightarrow> pool_tables \<times> 'a db_scheme" where
  "check_delegation_revoke_request env pool_id p d =
     (let rs = new_requests pool_id p
      in fold (\<lambda>i (p1, d1). settle_requests env
                 (filter (\<lambda>r. pool_of_delegation p (rv_user_delegation r) = Some i) rs) p1 d1)
           (pools_in_order p rs) (p, d))"

end
