(* ===== verification/Pools_Ledger.thy ===== *)
theory Pools_Ledger
  imports Pools
begin

section \<open>The books of the pools\<close>

text \<open>
  The invariant of the tables of the pools: what a pool counts as filled and as revoked is the sum of
  its delegations and of its unpaid revoke requests, a delegation is the sum of its
  transactions and covers its unpaid requests. Delegating, asking back and paying keep it.
\<close>

subsection \<open>Sums over rows with ids\<close>

lemma sum_list_put:
  fixes h :: "'a \<Rightarrow> rat"
  assumes "distinct (map key xs)" "find (\<lambda>x. key x = i) xs = Some u"
  shows "sum_list (map h (map (\<lambda>x. if key x = i then g x else x) xs)) = sum_list (map h xs) - h u + h (g u)"
  using assms
proof (induction xs)
  case (Cons x xs)
  show ?case
  proof (cases "key x = i")
    case True
    then have "map (\<lambda>x. if key x = i then g x else x) xs = xs" using Cons.prems(1) by (intro map_idI) (auto simp: image_iff)
    with True Cons.prems show ?thesis by (simp add: comp_def cong: map_cong)
  qed (use Cons in simp)
qed simp

lemma find_map_put:
  assumes "\<And>x. key (g x) = key x"
  shows "find (\<lambda>x. key x = j) (map (\<lambda>x. if key x = i then g x else x) xs)
    = map_option (\<lambda>x. if key x = i then g x else x) (find (\<lambda>x. key x = j) xs)"
  by (induction xs) (auto simp: assms)

lemma find_SomeD: "find P xs = Some x \<Longrightarrow> x \<in> set xs \<and> P x"
  by (auto simp: find_Some_iff)

lemma find_by_key: "distinct (map key xs) \<Longrightarrow> x \<in> set xs \<Longrightarrow> find (\<lambda>y. key y = key x) xs = Some x"
  by (induction xs) (auto simp: image_iff)

lemma map_key_put: "(\<And>x. key (g x) = key x) \<Longrightarrow> map key (map (\<lambda>x. if key x = i then g x else x) xs) = map key xs"
  by simp

subsection \<open>The invariant\<close>

definition delegated :: "pool_tables \<Rightarrow> nat \<Rightarrow> rat" where
  "delegated p ud = sum_list (map (\<lambda>t. if dt_user_delegation t = ud then dt_amount t else 0) (pt_transactions p))"

definition total_filled :: "pool_tables \<Rightarrow> nat \<Rightarrow> rat" where
  "total_filled p i = sum_list (map (\<lambda>u. if ud_pool u = i then ud_balance u else 0) (pt_delegations p))"

definition total_revoked :: "pool_tables \<Rightarrow> nat \<Rightarrow> rat" where
  "total_revoked p i = sum_list (map (\<lambda>r. if rv_status r = RevokeNew \<and> pool_of_delegation p (rv_user_delegation r) = Some i
     then rv_amount r else 0) (pt_revokes p))"

lemma open_revokes_eq:
  "open_revokes p ud = sum_list (map (\<lambda>r. if rv_user_delegation r = ud \<and> rv_status r = RevokeNew then rv_amount r else 0) (pt_revokes p))"
  by (simp add: open_revokes_def sum_list_map_filter')

definition pool_ids :: "pool_tables \<Rightarrow> bool" where
  "pool_ids p \<longleftrightarrow> distinct (map pl_id (pt_pools p)) \<and> distinct (map ud_id (pt_delegations p)) \<and> distinct (map rv_id (pt_revokes p))
     \<and> (\<forall>i \<in> ud_id ` set (pt_delegations p) \<union> rv_id ` set (pt_revokes p). i < pt_next_id p)
     \<and> (\<forall>u \<in> set (pt_delegations p). find_pool p (ud_pool u) \<noteq> None)
     \<and> (\<forall>i \<in> rv_user_delegation ` set (pt_revokes p) \<union> dt_user_delegation ` set (pt_transactions p). find_delegation p i \<noteq> None)"

definition delegation_ok :: "pool_tables \<Rightarrow> user_delegation \<Rightarrow> bool" where
  "delegation_ok p u \<longleftrightarrow> balance_field (ud_balance u) \<and> open_revokes p (ud_id u) \<le> ud_balance u
     \<and> delegated p (ud_id u) = ud_balance u"

definition request_ok :: "revoke_request \<Rightarrow> bool" where
  "request_ok r \<longleftrightarrow> 0 \<le> rv_amount r \<and> on_grid MAX_PRECISION (rv_amount r) \<and> ctx (rv_amount r) = rv_amount r"

definition capacity_ok :: "pool_tables \<Rightarrow> pool \<Rightarrow> bool" where
  "capacity_ok p pl \<longleftrightarrow> total_filled p (pl_id pl) = pl_filled_capacity pl \<and> total_revoked p (pl_id pl) = pl_revoked_capacity pl
     \<and> 0 \<le> pl_filled_capacity pl \<and> pl_filled_capacity pl \<le> pl_capacity pl + pl_revoked_capacity pl"

definition pool_inv :: "pool_tables \<Rightarrow> bool" where
  "pool_inv p \<longleftrightarrow> pool_ids p \<and> list_all (delegation_ok p) (pt_delegations p) \<and> list_all request_ok (pt_revokes p)
     \<and> list_all (capacity_ok p) (pt_pools p)"

subsection \<open>Updates\<close>

definition move_balance :: "pool_env \<Rightarrow> rat \<Rightarrow> user_delegation \<Rightarrow> user_delegation" where
  "move_balance env amount x = x\<lparr>ud_balance := ud_balance x + amount,
     ud_closed_at := if ud_balance x \<le> - amount then Some (ple_now env) else None\<rparr>"

definition move_capacity :: "rat \<Rightarrow> pool \<Rightarrow> pool" where
  "move_capacity amount x = x\<lparr>pl_filled_capacity := pl_filled_capacity x + amount,
     pl_revoked_capacity := pl_revoked_capacity x + (if amount < 0 then amount else 0)\<rparr>"

lemma move_fields [simp]:
  "ud_id (move_balance env a u) = ud_id u" "ud_pool (move_balance env a u) = ud_pool u" "ud_user (move_balance env a u) = ud_user u"
  "ud_balance (move_balance env a u) = ud_balance u + a"
  "pl_id (move_capacity a x) = pl_id x" "pl_capacity (move_capacity a x) = pl_capacity x"
  "pl_currency (move_capacity a x) = pl_currency x" "pl_manager (move_capacity a x) = pl_manager x"
  by (simp_all add: move_balance_def move_capacity_def)

lemma put_pool_twice:
  "(\<And>x. pl_id (g x) = pl_id x) \<Longrightarrow> put_pool f i (put_pool g i p) = put_pool (\<lambda>x. f (g x)) i p"
  by (simp add: put_pool_def)

lemma put_pool_cong:
  "(\<And>x. pl_id x = i \<Longrightarrow> f x = g x) \<Longrightarrow> put_pool f i p = put_pool g i p"
  by (simp add: put_pool_def)

lemma save_pool_Inr:
  "save_pool f i p = Inr p' \<longleftrightarrow> (\<exists>pl. find_pool p i = Some pl \<and> column_fits BALANCE_MAX_DIGITS (pl_filled_capacity (f pl))
     \<and> column_fits BALANCE_MAX_DIGITS (pl_revoked_capacity (f pl)) \<and> 0 \<le> pl_filled_capacity (f pl)
     \<and> pl_filled_capacity (f pl) \<le> pl_capacity (f pl) + pl_revoked_capacity (f pl) \<and> p' = put_pool f i p)"
  by (auto simp: save_pool_def split: option.split)

text \<open>What \<open>update_balance\<close> does when it does not raise.\<close>

lemma update_balance_Inr:
  assumes "update_balance env i amount p = Inr p1"
  obtains u pl where "find_delegation p i = Some u" "find_pool p (ud_pool u) = Some pl"
    "p1 = put_pool (move_capacity amount) (ud_pool u) (put_delegation (move_balance env amount) i p)"
    "column_fits BALANCE_MAX_DIGITS (ud_balance u + amount)" "0 \<le> ud_balance u + amount"
    "0 \<le> pl_filled_capacity pl + amount"
    "pl_filled_capacity pl + amount \<le> pl_capacity pl + pl_revoked_capacity pl + (if amount < 0 then amount else 0)"
proof -
  define q where "q = put_delegation (move_balance env amount) i p"
  from assms obtain u where u: "find_delegation p i = Some u" by (auto simp: update_balance_def split: option.split_asm)
  from assms have b: "column_fits BALANCE_MAX_DIGITS (ud_balance u + amount)" "0 \<le> ud_balance u + amount"
    by (auto simp: update_balance_def u Let_def not_less split: if_split_asm)
  have m: "(\<lambda>x. x\<lparr>ud_balance := ud_balance x + amount,
                         ud_closed_at := if ud_balance x \<le> - amount then Some (ple_now env) else None\<rparr>) = move_balance env amount"
    by (rule ext) (simp add: move_balance_def)
  from assms obtain p2 where f: "update_filled_capacity (ud_pool u) amount q = Inr p2"
    and r: "(if amount < 0 then update_revoke_capacity (ud_pool u) amount p2 else Inr p2) = Inr p1"
    unfolding update_balance_def u Let_def m q_def by (auto simp: rbind_eq_Inr_iff split: if_split_asm)
  have q: "find_pool q j = find_pool p j" for j by (simp add: q_def find_pool_def put_delegation_def)
  from f obtain pl where pl: "find_pool p (ud_pool u) = Some pl" "0 \<le> pl_filled_capacity pl + amount"
    "pl_filled_capacity pl + amount \<le> pl_capacity pl + pl_revoked_capacity pl"
    and p2: "p2 = put_pool (\<lambda>pl. pl\<lparr>pl_filled_capacity := pl_filled_capacity pl + amount\<rparr>) (ud_pool u) q"
    unfolding update_filled_capacity_def save_pool_Inr by (auto simp: q)
  have f2: "find_pool p2 (ud_pool u) = Some (pl\<lparr>pl_filled_capacity := pl_filled_capacity pl + amount\<rparr>)"
    using pl(1) find_SomeD [OF pl(1) [unfolded find_pool_def]]
    by (simp add: p2 q_def find_pool_def put_pool_def put_delegation_def find_map_put)
  have "p1 = put_pool (move_capacity amount) (ud_pool u) q \<and>
      pl_filled_capacity pl + amount \<le> pl_capacity pl + pl_revoked_capacity pl + (if amount < 0 then amount else 0)"
  proof (cases "amount < 0")
    case True
    then have "update_revoke_capacity (ud_pool u) amount p2 = Inr p1" using r by simp
    then show ?thesis using True
      unfolding update_revoke_capacity_def save_pool_Inr f2
      by (auto simp: p2 put_pool_twice move_capacity_def intro!: put_pool_cong)
  next
    case False
    then show ?thesis using r pl by (auto simp: p2 move_capacity_def intro!: put_pool_cong)
  qed
  with that u pl b show ?thesis by (simp add: q_def)
qed

subsection \<open>One posting\<close>

text \<open>
  A posting moves a delegation and its pool by the amount, adds a transaction, and when the amount is
  negative marks a request of that amount as paid.
\<close>

definition posting :: "pool_env \<Rightarrow> user_delegation \<Rightarrow> rat \<Rightarrow> pool_tables \<Rightarrow> pool_tables \<Rightarrow> bool" where
  "posting env u amount p p' \<longleftrightarrow>
     pt_pools p' = map (\<lambda>x. if pl_id x = ud_pool u then move_capacity amount x else x) (pt_pools p)
     \<and> pt_delegations p' = map (\<lambda>x. if ud_id x = ud_id u then move_balance env amount x else x) (pt_delegations p)
     \<and> (\<exists>row. pt_transactions p' = pt_transactions p @ [row] \<and> dt_user_delegation row = ud_id u \<and> dt_amount row = amount)
     \<and> pt_next_id p \<le> pt_next_id p'"

lemma posting_finds:
  assumes "posting env u amount p p'"
  shows "find_pool p' i = map_option (\<lambda>x. if pl_id x = ud_pool u then move_capacity amount x else x) (find_pool p i)"
    "find_delegation p' j = map_option (\<lambda>x. if ud_id x = ud_id u then move_balance env amount x else x) (find_delegation p j)"
    "pool_of_delegation p' j = pool_of_delegation p j"
proof -
  show "find_pool p' i = map_option (\<lambda>x. if pl_id x = ud_pool u then move_capacity amount x else x) (find_pool p i)"
    using assms by (simp add: posting_def find_pool_def find_map_put)
  show *: "find_delegation p' j = map_option (\<lambda>x. if ud_id x = ud_id u then move_balance env amount x else x) (find_delegation p j)" for j
    using assms by (simp add: posting_def find_delegation_def find_map_put)
  show "pool_of_delegation p' j = pool_of_delegation p j"
    by (cases "find_delegation p j") (simp_all add: pool_of_delegation_def *)
qed

lemma posting_sums:
  assumes "posting env u amount p p'" "distinct (map ud_id (pt_delegations p))" "find_delegation p (ud_id u) = Some u"
  shows "delegated p' j = delegated p j + (if j = ud_id u then amount else 0)"
    "total_filled p' i = total_filled p i + (if i = ud_pool u then amount else 0)"
proof -
  show "delegated p' j = delegated p j + (if j = ud_id u then amount else 0)"
    using assms(1) by (auto simp: posting_def delegated_def)
  have d: "pt_delegations p' = map (\<lambda>x. if ud_id x = ud_id u then move_balance env amount x else x) (pt_delegations p)"
    using assms(1) by (simp add: posting_def)
  show "total_filled p' i = total_filled p i + (if i = ud_pool u then amount else 0)"
    unfolding total_filled_def d
    by (subst sum_list_put [OF assms(2) assms(3) [unfolded find_delegation_def]]) simp
qed

lemma posting_ids:
  assumes post: "posting env u amount p p'" and p: "pool_ids p" and u: "find_delegation p (ud_id u) = Some u"
    and r: "map rv_id (pt_revokes p') = map rv_id (pt_revokes p)"
      "map rv_user_delegation (pt_revokes p') = map rv_user_delegation (pt_revokes p)"
  shows "pool_ids p'"
proof -
  have m: "map pl_id (pt_pools p') = map pl_id (pt_pools p)" "map ud_id (pt_delegations p') = map ud_id (pt_delegations p)"
    "map ud_pool (pt_delegations p') = map ud_pool (pt_delegations p)"
    using post by (simp_all add: posting_def comp_def if_distrib cong: if_cong)
  from arg_cong [OF m(2), of set] arg_cong [OF m(3), of set] arg_cong [OF r(1), of set] arg_cong [OF r(2), of set]
  have s: "ud_id ` set (pt_delegations p') = ud_id ` set (pt_delegations p)"
    "ud_pool ` set (pt_delegations p') = ud_pool ` set (pt_delegations p)"
    "rv_id ` set (pt_revokes p') = rv_id ` set (pt_revokes p)"
    "rv_user_delegation ` set (pt_revokes p') = rv_user_delegation ` set (pt_revokes p)" by simp_all
  have t: "dt_user_delegation ` set (pt_transactions p') = insert (ud_id u) (dt_user_delegation ` set (pt_transactions p))"
    using post by (auto simp: posting_def)
  have pools: "find_pool p' i \<noteq> None \<longleftrightarrow> find_pool p i \<noteq> None" "find_delegation p' i \<noteq> None \<longleftrightarrow> find_delegation p i \<noteq> None" for i
    by (simp_all add: posting_finds [OF post])
  have "(\<forall>i \<in> ud_pool ` set (pt_delegations p'). find_pool p' i \<noteq> None)"
    unfolding s pools using p by (auto simp: pool_ids_def)
  moreover have "\<forall>i \<in> rv_user_delegation ` set (pt_revokes p') \<union> dt_user_delegation ` set (pt_transactions p'). find_delegation p' i \<noteq> None"
    unfolding s t pools using p u by (auto simp: pool_ids_def)
  moreover have "\<forall>i \<in> ud_id ` set (pt_delegations p') \<union> rv_id ` set (pt_revokes p'). i < pt_next_id p'"
    unfolding s using p post by (meson pool_ids_def posting_def less_le_trans)
  moreover have "distinct (map pl_id (pt_pools p'))" "distinct (map ud_id (pt_delegations p'))" "distinct (map rv_id (pt_revokes p'))"
    using p by (simp_all only: m r pool_ids_def)
  ultimately show ?thesis unfolding pool_ids_def by blast
qed

lemma posting_keeps:
  assumes post: "posting env u amount p p'" and p: "pool_inv p" and u: "find_delegation p (ud_id u) = Some u"
    and pl: "find_pool p (ud_pool u) = Some pl"
    and r: "map rv_id (pt_revokes p') = map rv_id (pt_revokes p)"
      "map rv_user_delegation (pt_revokes p') = map rv_user_delegation (pt_revokes p)" "list_all request_ok (pt_revokes p')"
      "\<And>j. open_revokes p' j = open_revokes p j + (if j = ud_id u \<and> amount < 0 then amount else 0)"
      "\<And>i. total_revoked p' i = total_revoked p i + (if i = ud_pool u \<and> amount < 0 then amount else 0)"
    and a: "balance_field (ud_balance u + amount)" "0 \<le> pl_filled_capacity pl + amount"
      "pl_filled_capacity pl + amount \<le> pl_capacity pl + pl_revoked_capacity pl + (if amount < 0 then amount else 0)"
  shows "pool_inv p'"
proof -
  have ids: "pool_ids p" using p by (simp add: pool_inv_def)
  then have du: "distinct (map ud_id (pt_delegations p))" and dp: "distinct (map pl_id (pt_pools p))" by (simp_all add: pool_ids_def)
  note sums = posting_sums [OF post du u]
  have "delegation_ok p' x" if "x \<in> set (pt_delegations p')" for x
  proof -
    from that post obtain y where y: "y \<in> set (pt_delegations p)" and x: "x = (if ud_id y = ud_id u then move_balance env amount y else y)"
      by (auto simp: posting_def)
    have "ud_id y = ud_id u \<longrightarrow> y = u" using find_by_key [OF du y] u unfolding find_delegation_def by (metis option.inject)
    moreover have "delegation_ok p y" using p y by (simp add: pool_inv_def list_all_iff)
    ultimately show ?thesis using a(1)
      by (cases "ud_id y = ud_id u") (simp_all add: x delegation_ok_def sums r(4))
  qed
  moreover have "capacity_ok p' x" if "x \<in> set (pt_pools p')" for x
  proof -
    from that post obtain y where y: "y \<in> set (pt_pools p)" and x: "x = (if pl_id y = ud_pool u then move_capacity amount y else y)"
      by (auto simp: posting_def)
    have "pl_id y = ud_pool u \<longrightarrow> y = pl" using find_by_key [OF dp y] pl unfolding find_pool_def by (metis option.inject)
    moreover have "capacity_ok p y" using p y by (simp add: pool_inv_def list_all_iff)
    ultimately show ?thesis using a(2,3)
      by (cases "pl_id y = ud_pool u") (simp_all add: x capacity_ok_def sums r(5) move_capacity_def)
  qed
  ultimately show ?thesis using posting_ids [OF post ids u r(1,2)] r(3) by (simp add: pool_inv_def list_all_iff)
qed

subsection \<open>The operations\<close>

text \<open>A new transaction of a delegation without its fuss.\<close>

lemma create_delegation_row_Inr:
  assumes "create_delegation_row env ud amount p d = Inr (row, p', d')"
  obtains u pl d1 p1 tx where "find_delegation p ud = Some u" "find_pool p (ud_pool u) = Some pl"
    "clean_delegation env pl u amount d = Inr d1" "update_balance env ud amount (p\<lparr>pt_next_id := Suc (pt_next_id p)\<rparr>) = Inr p1"
    "create_delegation_transaction env pl u amount (pt_next_id p)
       (if amount < 0 then ''DelegationRevokeDst'' else ''DelegationSrc'')
       (if amount < 0 then ''DelegationRevokeSrc'' else ''DelegationDst'') d1 = Inr (tx, d')"
    "row = \<lparr>dt_id = pt_next_id p, dt_user_delegation = ud, dt_amount = amount, dt_created_at = ple_now env, dt_transaction = Some (tx_id tx)\<rparr>"
    "p' = p1\<lparr>pt_transactions := pt_transactions p1 @ [row]\<rparr>"
  using assms
  by (auto simp: create_delegation_row_def rbind_eq_Inr_iff Let_def split: option.split_asm if_split_asm)

lemma row_posting:
  assumes "create_delegation_row env ud amount p d = Inr (row, p', d')" "distinct (map ud_id (pt_delegations p))"
  obtains u pl where "find_delegation p ud = Some u" "ud_id u = ud" "find_pool p (ud_pool u) = Some pl" "posting env u amount p p'"
    "pt_revokes p' = pt_revokes p" "pt_accesses p' = pt_accesses p"
    "column_fits BALANCE_MAX_DIGITS (ud_balance u + amount)" "0 \<le> ud_balance u + amount" "0 \<le> pl_filled_capacity pl + amount"
    "pl_filled_capacity pl + amount \<le> pl_capacity pl + pl_revoked_capacity pl + (if amount < 0 then amount else 0)"
proof -
  from assms(1) obtain p1 where b: "update_balance env ud amount (p\<lparr>pt_next_id := Suc (pt_next_id p)\<rparr>) = Inr p1"
    and p': "p' = p1\<lparr>pt_transactions := pt_transactions p1 @ [row]\<rparr>" and row: "dt_user_delegation row = ud" "dt_amount row = amount"
    by (auto elim!: create_delegation_row_Inr)
  from b obtain u pl where u: "find_delegation p ud = Some u" and pl: "find_pool p (ud_pool u) = Some pl"
    and p1: "p1 = put_pool (move_capacity amount) (ud_pool u) (put_delegation (move_balance env amount) ud (p\<lparr>pt_next_id := Suc (pt_next_id p)\<rparr>))"
    and k: "column_fits BALANCE_MAX_DIGITS (ud_balance u + amount)" "0 \<le> ud_balance u + amount" "0 \<le> pl_filled_capacity pl + amount"
      "pl_filled_capacity pl + amount \<le> pl_capacity pl + pl_revoked_capacity pl + (if amount < 0 then amount else 0)"
    by (rule update_balance_Inr) (simp add: find_delegation_def find_pool_def)
  have id: "ud_id u = ud" using find_SomeD [OF u [unfolded find_delegation_def]] by simp
  have "posting env u amount p p'"
    using row by (simp add: posting_def p' p1 put_pool_def put_delegation_def id)
  moreover have "pt_revokes p' = pt_revokes p" "pt_accesses p' = pt_accesses p"
    by (simp_all add: p' p1 put_pool_def put_delegation_def)
  ultimately show ?thesis using that u id pl k by blast
qed

lemma column_balance_field: "column_fits BALANCE_MAX_DIGITS x \<Longrightarrow> on_grid MAX_PRECISION x \<Longrightarrow> balance_field x"
  by (simp add: column_fits_def balance_field_def fits_def money_constants MAX_PRECISION_def)

lemma total_revoked_same:
  assumes "pt_revokes p' = pt_revokes p" "\<And>j. pool_of_delegation p' j = pool_of_delegation p j"
  shows "total_revoked p' i = total_revoked p i" "open_revokes p' j = open_revokes p j"
  using assms by (simp_all add: total_revoked_def open_revokes_def)

lemma delegation_balance: "pool_inv p \<Longrightarrow> find_delegation p j = Some u \<Longrightarrow> balance_field (ud_balance u) \<and> delegation_ok p u \<and> ud_id u = j"
  using find_SomeD [of "\<lambda>x. ud_id x = j" "pt_delegations p" u]
  by (auto simp: pool_inv_def list_all_iff delegation_ok_def find_delegation_def)

lemma row_keeps:
  assumes c: "create_delegation_row env ud amount p d = Inr (row, p', d')" and p: "pool_inv p"
    and a: "0 < amount" "on_grid MAX_PRECISION amount"
  shows "pool_inv p'"
proof -
  have "distinct (map ud_id (pt_delegations p))" using p by (simp add: pool_inv_def pool_ids_def)
  with c obtain u pl where u: "find_delegation p ud = Some u" "ud_id u = ud" "find_pool p (ud_pool u) = Some pl"
    and post: "posting env u amount p p'" and r: "pt_revokes p' = pt_revokes p"
    and k: "column_fits BALANCE_MAX_DIGITS (ud_balance u + amount)" "0 \<le> pl_filled_capacity pl + amount"
      "pl_filled_capacity pl + amount \<le> pl_capacity pl + pl_revoked_capacity pl + (if amount < 0 then amount else 0)"
    by (rule row_posting)
  note rev = total_revoked_same [OF r posting_finds(3) [OF post]]
  have "balance_field (ud_balance u + amount)"
    using column_balance_field [OF k(1)] delegation_balance [OF p u(1)] a(2) balance_field_grid by blast
  moreover have "list_all request_ok (pt_revokes p)" using p by (simp add: pool_inv_def)
  ultimately show ?thesis
    using posting_keeps [OF post p _ u(3)] u(1,2) k(2,3) a(1) by (simp add: r rev)
qed

lemma request_row: "pool_inv p \<Longrightarrow> r \<in> set (pt_revokes p) \<Longrightarrow> request_ok r"
  by (simp add: pool_inv_def list_all_iff)

text \<open>Paying a request.\<close>

lemma settle_keeps:
  assumes c: "settle_delegation_revoke_request env r p d = Inr (p', d')" and p: "pool_inv p"
    and r: "r \<in> set (pt_revokes p)" "rv_status r = RevokeNew"
  shows "pool_inv p' \<and> pool_of_delegation p' j = pool_of_delegation p j
    \<and> (\<forall>x \<in> set (pt_revokes p). rv_id x \<noteq> rv_id r \<longrightarrow> x \<in> set (pt_revokes p'))"
proof -
  define pay where "pay i x = x\<lparr>rv_status := RevokePaid, rv_delegation_transaction := Some i\<rparr>" for i and x :: revoke_request
  have rq: "0 \<le> rv_amount r" "on_grid MAX_PRECISION (rv_amount r)" "dneg (rv_amount r) = - rv_amount r"
    using request_row [OF p r(1)] by (simp_all add: request_ok_def dneg_def)
  from c obtain row p1 where c1: "create_delegation_row env (rv_user_delegation r) (- rv_amount r) p d = Inr (row, p1, d')"
    and p': "p' = put_revoke (pay (dt_id row)) (rv_id r) p1"
    unfolding settle_delegation_revoke_request_def rbind_eq_Inr_iff rq(3) pay_def by auto
  have ids: "distinct (map ud_id (pt_delegations p))" "distinct (map rv_id (pt_revokes p))"
    using p by (simp_all add: pool_inv_def pool_ids_def)
  from c1 ids(1) obtain u pl where u: "find_delegation p (rv_user_delegation r) = Some u" "ud_id u = rv_user_delegation r"
      "find_pool p (ud_pool u) = Some pl"
    and post: "posting env u (- rv_amount r) p p1" and rv: "pt_revokes p1 = pt_revokes p"
    and k: "column_fits BALANCE_MAX_DIGITS (ud_balance u + - rv_amount r)" "0 \<le> pl_filled_capacity pl + - rv_amount r"
      "pl_filled_capacity pl + - rv_amount r \<le> pl_capacity pl + pl_revoked_capacity pl + (if - rv_amount r < 0 then - rv_amount r else 0)"
    by (rule row_posting)
  have post: "posting env u (- rv_amount r) p p'"
    using post by (simp add: posting_def p' put_revoke_def)
  note finds = posting_finds [OF post]
  have rv': "pt_revokes p' = map (\<lambda>x. if rv_id x = rv_id r then pay (dt_id row) x else x) (pt_revokes p)"
    by (simp add: p' put_revoke_def rv)
  have f: "find (\<lambda>x. rv_id x = rv_id r) (pt_revokes p) = Some r" by (rule find_by_key [OF ids(2) r(1)])
  have open': "open_revokes p' j = open_revokes p j + (if j = ud_id u \<and> - rv_amount r < 0 then - rv_amount r else 0)" for j
    unfolding open_revokes_eq rv' using r(2) rq(1) u(2)
    by (subst sum_list_put [OF ids(2) f]) (auto simp: pay_def)
  have total': "total_revoked p' i = total_revoked p i + (if i = ud_pool u \<and> - rv_amount r < 0 then - rv_amount r else 0)" for i
    unfolding total_revoked_def rv' finds(3) using r(2) rq(1) u(1)
    by (subst sum_list_put [OF ids(2) f]) (auto simp: pay_def pool_of_delegation_def)
  have "map rv_id (pt_revokes p') = map rv_id (pt_revokes p)" "map rv_user_delegation (pt_revokes p') = map rv_user_delegation (pt_revokes p)"
    by (simp_all add: rv' pay_def)
  moreover have "list_all request_ok (pt_revokes p')"
    using p by (auto simp: rv' pool_inv_def list_all_iff request_ok_def pay_def)
  moreover have "balance_field (ud_balance u + - rv_amount r)"
    by (rule column_balance_field) (use k(1) delegation_balance [OF p u(1)] rq(2) balance_field_grid in \<open>simp_all add: on_grid_diff\<close>)
  ultimately have "pool_inv p'"
    using posting_keeps [OF post p _ u(3)] u(1,2) k(2,3) open' total' by simp
  moreover have "x \<in> set (pt_revokes p')" if "x \<in> set (pt_revokes p)" "rv_id x \<noteq> rv_id r" for x
    using that by (force simp: rv')
  ultimately show ?thesis using finds(3) by blast
qed

text \<open>A check that raises leaves the tables of the pools alone.\<close>

lemma check_settlement_cases:
  assumes "check_settlement env r p d = (x, p', d')"
  shows "(\<exists>e. x = Inl e \<and> p' = p) \<or> (\<exists>d1. settle_delegation_revoke_request env r p d1 = Inr (p', d'))"
  using assms by (auto simp: check_settlement_def split: option.split_asm prod.split_asm sum.split_asm if_split_asm)

definition payable :: "pool_tables \<Rightarrow> revoke_request list \<Rightarrow> bool" where
  "payable p rs \<longleftrightarrow> distinct (map rv_id rs) \<and> (\<forall>r \<in> set rs. r \<in> set (pt_revokes p) \<and> rv_status r = RevokeNew)"

definition others_kept :: "revoke_request list \<Rightarrow> pool_tables \<Rightarrow> pool_tables \<Rightarrow> bool" where
  "others_kept rs p p' \<longleftrightarrow> (\<forall>x \<in> set (pt_revokes p). rv_id x \<notin> rv_id ` set rs \<longrightarrow> x \<in> set (pt_revokes p'))
     \<and> (\<forall>j. pool_of_delegation p' j = pool_of_delegation p j)"

lemma settle_requests_keeps:
  assumes "settle_requests env rs p d = (p', d')" "pool_inv p" "payable p rs"
  shows "pool_inv p' \<and> others_kept rs p p'"
  using assms
proof (induction rs arbitrary: p d)
  case (Cons r rs)
  obtain x p1 d1 where c: "check_settlement env r p d = (x, p1, d1)" by (rule prod_cases3)
  show ?case
  proof (cases x)
    case (Inl e)
    with Cons.prems(1) c have "p' = p1" by simp
    moreover have "p1 = p \<or> (\<exists>d0. settle_delegation_revoke_request env r p d0 = Inr (p1, d1))"
      using check_settlement_cases [OF c] by blast
    ultimately show ?thesis
      using settle_keeps [OF _ Cons.prems(2), of env r _ p1 d1] Cons.prems(2,3) by (auto simp: payable_def others_kept_def)
  next
    case (Inr u)
    then obtain d0 where s: "settle_delegation_revoke_request env r p d0 = Inr (p1, d1)"
      using check_settlement_cases [OF c] by blast
    have k: "pool_inv p1" "pool_of_delegation p1 j = pool_of_delegation p j"
      "\<forall>x \<in> set (pt_revokes p). rv_id x \<noteq> rv_id r \<longrightarrow> x \<in> set (pt_revokes p1)" for j
      using settle_keeps [OF s Cons.prems(2)] Cons.prems(3) by (auto simp: payable_def)
    have "payable p1 rs" using Cons.prems(3) k(3) by (auto simp: payable_def image_iff)
    moreover have "settle_requests env rs p1 d1 = (p', d')" using Cons.prems(1) c Inr by simp
    ultimately show ?thesis using Cons.IH [OF _ k(1)] k(2,3) by (fastforce simp: others_kept_def)
  qed
qed (simp add: others_kept_def)

lemma new_requests_payable: "pool_inv p \<Longrightarrow> payable p (new_requests k p)"
proof -
  assume p: "pool_inv p"
  have "distinct (filter Q (pt_revokes p)) \<and> inj_on rv_id (set (filter Q (pt_revokes p)))" for Q
    using p distinct_map_filter [of rv_id "pt_revokes p" Q] unfolding pool_inv_def pool_ids_def distinct_map by blast
  then have "distinct (map rv_id (new_requests k p))"
    unfolding new_requests_def distinct_map set_sort distinct_sort .
  then show ?thesis by (simp add: payable_def new_requests_def)
qed

text \<open>The loop over the pools: the requests of one pool are the others of the next one.\<close>

definition settle_pool ::
    "pool_env \<Rightarrow> (revoke_request \<Rightarrow> nat option) \<Rightarrow> revoke_request list \<Rightarrow> nat \<Rightarrow> pool_tables \<times> 'a db_scheme \<Rightarrow> pool_tables \<times> 'a db_scheme" where
  "settle_pool env f rs i = (\<lambda>(p, d). settle_requests env (filter (\<lambda>r. f r = Some i) rs) p d)"

text \<open>The pools in \<open>B\<close> are those whose run changes no table.\<close>

lemma settle_pools_keeps:
  fixes d :: "'a db_scheme"
  assumes "fold (settle_pool env f rs) is (p, d) = (p', d')" "pool_inv p" "distinct is" "\<forall>i \<in> set is. payable p (filter (\<lambda>r. f r = Some i) rs)"
    "distinct (map rv_id rs)" "\<forall>i \<in> B. \<forall>s :: pool_tables \<times> 'a db_scheme. fst (settle_pool env f rs i s) = fst s"
  shows "pool_inv p' \<and> others_kept (filter (\<lambda>r. \<exists>i \<in> set is - B. f r = Some i) rs) p p'"
  using assms
proof (induction "is" arbitrary: p d)
  case (Cons i "is")
  define own where "own j = filter (\<lambda>r. f r = Some j) rs" for j
  define own' where "own' = (if i \<in> B then [] else own i)"
  obtain p1 d1 where s: "settle_pool env f rs i (p, d) = (p1, d1)" by (rule prod.exhaust)
  have k: "pool_inv p1" "others_kept own' p p1"
  proof -
    have "settle_requests env (own i) p d = (p1, d1)" using s by (simp add: settle_pool_def own_def)
    from settle_requests_keeps [OF this Cons.prems(2)] Cons.prems(4) have o: "pool_inv p1" "others_kept (own i) p p1"
      by (simp_all add: own_def)
    show "pool_inv p1" by (rule o(1))
    have b: "p1 = p" if "i \<in> B"
    proof -
      have "fst (settle_pool env f rs i (p, d)) = fst (p, d)" using Cons.prems(6) that by blast
      then show ?thesis unfolding s by simp
    qed
    show "others_kept own' p p1"
    proof (cases "i \<in> B")
      case True
      with b have "p1 = p" by blast
      with True show ?thesis by (simp add: own'_def others_kept_def)
    qed (use o(2) in \<open>simp add: own'_def\<close>)
  qed
  have ids: "rv_id r \<notin> rv_id ` set own'" if "r \<in> set rs" "f r \<noteq> Some i" for r
    using that Cons.prems(5) by (auto simp: own'_def own_def distinct_map dest: inj_onD)
  have "payable p1 (own j)" if j: "j \<in> set is" for j
  proof -
    have "payable p (own j)" "j \<noteq> i" using Cons.prems(3,4) j by (auto simp: own_def)
    then show ?thesis using k(2) ids by (auto simp: payable_def others_kept_def own_def)
  qed
  moreover have "fold (settle_pool env f rs) is (p1, d1) = (p', d')" using Cons.prems(1) s by simp
  ultimately have IH: "pool_inv p'" "others_kept (filter (\<lambda>r. \<exists>i \<in> set is - B. f r = Some i) rs) p1 p'"
    using Cons.IH [OF _ k(1)] Cons.prems(3,5,6) by (simp_all add: own_def)
  have "others_kept (filter (\<lambda>r. \<exists>j \<in> set (i # is) - B. f r = Some j) rs) p p'"
    unfolding others_kept_def
  proof (intro conjI ballI impI allI)
    fix x assume x: "x \<in> set (pt_revokes p)" and o: "rv_id x \<notin> rv_id ` set (filter (\<lambda>r. \<exists>j \<in> set (i # is) - B. f r = Some j) rs)"
    have "rv_id x \<notin> rv_id ` set own'" using o by (auto simp: own'_def own_def)
    then have "x \<in> set (pt_revokes p1)" using k(2) x by (simp add: others_kept_def)
    moreover have "rv_id x \<notin> rv_id ` set (filter (\<lambda>r. \<exists>j \<in> set is - B. f r = Some j) rs)" using o by auto
    ultimately show "x \<in> set (pt_revokes p')" using IH(2) by (simp add: others_kept_def)
  next
    fix j show "pool_of_delegation p' j = pool_of_delegation p j" using IH(2) k(2) by (simp add: others_kept_def)
  qed
  with IH(1) show ?case by blast
qed (simp add: others_kept_def)

lemma check_requests_fold:
  "check_delegation_revoke_request env k p d =
     fold (settle_pool env (\<lambda>r. pool_of_delegation p (rv_user_delegation r)) (new_requests k p)) (pools_in_order p (new_requests k p)) (p, d)"
  by (simp add: check_delegation_revoke_request_def settle_pool_def [abs_def] case_prod_unfold Let_def)

lemma check_requests_keeps:
  assumes "check_delegation_revoke_request env k p d = (p', d')" "pool_inv p"
  shows "pool_inv p'"
proof -
  note pay = new_requests_payable [OF assms(2), of k]
  have "payable p (filter Q (new_requests k p))" for Q using pay by (auto simp: payable_def distinct_map_filter)
  moreover have "distinct (map rv_id (new_requests k p))" "distinct (pools_in_order p (new_requests k p))"
    using pay by (simp_all add: payable_def pools_in_order_def)
  ultimately show ?thesis using settle_pools_keeps [OF assms(1) [unfolded check_requests_fold] assms(2), of "{}"] by blast
qed

text \<open>Delegating. The precisions of the environment have at most ten decimal places.\<close>

definition fine_precisions :: "pool_env \<Rightarrow> bool" where
  "fine_precisions env \<longleftrightarrow> (\<forall>c. MAX_PRECISION \<le> dexp (ple_precision env c))"

lemma quantize_number_grid:
  assumes "quantize_number x pr m = Inr y" "MAX_PRECISION \<le> dexp pr"
  shows "on_grid MAX_PRECISION y \<and> ctx y = y"
proof (cases "1 \<le> rep_value pr")
  case True
  then obtain n where y: "y = dmul (of_int n) (rep_value pr)"
    using assms(1) by (auto simp: quantize_number_def rbind_eq_Inr_iff to_integral_def quantize_value_def)
  have "on_grid MAX_PRECISION (rep_value pr)"
    by (rule on_grid_coarser [OF _ assms(2)]) (auto simp: on_grid_iff rep_value_def)
  then have "on_grid MAX_PRECISION (of_int n * rep_value pr)"
    by (auto simp: on_grid_iff) (metis mult.assoc of_int_mult)
  then show ?thesis by (simp add: y dmul_def on_grid_ctx)
next
  case False
  then have q: "quantize m (dexp pr) x = Inr y" using assms(1) by (simp add: quantize_number_def)
  from quantize_on_grid [OF q] quantize_ctx_fixed [OF q] on_grid_coarser [OF _ assms(2)] show ?thesis by blast
qed

lemma find_delegation_fresh:
  "pool_ids p \<Longrightarrow> find_delegation p (pt_next_id p) = None"
  unfolding find_delegation_def find_None_iff pool_ids_def by (metis UnI1 imageI less_irrefl)

lemma find_delegation_new:
  assumes "new_delegation env i user p = (u, p1)" "pool_ids p"
  shows "find_delegation p1 j = (if j = pt_next_id p then Some u else find_delegation p j)"
proof -
  have "find Q (xs @ [x]) = (case find Q xs of Some y \<Rightarrow> Some y | None \<Rightarrow> if Q x then Some x else None)" for Q xs and x :: user_delegation
    by (induction xs) auto
  then show ?thesis using assms(1) find_delegation_fresh [OF assms(2)]
    by (auto simp: new_delegation_def Let_def find_delegation_def split: option.split)
qed

lemma new_delegation_sums:
  assumes n: "new_delegation env i user p = (u, p1)" and ids: "pool_ids p"
  shows "total_filled p1 k = total_filled p k" "total_revoked p1 k = total_revoked p k"
    "delegated p1 (ud_id u) = 0" "open_revokes p1 (ud_id u) = 0" "delegated p1 j = delegated p j" "open_revokes p1 j = open_revokes p j"
proof -
  have u: "ud_id u = pt_next_id p" "ud_balance u = 0" and p1: "pt_delegations p1 = pt_delegations p @ [u]"
    "pt_transactions p1 = pt_transactions p" "pt_revokes p1 = pt_revokes p"
    using n by (auto simp: new_delegation_def Let_def)
  show "total_filled p1 k = total_filled p k" by (simp add: total_filled_def p1 u)
  have fresh: "rv_user_delegation r \<noteq> pt_next_id p" if "r \<in> set (pt_revokes p)" for r
  proof -
    have "find_delegation p (rv_user_delegation r) \<noteq> None" using ids that unfolding pool_ids_def by blast
    then show ?thesis using find_delegation_fresh [OF ids] by metis
  qed
  have fresh_t: "dt_user_delegation t \<noteq> pt_next_id p" if "t \<in> set (pt_transactions p)" for t
  proof -
    have "find_delegation p (dt_user_delegation t) \<noteq> None" using ids that unfolding pool_ids_def by blast
    then show ?thesis using find_delegation_fresh [OF ids] by metis
  qed
  show "total_revoked p1 k = total_revoked p k"
    unfolding total_revoked_def p1 pool_of_delegation_def find_delegation_new [OF n ids]
    by (rule arg_cong [where f = sum_list], rule map_cong) (use fresh in auto)
  show "delegated p1 j = delegated p j" "open_revokes p1 j = open_revokes p j" for j
    by (simp_all add: delegated_def open_revokes_def p1)
  have z: "map (\<lambda>t. if dt_user_delegation t = pt_next_id p then dt_amount t else 0) (pt_transactions p) = map (\<lambda>_. 0) (pt_transactions p)"
    using fresh_t by auto
  show "delegated p1 (ud_id u) = 0"
    unfolding delegated_def p1 u(1) z by simp
  show "open_revokes p1 (ud_id u) = 0"
    using fresh by (simp add: open_revokes_def p1 u filter_False)
qed

lemma new_delegation_keeps:
  assumes n: "new_delegation env i user p = (u, p1)" and p: "pool_inv p" and i: "find_pool p i \<noteq> None"
  shows "pool_inv p1"
proof -
  have ids: "pool_ids p" using p by (simp add: pool_inv_def)
  note sums = new_delegation_sums [OF n ids]
  have u: "ud_id u = pt_next_id p" "ud_balance u = 0" "ud_pool u = i" and p1: "pt_delegations p1 = pt_delegations p @ [u]"
    "pt_transactions p1 = pt_transactions p" "pt_revokes p1 = pt_revokes p" "pt_pools p1 = pt_pools p" "pt_next_id p1 = Suc (pt_next_id p)"
    using n by (auto simp: new_delegation_def Let_def)
  have f: "find_pool p1 k = find_pool p k" for k by (simp add: find_pool_def p1)
  have "pool_ids p1"
    using ids i unfolding pool_ids_def find_delegation_new [OF n ids] f p1 u
    by (auto simp: u less_SucI)
  moreover have "delegation_ok p1 x" if "x \<in> set (pt_delegations p1)" for x
  proof (cases "x = u")
    case True
    then show ?thesis
      using sums(3,4) by (simp add: delegation_ok_def u(2) balance_field_def fits_def)
  next
    case False
    then have "delegation_ok p x" using that p by (simp add: p1 pool_inv_def list_all_iff)
    then show ?thesis by (simp add: delegation_ok_def sums(5,6))
  qed
  moreover have "list_all (capacity_ok p1) (pt_pools p1)"
    using p by (simp add: p1 pool_inv_def list_all_iff capacity_ok_def sums(1,2))
  ultimately show ?thesis using p by (simp add: pool_inv_def list_all_iff p1)
qed

lemma get_or_create_keeps:
  assumes g: "get_or_create_delegation env i user p = (u, p1)" and p: "pool_inv p" and i: "find_pool p i \<noteq> None"
  shows "pool_inv p1 \<and> u \<in> set (pt_delegations p1) \<and> find_delegation p1 (ud_id u) = Some u \<and> ud_pool u = i \<and> ud_user u = user
    \<and> pt_pools p1 = pt_pools p"
proof (cases "find (open_delegation i user) (pt_delegations p)")
  case None
  then have n: "new_delegation env i user p = (u, p1)" using g by (simp add: get_or_create_delegation_def)
  from new_delegation_keeps [OF n p i] have k: "pool_inv p1" .
  have "u \<in> set (pt_delegations p1)" "ud_pool u = i" "ud_user u = user" "pt_pools p1 = pt_pools p"
    using n by (auto simp: new_delegation_def Let_def)
  moreover have "find_delegation p1 (ud_id u) = Some u"
    using k \<open>u \<in> set (pt_delegations p1)\<close> unfolding find_delegation_def by (intro find_by_key) (simp_all add: pool_inv_def pool_ids_def)
  ultimately show ?thesis using k by simp
next
  case (Some v)
  then have "u = v" "p1 = p" using g by (simp_all add: get_or_create_delegation_def)
  moreover have "find_delegation p (ud_id v) = Some v"
    unfolding find_delegation_def using p find_SomeD [OF Some] by (intro find_by_key) (simp_all add: pool_inv_def pool_ids_def)
  ultimately show ?thesis using p find_SomeD [OF Some] by (simp add: open_delegation_def)
qed

text \<open>Delegating without its fuss.\<close>

lemma create_delegation_Inr:
  assumes "create_delegation env pl user amount p d = Inr (k, p', d')"
  obtains q u p1 row where "quantize_number amount (ple_precision env (pl_currency pl)) ROUND_DOWN = Inr q" "\<not> money_is_zero q"
    "q \<le> unfilled_capacity pl" "get_or_create_delegation env (pl_id pl) (pu_id user) p = (u, p1)" "k = ud_id u"
    "\<not> has_unpaid_revoke (pl_id pl) (pu_id user) p1" "create_delegation_row env (ud_id u) q p1 d = Inr (row, p', d')"
  using assms
  by (auto simp: create_delegation_def rbind_eq_Inr_iff not_less split: if_split_asm prod.split_asm)

lemma create_delegation_keeps:
  assumes c: "create_delegation env pl user amount p d = Inr (k, p', d')" and p: "pool_inv p" and f: "fine_precisions env"
    and i: "find_pool p (pl_id pl) \<noteq> None"
  shows "pool_inv p'"
  using c
proof (rule create_delegation_Inr)
  fix q u p1 row
  assume q: "quantize_number amount (ple_precision env (pl_currency pl)) ROUND_DOWN = Inr q" "\<not> money_is_zero q"
    and g: "get_or_create_delegation env (pl_id pl) (pu_id user) p = (u, p1)" and r: "create_delegation_row env (ud_id u) q p1 d = Inr (row, p', d')"
  have "on_grid MAX_PRECISION q" using quantize_number_grid [OF q(1)] f by (simp add: fine_precisions_def)
  with row_keeps [OF r] get_or_create_keeps [OF g p i] not_money_is_zero_pos [OF q(2)] show ?thesis by simp
qed

lemma delegate_post_Inr:
  assumes "pool_delegate_post env user i am p d = Inr (k, p', d')"
  obtains pl a where "find_pool p i = Some pl" "pl_id pl = i" "pl_is_active pl" "create_delegation env pl user a p d = Inr (k, p', d')"
proof -
  from assms obtain a where a: "(case find_pool p i of None \<Rightarrow> Inl (ApiError ''NotFound'') | Some pl \<Rightarrow>
      if \<not> pl_is_active pl then Inl (ApiError ''NotFound'')
      else (case create_delegation env pl user (the a) p d of Inl e \<Rightarrow> Inl (delegate_error e) | Inr r \<Rightarrow> Inr r)) = Inr (k, p', d')"
    unfolding pool_delegate_post_def rbind_eq_Inr_iff by blast
  then obtain pl where "find_pool p i = Some pl" "pl_is_active pl" "create_delegation env pl user (the a) p d = Inr (k, p', d')"
    by (cases "find_pool p i") (auto split: if_split_asm sum.split_asm)
  with that find_SomeD [of "\<lambda>x. pl_id x = i" "pt_pools p" pl] show ?thesis by (auto simp: find_pool_def)
qed

text \<open>Asking back.\<close>

lemma revoke_request_Inr:
  assumes "create_delegation_revoke_request env pl u amount p = Inr (r, p')"
  obtains q where "quantize ROUND_DOWN (dexp (ple_precision env (pl_currency pl))) amount = Inr q" "q \<le> maximum_withdrawal_amount p u"
    "r = \<lparr>rv_id = pt_next_id p, rv_amount = q, rv_created_at = ple_now env, rv_status = RevokeNew,
                   rv_delegation_transaction = None, rv_user_delegation = ud_id u\<rparr>"
    "update_revoke_capacity (ud_pool u) q (p\<lparr>pt_revokes := pt_revokes p @ [r], pt_next_id := Suc (pt_next_id p)\<rparr>) = Inr p'"
  using assms
  by (auto simp: create_delegation_revoke_request_def rbind_eq_Inr_iff Let_def not_less split: if_split_asm)

lemma open_revokes_field:
  assumes p: "pool_inv p" and u: "u \<in> set (pt_delegations p)"
  shows "balance_field (open_revokes p (ud_id u)) \<and> balance_field (ud_balance u) \<and> open_revokes p (ud_id u) \<le> ud_balance u"
proof -
  have ok: "delegation_ok p u" using p u by (simp add: pool_inv_def list_all_iff)
  have r: "request_ok x" if "x \<in> set (pt_revokes p)" for x using p that by (simp add: pool_inv_def list_all_iff)
  have "0 \<le> open_revokes p (ud_id u)"
    unfolding open_revokes_def using r by (intro sum_list_nonneg) (auto simp: request_ok_def)
  moreover have "on_grid e (sum_list xs)" if "\<forall>x \<in> set xs. on_grid e x" for e xs using that by (induction xs) auto
  then have "on_grid MAX_PRECISION (open_revokes p (ud_id u))"
    unfolding open_revokes_def using r by (auto simp: request_ok_def)
  ultimately show ?thesis
    using ok by (auto simp: delegation_ok_def balance_field_def fits_def money_constants MAX_PRECISION_def abs_less_iff)
qed

definition add_revoke :: "revoke_request \<Rightarrow> pool \<Rightarrow> pool" where
  "add_revoke r x = x\<lparr>pl_revoked_capacity := pl_revoked_capacity x + rv_amount r\<rparr>"

lemma added_request_keeps:
  assumes p: "pool_inv p" and u: "find_delegation p (ud_id u) = Some u" and r: "request_ok r" "rv_status r = RevokeNew"
      "rv_user_delegation r = ud_id u" "rv_id r = pt_next_id p"
    and le: "open_revokes p (ud_id u) + rv_amount r \<le> ud_balance u"
  shows "pool_inv (put_pool (add_revoke r) (ud_pool u) (p\<lparr>pt_revokes := pt_revokes p @ [r], pt_next_id := Suc (pt_next_id p)\<rparr>))"
proof -
  define p' where "p' = put_pool (add_revoke r) (ud_pool u) (p\<lparr>pt_revokes := pt_revokes p @ [r], pt_next_id := Suc (pt_next_id p)\<rparr>)"
  have ids: "pool_ids p" and du: "distinct (map ud_id (pt_delegations p))" using p by (simp_all add: pool_inv_def pool_ids_def)
  have sel: "pt_delegations p' = pt_delegations p" "pt_transactions p' = pt_transactions p" "pt_revokes p' = pt_revokes p @ [r]"
    "pt_next_id p' = Suc (pt_next_id p)" "pt_pools p' = map (\<lambda>x. if pl_id x = ud_pool u then add_revoke r x else x) (pt_pools p)"
    by (simp_all add: p'_def put_pool_def)
  have ar: "pl_id (add_revoke r x) = pl_id x" for x by (simp add: add_revoke_def)
  have fd: "find_delegation p' j = find_delegation p j" for j by (simp add: find_delegation_def sel)
  have fp: "find_pool p' i \<noteq> None \<longleftrightarrow> find_pool p i \<noteq> None" for i by (simp add: find_pool_def sel find_map_put ar)
  have fresh: "pt_next_id p \<notin> rv_id ` set (pt_revokes p)" using ids unfolding pool_ids_def by (metis UnI2 less_irrefl)
  have "pool_ids p'"
    using ids u fresh unfolding pool_ids_def fd fp sel r(3) by (auto simp: ar r comp_def if_distrib less_SucI cong: if_cong)
  moreover have "delegation_ok p' x" if "x \<in> set (pt_delegations p')" for x
  proof -
    have x: "x \<in> set (pt_delegations p)" using that by (simp add: sel)
    then have "delegation_ok p x" using p by (simp add: pool_inv_def list_all_iff)
    moreover have "ud_id x = ud_id u \<longrightarrow> x = u"
      using find_by_key [OF du x] u unfolding find_delegation_def by (metis option.inject)
    ultimately show ?thesis
      using le r by (cases "ud_id x = ud_id u") (simp_all add: delegation_ok_def delegated_def open_revokes_def sel)
  qed
  moreover have "capacity_ok p' x" if "x \<in> set (pt_pools p')" for x
  proof -
    from that obtain y where y: "y \<in> set (pt_pools p)" "x = (if pl_id y = ud_pool u then add_revoke r y else y)"
      by (auto simp: sel)
    have "capacity_ok p y" using p y(1) by (simp add: pool_inv_def list_all_iff)
    moreover have "total_revoked p' i = total_revoked p i + (if i = ud_pool u then rv_amount r else 0)" for i
      using u r by (simp add: total_revoked_def sel pool_of_delegation_def fd)
    moreover have "total_filled p' i = total_filled p i" for i by (simp add: total_filled_def sel)
    ultimately show ?thesis
      using r(1) by (cases "pl_id y = ud_pool u") (simp_all add: y(2) capacity_ok_def add_revoke_def request_ok_def)
  qed
  moreover have "list_all request_ok (pt_revokes p')" using p r(1) by (simp add: pool_inv_def sel)
  ultimately show ?thesis unfolding p'_def [symmetric] by (simp add: pool_inv_def list_all_iff)
qed

lemma revoke_keeps:
  assumes c: "create_delegation_revoke_request env pl u amount p = Inr (r, p')" and p: "pool_inv p" and f: "fine_precisions env"
    and u: "find_delegation p (ud_id u) = Some u" and a: "0 \<le> amount"
  shows "pool_inv p'"
  using c
proof (rule revoke_request_Inr)
  fix q
  assume q: "quantize ROUND_DOWN (dexp (ple_precision env (pl_currency pl))) amount = Inr q" and le: "q \<le> maximum_withdrawal_amount p u"
    and r: "r = \<lparr>rv_id = pt_next_id p, rv_amount = q, rv_created_at = ple_now env, rv_status = RevokeNew,
                   rv_delegation_transaction = None, rv_user_delegation = ud_id u\<rparr>"
    and up: "update_revoke_capacity (ud_pool u) q (p\<lparr>pt_revokes := pt_revokes p @ [r], pt_next_id := Suc (pt_next_id p)\<rparr>) = Inr p'"
  have p': "p' = put_pool (add_revoke r) (ud_pool u) (p\<lparr>pt_revokes := pt_revokes p @ [r], pt_next_id := Suc (pt_next_id p)\<rparr>)"
    using up unfolding update_revoke_capacity_def save_pool_Inr by (auto simp: add_revoke_def r intro!: put_pool_cong)
  have "request_ok r"
    using quantize_nonneg [OF q a] quantize_on_grid [OF q] on_grid_coarser quantize_ctx_fixed [OF q] f
    by (auto simp: fine_precisions_def request_ok_def r)
  moreover have "u \<in> set (pt_delegations p)" using find_SomeD [OF u [unfolded find_delegation_def]] by simp
  from open_revokes_field [OF p this] le have "open_revokes p (ud_id u) + rv_amount r \<le> ud_balance u"
    by (simp add: maximum_withdrawal_amount_def balance_dsub r)
  ultimately show ?thesis unfolding p' by (intro added_request_keeps [OF p u]) (simp_all add: r)
qed

lemma revoke_post_Inr:
  assumes "pool_revoke_post env user i am p = Inr (r, p')"
  obtains a u pl where "parse_money True False None am = Inr (Some a)" "0 < a" "find_delegation p i = Some u" "ud_user u = pu_id user"
    "ud_closed_at u = None" "find_pool p (ud_pool u) = Some pl" "create_delegation_revoke_request env pl u a p = Inr (r, p')"
proof -
  from assms obtain x where x: "parse_money True False None am = Inr x"
    and c: "(case find_delegation p i of None \<Rightarrow> Inl (ApiError ''NotFound'') | Some u \<Rightarrow>
      if ud_user u \<noteq> pu_id user \<or> ud_closed_at u \<noteq> None then Inl (ApiError ''NotFound'')
      else (case find_pool p (ud_pool u) of None \<Rightarrow> Inl DoesNotExist | Some pl \<Rightarrow>
        if \<not> pl_is_active pl then Inl (ApiError ''PermissionDenied'')
        else (case create_delegation_revoke_request env pl u (the x) p of Inl e \<Rightarrow> Inl (revoke_error e) | Inr r \<Rightarrow> Inr r))) = Inr (r, p')"
    unfolding pool_revoke_post_def rbind_eq_Inr_iff by blast
  from parse_money_required [OF x] obtain a where a: "x = Some a" "0 < a" by blast
  from c obtain u where u: "find_delegation p i = Some u" "ud_user u = pu_id user" "ud_closed_at u = None"
    by (cases "find_delegation p i") (auto split: if_split_asm)
  with c obtain pl where "find_pool p (ud_pool u) = Some pl" "create_delegation_revoke_request env pl u a p = Inr (r, p')"
    by (cases "find_pool p (ud_pool u)") (auto simp: a split: if_split_asm sum.split_asm)
  with that x a u show ?thesis by blast
qed

subsection \<open>The machine\<close>

inductive pool_step :: "pool_tables \<times> 'a db_scheme \<Rightarrow> pool_tables \<times> 'a db_scheme \<Rightarrow> bool" where
  delegate: "pool_delegate_post env user i am p d = Inr (k, p', d') \<Longrightarrow> fine_precisions env \<Longrightarrow> pool_step (p, d) (p', d')"
| revoke: "pool_revoke_post env user i am p = Inr (r, p') \<Longrightarrow> fine_precisions env \<Longrightarrow> pool_step (p, d) (p', d)"
| pay: "check_delegation_revoke_request env k p d = (p', d') \<Longrightarrow> pool_step (p, d) (p', d')"

lemma pool_step_keeps: "pool_step s s' \<Longrightarrow> pool_inv (fst s) \<Longrightarrow> pool_inv (fst s')"
proof (induction rule: pool_step.induct)
  case (delegate env user i am p d k p' d')
  from delegate(1) obtain pl a where pl: "find_pool p i = Some pl" "pl_id pl = i"
    and c: "create_delegation env pl user a p d = Inr (k, p', d')"
    by (rule delegate_post_Inr)
  from create_delegation_keeps [OF c _ delegate(2)] pl delegate(3) show ?case by simp
next
  case (revoke env user i am p r p' d)
  from revoke(1) obtain a u pl where u: "0 < a" "find_delegation p i = Some u"
    and c: "create_delegation_revoke_request env pl u a p = Inr (r, p')"
    by (rule revoke_post_Inr)
  have "ud_id u = i" using find_SomeD [OF u(2) [unfolded find_delegation_def]] by simp
  with revoke_keeps [OF c _ revoke(2)] u revoke(3) show ?case by simp
next
  case (pay env k p d p' d')
  with check_requests_keeps show ?case by auto
qed

interpretation pool_machine: invariant_machine pool_step "\<lambda>s. pool_inv (fst s)"
  by unfold_locales (rule pool_step_keeps)

subsection \<open>The wallets\<close>

lemma pool_wallet_get:
  "pool_wallet env user c d = (w, d1) \<Longrightarrow> get_user_wallet (ple_DST_CURRENCIES env) d user c WSpot True = (Some w, d1)"
  by (auto simp: pool_wallet_def get_user_wallet_def Let_def split: option.split_asm)

lemma pool_wallet_sound: "sound_db d \<Longrightarrow> pool_wallet env user c d = (w, d1) \<Longrightarrow> sound_db d1 \<and> withdraws d1 = withdraws d"
  using get_user_wallet_keeps_sound pool_wallet_get by metis

lemma clean_delegation_wallets:
  "clean_delegation env pl u amount d = Inr d1 \<Longrightarrow> \<exists>user w. pool_wallet env user (pl_currency pl) d = (w, d1)"
  by (auto simp: clean_delegation_def split: if_split_asm prod.split_asm)

lemma transaction_grid:
  "create_transaction w tp a t rm ri neg = Inr (Some x) \<Longrightarrow> on_grid MAX_PRECISION (tx_amount (set_ref h r x))"
  using create_transaction_Some [of w tp a t rm ri neg x] quantize_on_grid by (auto simp: set_ref_def split: option.split)

lemma delegation_transaction_Inr:
  assumes "create_delegation_transaction env pl u amount i r1 r2 d = Inr (tx, d')"
  obtains src dst d1 d2 d3 x y y' where "pool_wallet env (ud_user u) (pl_currency pl) d = (src, d1)"
    "create_transaction src TxDelegate (dneg amount) (ple_now env) None None False = Inr (Some x)"
    "pool_wallet env (pl_manager pl) (pl_currency pl) d1 = (dst, d2)"
    "create_transaction dst TxDelegate amount (ple_now env) None None False = Inr (Some y)"
    "commit d2 (set_ref (ple_hash env) (Some (r1, i)) x) False = Inr (d3, tx)"
    "commit d3 (set_ref (ple_hash env) (Some (r2, i)) y) False = Inr (d', y')"
proof -
  obtain src d1 where s: "pool_wallet env (ud_user u) (pl_currency pl) d = (src, d1)" by (rule prod.exhaust)
  obtain dst d2 where t: "pool_wallet env (pl_manager pl) (pl_currency pl) d1 = (dst, d2)" by (rule prod.exhaust)
  from assms show ?thesis
    unfolding create_delegation_transaction_def s t prod.case rbind_eq_Inr_iff
    by (auto simp: commit_created_Inr rbind_eq_Inr_iff intro: that [OF s _ t])
qed

lemma row_sound:
  assumes c: "create_delegation_row env ud amount p d = Inr (row, p', d')" and d: "sound_db d"
  shows "sound_db d' \<and> withdraws d' = withdraws d"
  using c
proof (rule create_delegation_row_Inr)
  fix u pl d1 p1 tx
  assume cl: "clean_delegation env pl u amount d = Inr d1"
    and t: "create_delegation_transaction env pl u amount (pt_next_id p) (if amount < 0 then ''DelegationRevokeDst'' else ''DelegationSrc'')
       (if amount < 0 then ''DelegationRevokeSrc'' else ''DelegationDst'') d1 = Inr (tx, d')"
  from clean_delegation_wallets [OF cl] pool_wallet_sound [OF d] have d1: "sound_db d1" "withdraws d1 = withdraws d" by blast+
  show ?thesis
    using t
  proof (rule delegation_transaction_Inr)
    fix src dst e1 e2 e3 x y y'
    assume w: "pool_wallet env (ud_user u) (pl_currency pl) d1 = (src, e1)" "pool_wallet env (pl_manager pl) (pl_currency pl) e1 = (dst, e2)"
      and k: "create_transaction src TxDelegate (dneg amount) (ple_now env) None None False = Inr (Some x)"
        "create_transaction dst TxDelegate amount (ple_now env) None None False = Inr (Some y)"
      and c: "commit e2 (set_ref (ple_hash env) (Some (if amount < 0 then ''DelegationRevokeDst'' else ''DelegationSrc'', pt_next_id p)) x) False = Inr (e3, tx)"
        "commit e3 (set_ref (ple_hash env) (Some (if amount < 0 then ''DelegationRevokeSrc'' else ''DelegationDst'', pt_next_id p)) y) False = Inr (d', y')"
    from pool_wallet_sound [OF d1(1) w(1)] have e1: "sound_db e1" "withdraws e1 = withdraws d1" by simp_all
    from pool_wallet_sound [OF e1(1) w(2)] have e2: "sound_db e2" "withdraws e2 = withdraws e1" by simp_all
    from commit_keeps_sound [OF e2(1) c(1) transaction_grid [OF k(1)]] have e3: "sound_db e3" "withdraws e3 = withdraws e2" by simp_all
    from commit_keeps_sound [OF e3(1) c(2) transaction_grid [OF k(2)]] d1 e1 e2 e3 show ?thesis by simp
  qed
qed

lemma unblocked_wallet: "unblocked_balance env pl d = (b, d1) \<Longrightarrow> \<exists>w. pool_wallet env (pl_manager pl) (pl_currency pl) d = (w, d1)"
  by (auto simp: unblocked_balance_def Let_def split: prod.split_asm)

lemma check_settlement_sound:
  assumes c: "check_settlement env r p d = (x, p', d')" and d: "sound_db d"
  shows "sound_db d' \<and> withdraws d' = withdraws d"
proof (cases "find_delegation p (rv_user_delegation r)")
  case (Some u)
  show ?thesis
  proof (cases "find_pool p (ud_pool u)")
    case pl: (Some pl)
    obtain b d1 where b: "unblocked_balance env pl d = (b, d1)" by (rule prod.exhaust)
    with unblocked_wallet pool_wallet_sound [OF d] have d1: "sound_db d1" "withdraws d1 = withdraws d" by blast+
    have "d' = d1 \<or> settle_delegation_revoke_request env r p d1 = Inr (p', d')"
      using c by (auto simp: check_settlement_def Some pl b split: if_split_asm sum.split_asm)
    then show ?thesis
      using d1 row_sound [of env _ _ p d1] by (auto simp: settle_delegation_revoke_request_def rbind_eq_Inr_iff)
  qed (use c d Some in \<open>simp add: check_settlement_def\<close>)
qed (use c d in \<open>simp add: check_settlement_def\<close>)

lemma settle_requests_sound:
  "settle_requests env rs p d = (p', d') \<Longrightarrow> sound_db d \<Longrightarrow> sound_db d' \<and> withdraws d' = withdraws d"
proof (induction rs arbitrary: p d)
  case (Cons r rs)
  obtain x p1 d1 where c: "check_settlement env r p d = (x, p1, d1)" by (rule prod_cases3)
  from check_settlement_sound [OF c Cons.prems(2)] Cons.IH [of p1 d1] Cons.prems(1) c show ?case by (cases x) auto
qed simp

lemma settle_pools_sound:
  "fold (settle_pool env f rs) is (p, d) = (p', d') \<Longrightarrow> sound_db d \<Longrightarrow> sound_db d' \<and> withdraws d' = withdraws d"
proof (induction "is" arbitrary: p d)
  case (Cons i "is")
  obtain p1 d1 where s: "settle_pool env f rs i (p, d) = (p1, d1)" by (rule prod.exhaust)
  with settle_requests_sound Cons.prems(2) have "sound_db d1" "withdraws d1 = withdraws d" by (auto simp: settle_pool_def)
  with Cons.IH [of p1 d1] Cons.prems(1) s show ?case by simp
qed simp

lemma pool_step_sound: "pool_step s s' \<Longrightarrow> sound_db (snd s) \<Longrightarrow> sound_db (snd s') \<and> withdraws (snd s') = withdraws (snd s)"
proof (induction rule: pool_step.induct)
  case (delegate env user i am p d k p' d')
  from delegate(1) obtain pl a where "create_delegation env pl user a p d = Inr (k, p', d')" by (rule delegate_post_Inr)
  then obtain ud q p1 row where "create_delegation_row env ud q p1 d = Inr (row, p', d')" by (rule create_delegation_Inr)
  with row_sound delegate(3) show ?case by simp
next
  case (pay env k p d p' d')
  with settle_pools_sound [OF _ pay(2) [simplified]] show ?case by (simp add: check_requests_fold)
qed simp

end
