(* ===== verification/Pools_Claims.thy ===== *)
theory Pools_Claims
  imports Pools_Ledger
begin

section \<open>Properties of the pools\<close>

text \<open>
  The books of the pools after any run of the handlers, the money a delegation moves, and the
  revoke request that is never paid and blocks its pool.
\<close>

subsection \<open>The books\<close>

text \<open>C11: whatever users delegate and ask back and whenever requests are paid, the filled and the
  revoked capacity of a pool are the sums of its delegations and of its unpaid requests and stay
  within its capacity, and every delegation is the sum of its transactions and covers its
  unpaid requests.\<close>

theorem pool_books_sound:
  assumes run: "pool_step\<^sup>*\<^sup>* (p, d) (p', d')" and inv: "pool_inv p"
  shows "(\<forall>pl \<in> set (pt_pools p'). pl_filled_capacity pl = total_filled p' (pl_id pl) \<and> pl_revoked_capacity pl = total_revoked p' (pl_id pl)
       \<and> 0 \<le> pl_filled_capacity pl \<and> pl_filled_capacity pl \<le> pl_capacity pl + pl_revoked_capacity pl)
    \<and> (\<forall>u \<in> set (pt_delegations p'). ud_balance u = delegated p' (ud_id u) \<and> 0 \<le> open_revokes p' (ud_id u)
       \<and> open_revokes p' (ud_id u) \<le> ud_balance u)"
proof -
  have p': "pool_inv p'" using pool_machine.run_keeps [OF run] inv by simp
  have "0 \<le> open_revokes p' j" for j
    unfolding open_revokes_def using request_row [OF p'] by (intro sum_list_nonneg) (auto simp: request_ok_def)
  then show ?thesis using p' by (auto simp: pool_inv_def list_all_iff capacity_ok_def delegation_ok_def)
qed

subsection \<open>The money of a delegation\<close>

definition spot_balance :: "'a db_scheme \<Rightarrow> nat \<Rightarrow> nat \<Rightarrow> rat" where
  "spot_balance d user currency = (case wallet_for (wallets d) user currency WSpot of None \<Rightarrow> 0 | Some w \<Rightarrow> w_balance w)"

lemma wallet_for_append:
  "wallet_for (ws @ [w]) u c tp = (case wallet_for ws u c tp of Some v \<Rightarrow> Some v
     | None \<Rightarrow> if w_user w = u \<and> w_currency w = c \<and> w_type w = tp then Some w else None)"
  unfolding wallet_for_def by (induction ws) auto

lemma pool_wallet_effect:
  assumes "pool_wallet env user c d = (w, d1)" "ledger_inv d"
  shows "spot_balance d1 v k = spot_balance d v k" "total_of k d1 = total_of k d" "ledger_inv d1"
    "wallet_for (wallets d1) user c WSpot = Some w"
proof -
  note g = pool_wallet_get [OF assms(1)]
  show "total_of k d1 = total_of k d" by (rule get_user_wallet_total [OF g])
  show "ledger_inv d1" by (rule get_user_wallet_keeps_ledger_inv [OF assms(2) g])
  have n: "wallets d1 = wallets d @ (if wallet_for (wallets d) user c WSpot = None then [w] else [])" "w_user w = user"
    "w_currency w = c" "w_type w = WSpot" "wallet_for (wallets d) user c WSpot = None \<Longrightarrow> w_balance w = 0"
    "wallet_for (wallets d) user c WSpot \<noteq> None \<Longrightarrow> wallet_for (wallets d) user c WSpot = Some w"
    using g by (auto simp: get_user_wallet_def Let_def dest: wallet_for_Some split: option.split_asm)
  then show "wallet_for (wallets d1) user c WSpot = Some w" by (auto simp: wallet_for_append)
  show "spot_balance d1 v k = spot_balance d v k"
    using n by (auto simp: spot_balance_def wallet_for_append split: option.split)
qed

lemma wallet_for_put:
  assumes "\<And>w. w_user (f w) = w_user w \<and> w_currency (f w) = w_currency w \<and> w_type (f w) = w_type w"
  shows "wallet_for (put_wallet f i ws) u c tp = map_option (\<lambda>w. if w_id w = i then f w else w) (wallet_for ws u c tp)"
  unfolding wallet_for_def put_wallet_def by (induction ws) (auto simp: assms)

lemma commit_spot:
  assumes c: "commit d tx neg = Inr (d', tx')" and inv: "ledger_inv d" and w: "wallet_for (wallets d) u c WSpot = Some w" "tx_wallet tx = w_id w"
  shows "spot_balance d' v k = spot_balance d v k + (if v = u \<and> k = c then tx_amount tx else 0)"
    "total_of k d' = total_of k d + (if k = c then tx_amount tx else 0)" "ledger_inv d'"
proof -
  have dist: "distinct (map w_id (wallets d))" using inv by (simp add: ledger_inv_def)
  have row: "find_wallet (wallets d) (w_id w) = Some w" by (rule wallet_for_row [OF inv w(1)])
  have ws: "wallets d' = put_wallet (\<lambda>x. x\<lparr>w_balance := w_balance w + tx_amount tx\<rparr>) (w_id w) (wallets d)"
    using c row by (simp add: commit_Inr w(2))
  have same: "x = w" if "wallet_for (wallets d) v k WSpot = Some x" "w_id x = w_id w" for x
    using wallet_for_row [OF inv that(1)] that(2) row by simp
  have other: "wallet_for (wallets d) v k WSpot \<noteq> Some w" if "v \<noteq> u \<or> k \<noteq> c"
    using that wallet_for_Some [OF w(1)] wallet_for_Some [of "wallets d" v k WSpot w] by auto
  show "spot_balance d' v k = spot_balance d v k + (if v = u \<and> k = c then tx_amount tx else 0)"
  proof (cases "v = u \<and> k = c")
    case True
    then show ?thesis by (simp add: spot_balance_def ws wallet_for_put w(1))
  next
    case False
    then show ?thesis
      using same other by (cases "wallet_for (wallets d) v k WSpot") (auto simp: spot_balance_def ws wallet_for_put)
  qed
  show "total_of k d' = total_of k d + (if k = c then tx_amount tx else 0)"
    using commit_total(1) [OF c dist, of k] row wallet_for_Some [OF w(1)] by (simp add: currency_in_def w(2))
  show "ledger_inv d'" by (rule commit_keeps_ledger_inv [OF inv c])
qed

lemma set_ref_fields [simp]: "tx_wallet (set_ref h r x) = tx_wallet x" "tx_amount (set_ref h r x) = tx_amount x"
  by (simp_all add: set_ref_def split: option.split prod.split)

text \<open>A transaction of a delegation moves exactly its amount.\<close>

lemma delegation_row_money:
  assumes c: "create_delegation_row env ud amount p d = Inr (row, p', d')" and inv: "ledger_inv d"
    and a: "on_grid MAX_PRECISION amount" "ctx amount = amount"
    and u: "find_delegation p ud = Some u" and pl: "find_pool p (ud_pool u) = Some pl"
  shows "ledger_inv d' \<and> total_of k d' = total_of k d
    \<and> spot_balance d' v k = spot_balance d v k - (if v = ud_user u \<and> k = pl_currency pl then amount else 0)
        + (if v = pl_manager pl \<and> k = pl_currency pl then amount else 0)"
proof -
  from c u pl obtain d0 r1 r2 tx where cl: "clean_delegation env pl u amount d = Inr d0"
    and t: "create_delegation_transaction env pl u amount (pt_next_id p) r1 r2 d0 = Inr (tx, d')"
    by (auto elim!: create_delegation_row_Inr)
  from clean_delegation_wallets [OF cl] obtain v0 w where "pool_wallet env v0 (pl_currency pl) d = (w, d0)" by blast
  note e0 = pool_wallet_effect [OF this inv]
  from t obtain src dst d1 d2 d3 x y y' where w: "pool_wallet env (ud_user u) (pl_currency pl) d0 = (src, d1)"
      "pool_wallet env (pl_manager pl) (pl_currency pl) d1 = (dst, d2)"
    and k: "create_transaction src TxDelegate (dneg amount) (ple_now env) None None False = Inr (Some x)"
      "create_transaction dst TxDelegate amount (ple_now env) None None False = Inr (Some y)"
    and cm: "commit d2 (set_ref (ple_hash env) (Some (r1, pt_next_id p)) x) False = Inr (d3, tx)"
      "commit d3 (set_ref (ple_hash env) (Some (r2, pt_next_id p)) y) False = Inr (d', y')"
    by (rule delegation_transaction_Inr)
  note e1 = pool_wallet_effect [OF w(1) e0(3)] note e2 = pool_wallet_effect [OF w(2) e1(3)]
  have am: "tx_amount x = - amount" "tx_amount y = amount" "tx_wallet x = w_id src" "tx_wallet y = w_id dst"
    using create_transaction_Some [OF k(1)] create_transaction_Some [OF k(2)] a by (auto simp: quantize_Inr dneg_def quantize_value_fix)
  have src: "wallet_for (wallets d2) (ud_user u) (pl_currency pl) WSpot = Some src"
    using e1(4) pool_wallet_get [OF w(2)] by (auto simp: get_user_wallet_def Let_def wallet_for_append split: option.split_asm)
  note c1 = commit_spot [OF cm(1) e2(3) src, unfolded set_ref_fields am, OF refl]
  obtain dst' where dst: "wallet_for (wallets d3) (pl_manager pl) (pl_currency pl) WSpot = Some dst'" "w_id dst' = w_id dst"
    using cm(1) e2(4) by (auto simp: commit_Inr wallet_for_put)
  note c2 = commit_spot [OF cm(2) c1(3) dst(1), unfolded set_ref_fields am dst(2), OF refl]
  show ?thesis by (simp add: c1 c2 e0 e1 e2)
qed

text \<open>C12: a delegation that is accepted takes exactly its amount, rounded down to the precision of the
  coin, out of the spot wallet of the user into that of the manager of the pool, adds it to the
  open delegation of the user, and leaves all other balances and the total of every currency alone.\<close>

theorem delegation_exact:
  assumes c: "create_delegation env pl user a p d = Inr (k, p', d')" and p: "pool_inv p" and f: "fine_precisions env"
    and inv: "ledger_inv d" and pl: "find_pool p (pl_id pl) = Some pl" and m: "pu_id user \<noteq> pl_manager pl"
  shows "\<exists>q u. quantize_number a (ple_precision env (pl_currency pl)) ROUND_DOWN = Inr q \<and> 0 < q \<and> q \<le> unfilled_capacity pl
    \<and> find_delegation p' k = Some u \<and> ud_user u = pu_id user \<and> ud_pool u = pl_id pl
    \<and> ud_balance u = (case find_delegation p k of None \<Rightarrow> 0 | Some v \<Rightarrow> ud_balance v) + q
    \<and> spot_balance d' (pu_id user) (pl_currency pl) = spot_balance d (pu_id user) (pl_currency pl) - q
    \<and> spot_balance d' (pl_manager pl) (pl_currency pl) = spot_balance d (pl_manager pl) (pl_currency pl) + q
    \<and> (\<forall>v n. (v, n) \<notin> {(pu_id user, pl_currency pl), (pl_manager pl, pl_currency pl)} \<longrightarrow> spot_balance d' v n = spot_balance d v n)
    \<and> (\<forall>n. total_of n d' = total_of n d)"
  using c
proof (rule create_delegation_Inr)
  fix q u p1 row
  assume q: "quantize_number a (ple_precision env (pl_currency pl)) ROUND_DOWN = Inr q" "\<not> money_is_zero q" "q \<le> unfilled_capacity pl"
    and g: "get_or_create_delegation env (pl_id pl) (pu_id user) p = (u, p1)" and k: "k = ud_id u"
    and r: "create_delegation_row env (ud_id u) q p1 d = Inr (row, p', d')"
  have grid: "on_grid MAX_PRECISION q" "ctx q = q" using quantize_number_grid [OF q(1)] f by (simp_all add: fine_precisions_def)
  have gk: "pool_inv p1" "find_delegation p1 (ud_id u) = Some u" "ud_pool u = pl_id pl" "ud_user u = pu_id user" "find_pool p1 (pl_id pl) = Some pl"
    using get_or_create_keeps [OF g p] pl by (auto simp: find_pool_def)
  have "distinct (map ud_id (pt_delegations p1))" using gk(1) by (simp add: pool_inv_def pool_ids_def)
  with r have post: "posting env u q p1 p'" by (rule row_posting) (simp add: gk)
  have u': "find_delegation p' k = Some (move_balance env q u)" by (simp add: posting_finds [OF post] gk k)
  have "ud_balance u = (case find_delegation p k of None \<Rightarrow> 0 | Some v \<Rightarrow> ud_balance v)"
  proof (cases "find (open_delegation (pl_id pl) (pu_id user)) (pt_delegations p)")
    case None
    then have n: "new_delegation env (pl_id pl) (pu_id user) p = (u, p1)" using g by (simp add: get_or_create_delegation_def)
    then have "find_delegation p k = None" "ud_balance u = 0"
      using find_delegation_fresh p by (auto simp: new_delegation_def Let_def k pool_inv_def)
    then show ?thesis by simp
  next
    case (Some v)
    then have "p1 = p" using g by (simp add: get_or_create_delegation_def)
    then show ?thesis using gk(2) by (simp add: k)
  qed
  moreover note mo = delegation_row_money [OF r inv grid gk(2), unfolded gk(3), OF gk(5)]
  ultimately show ?thesis
    using q(1,3) not_money_is_zero_pos [OF q(2)] u' mo m by (auto simp: gk)
qed

subsection \<open>The request that blocks a pool\<close>

text \<open>When everything a delegation holds is asked back already, an amount below the precision of the
  coin is accepted as a request for nothing.\<close>

lemma empty_request_accepted:
  assumes full: "maximum_withdrawal_amount p u = 0" and a: "0 < a" "a < pow10 (dexp (ple_precision env (pl_currency pl)))"
    and mn: "min_delegation env pl = Inr mn" "0 \<le> mn" and pl: "find_pool p (ud_pool u) = Some pl" and ok: "capacity_ok p pl"
    and cols: "column_fits BALANCE_MAX_DIGITS (pl_filled_capacity pl)" "column_fits BALANCE_MAX_DIGITS (pl_revoked_capacity pl)"
  shows "\<exists>r p'. create_delegation_revoke_request env pl u a p = Inr (r, p') \<and> rv_amount r = 0 \<and> rv_status r = RevokeNew"
proof -
  let ?e = "dexp (ple_precision env (pl_currency pl))"
  have "round_int ROUND_DOWN y = 0" if "0 \<le> y" "y < 1" for y :: rat using that by (simp add: round_int.simps floor_eq_iff)
  moreover have "0 \<le> a / pow10 ?e" "a / pow10 ?e < 1" using a by (simp_all add: divide_less_eq)
  ultimately have "round_int ROUND_DOWN (a / pow10 ?e) = 0" by blast
  then have q: "quantize ROUND_DOWN ?e a = Inr 0"
    by (simp add: quantize_def quantize_value_def)
  have fits: "column_fits TRANSACTION_MAX_DIGITS 0" by (simp add: column_fits_def)
  have f: "find_pool (p\<lparr>pt_revokes := rs, pt_next_id := n\<rparr>) i = find_pool p i" for rs n i by (simp add: find_pool_def)
  show ?thesis
    using ok mn(2) full fits cols pl
    by (simp add: create_delegation_revoke_request_def q mn(1) Let_def update_revoke_capacity_def save_pool_def f capacity_ok_def)
qed

lemma tiny_request_raises:
  fixes d :: "'a db_scheme"
  assumes "money_is_zero (rv_amount r)" "request_ok r"
  shows "\<exists>e d1. check_settlement env r p d = (Inl e, p, d1)"
proof -
  have "ctx (- rv_amount r) = - rv_amount r" "\<bar>rv_amount r\<bar> = rv_amount r" "ctx (rv_amount r) = rv_amount r"
    using assms(2) by (simp_all add: request_ok_def)
  then have c: "clean_delegation env pl u (dneg (rv_amount r)) d1 = Inl (ApiError ''InvalidDelegationAmount'')" for pl u d1
    using assms(1) by (simp add: clean_delegation_def dneg_def)
  have e: "settle_delegation_revoke_request env r p d1 \<noteq> Inr y" for d1 :: "'a db_scheme" and y
    by (auto simp: settle_delegation_revoke_request_def create_delegation_row_def c split: option.split)
  show ?thesis
    by (auto simp: check_settlement_def e split: option.split prod.split sum.split)
qed

text \<open>C36: a revoke request of nothing, or of less than the smallest monetary value, is never paid: while
  it is the oldest unpaid request of its pool, no run of the payments changes any request of that
  pool, whatever the balance of the pool.\<close>

theorem empty_revoke_blocks_pool:
  assumes c: "check_delegation_revoke_request env k p d = (p', d')" and p: "pool_inv p"
    and first: "filter (\<lambda>x. pool_of_delegation p (rv_user_delegation x) = Some i) (new_requests k p) = r # rs"
    and z: "money_is_zero (rv_amount r)" and x: "x \<in> set (pt_revokes p)" "pool_of_delegation p (rv_user_delegation x) = Some i"
  shows "x \<in> set (pt_revokes p')"
proof -
  let ?f = "\<lambda>x. pool_of_delegation p (rv_user_delegation x)"
  note pay = new_requests_payable [OF p, of k]
  have "r \<in> set (new_requests k p)" using first by (metis filter_is_subset list.set_intros(1) subsetD)
  then have rq: "request_ok r" using pay request_row [OF p] by (simp add: payable_def)
  have blocked: "fst (settle_pool env ?f (new_requests k p) i s) = fst s" for s :: "pool_tables \<times> 'a db_scheme"
  proof -
    obtain p1 d1 where s: "s = (p1, d1)" by (rule prod.exhaust)
    obtain e d2 where "check_settlement env r p1 d1 = (Inl e, p1, d2)" using tiny_request_raises [OF z rq] by blast
    then show ?thesis by (simp add: settle_pool_def first s)
  qed
  have "payable p (filter Q (new_requests k p))" for Q using pay by (auto simp: payable_def distinct_map_filter)
  moreover have "distinct (map rv_id (new_requests k p))" "distinct (pools_in_order p (new_requests k p))"
    using pay by (simp_all add: payable_def pools_in_order_def)
  ultimately have kept: "others_kept (filter (\<lambda>y. \<exists>j \<in> set (pools_in_order p (new_requests k p)) - {i}. ?f y = Some j) (new_requests k p)) p p'"
    using settle_pools_keeps [OF c [unfolded check_requests_fold] p, of "{i}"] blocked by blast
  have same: "y = x" if "y \<in> set (new_requests k p)" "rv_id y = rv_id x" for y
  proof -
    have "y \<in> set (pt_revokes p)" using that(1) pay by (simp add: payable_def)
    moreover have "inj_on rv_id (set (pt_revokes p))" using p by (simp add: pool_inv_def pool_ids_def distinct_map)
    ultimately show ?thesis using x(1) that(2) by (auto dest: inj_onD)
  qed
  have "rv_id x \<notin> rv_id ` set (filter (\<lambda>y. \<exists>j \<in> set (pools_in_order p (new_requests k p)) - {i}. ?f y = Some j) (new_requests k p))"
  proof
    assume "rv_id x \<in> rv_id ` set (filter (\<lambda>y. \<exists>j \<in> set (pools_in_order p (new_requests k p)) - {i}. ?f y = Some j) (new_requests k p))"
    then obtain y where "rv_id x = rv_id y" and y: "y \<in> set (filter (\<lambda>y. \<exists>j \<in> set (pools_in_order p (new_requests k p)) - {i}. ?f y = Some j) (new_requests k p))"
      by (rule imageE)
    with same [of y] x(2) show False by simp
  qed
  with kept x(1) show ?thesis by (simp add: others_kept_def)
qed

end
