(* ===== verification/Pool_Profits.thy ===== *)
theory Pool_Profits
  imports Pools_Claims
begin

section \<open>The profits of the pools\<close>

text \<open>
  \<^verbatim>\<open>pool/functions.py\<close> and the profit rows of \<^verbatim>\<open>pool/models.py\<close>: at the end of a month every delegation
  gets a score, a share of the realized profit of its pool by its score, rounded down to whole
  rials, and a transaction that pays it out of the wallet of the profit collector.

  Dates are day numbers; the day of an instant, settings rows and prices are fields of the
  environment. The scores and amounts are written in batches of a thousand rows, which the
  database selects again for each batch. The loops that pay an amount in transactions of at most
  \<open>TRANSACTION_MAX\<close> need not end on numbers that no column holds, and are partial functions.
\<close>

subsection \<open>Tables\<close>

record user_profit =
  up_id :: nat
  up_delegation :: nat
  up_transaction :: "nat option"
  up_from_date :: int
  up_to_date :: int
  up_score :: rat
  up_amount :: "rat option"

record pool_profit =
  pp_id :: nat
  pp_pool :: nat
  pp_currency :: nat
  pp_orders :: "nat list"
  pp_transaction :: "nat option"
  pp_from_date :: int
  pp_to_date :: int
  pp_position_profit :: rat
  pp_rial_value :: "rat option"

record profit_tables =
  ft_users :: "user_profit list"
  ft_pools :: "pool_profit list"
  ft_next_id :: nat

record profit_env =
  fe_factor :: rat
  fe_day :: "datetime \<Rightarrow> int"
  fe_DST_CURRENCIES :: "nat list"
  fe_hash :: "string \<Rightarrow> int"
  fe_now :: datetime

definition BATCH_SIZE :: nat where "BATCH_SIZE = 1000"

definition SYSTEM_POOL_PROFIT :: nat where "SYSTEM_POOL_PROFIT = 988"

subsection \<open>Scores\<close>

definition day_in_row_factor :: "profit_env \<Rightarrow> int \<Rightarrow> rat" where
  "day_in_row_factor env n = dadd 1 (dmul (fe_factor env) (of_int (min n 31 - 1)))"

definition effective_days :: "profit_env \<Rightarrow> int \<Rightarrow> rat" where
  "effective_days env n = dmul (of_int n) (day_in_row_factor env n)"

text \<open>The loop runs from the last transaction back and stops when nothing was delegated before.\<close>

fun score_loop :: "profit_env \<Rightarrow> int \<Rightarrow> delegation_transaction list \<Rightarrow> rat \<Rightarrow> rat \<Rightarrow> rat \<Rightarrow> rat \<times> rat" where
  "score_loop env to_date [] score balance min_balance = (score, min_balance)"
| "score_loop env to_date (t # ts) score balance min_balance =
     (let balance = dsub balance (dt_amount t);
          drops = (0 < dt_amount t \<and> balance < min_balance);
          score = (if drops
                   then dadd score (dmul (dsub min_balance balance)
                          (effective_days env (to_date - fe_day env (dt_created_at t) + 1)))
                   else score);
          min_balance = (if drops then balance else min_balance)
      in if balance \<le> 0 then (score, min_balance)
         else score_loop env to_date ts score balance min_balance)"

definition overtime_balance :: "profit_env \<Rightarrow> nat \<Rightarrow> int \<Rightarrow> pool_tables \<Rightarrow> rat" where
  "overtime_balance env ud to_date p =
     sum_list (map dt_amount (filter (\<lambda>t. dt_user_delegation t = ud \<and> to_date < fe_day env (dt_created_at t)
       \<and> dt_transaction t \<noteq> None) (pt_transactions p)))"

definition period_transactions :: "profit_env \<Rightarrow> nat \<Rightarrow> int \<Rightarrow> int \<Rightarrow> pool_tables \<Rightarrow> delegation_transaction list" where
  "period_transactions env ud from_date to_date p =
     sort_key (\<lambda>t. - dt_created_at t)
       (filter (\<lambda>t. dt_user_delegation t = ud \<and> fe_day env (dt_created_at t) \<le> to_date
          \<and> from_date \<le> fe_day env (dt_created_at t) \<and> dt_transaction t \<noteq> None) (pt_transactions p))"

definition calculate_user_score :: "profit_env \<Rightarrow> user_delegation \<Rightarrow> int \<Rightarrow> int \<Rightarrow> pool_tables \<Rightarrow> rat result" where
  "calculate_user_score env u from_date to_date p =
     (let balance = dsub (ud_balance u) (overtime_balance env (ud_id u) to_date p)
      in case score_loop env to_date (period_transactions env (ud_id u) from_date to_date p) 0 balance balance of
           (score, min_balance) \<Rightarrow>
             let min_balance_days = to_date - max (fe_day env (ud_created_at u)) from_date + 1;
                 score = dadd score (dmul min_balance (effective_days env min_balance_days))
             in if score < 0 then Inl (ValueError ''Delegation score cannot be negative'') else Inr score)"

text \<open>The delegations that still need a score, and one batch of them.\<close>

definition unscored :: "profit_env \<Rightarrow> int \<Rightarrow> int \<Rightarrow> nat list \<Rightarrow> pool_tables \<Rightarrow> profit_tables \<Rightarrow> user_delegation list" where
  "unscored env from_date to_date targets p f =
     filter (\<lambda>u. (case ud_closed_at u of None \<Rightarrow> True | Some t \<Rightarrow> to_date < fe_day env t)
        \<and> fe_day env (ud_created_at u) \<le> to_date \<and> ud_pool u \<in> set targets
        \<and> \<not> list_ex (\<lambda>x. up_delegation x = ud_id u \<and> up_from_date x = from_date \<and> up_to_date x = to_date) (ft_users f))
       (pt_delegations p)"

definition add_score ::
    "profit_env \<Rightarrow> int \<Rightarrow> int \<Rightarrow> pool_tables \<Rightarrow> user_profit list \<Rightarrow> user_delegation \<Rightarrow> user_profit list result" where
  "add_score env from_date to_date p rows u =
     rbind (calculate_user_score env u from_date to_date p) (\<lambda>score.
       Inr (rows @ [\<lparr>up_id = 0, up_delegation = ud_id u, up_transaction = None, up_from_date = from_date, up_to_date = to_date,
                    up_score = score, up_amount = None\<rparr>]))"

definition insert_scores :: "user_profit list \<Rightarrow> profit_tables \<Rightarrow> profit_tables result" where
  "insert_scores rows f =
     (if list_ex (\<lambda>r. list_ex (\<lambda>x. up_delegation x = up_delegation r \<and> up_from_date x = up_from_date r) (ft_users f)) rows
      then Inl (IntegrityError ''unique_together'')
      else Inr (f\<lparr>ft_users := ft_users f @ map2 (\<lambda>i r. r\<lparr>up_id := i\<rparr>) [ft_next_id f..<ft_next_id f + length rows] rows,
                   ft_next_id := ft_next_id f + length rows\<rparr>))"

definition score_batch :: "profit_env \<Rightarrow> int \<Rightarrow> int \<Rightarrow> nat list \<Rightarrow> pool_tables \<Rightarrow> profit_tables \<Rightarrow> profit_tables result" where
  "score_batch env from_date to_date targets p f =
     rbind (fold_result (add_score env from_date to_date p) [] (take BATCH_SIZE (unscored env from_date to_date targets p f)))
       (\<lambda>rows. insert_scores rows f)"

text \<open>A batch that raises leaves the batches before it.\<close>

fun run_batches :: "nat \<Rightarrow> ('s \<Rightarrow> 's result) \<Rightarrow> 's \<Rightarrow> unit result \<times> 's" where
  "run_batches 0 b s = (Inr (), s)"
| "run_batches (Suc n) b s = (case b s of Inl e \<Rightarrow> (Inl e, s) | Inr s1 \<Rightarrow> run_batches n b s1)"

definition num_batches :: "nat \<Rightarrow> nat" where "num_batches n = (n + BATCH_SIZE - 1) div BATCH_SIZE"

definition populate_users_delegation_score ::
    "profit_env \<Rightarrow> int \<Rightarrow> int \<Rightarrow> nat list \<Rightarrow> pool_tables \<Rightarrow> profit_tables \<Rightarrow> unit result \<times> profit_tables" where
  "populate_users_delegation_score env from_date to_date targets p f =
     run_batches (num_batches (length (unscored env from_date to_date targets p f))) (score_batch env from_date to_date targets p) f"

subsection \<open>Shares\<close>

definition target_row :: "int \<Rightarrow> nat list \<Rightarrow> pool_tables \<Rightarrow> user_profit \<Rightarrow> bool" where
  "target_row from_date targets p x \<longleftrightarrow> up_from_date x = from_date
     \<and> (case pool_of_delegation p (up_delegation x) of None \<Rightarrow> False | Some i \<Rightarrow> i \<in> set targets)"

definition total_score :: "int \<Rightarrow> nat \<Rightarrow> pool_tables \<Rightarrow> profit_tables \<Rightarrow> rat" where
  "total_score from_date i p f =
     sum_list (map up_score (filter (\<lambda>x. up_from_date x = from_date \<and> pool_of_delegation p (up_delegation x) = Some i) (ft_users f)))"

text \<open>The sum of a column over rows that are all null is null; no rows give no entry.\<close>

definition current_profit :: "int \<Rightarrow> nat \<Rightarrow> profit_tables \<Rightarrow> rat option option" where
  "current_profit from_date i f =
     (let rows = filter (\<lambda>x. pp_pool x = i \<and> pp_from_date x = from_date) (ft_pools f);
          values = List.map_filter pp_rial_value rows
      in if rows = [] then None else if values = [] then Some None else Some (Some (sum_list values)))"

definition profit_share :: "rat \<Rightarrow> rat option option \<Rightarrow> rat \<Rightarrow> rat result" where
  "profit_share total_scores profit score =
     (if total_scores = 0 then Inr 0
      else case profit of
             None \<Rightarrow> Inr 0
           | Some None \<Rightarrow> Inl TypeError
           | Some (Some v) \<Rightarrow>
               if 0 < v
               then rbind (ddiv (dmul score v) total_scores) (\<lambda>x. quantize_number x (DecRep 1 0) ROUND_DOWN)
               else Inr 0)"

definition unshared :: "int \<Rightarrow> nat list \<Rightarrow> pool_tables \<Rightarrow> profit_tables \<Rightarrow> user_profit list" where
  "unshared from_date targets p f = filter (\<lambda>x. target_row from_date targets p x \<and> up_amount x = None) (ft_users f)"

definition share_of :: "(nat \<Rightarrow> rat) \<Rightarrow> (nat \<Rightarrow> rat option option) \<Rightarrow> pool_tables \<Rightarrow> user_profit \<Rightarrow> rat result" where
  "share_of totals profits p x =
     (case pool_of_delegation p (up_delegation x) of
        None \<Rightarrow> Inl KeyError
      | Some i \<Rightarrow> profit_share (totals i) (profits i) (up_score x))"

definition put_user_profit :: "(user_profit \<Rightarrow> user_profit) \<Rightarrow> nat \<Rightarrow> profit_tables \<Rightarrow> profit_tables" where
  "put_user_profit g i f = f\<lparr>ft_users := map (\<lambda>x. if up_id x = i then g x else x) (ft_users f)\<rparr>"

definition share_batch ::
    "(nat \<Rightarrow> rat) \<Rightarrow> (nat \<Rightarrow> rat option option) \<Rightarrow> int \<Rightarrow> nat list \<Rightarrow> pool_tables \<Rightarrow> profit_tables \<Rightarrow> profit_tables result" where
  "share_batch totals profits from_date targets p f =
     fold_result (\<lambda>f1 x. rbind (share_of totals profits p x) (\<lambda>a. Inr (put_user_profit (\<lambda>x. x\<lparr>up_amount := Some a\<rparr>) (up_id x) f1)))
       f (take BATCH_SIZE (unshared from_date targets p f))"

definition populate_users_profit :: "int \<Rightarrow> nat list \<Rightarrow> pool_tables \<Rightarrow> profit_tables \<Rightarrow> profit_tables result" where
  "populate_users_profit from_date targets p f =
     (case run_batches (num_batches (length (unshared from_date targets p f)))
             (share_batch (\<lambda>i. total_score from_date i p f) (\<lambda>i. current_profit from_date i f) from_date targets p) f of
        (Inl e, _) \<Rightarrow> Inl e
      | (Inr _, f1) \<Rightarrow> Inr f1)"

subsection \<open>Paying\<close>

partial_function (option) charge_chunks ::
    "profit_env \<Rightarrow> nat \<Rightarrow> wallet \<Rightarrow> rat \<Rightarrow> nat option \<Rightarrow> 'a db_scheme \<Rightarrow> (nat option \<times> 'a db_scheme) result option" where
  "charge_chunks env pk w amount prev d =
     (if amount = 0 then Some (Inr (prev, d))
      else let tx_amount = min amount TRANSACTION_MAX
           in case create_transaction w TxDelegate (dneg tx_amount) (fe_now env) None None False of
                Inl e \<Rightarrow> Some (Inl e)
              | Inr None \<Rightarrow> Some (Inl (ValueError ''Pool profit has low balance on rial wallet''))
              | Inr (Some t) \<Rightarrow>
                  (case commit d (set_ref (fe_hash env) (Some (case prev of
                                    None \<Rightarrow> (''DelegationProfitSrc'', pk) | Some l \<Rightarrow> (''DelegationProfitSrc+'', l))) t) False of
                     Inl e \<Rightarrow> Some (Inl e)
                   | Inr (d1, t1) \<Rightarrow>
                       charge_chunks env pk (w\<lparr>w_balance := tx_balance t1\<rparr>) (dsub amount tx_amount) (Some (tx_id t1)) d1))"

text \<open>\<open>PoolProfit.create_transaction\<close>.\<close>

definition charge_pool ::
    "profit_env \<Rightarrow> rat \<Rightarrow> pool_profit \<Rightarrow> 'a db_scheme \<Rightarrow> (nat option \<times> 'a db_scheme) result option" where
  "charge_pool env amount x d =
     (if pp_transaction x \<noteq> None \<or> amount \<le> 0 then Some (Inr (pp_transaction x, d))
      else case get_user_wallet (fe_DST_CURRENCIES env) d SYSTEM_POOL_PROFIT RIAL WSpot True of
             (None, _) \<Rightarrow> Some (Inl (ValueError ''Cannot reach pool profit rial wallet.''))
           | (Some w, d1) \<Rightarrow> charge_chunks env (pp_id x) w amount None d1)"

partial_function (option) credit_chunks ::
    "profit_env \<Rightarrow> nat \<Rightarrow> nat \<Rightarrow> rat \<Rightarrow> nat option \<Rightarrow> 'a db_scheme \<Rightarrow> (nat option \<times> 'a db_scheme) result option" where
  "credit_chunks env pk user amount prev d =
     (if amount = 0 then Some (Inr (prev, d))
      else let is_positive_amount = 0 < amount; tx_amount = min amount TRANSACTION_MAX
           in case get_user_wallet (fe_DST_CURRENCIES env) d user RIAL WSpot True of
                (None, _) \<Rightarrow> Some (Inl AttributeError)
              | (Some w, d1) \<Rightarrow>
                  (case rbind (create_transaction w TxDelegate tx_amount (fe_now env) None None is_positive_amount) (\<lambda>t.
                          commit_created d1 (map_option (set_ref (fe_hash env) (Some (case prev of
                            None \<Rightarrow> (''DelegationProfitDst'', pk) | Some l \<Rightarrow> (''DelegationProfitDst+'', l)))) t) is_positive_amount) of
                     Inl e \<Rightarrow> Some (Inl e)
                   | Inr (d2, t1) \<Rightarrow> credit_chunks env pk user (dsub amount tx_amount) (Some (tx_id t1)) d2))"

text \<open>\<open>UserDelegationProfit.create_transaction\<close> and the \<open>save\<close> after it, in one transaction.\<close>

definition pay_user ::
    "profit_env \<Rightarrow> user_profit \<Rightarrow> pool_tables \<Rightarrow> profit_tables \<Rightarrow> 'a db_scheme
     \<Rightarrow> (pool_tables \<times> profit_tables \<times> 'a db_scheme) result option" where
  "pay_user env x p f d =
     (if up_transaction x \<noteq> None then Some (Inr (p, f, d))
      else case up_amount x of
        None \<Rightarrow> Some (Inl (ValueError ''Invalid Amount''))
      | Some amount \<Rightarrow>
          if amount \<le> 0 then Some (Inr (p, f, d))
          else case find_delegation p (up_delegation x) of
                 None \<Rightarrow> Some (Inl DoesNotExist)
               | Some u \<Rightarrow>
                   (case credit_chunks env (up_id x) (ud_user u) amount None d of
                      None \<Rightarrow> None
                    | Some (Inl e) \<Rightarrow> Some (Inl e)
                    | Some (Inr (tx, d1)) \<Rightarrow>
                        Some (Inr (put_delegation (\<lambda>v. v\<lparr>ud_total_profit := ud_total_profit u + amount\<rparr>) (ud_id u) p,
                                   put_user_profit (\<lambda>v. v\<lparr>up_transaction := tx\<rparr>) (up_id x) f, d1))))"

fun charge_pools ::
    "profit_env \<Rightarrow> (nat \<Rightarrow> rat) \<Rightarrow> pool_profit list \<Rightarrow> profit_tables \<Rightarrow> 'a db_scheme \<Rightarrow> (profit_tables \<times> 'a db_scheme) result option" where
  "charge_pools env due [] f d = Some (Inr (f, d))"
| "charge_pools env due (x # xs) f d =
     (case charge_pool env (due (pp_pool x)) x d of
        None \<Rightarrow> None
      | Some (Inl e) \<Rightarrow> Some (Inl e)
      | Some (Inr (tx, d1)) \<Rightarrow>
          charge_pools env due xs
            (f\<lparr>ft_pools := map (\<lambda>y. if pp_id y = pp_id x then y\<lparr>pp_transaction := tx\<rparr> else y) (ft_pools f)\<rparr>) d1)"

fun pay_users ::
    "profit_env \<Rightarrow> user_profit list \<Rightarrow> pool_tables \<Rightarrow> profit_tables \<Rightarrow> 'a db_scheme
     \<Rightarrow> (unit result \<times> pool_tables \<times> profit_tables \<times> 'a db_scheme) option" where
  "pay_users env [] p f d = Some (Inr (), p, f, d)"
| "pay_users env (x # xs) p f d =
     (case pay_user env x p f d of
        None \<Rightarrow> None
      | Some (Inl e) \<Rightarrow> Some (Inl e, p, f, d)
      | Some (Inr (p1, f1, d1)) \<Rightarrow> pay_users env xs p1 f1 d1)"

definition amount_or_0 :: "user_profit \<Rightarrow> rat" where
  "amount_or_0 x = (case up_amount x of None \<Rightarrow> 0 | Some a \<Rightarrow> a)"

definition due_profit :: "int \<Rightarrow> nat list \<Rightarrow> pool_tables \<Rightarrow> profit_tables \<Rightarrow> nat \<Rightarrow> rat" where
  "due_profit from_date targets p f i =
     sum_list (map amount_or_0 (filter (\<lambda>x. target_row from_date targets p x \<and> pool_of_delegation p (up_delegation x) = Some i) (ft_users f)))"

definition unpaid_pools :: "int \<Rightarrow> nat list \<Rightarrow> profit_tables \<Rightarrow> pool_profit list" where
  "unpaid_pools from_date targets f =
     filter (\<lambda>x. pp_pool x \<in> set targets \<and> pp_from_date x = from_date \<and> pp_transaction x = None \<and> pp_currency x = RIAL) (ft_pools f)"

definition unpaid_users :: "int \<Rightarrow> nat list \<Rightarrow> pool_tables \<Rightarrow> profit_tables \<Rightarrow> user_profit list" where
  "unpaid_users from_date targets p f = filter (\<lambda>x. target_row from_date targets p x \<and> up_transaction x = None) (ft_users f)"

definition distribute_user_profit ::
    "profit_env \<Rightarrow> int \<Rightarrow> nat list \<Rightarrow> pool_tables \<Rightarrow> profit_tables \<Rightarrow> 'a db_scheme
     \<Rightarrow> (unit result \<times> pool_tables \<times> profit_tables \<times> 'a db_scheme) option" where
  "distribute_user_profit env from_date targets p f d =
     (if list_ex (\<lambda>x. target_row from_date targets p x \<and> up_amount x = None) (ft_users f)
      then Some (Inl (ApiError ''NullAmountUDPExists''), p, f, d)
      else case charge_pools env (due_profit from_date targets p f) (unpaid_pools from_date targets f) f d of
             None \<Rightarrow> None
           | Some (Inl e) \<Rightarrow> Some (Inl e, p, f, d)
           | Some (Inr (f1, d1)) \<Rightarrow> pay_users env (unpaid_users from_date targets p f1) p f1 d1)"

end
