(* ===== verification/Pool_Profits_Claims.thy ===== *)
theory Pool_Profits_Claims
  imports Pool_Profits
begin

section \<open>Properties of the profits\<close>

text \<open>
  The shares are written once and for all rows, whatever the batches; the shares of a pool are
  not more than its profit; and a distribution that ends takes out of the wallet of the profit
  collector what it pays the users.
\<close>

subsection \<open>Batches\<close>

definition mark :: "(nat \<Rightarrow> rat) \<Rightarrow> (nat \<Rightarrow> rat option option) \<Rightarrow> pool_tables \<Rightarrow> nat set \<Rightarrow> user_profit \<Rightarrow> user_profit" where
  "mark ts ps p S x = (if up_id x \<in> S then x\<lparr>up_amount := Some (projr (share_of ts ps p x))\<rparr> else x)"

lemma mark_fields [simp]:
  "up_id (mark ts ps p S x) = up_id x" "up_delegation (mark ts ps p S x) = up_delegation x" "up_score (mark ts ps p S x) = up_score x"
  "up_from_date (mark ts ps p S x) = up_from_date x" "up_transaction (mark ts ps p S x) = up_transaction x"
  by (simp_all add: mark_def)

lemma mark_share [simp]: "share_of ts ps p (mark ts' ps' p' S x) = share_of ts ps p x"
  by (simp add: share_of_def cong: option.case_cong)

lemma mark_mark: "mark ts ps p S (mark ts ps p T x) = mark ts ps p (S \<union> T) x"
proof -
  have "share_of ts ps p (x\<lparr>up_amount := a\<rparr>) = share_of ts ps p x" for a by (simp add: share_of_def cong: option.case_cong)
  then show ?thesis by (auto simp: mark_def)
qed

lemma mark_empty [simp]: "mark ts ps p {} x = x"
  by (simp add: mark_def)

definition same_shares :: "(nat \<Rightarrow> rat) \<Rightarrow> (nat \<Rightarrow> rat option option) \<Rightarrow> pool_tables \<Rightarrow> user_profit list \<Rightarrow> user_profit list \<Rightarrow> bool" where
  "same_shares ts ps p rows xs \<longleftrightarrow> (\<forall>x \<in> set xs. \<forall>y \<in> set rows. up_id y = up_id x \<longrightarrow> share_of ts ps p y = share_of ts ps p x)"

lemma share_fold:
  assumes "fold_result (\<lambda>f1 x. rbind (share_of ts ps p x) (\<lambda>a. Inr (put_user_profit (\<lambda>x. x\<lparr>up_amount := Some a\<rparr>) (up_id x) f1))) f xs = Inr f'"
    and "same_shares ts ps p (ft_users f) xs"
  shows "f' = f\<lparr>ft_users := map (mark ts ps p (up_id ` set xs)) (ft_users f)\<rparr> \<and> (\<forall>x \<in> set xs. \<exists>a. share_of ts ps p x = Inr a)"
  using assms
proof (induction xs arbitrary: f)
  case Nil
  have "map (mark ts ps p {}) (ft_users f) = ft_users f" by (intro map_idI) simp
  with Nil show ?case by simp
next
  case (Cons x xs)
  from Cons.prems(1) obtain a where a: "share_of ts ps p x = Inr a"
    and r: "fold_result (\<lambda>f1 x. rbind (share_of ts ps p x) (\<lambda>a. Inr (put_user_profit (\<lambda>x. x\<lparr>up_amount := Some a\<rparr>) (up_id x) f1)))
      (put_user_profit (\<lambda>x. x\<lparr>up_amount := Some a\<rparr>) (up_id x) f) xs = Inr f'"
    by (auto simp: rbind_eq_Inr_iff)
  have f1: "put_user_profit (\<lambda>x. x\<lparr>up_amount := Some a\<rparr>) (up_id x) f = f\<lparr>ft_users := map (mark ts ps p {up_id x}) (ft_users f)\<rparr>"
    using Cons.prems(2) a by (auto simp: put_user_profit_def mark_def same_shares_def)
  have "same_shares ts ps p (map (mark ts ps p {up_id x}) (ft_users f)) xs"
    using Cons.prems(2) by (auto simp: same_shares_def)
  with Cons.IH [OF r [unfolded f1]] have
    "f' = f\<lparr>ft_users := map (mark ts ps p (up_id ` set xs)) (map (mark ts ps p {up_id x}) (ft_users f))\<rparr>"
    "\<forall>y \<in> set xs. \<exists>a. share_of ts ps p y = Inr a" by simp_all
  moreover have "up_id ` set (x # xs) = up_id ` set xs \<union> {up_id x}" by auto
  ultimately show ?case using a by (simp add: mark_mark comp_def)
qed

lemma unshared_same_shares:
  assumes "distinct (map up_id (ft_users f))" "set xs \<subseteq> set (ft_users f)"
  shows "same_shares ts ps p (ft_users f) xs"
proof -
  have "inj_on up_id (set (ft_users f))" using assms(1) by (simp add: distinct_map)
  with assms(2) show ?thesis unfolding same_shares_def by (metis inj_onD subsetD)
qed

lemma target_mark: "target_row from_date targets p (mark ts ps p' S x) = target_row from_date targets p x"
  by (simp add: target_row_def)

lemma unshared_mark:
  "unshared from_date targets p (f\<lparr>ft_users := map (mark ts ps p S) (ft_users f)\<rparr>)
    = filter (\<lambda>x. up_id x \<notin> S) (unshared from_date targets p f)"
proof -
  have "filter (\<lambda>x. target_row from_date targets p x \<and> up_amount x = None) (map (mark ts ps p S) rows)
      = filter (\<lambda>x. up_id x \<notin> S) (filter (\<lambda>x. target_row from_date targets p x \<and> up_amount x = None) rows)" for rows
    by (induction rows) (simp_all add: target_mark, auto simp: mark_def)
  then show ?thesis by (simp add: unshared_def)
qed

lemma filter_drop:
  assumes "distinct (map g xs)"
  shows "filter (\<lambda>x. g x \<notin> g ` set (take n xs)) xs = drop n xs"
proof -
  have "distinct (map g (take n xs) @ map g (drop n xs))" using assms unfolding map_append [symmetric] by simp
  then have d: "g ` set (take n xs) \<inter> g ` set (drop n xs) = {}" by simp
  have "filter (\<lambda>x. g x \<notin> g ` set (take n xs)) (take n xs @ drop n xs) = drop n xs"
    using d unfolding filter_append by (simp add: filter_empty_conv filter_id_conv) blast
  then show ?thesis by simp
qed

lemma unshared_ids: "distinct (map up_id (ft_users f)) \<Longrightarrow> distinct (map up_id (unshared from_date targets p f))"
  by (simp add: unshared_def distinct_map_filter)

lemma share_batches:
  assumes "run_batches n (share_batch ts ps from_date targets p) f = (Inr (), f')" "distinct (map up_id (ft_users f))"
  shows "f' = f\<lparr>ft_users := map (mark ts ps p (up_id ` set (take (n * BATCH_SIZE) (unshared from_date targets p f)))) (ft_users f)\<rparr>
    \<and> (\<forall>x \<in> set (take (n * BATCH_SIZE) (unshared from_date targets p f)). \<exists>a. share_of ts ps p x = Inr a)"
  using assms
proof (induction n arbitrary: f)
  case 0
  have "map (mark ts ps p {}) (ft_users f) = ft_users f" by (intro map_idI) simp
  with 0 show ?case by simp
next
  case (Suc n)
  define xs where "xs = unshared from_date targets p f"
  define S where "S = up_id ` set (take BATCH_SIZE xs)"
  from Suc.prems(1) obtain f1 where b: "share_batch ts ps from_date targets p f = Inr f1"
    and r: "run_batches n (share_batch ts ps from_date targets p) f1 = (Inr (), f')"
    by (auto split: sum.split_asm)
  have "set (take BATCH_SIZE xs) \<subseteq> set (ft_users f)"
    using set_take_subset [of BATCH_SIZE xs] by (auto simp: xs_def unshared_def)
  from share_fold [OF b [unfolded share_batch_def, folded xs_def] unshared_same_shares [OF Suc.prems(2) this]]
  have f1: "f1 = f\<lparr>ft_users := map (mark ts ps p S) (ft_users f)\<rparr>" and ok: "\<forall>x \<in> set (take BATCH_SIZE xs). \<exists>a. share_of ts ps p x = Inr a"
    by (simp_all add: S_def)
  have u1: "unshared from_date targets p f1 = drop BATCH_SIZE xs"
    unfolding f1 unshared_mark S_def xs_def by (rule filter_drop [OF unshared_ids [OF Suc.prems(2)]])
  have "distinct (map up_id (ft_users f1))" using Suc.prems(2) by (simp add: f1 comp_def)
  from Suc.IH [OF r this] have
    f': "f' = f1\<lparr>ft_users := map (mark ts ps p (up_id ` set (take (n * BATCH_SIZE) (drop BATCH_SIZE xs)))) (ft_users f1)\<rparr>"
    and ok': "\<forall>x \<in> set (take (n * BATCH_SIZE) (drop BATCH_SIZE xs)). \<exists>a. share_of ts ps p x = Inr a"
    by (simp_all add: u1)
  have t: "take (Suc n * BATCH_SIZE) xs = take BATCH_SIZE xs @ take (n * BATCH_SIZE) (drop BATCH_SIZE xs)"
    by (simp add: take_add)
  show ?case
    unfolding xs_def [symmetric] t
    using f' ok ok' by (simp add: f1 mark_mark comp_def S_def image_Un Un_commute ball_Un)
qed

lemma num_batches_enough: "n \<le> num_batches n * BATCH_SIZE"
proof -
  have "n + BATCH_SIZE - 1 < BATCH_SIZE + (n + BATCH_SIZE - 1) div BATCH_SIZE * BATCH_SIZE"
    using dividend_less_div_times [of BATCH_SIZE "n + BATCH_SIZE - 1"] by (simp add: BATCH_SIZE_def)
  then show ?thesis by (simp add: num_batches_def BATCH_SIZE_def)
qed

text \<open>The batches write the share of every row that has none exactly once and touch no other row,
  as if all rows were written in one pass.\<close>

lemma shares_written_once:
  assumes c: "populate_users_profit from_date targets p f = Inr f'" and ids: "distinct (map up_id (ft_users f))"
  shows "f' = f\<lparr>ft_users := map (\<lambda>x. if target_row from_date targets p x \<and> up_amount x = None
        then x\<lparr>up_amount := Some (projr (share_of (\<lambda>i. total_score from_date i p f) (\<lambda>i. current_profit from_date i f) p x))\<rparr> else x)
      (ft_users f)\<rparr>
    \<and> unshared from_date targets p f' = []
    \<and> (\<forall>x \<in> set (unshared from_date targets p f).
          \<exists>a. share_of (\<lambda>i. total_score from_date i p f) (\<lambda>i. current_profit from_date i f) p x = Inr a)"
proof -
  let ?ts = "\<lambda>i. total_score from_date i p f" and ?ps = "\<lambda>i. current_profit from_date i f"
  define xs where "xs = unshared from_date targets p f"
  from c have "run_batches (num_batches (length xs)) (share_batch ?ts ?ps from_date targets p) f = (Inr (), f')"
    by (auto simp: populate_users_profit_def xs_def split: prod.split_asm sum.split_asm)
  from share_batches [OF this ids] have f': "f' = f\<lparr>ft_users := map (mark ?ts ?ps p (up_id ` set xs)) (ft_users f)\<rparr>"
    and ok: "\<forall>x \<in> set xs. \<exists>a. share_of ?ts ?ps p x = Inr a"
    using num_batches_enough [of "length xs"] by (simp_all add: xs_def [symmetric])
  have "mark ?ts ?ps p (up_id ` set xs) x = (if target_row from_date targets p x \<and> up_amount x = None
      then x\<lparr>up_amount := Some (projr (share_of ?ts ?ps p x))\<rparr> else x)" if "x \<in> set (ft_users f)" for x
  proof -
    have "inj_on up_id (set (ft_users f))" using ids by (simp add: distinct_map)
    then have "up_id x \<in> up_id ` set xs \<longleftrightarrow> x \<in> set xs"
      using that by (auto simp: xs_def unshared_def dest: inj_onD)
    then show ?thesis using that by (auto simp: mark_def xs_def unshared_def)
  qed
  then have "map (mark ?ts ?ps p (up_id ` set xs)) (ft_users f) = map (\<lambda>x. if target_row from_date targets p x \<and> up_amount x = None
      then x\<lparr>up_amount := Some (projr (share_of ?ts ?ps p x))\<rparr> else x) (ft_users f)" by simp
  moreover have "unshared from_date targets p f' = []"
    unfolding f' unshared_mark xs_def [symmetric] by (auto simp: filter_empty_conv)
  ultimately show ?thesis using ok by (simp add: f' xs_def)
qed

subsection \<open>The shares of a pool\<close>

lemma ctx_le: "0 \<le> x \<Longrightarrow> ctx x \<le> x * (1 + 5 * pow10 (- 28))"
  using ctx_error [of x] by (simp add: abs_le_iff algebra_simps)

text \<open>One share: a whole number, at most a rounding error above the exact part.\<close>

lemma profit_share_bound:
  assumes a: "profit_share T (Some (Some v)) s = Inr a" and v: "0 < v" and s: "0 \<le> s" "0 < T"
  shows "on_grid 0 a \<and> 0 \<le> a \<and> a \<le> s * v / T * (1 + 5 * pow10 (- 28)) ^ 2"
proof -
  define y where "y = ctx (dmul s v / T)"
  have y0: "0 \<le> dmul s v / T" using s v by (simp add: dmul_nonneg)
  have one: "rep_value (DecRep 1 0) = 1" by (simp add: rep_value_def pow10_def)
  have "0 \<le> y" unfolding y_def by (rule ctx.rv_nonneg [OF y0])
  then have a: "a = ctx (of_int \<lfloor>y\<rfloor>)"
    using a s(2) v by (simp add: profit_share_def ddiv_def quantize_number_def one y_def to_integral_def dmul_def round_int.simps)
  have "a \<le> ctx y" unfolding a by (rule ctx_mono) simp
  then have "a \<le> y" by (simp add: y_def)
  also have "y \<le> dmul s v / T * (1 + 5 * pow10 (- 28))" unfolding y_def by (rule ctx_le [OF y0])
  also have "\<dots> \<le> s * v * (1 + 5 * pow10 (- 28)) / T * (1 + 5 * pow10 (- 28))"
    using ctx_le [of "s * v"] s v by (intro mult_right_mono divide_right_mono) (simp_all add: dmul_def)
  also have "\<dots> = s * v / T * (1 + 5 * pow10 (- 28)) ^ 2" by (simp add: power2_eq_square)
  finally have "a \<le> s * v / T * (1 + 5 * pow10 (- 28)) ^ 2" .
  moreover have "on_grid 0 a" unfolding a by (rule on_grid_ctx) (auto simp: on_grid_iff pow10_def)
  moreover have "0 \<le> a" unfolding a using \<open>0 \<le> y\<close> by (intro ctx.rv_nonneg) simp
  ultimately show ?thesis by blast
qed

lemma sum_list_bound:
  fixes g h :: "'a \<Rightarrow> rat"
  shows "(\<And>x. x \<in> set xs \<Longrightarrow> g x \<le> h x) \<Longrightarrow> sum_list (map g xs) \<le> sum_list (map h xs)"
  by (rule sum_list_mono)

text \<open>C14: the shares of the users of a pool add up to at most its profit, although each is computed with
  roundings; so the distribution never pays more than the pool has earned.\<close>

theorem shares_within_profit:
  assumes c: "populate_users_profit from_date targets p f = Inr f'" and ids: "distinct (map up_id (ft_users f))"
    and i: "i \<in> set targets" and fresh: "\<forall>x \<in> set (ft_users f). target_row from_date targets p x \<longrightarrow> up_amount x = None"
    and scores: "\<forall>x \<in> set (ft_users f). 0 \<le> up_score x"
    and v: "current_profit from_date i f = Some (Some v)" "0 \<le> v" "on_grid 0 v" "v < 10 ^ 26"
  shows "0 \<le> due_profit from_date targets p f' i \<and> due_profit from_date targets p f' i \<le> v"
proof -
  let ?T = "total_score from_date i p f" and ?e = "(1 + 5 * pow10 (- 28)) ^ 2 :: rat"
  let ?own = "\<lambda>x. up_from_date x = from_date \<and> pool_of_delegation p (up_delegation x) = Some i"
  define rows where "rows = filter ?own (ft_users f)"
  define share where "share x = projr (profit_share ?T (Some (Some v)) (up_score x))" for x :: user_profit
  note once = shares_written_once [OF c ids]
  have own: "target_row from_date targets p x \<and> pool_of_delegation p (up_delegation x) = Some i \<longleftrightarrow> ?own x" for x
    using i by (auto simp: target_row_def)
  have due: "due_profit from_date targets p f' i = sum_list (map share rows)"
  proof -
    define fill where "fill x = (if target_row from_date targets p x \<and> up_amount x = None
        then x\<lparr>up_amount := Some (projr (share_of (\<lambda>i. total_score from_date i p f) (\<lambda>i. current_profit from_date i f) p x))\<rparr> else x)"
      for x
    have "f' = f\<lparr>ft_users := map fill (ft_users f)\<rparr>" using once [THEN conjunct1] by (simp add: fill_def [abs_def])
    moreover have "?own (fill x) = ?own x" for x by (simp add: fill_def)
    ultimately have "filter (\<lambda>x. target_row from_date targets p x \<and> pool_of_delegation p (up_delegation x) = Some i) (ft_users f') = map fill rows"
      by (simp add: own filter_map comp_def rows_def)
    moreover have "amount_or_0 (fill x) = share x" if "x \<in> set rows" for x
      using that fresh i own [of x] by (auto simp: rows_def amount_or_0_def share_of_def share_def v(1) fill_def)
    ultimately have "map amount_or_0 (filter (\<lambda>x. target_row from_date targets p x \<and> pool_of_delegation p (up_delegation x) = Some i) (ft_users f'))
        = map share rows" by simp
    then show ?thesis by (simp add: due_profit_def)
  qed
  have shares: "\<exists>a. profit_share ?T (Some (Some v)) (up_score x) = Inr a" if "x \<in> set rows" for x
  proof -
    have "x \<in> set (unshared from_date targets p f)" using that fresh own [of x] by (simp add: rows_def unshared_def)
    with once obtain a where "share_of (\<lambda>i. total_score from_date i p f) (\<lambda>i. current_profit from_date i f) p x = Inr a" by blast
    then show ?thesis using that by (simp add: rows_def share_of_def v(1))
  qed
  have T: "?T = sum_list (map up_score rows)" by (simp add: total_score_def rows_def)
  have T0: "0 \<le> ?T" unfolding T using scores by (intro sum_list_nonneg) (auto simp: rows_def)
  show ?thesis
  proof (cases "?T = 0 \<or> v = 0")
    case True
    then have "share x = 0" if "x \<in> set rows" for x by (auto simp: share_def profit_share_def)
    then have z: "map share rows = map (\<lambda>_. 0) rows" by simp
    show ?thesis unfolding due z using v(2) by simp
  next
    case False
    then have pos: "0 < ?T" "0 < v" using T0 v(2) by simp_all
    have b: "on_grid 0 (share x) \<and> 0 \<le> share x \<and> share x \<le> up_score x * v / ?T * ?e" if x: "x \<in> set rows" for x
    proof -
      obtain a where a: "profit_share ?T (Some (Some v)) (up_score x) = Inr a" using shares [OF x] by blast
      have "0 \<le> up_score x" using x scores by (simp add: rows_def)
      from profit_share_bound [OF a pos(2) this pos(1)] show ?thesis by (simp add: share_def a)
    qed
    have "sum_list (map share rows) \<le> sum_list (map (\<lambda>x. up_score x * (v / ?T * ?e)) rows)"
      using b by (intro sum_list_bound) (simp add: algebra_simps)
    also have "\<dots> = ?T * (v / ?T * ?e)" unfolding sum_list_mult_const T [symmetric] ..
    also have "\<dots> = v * ?e" using pos(1) by simp
    also have "\<dots> < v + 1"
    proof -
      have "v * (?e - 1) \<le> 10 ^ 26 * (?e - 1)" using v(4) by (intro mult_right_mono) (simp_all add: dec_eval)
      also have "\<dots> < 1" by (simp add: dec_eval power2_eq_square)
      finally show ?thesis by (simp add: algebra_simps)
    qed
    finally have lt: "sum_list (map share rows) < v + 1" .
    have "on_grid 0 (sum_list (map share rows))"
      using b by (induction rows) auto
    then obtain m n where "sum_list (map share rows) = of_int m" "v = of_int n"
      using v(3) by (auto simp: on_grid_iff pow10_def)
    with lt have "sum_list (map share rows) \<le> v" by simp
    moreover have "0 \<le> sum_list (map share rows)" using b by (intro sum_list_nonneg) auto
    ultimately show ?thesis by (simp add: due)
  qed
qed

subsection \<open>The distribution\<close>

text \<open>What the paying loops move. The amounts are column values, so that no subtraction rounds.\<close>

definition whole_field :: "rat \<Rightarrow> bool" where
  "whole_field x \<longleftrightarrow> 0 \<le> x \<and> balance_field x"

lemma whole_field_rest:
  assumes a: "whole_field a"
  shows "whole_field (dsub a (min a TRANSACTION_MAX))" "dsub a (min a TRANSACTION_MAX) = a - min a TRANSACTION_MAX"
    "on_grid MAX_PRECISION (min a TRANSACTION_MAX)" "ctx (min a TRANSACTION_MAX) = min a TRANSACTION_MAX" "a \<noteq> 0 \<Longrightarrow> 0 < min a TRANSACTION_MAX"
proof -
  have m: "balance_field TRANSACTION_MAX" "0 < TRANSACTION_MAX"
    by (simp_all add: TRANSACTION_MAX_eq balance_field_def fits_def money_constants on_grid_iff dec_eval)
  have b: "balance_field (min a TRANSACTION_MAX)" using a m by (simp add: whole_field_def min_def)
  show "on_grid MAX_PRECISION (min a TRANSACTION_MAX)" "ctx (min a TRANSACTION_MAX) = min a TRANSACTION_MAX"
    using b balance_field_grid by simp_all
  show e: "dsub a (min a TRANSACTION_MAX) = a - min a TRANSACTION_MAX"
    using a b by (simp add: whole_field_def balance_dsub)
  show "a \<noteq> 0 \<Longrightarrow> 0 < min a TRANSACTION_MAX" using a m(2) by (simp add: whole_field_def)
  have "0 \<le> a - min a TRANSACTION_MAX" "a - min a TRANSACTION_MAX \<le> a" using a m(2) by (simp_all add: whole_field_def min_def)
  moreover have "on_grid (- 10) (a - min a TRANSACTION_MAX)"
    using a b by (auto simp: whole_field_def balance_field_def fits_def money_constants)
  ultimately show "whole_field (dsub a (min a TRANSACTION_MAX))"
    using a unfolding e by (auto simp: whole_field_def balance_field_def fits_def money_constants abs_less_iff)
qed

definition chunks_left :: "rat \<Rightarrow> nat" where "chunks_left a = nat \<lceil>a / TRANSACTION_MAX\<rceil>"

lemma chunks_left_less:
  assumes a: "whole_field a" "a \<noteq> 0"
  shows "chunks_left (dsub a (min a TRANSACTION_MAX)) < chunks_left a"
proof -
  have M: "0 < TRANSACTION_MAX" by (simp add: TRANSACTION_MAX_eq)
  have p: "0 < a / TRANSACTION_MAX" using a M by (simp add: whole_field_def zero_less_divide_iff)
  show ?thesis
  proof (cases "a \<le> TRANSACTION_MAX")
    case True
    then show ?thesis using whole_field_rest(2) [OF a(1)] p by (simp add: chunks_left_def min_def)
  next
    case False
    then have "(a - TRANSACTION_MAX) / TRANSACTION_MAX = a / TRANSACTION_MAX - 1" using M by (simp add: diff_divide_distrib)
    moreover have "dsub a (min a TRANSACTION_MAX) = a - TRANSACTION_MAX" using False whole_field_rest(2) [OF a(1)] by simp
    ultimately show ?thesis using p by (simp add: chunks_left_def)
  qed
qed

text \<open>The loops end on amounts of columns.\<close>

lemma charge_chunks_returns: "whole_field a \<Longrightarrow> \<exists>r. charge_chunks env pk w a prev d = Some r"
proof (induction "chunks_left a" arbitrary: a w prev d rule: less_induct)
  case less
  show ?case
  proof (cases "a = 0")
    case False
    note IH = less.hyps [OF chunks_left_less [OF less.prems False] whole_field_rest(1) [OF less.prems]]
    show ?thesis by (subst charge_chunks.simps) (auto simp: Let_def IH split: sum.split option.split)
  qed (subst charge_chunks.simps, simp)
qed

lemma credit_chunks_returns: "whole_field a \<Longrightarrow> \<exists>r. credit_chunks env pk user a prev d = Some r"
proof (induction "chunks_left a" arbitrary: a prev d rule: less_induct)
  case less
  show ?case
  proof (cases "a = 0")
    case False
    note IH = less.hyps [OF chunks_left_less [OF less.prems False] whole_field_rest(1) [OF less.prems]]
    show ?thesis by (subst credit_chunks.simps) (auto simp: Let_def IH split: sum.split option.split prod.split)
  qed (subst credit_chunks.simps, simp)
qed

lemma charge_chunks_money:
  "charge_chunks env pk w a prev d = Some (Inr (tx, d')) \<Longrightarrow> whole_field a \<Longrightarrow> ledger_inv d \<Longrightarrow>
   wallet_for (wallets d) SYSTEM_POOL_PROFIT RIAL WSpot = Some v \<Longrightarrow> w_id w = w_id v \<Longrightarrow>
   ledger_inv d' \<and> total_of k d' = total_of k d - (if k = RIAL then a else 0)
   \<and> spot_balance d' u c = spot_balance d u c - (if u = SYSTEM_POOL_PROFIT \<and> c = RIAL then a else 0) \<and> (tx = None \<longrightarrow> a = 0 \<and> prev = None)"
proof (induction "chunks_left a" arbitrary: a w prev d v rule: less_induct)
  case less
  show ?case
  proof (cases "a = 0")
    case False
    let ?m = "min a TRANSACTION_MAX"
    note rest = whole_field_rest [OF less.prems(2)]
    from less.prems(1) False obtain t ref d1 t1 where
      c: "create_transaction w TxDelegate (dneg ?m) (fe_now env) None None False = Inr (Some t)"
        "commit d (set_ref (fe_hash env) (Some ref) t) False = Inr (d1, t1)"
      and r: "charge_chunks env pk (w\<lparr>w_balance := tx_balance t1\<rparr>) (dsub a ?m) (Some (tx_id t1)) d1 = Some (Inr (tx, d'))"
      by (subst (asm) charge_chunks.simps) (auto simp: Let_def split: sum.split_asm option.split_asm prod.split_asm)
    have t: "tx_amount t = - ?m" "tx_wallet t = w_id v"
      using create_transaction_Some [OF c(1)] rest(3,4) less.prems(5) by (auto simp: quantize_Inr dneg_def quantize_value_fix)
    note cs = commit_spot [OF c(2) less.prems(3,4), unfolded set_ref_fields t, OF refl]
    obtain v' where v': "wallet_for (wallets d1) SYSTEM_POOL_PROFIT RIAL WSpot = Some v'" "w_id v' = w_id v"
      using c(2) less.prems(4) by (auto simp: commit_Inr wallet_for_put)
    from less.hyps [OF chunks_left_less [OF less.prems(2) False] r rest(1) cs(3) v'(1)] v'(2) less.prems(5)
    show ?thesis unfolding rest(2) by (auto simp: cs)
  qed (use less.prems in \<open>auto simp: charge_chunks.simps\<close>)
qed

text \<open>The spot wallet of a user, as for a delegation.\<close>

definition wallet_env :: "profit_env \<Rightarrow> pool_env" where
  "wallet_env env = \<lparr>ple_precision = (\<lambda>_. DecRep 1 0), ple_DST_CURRENCIES = fe_DST_CURRENCIES env, ple_min_delegation = None,
      ple_max_delegation = (\<lambda>_. None), ple_coin_price = (\<lambda>_. 0), ple_margin_orders = [], ple_positions = [],
      ple_order_flags = (\<lambda>_. \<lparr>no_order = False, recent_order = False\<rparr>), ple_hash = fe_hash env, ple_now = fe_now env\<rparr>"

lemma rial_wallet:
  "get_user_wallet (fe_DST_CURRENCIES env) d user c WSpot True = (o1, d1) \<Longrightarrow> o1 = Some w \<Longrightarrow> pool_wallet (wallet_env env) user c d = (w, d1)"
  by (simp add: pool_wallet_def wallet_env_def)

lemma credit_chunks_money:
  "credit_chunks env pk user a prev d = Some (Inr (tx, d')) \<Longrightarrow> whole_field a \<Longrightarrow> ledger_inv d \<Longrightarrow>
   ledger_inv d' \<and> total_of k d' = total_of k d + (if k = RIAL then a else 0)
   \<and> spot_balance d' u c = spot_balance d u c + (if u = user \<and> c = RIAL then a else 0) \<and> (tx = None \<longrightarrow> a = 0 \<and> prev = None)"
proof (induction "chunks_left a" arbitrary: a prev d rule: less_induct)
  case less
  show ?case
  proof (cases "a = 0")
    case False
    let ?m = "min a TRANSACTION_MAX"
    note rest = whole_field_rest [OF less.prems(2)]
    obtain o1 d0 where g: "get_user_wallet (fe_DST_CURRENCIES env) d user RIAL WSpot True = (o1, d0)" by (rule prod.exhaust)
    from less.prems(1) False obtain w t ref d1 t1 where o1: "o1 = Some w"
      and c: "create_transaction w TxDelegate ?m (fe_now env) None None (0 < a) = Inr (Some t)"
        "commit d0 (set_ref (fe_hash env) (Some ref) t) (0 < a) = Inr (d1, t1)"
      and r: "credit_chunks env pk user (dsub a ?m) (Some (tx_id t1)) d1 = Some (Inr (tx, d'))"
      by (subst (asm) credit_chunks.simps)
        (auto simp: Let_def g rbind_eq_Inr_iff commit_created_Inr split: sum.split_asm option.split_asm prod.split_asm)
    have "pool_wallet (wallet_env env) user RIAL d = (w, d0)" by (rule rial_wallet [OF g o1])
    note e = pool_wallet_effect [OF this less.prems(3)]
    have t: "tx_amount t = ?m" "tx_wallet t = w_id w"
      using create_transaction_Some [OF c(1)] rest(3,4) by (auto simp: quantize_Inr quantize_value_fix)
    note cs = commit_spot [OF c(2) e(3,4), unfolded set_ref_fields t, OF refl]
    from less.hyps [OF chunks_left_less [OF less.prems(2) False] r rest(1) cs(3)]
    show ?thesis unfolding rest(2) by (auto simp: cs e)
  qed (use less.prems in \<open>auto simp: credit_chunks.simps\<close>)
qed

definition user_of :: "pool_tables \<Rightarrow> user_profit \<Rightarrow> nat option" where
  "user_of p x = map_option ud_user (find_delegation p (up_delegation x))"

text \<open>One user is paid.\<close>

definition payable_row :: "user_profit \<Rightarrow> bool" where
  "payable_row x \<longleftrightarrow> up_transaction x = None \<and> (\<exists>a. up_amount x = Some a \<and> whole_field a)"

lemma pay_user_money:
  assumes c: "pay_user env x p f d = Some (Inr (p1, f1, d1))" and inv: "ledger_inv d" and x: "payable_row x"
  shows "ledger_inv d1 \<and> total_of k d1 = total_of k d + (if k = RIAL then amount_or_0 x else 0)
    \<and> spot_balance d1 u c = spot_balance d u c + (if user_of p x = Some u \<and> c = RIAL then amount_or_0 x else 0)
    \<and> user_of p1 y = user_of p y
    \<and> (f1 = f \<and> amount_or_0 x = 0 \<or> (\<exists>t. f1 = put_user_profit (\<lambda>v. v\<lparr>up_transaction := Some t\<rparr>) (up_id x) f))"
proof -
  from x obtain a where a: "up_amount x = Some a" "whole_field a" "up_transaction x = None" by (auto simp: payable_row_def)
  show ?thesis
  proof (cases "a = 0")
    case True
    then show ?thesis using c inv a by (auto simp: pay_user_def amount_or_0_def)
  next
    case False
    then have pos: "0 < a" using a(2) by (simp add: whole_field_def)
    with c obtain v tx where v: "find_delegation p (up_delegation x) = Some v"
      and cr: "credit_chunks env (up_id x) (ud_user v) a None d = Some (Inr (tx, d1))"
      and p1: "p1 = put_delegation (\<lambda>v'. v'\<lparr>ud_total_profit := ud_total_profit v + a\<rparr>) (ud_id v) p"
      and f1: "f1 = put_user_profit (\<lambda>v. v\<lparr>up_transaction := tx\<rparr>) (up_id x) f"
      by (auto simp: pay_user_def a split: option.split_asm sum.split_asm prod.split_asm)
    note m = credit_chunks_money [OF cr a(2) inv]
    obtain t where "tx = Some t" using m pos by (cases tx) auto
    moreover have "user_of p1 y = user_of p y"
      unfolding user_of_def p1 find_delegation_def put_delegation_def
      by (simp add: find_map_put option.map_comp comp_def if_distrib cong: if_cong)
    ultimately show ?thesis using m a(1) v by (auto simp: f1 amount_or_0_def user_of_def)
  qed
qed

lemma pay_users_money:
  "pay_users env xs p f d = Some (Inr (), p', f', d') \<Longrightarrow> ledger_inv d \<Longrightarrow> \<forall>x \<in> set xs. payable_row x \<Longrightarrow>
   ledger_inv d' \<and> total_of k d' = total_of k d + (if k = RIAL then sum_list (map amount_or_0 xs) else 0)
   \<and> spot_balance d' u c = spot_balance d u c + (if c = RIAL then sum_list (map amount_or_0 (filter (\<lambda>x. user_of p x = Some u) xs)) else 0)
   \<and> (\<forall>y \<in> set (ft_users f'). (\<exists>x \<in> set xs. up_id x = up_id y \<and> amount_or_0 x \<noteq> 0) \<longrightarrow> up_transaction y \<noteq> None)
   \<and> (\<forall>i. (\<forall>y \<in> set (ft_users f). up_id y = i \<longrightarrow> up_transaction y \<noteq> None) \<longrightarrow> (\<forall>y \<in> set (ft_users f'). up_id y = i \<longrightarrow> up_transaction y \<noteq> None))"
proof (induction xs arbitrary: p f d)
  case (Cons x xs)
  from Cons.prems(1) obtain p1 f1 d1 where c: "pay_user env x p f d = Some (Inr (p1, f1, d1))"
    and r: "pay_users env xs p1 f1 d1 = Some (Inr (), p', f', d')"
    by (auto split: option.split_asm sum.split_asm prod.split_asm)
  have x: "payable_row x" using Cons.prems(3) by simp
  note m = pay_user_money [OF c Cons.prems(2) x]
  have inv1: "ledger_inv d1" and users: "user_of p1 y = user_of p y" for y using m by blast+
  have f1: "f1 = f \<and> amount_or_0 x = 0 \<or> (\<exists>t. f1 = put_user_profit (\<lambda>v. v\<lparr>up_transaction := Some t\<rparr>) (up_id x) f)"
    using m by blast
  have xs: "\<forall>x \<in> set xs. payable_row x" using Cons.prems(3) by simp
  note IH = Cons.IH [OF r inv1 xs]
  let ?paid = "\<lambda>f i. \<forall>y \<in> set (ft_users f). up_id y = i \<longrightarrow> up_transaction y \<noteq> None"
  have keep: "?paid f i \<Longrightarrow> ?paid f1 i" for i using f1 by (auto simp: put_user_profit_def)
  have own: "amount_or_0 x \<noteq> 0 \<Longrightarrow> ?paid f1 (up_id x)" using f1 by (auto simp: put_user_profit_def)
  have last: "?paid f1 i \<Longrightarrow> ?paid f' i" for i using IH by blast
  have "up_transaction y \<noteq> None" if "y \<in> set (ft_users f')" "z \<in> set (x # xs)" "up_id z = up_id y" "amount_or_0 z \<noteq> 0" for y z
  proof (cases "z = x")
    case True
    with own last that show ?thesis by metis
  next
    case False
    with that IH show ?thesis by (metis set_ConsD)
  qed
  moreover have "?paid f i \<Longrightarrow> ?paid f' i" for i using keep last by blast
  moreover have "ledger_inv d'" using IH by blast
  moreover have "total_of k d' = total_of k d + (if k = RIAL then sum_list (map amount_or_0 (x # xs)) else 0)"
    using m IH by simp
  moreover have "spot_balance d' u c = spot_balance d u c
      + (if c = RIAL then sum_list (map amount_or_0 (filter (\<lambda>x. user_of p x = Some u) (x # xs))) else 0)"
    using m IH by (simp add: users)
  ultimately show ?case by blast
qed simp

lemma charge_pool_money:
  assumes c: "charge_pool env a x d = Some (Inr (tx, d1))" and inv: "ledger_inv d" and x: "pp_transaction x = None" and a: "whole_field a"
  shows "ledger_inv d1 \<and> total_of k d1 = total_of k d - (if k = RIAL then a else 0)
    \<and> spot_balance d1 u c = spot_balance d u c - (if u = SYSTEM_POOL_PROFIT \<and> c = RIAL then a else 0)"
proof (cases "a = 0")
  case True
  then show ?thesis using c inv x by (auto simp: charge_pool_def)
next
  case False
  then have pos: "\<not> a \<le> 0" using a by (simp add: whole_field_def)
  obtain o1 d0 where g: "get_user_wallet (fe_DST_CURRENCIES env) d SYSTEM_POOL_PROFIT RIAL WSpot True = (o1, d0)" by (rule prod.exhaust)
  with c x pos obtain w where o1: "o1 = Some w" and ch: "charge_chunks env (pp_id x) w a None d0 = Some (Inr (tx, d1))"
    by (auto simp: charge_pool_def split: option.split_asm)
  note e = pool_wallet_effect [OF rial_wallet [OF g o1] inv]
  from charge_chunks_money [OF ch a e(3,4) refl] show ?thesis by (simp add: e)
qed

lemma charge_pools_users:
  "charge_pools env due xs f d = Some (Inr (f1, d1)) \<Longrightarrow> ft_users f1 = ft_users f"
  by (induction xs arbitrary: f d) (auto split: option.split_asm sum.split_asm prod.split_asm)

lemma charge_pools_money:
  "charge_pools env due xs f d = Some (Inr (f1, d1)) \<Longrightarrow> ledger_inv d \<Longrightarrow> \<forall>x \<in> set xs. pp_transaction x = None \<and> whole_field (due (pp_pool x)) \<Longrightarrow>
   ledger_inv d1 \<and> ft_users f1 = ft_users f \<and> total_of k d1 = total_of k d - (if k = RIAL then sum_list (map (\<lambda>x. due (pp_pool x)) xs) else 0)
   \<and> spot_balance d1 u c = spot_balance d u c
       - (if u = SYSTEM_POOL_PROFIT \<and> c = RIAL then sum_list (map (\<lambda>x. due (pp_pool x)) xs) else 0)"
proof (induction xs arbitrary: f d)
  case (Cons x xs)
  from Cons.prems(1) obtain tx d2 where c: "charge_pool env (due (pp_pool x)) x d = Some (Inr (tx, d2))"
    and r: "charge_pools env due xs (f\<lparr>ft_pools := map (\<lambda>y. if pp_id y = pp_id x then y\<lparr>pp_transaction := tx\<rparr> else y) (ft_pools f)\<rparr>) d2
      = Some (Inr (f1, d1))"
    by (auto split: option.split_asm sum.split_asm prod.split_asm)
  have x: "pp_transaction x = None" "whole_field (due (pp_pool x))"
    and xs: "\<forall>x \<in> set xs. pp_transaction x = None \<and> whole_field (due (pp_pool x))" using Cons.prems(3) by simp_all
  note m = charge_pool_money [OF c Cons.prems(2) x]
  have "ledger_inv d2" using m by blast
  note IH = Cons.IH [OF r this xs]
  show ?case using m IH by simp
qed simp

text \<open>The sums of the pools are the sum of the rows.\<close>

lemma sum_by_key:
  fixes h :: "'a \<Rightarrow> rat"
  assumes "distinct (map g us)" "\<forall>x \<in> set rows. key x \<in> g ` set us"
  shows "sum_list (map (\<lambda>y. sum_list (map h (filter (\<lambda>x. key x = g y) rows))) us) = sum_list (map h rows)"
  using assms
proof (induction us arbitrary: rows)
  case Nil
  then show ?case by simp
next
  case (Cons y us)
  define rest where "rest = filter (\<lambda>x. key x \<noteq> g y) rows"
  have split: "sum_list (map h rows) = sum_list (map h (filter (\<lambda>x. key x = g y) rows)) + sum_list (map h rest)"
    unfolding rest_def by (induction rows) auto
  have "filter (\<lambda>x. key x = g z) rows = filter (\<lambda>x. key x = g z) rest" if "z \<in> set us" for z
  proof -
    have "g y \<notin> g ` set us" using Cons.prems(1) by simp
    then have "g z \<noteq> g y" using that by (metis imageI)
    then show ?thesis by (auto simp: rest_def intro!: filter_cong)
  qed
  then have "map (\<lambda>z. sum_list (map h (filter (\<lambda>x. key x = g z) rows))) us = map (\<lambda>z. sum_list (map h (filter (\<lambda>x. key x = g z) rest))) us"
    by simp
  moreover have "sum_list (map (\<lambda>z. sum_list (map h (filter (\<lambda>x. key x = g z) rest))) us) = sum_list (map h rest)"
    using Cons.IH [of rest] Cons.prems by (auto simp: rest_def)
  ultimately show ?case unfolding split list.map sum_list.Cons by (simp only:)
qed

text \<open>On amounts that columns hold a distribution ends, with a result or an error.\<close>

lemma charge_pools_returns:
  "\<forall>x \<in> set xs. whole_field (due (pp_pool x)) \<Longrightarrow> \<exists>r. charge_pools env due xs f d = Some r"
proof (induction xs arbitrary: f d)
  case (Cons x xs)
  have "\<exists>r. charge_pool env (due (pp_pool x)) x d = Some r"
    using Cons.prems charge_chunks_returns by (auto simp: charge_pool_def split: prod.split option.split)
  then show ?case using Cons by (auto split: sum.split prod.split)
qed simp

lemma pay_users_returns:
  "\<forall>x \<in> set xs. \<forall>a. up_amount x = Some a \<longrightarrow> whole_field a \<Longrightarrow> \<exists>r. pay_users env xs p f d = Some r"
proof (induction xs arbitrary: p f d)
  case (Cons x xs)
  have "\<exists>r. pay_user env x p f d = Some r"
  proof (cases "\<exists>a u. up_amount x = Some a \<and> find_delegation p (up_delegation x) = Some u")
    case True
    then obtain a u where a: "up_amount x = Some a" "find_delegation p (up_delegation x) = Some u" by blast
    with Cons.prems obtain r where "credit_chunks env (up_id x) (ud_user u) a None d = Some r"
      using credit_chunks_returns by fastforce
    then show ?thesis using a by (auto simp: pay_user_def split: sum.split prod.split)
  qed (auto simp: pay_user_def split: option.split)
  then show ?case using Cons by (auto split: sum.split prod.split)
qed simp

lemma distribute_returns:
  assumes rows: "\<forall>x \<in> set (ft_users f). \<forall>a. up_amount x = Some a \<longrightarrow> whole_field a"
    and due: "\<forall>x \<in> set (unpaid_pools from_date targets f). whole_field (due_profit from_date targets p f (pp_pool x))"
  shows "\<exists>r p' f' d'. distribute_user_profit env from_date targets p f d = Some (r, p', f', d')"
proof (cases "list_ex (\<lambda>x. target_row from_date targets p x \<and> up_amount x = None) (ft_users f)")
  case False
  obtain r where r: "charge_pools env (due_profit from_date targets p f) (unpaid_pools from_date targets f) f d = Some r"
    using charge_pools_returns [OF due] by blast
  have "\<exists>q. pay_users env (unpaid_users from_date targets p f1) p f1 d1 = Some q"
    if "charge_pools env (due_profit from_date targets p f) (unpaid_pools from_date targets f) f d = Some (Inr (f1, d1))" for f1 d1
  proof -
    have "ft_users f1 = ft_users f" by (rule charge_pools_users [OF that])
    then show ?thesis using rows by (intro pay_users_returns) (auto simp: unpaid_users_def)
  qed
  with False r show ?thesis by (cases r) (auto simp: distribute_user_profit_def)
qed (simp add: distribute_user_profit_def)

text \<open>What a distribution moves.\<close>

lemma distribution_money:
  assumes c: "distribute_user_profit env from_date targets p f d = Some (Inr (), p', f', d')" and inv: "ledger_inv d"
    and rows: "\<forall>x \<in> set (ft_users f). \<forall>a. up_amount x = Some a \<longrightarrow> whole_field a"
    and due: "\<forall>x \<in> set (unpaid_pools from_date targets f). whole_field (due_profit from_date targets p f (pp_pool x))"
  defines "charged \<equiv> sum_list (map (\<lambda>x. due_profit from_date targets p f (pp_pool x)) (unpaid_pools from_date targets f))"
    and "unpaid \<equiv> unpaid_users from_date targets p f"
  shows "total_of k d' = total_of k d + (if k = RIAL then sum_list (map amount_or_0 unpaid) - charged else 0)"
    "spot_balance d' u RIAL = spot_balance d u RIAL + sum_list (map amount_or_0 (filter (\<lambda>x. user_of p x = Some u) unpaid))
        - (if u = SYSTEM_POOL_PROFIT then charged else 0)"
    "y \<in> set (ft_users f') \<Longrightarrow> x \<in> set unpaid \<Longrightarrow> up_id x = up_id y \<Longrightarrow> amount_or_0 x \<noteq> 0 \<Longrightarrow> up_transaction y \<noteq> None"
    "\<forall>z \<in> set (ft_users f). up_id z = i \<longrightarrow> up_transaction z \<noteq> None \<Longrightarrow> y \<in> set (ft_users f') \<Longrightarrow> up_id y = i \<Longrightarrow> up_transaction y \<noteq> None"
proof -
  from c obtain f1 d1 where ch: "charge_pools env (due_profit from_date targets p f) (unpaid_pools from_date targets f) f d = Some (Inr (f1, d1))"
    and py: "pay_users env (unpaid_users from_date targets p f1) p f1 d1 = Some (Inr (), p', f', d')"
    and amounts: "\<not> list_ex (\<lambda>x. target_row from_date targets p x \<and> up_amount x = None) (ft_users f)"
    by (auto simp: distribute_user_profit_def split: if_split_asm option.split_asm sum.split_asm prod.split_asm)
  have "\<forall>x \<in> set (unpaid_pools from_date targets f). pp_transaction x = None \<and> whole_field (due_profit from_date targets p f (pp_pool x))"
    using due by (simp add: unpaid_pools_def)
  note m1 = charge_pools_money [OF ch inv this]
  have inv1: "ledger_inv d1" and u1: "ft_users f1 = ft_users f" using m1 by blast+
  have un: "unpaid_users from_date targets p f1 = unpaid" by (simp add: unpaid_def unpaid_users_def u1)
  have "\<forall>x \<in> set unpaid. payable_row x"
    using rows amounts by (fastforce simp: unpaid_def unpaid_users_def payable_row_def list_ex_iff)
  note m2 = pay_users_money [OF py [unfolded un] inv1 this]
  show "total_of k d' = total_of k d + (if k = RIAL then sum_list (map amount_or_0 unpaid) - charged else 0)"
    "spot_balance d' u RIAL = spot_balance d u RIAL + sum_list (map amount_or_0 (filter (\<lambda>x. user_of p x = Some u) unpaid))
        - (if u = SYSTEM_POOL_PROFIT then charged else 0)"
    using m1 m2 by (simp_all add: charged_def)
  show "y \<in> set (ft_users f') \<Longrightarrow> x \<in> set unpaid \<Longrightarrow> up_id x = up_id y \<Longrightarrow> amount_or_0 x \<noteq> 0 \<Longrightarrow> up_transaction y \<noteq> None"
    using m2 by blast
  show "\<forall>z \<in> set (ft_users f). up_id z = i \<longrightarrow> up_transaction z \<noteq> None \<Longrightarrow> y \<in> set (ft_users f') \<Longrightarrow> up_id y = i \<Longrightarrow> up_transaction y \<noteq> None"
    using m2 unfolding u1 by blast
qed

text \<open>In a fresh distribution the pools are due what the users get.\<close>

lemma due_total:
  assumes dist: "distinct (map pp_pool us)"
    and fresh: "\<forall>x \<in> set (ft_users f). target_row from_date targets p x \<longrightarrow> up_transaction x = None
            \<and> pool_of_delegation p (up_delegation x) \<in> Some ` pp_pool ` set us"
  shows "sum_list (map (\<lambda>y. due_profit from_date targets p f (pp_pool y)) us)
    = sum_list (map amount_or_0 (unpaid_users from_date targets p f))"
proof -
  define rs where "rs = filter (target_row from_date targets p) (ft_users f)"
  have un: "unpaid_users from_date targets p f = rs" using fresh by (auto simp: rs_def unpaid_users_def intro: filter_cong)
  have "sum_list (map (\<lambda>y. due_profit from_date targets p f (pp_pool y)) us)
      = sum_list (map (\<lambda>y. sum_list (map amount_or_0 (filter (\<lambda>x. pool_of_delegation p (up_delegation x) = Some (pp_pool y)) rs))) us)"
    by (simp add: due_profit_def rs_def filter_filter conj_commute)
  also have "\<dots> = sum_list (map amount_or_0 rs)"
    by (rule sum_by_key [where g = "\<lambda>y. Some (pp_pool y)"])
      (use dist fresh in \<open>auto simp: rs_def distinct_map inj_on_def\<close>)
  finally show ?thesis by (simp only: un)
qed

text \<open>C13: on amounts that columns hold a distribution ends. When it ends without an error, every user
  has got exactly the shares of the month that were not paid before, the profit collector has
  given exactly the shares of the pools whose rial profit was not charged before, and every share
  that is not zero has its transaction, so that no share is paid twice. When nothing was paid
  before and every pool has exactly one profit in rials that is not charged, no currency gains
  or loses.\<close>

theorem distribution_exact:
  assumes inv: "ledger_inv d" and ids: "distinct (map up_id (ft_users f))"
    and rows: "\<forall>x \<in> set (ft_users f). \<forall>a. up_amount x = Some a \<longrightarrow> whole_field a"
    and due: "\<forall>x \<in> set (unpaid_pools from_date targets f). whole_field (due_profit from_date targets p f (pp_pool x))"
  shows "\<exists>r p' f' d'. distribute_user_profit env from_date targets p f d = Some (r, p', f', d') \<and> (r = Inr () \<longrightarrow>
     (\<forall>u. spot_balance d' u RIAL = spot_balance d u RIAL
        + sum_list (map amount_or_0 (filter (\<lambda>x. target_row from_date targets p x \<and> up_transaction x = None \<and> user_of p x = Some u) (ft_users f)))
        - (if u = SYSTEM_POOL_PROFIT
           then sum_list (map (\<lambda>x. due_profit from_date targets p f (pp_pool x)) (unpaid_pools from_date targets f)) else 0))
     \<and> (\<forall>y \<in> set (ft_users f'). (\<exists>x \<in> set (ft_users f). target_row from_date targets p x \<and> up_id x = up_id y \<and> amount_or_0 x \<noteq> 0)
          \<longrightarrow> up_transaction y \<noteq> None)
     \<and> ((\<forall>x \<in> set (ft_users f). target_row from_date targets p x \<longrightarrow> up_transaction x = None
            \<and> pool_of_delegation p (up_delegation x) \<in> Some ` pp_pool ` set (unpaid_pools from_date targets f))
        \<and> distinct (map pp_pool (unpaid_pools from_date targets f)) \<longrightarrow> (\<forall>k. total_of k d' = total_of k d)))"
proof -
  obtain r p' f' d' where c: "distribute_user_profit env from_date targets p f d = Some (r, p', f', d')"
    using distribute_returns [OF rows due] by blast
  define us where "us = unpaid_pools from_date targets f"
  define un where "un = unpaid_users from_date targets p f"
  show ?thesis
  proof (cases "r = Inr ()")
    case True
    note m = distribution_money [OF c [unfolded True] inv rows due, folded us_def un_def]
    have "filter (\<lambda>x. user_of p x = Some u) un
        = filter (\<lambda>x. target_row from_date targets p x \<and> up_transaction x = None \<and> user_of p x = Some u) (ft_users f)" for u
      by (auto simp: un_def unpaid_users_def intro: filter_cong)
    note bal = m(2) [unfolded this]
    have paid: "up_transaction y \<noteq> None"
      if y: "y \<in> set (ft_users f')" "x \<in> set (ft_users f)" "target_row from_date targets p x" "up_id x = up_id y" "amount_or_0 x \<noteq> 0" for x y
    proof (cases "up_transaction x = None")
      case True
      then have "x \<in> set un" using y by (simp add: un_def unpaid_users_def)
      from m(3) [OF y(1) this y(4,5)] show ?thesis .
    next
      case False
      have "z = x" if "z \<in> set (ft_users f)" "up_id z = up_id y" for z
        using that y(2,4) ids by (metis distinct_map inj_onD)
      with False show ?thesis using m(4) [OF _ y(1) refl] by blast
    qed
    have "total_of k d' = total_of k d"
      if "\<forall>x \<in> set (ft_users f). target_row from_date targets p x \<longrightarrow> up_transaction x = None
            \<and> pool_of_delegation p (up_delegation x) \<in> Some ` pp_pool ` set us" "distinct (map pp_pool us)" for k
      using m(1) [of k] due_total [OF that(2) that(1)] by (simp add: un_def)
    with c bal paid True show ?thesis unfolding us_def by (intro exI [of _ r] exI [of _ p'] exI [of _ f'] exI [of _ d']) blast
  qed (use c in blast)
qed

end
