(* ===== verification/Transfers_Example.thy ===== *)
theory Transfers_Example
  imports Transfers
begin

section \<open>Worked transfers\<close>

text \<open>
  The user of the worked order requests moves rials from the spot wallet to a new credit
  wallet, once an ordinary amount and once one of 31 digits; and two manual transactions
  are posted at once. The runs are the witnesses of the theorems on transfers.
\<close>

definition tf_env :: transfer_env where
  "tf_env = \<lparr>te_credit_currencies = [2], te_debit_currencies = [], te_MARGIN_CURRENCIES = [2], te_DST_CURRENCIES = [2, 13],
     te_now = 2000, te_order_flags = (\<lambda>_. \<lparr>no_order = False, recent_order = False\<rparr>)\<rparr>"

lemma tf_active: "active_balance oe_db oe_wallet (te_order_flags tf_env 22) = 5000000"
  by (simp add: active_balance_def blocked_balance_def get_balance_in_order_def get_blocked_balance_def in_order_rows_def
      get_financially_pending_requests_def oe_db_def oe_wallet_def tf_env_def) (simp add: dec_eval)

lemma tf_runs:
  assumes z: "\<not> money_is_zero a" "a \<le> 5000000" and q: "quantize ROUND_HALF_EVEN MAX_PRECISION (dneg a) = Inr (- p)"
    "quantize ROUND_HALF_EVEN MAX_PRECISION a = Inr q" "0 \<le> p" "p \<le> 5000000" "0 \<le> q"
  shows "\<exists>r d'. transfer_balance tf_env 22 2 a WSpot WCredit oe_db = Inr (r, d')"
proof -
  define w d1 where "w = \<lparr>w_id = 9, w_user = 22, w_currency = 2, w_type = WCredit, w_balance = 0, w_blocked = 0, w_active = True\<rparr>"
    and "d1 = oe_db\<lparr>wallets := [oe_wallet, w], next_wallet_id := 10\<rparr>"
  have al: "transfer_allowed tf_env 2 a WSpot WCredit = Inr ()" using z(1) by (simp add: transfer_allowed_def tf_env_def)
  have src: "transfer_source tf_env 22 2 a WSpot oe_db = Inr oe_wallet"
    using z(2) tf_active by (simp add: transfer_source_def wallet_for_def oe_db_def oe_wallet_def not_less)
  have dst: "transfer_target tf_env 22 2 WCredit oe_db = Inr (w, d1)"
  proof -
    have n: "wallet_for (wallets oe_db) 22 2 WCredit = None" by (simp add: wallet_for_def oe_db_def oe_wallet_def)
    have "get_user_wallet D oe_db 22 2 WCredit True = (Some w, d1)" for D
      by (simp add: get_user_wallet_def n Let_def) (simp add: w_def d1_def oe_db_def)
    then show ?thesis by (simp add: transfer_target_def n)
  qed
  have nn: "0 \<le> dadd 5000000 (- p)" using q(4) by (simp add: dadd_def ctx.rv_nonneg)
  obtain x where x: "create_transaction oe_wallet TxTransfer (dneg a) 2000 None None False = Inr (Some x)"
    and xf: "tx_wallet x = 8" "tx_amount x = - p" "tx_ref_module x = None"
    using nn by (simp add: create_transaction_def q(1) is_balance_allowed_def check_transaction_def oe_wallet_def Let_def)
  obtain y where y: "create_transaction w TxTransfer a 2000 None None True = Inr (Some y)"
    and yf: "tx_wallet y = 9" "tx_amount y = q" "tx_ref_module y = None"
    by (simp add: create_transaction_def q(2) is_balance_allowed_def check_transaction_def w_def Let_def)
  obtain d2 x' where c: "commit d1 x False = Inr (d2, x')"
    using xf q(4) by (simp add: commit_def Let_def find_wallet_def d1_def oe_wallet_def ref_taken_def)
  have "find_wallet (wallets d2) 9 = Some w"
    using c xf by (auto simp: commit_Inr find_put_wallet) (auto simp: find_wallet_def d1_def oe_wallet_def w_def)
  then obtain d3 y' where "commit d2 y True = Inr (d3, y')" using yf by (simp add: commit_def Let_def ref_taken_def)
  then show ?thesis using al src dst x y c by (simp add: transfer_balance_def commit_created_def tf_env_def)
qed

lemma tf_ledger: "ledger_inv oe_db"
  using oe_sound by (simp add: sound_db_def)

theorem transfer_exact_witness:
  "\<exists>r d'. transfer_balance tf_env 22 2 1000000 WSpot WCredit oe_db = Inr (r, d')
     \<and> find_wallet (wallets d') 8 = Some (oe_wallet\<lparr>w_balance := 4000000\<rparr>) \<and> total_of 2 d' = total_of 2 oe_db"
proof -
  have q: "quantize ROUND_HALF_EVEN MAX_PRECISION (dneg 1000000) = Inr (- 1000000)"
    "quantize ROUND_HALF_EVEN MAX_PRECISION 1000000 = Inr 1000000" "ctx 1000000 = 1000000" "\<not> money_is_zero 1000000"
    by (simp_all add: MAX_PRECISION_def money_is_zero_def money_is_close_def dec_eval)
  obtain r d' where t: "transfer_balance tf_env 22 2 1000000 WSpot WCredit oe_db = Inr (r, d')"
    using tf_runs [OF q(4) _ q(1,2)] by auto
  have "wallet_for (wallets oe_db) 22 2 WSpot = Some oe_wallet" by (simp add: wallet_for_def oe_db_def oe_wallet_def)
  with transfer_exact [OF t tf_ledger q(3)] q(2) t show ?thesis by (auto simp: oe_wallet_def)
qed

theorem transfer_creates_money_witness:
  "\<exists>r d'. transfer_balance tf_env 22 2 long_amount WSpot WCredit oe_db = Inr (r, d')
     \<and> total_of 2 d' = total_of 2 oe_db + 1 / 10 ^ 10"
proof -
  have "\<not> money_is_zero long_amount" "long_amount \<le> 5000000"
    by (simp_all add: long_amount_def money_is_zero_def money_is_close_def dec_eval)
  then obtain r d' where t: "transfer_balance tf_env 22 2 long_amount WSpot WCredit oe_db = Inr (r, d')"
    using tf_runs [OF _ _ long_amount_rounds] by auto
  from transfer_creates_money [OF t tf_ledger] t show ?thesis by blast
qed

definition tf_manual :: "nat \<Rightarrow> rat \<Rightarrow> transaction" where
  "tf_manual i a = \<lparr>tx_id = 0, tx_wallet = 8, tx_tp = TxManual, tx_amount = a, tx_balance = 0, tx_created_at = 2000,
     tx_ref_module = None, tx_ref_id = Some i\<rparr>"

definition tf_manager :: tx_manager where
  "tf_manager = \<lparr>tm_wallet = oe_wallet, tm_starting_balance = 5000000, tm_transactions = [tf_manual 1 2000, tf_manual 2 (- 500)]\<rparr>"

theorem commit_all_as_commits_witness:
  "\<exists>m' d'. commit_all tf_manager False oe_db = Inr (m', d') \<and> fold_result post_any oe_db (tm_transactions tf_manager) = Inr d'
     \<and> w_balance (tm_wallet m') = 5001500"
proof -
  have row: "find_wallet (wallets oe_db) (w_id (tm_wallet tf_manager)) = Some oe_wallet" "w_balance oe_wallet = 5000000"
    by (simp_all add: find_wallet_def oe_db_def tf_manager_def oe_wallet_def)
  have "balance_field 5000000" "balance_field 5002000" "balance_field 5001500"
    by (simp_all add: balance_field_def fits_def money_constants on_grid_iff dec_eval)
  then have fits: "running_fits (w_balance oe_wallet) (tm_transactions tf_manager)"
    by (simp add: row(2) tf_manager_def tf_manual_def)
  have own: "\<forall>t \<in> set (tm_transactions tf_manager). tx_wallet t = w_id (tm_wallet tf_manager)"
    by (simp add: tf_manager_def tf_manual_def oe_wallet_def)
  have "refs_free (transactions oe_db) (number_from n [(tf_manual 1 2000)\<lparr>tx_balance := a\<rparr>, (tf_manual 2 (- 500))\<lparr>tx_balance := b\<rparr>])" for n a b
    by (simp add: ref_taken_def tf_manual_def)
  moreover have "dadd (dadd 0 2000) (- 500) = 1500" by (simp add: dec_eval)
  ultimately obtain m' d' where c: "commit_all tf_manager False oe_db = Inr (m', d')"
    using row by (simp add: commit_all_def Let_def tf_manager_def) (simp add: tf_manual_def)
  from commit_all_as_commits [OF c tf_ledger own row(1) fits] c show ?thesis
    by (auto simp: row(2) tf_manager_def tf_manual_def)
qed

end
