(* ===== verification/Pools_Example.thy ===== *)
theory Pools_Example
  imports Pool_Profits_Claims Transfers_Example
begin

section \<open>A worked pool\<close>

text \<open>
  The user of the worked order requests delegates rials to a pool; a pool whose oldest unpaid request
  is for nothing; the scores of the examples in the documentation of \<open>calculate_user_score\<close>; and
  the profit of a pool with two users. The runs are the witnesses of the theorems on pools.
\<close>

definition lp_pool :: pool where
  "lp_pool = \<lparr>pl_id = 1, pl_currency = 2, pl_capacity = 9000000, pl_filled_capacity = 0, pl_revoked_capacity = 0,
     pl_manager = 50, pl_is_active = True, pl_is_private = False\<rparr>"

definition lp_tables :: pool_tables where
  "lp_tables = \<lparr>pt_pools = [lp_pool], pt_accesses = [], pt_delegations = [], pt_transactions = [], pt_revokes = [], pt_next_id = 1\<rparr>"

definition lp_env :: pool_env where
  "lp_env = \<lparr>ple_precision = (\<lambda>_. DecRep 1 0), ple_DST_CURRENCIES = [2, 13], ple_min_delegation = Some 1000,
     ple_max_delegation = (\<lambda>_. Some 8000000), ple_coin_price = (\<lambda>_. 0), ple_margin_orders = [], ple_positions = [],
     ple_order_flags = (\<lambda>_. \<lparr>no_order = False, recent_order = False\<rparr>), ple_hash = (\<lambda>_. 0), ple_now = 2000\<rparr>"

definition lp_user :: pool_user where "lp_user = \<lparr>pu_id = 22, pu_type = 44\<rparr>"

lemma lp_inv: "pool_inv lp_tables" and lp_fine: "fine_precisions lp_env"
  by (simp_all add: pool_inv_def pool_ids_def capacity_ok_def total_filled_def total_revoked_def lp_tables_def lp_pool_def
      fine_precisions_def lp_env_def MAX_PRECISION_def)

lemma lp_limits:
  "quantize_number 1000000 (DecRep 1 0) ROUND_DOWN = Inr 1000000" "\<not> money_is_zero 1000000" "unfilled_capacity lp_pool = 9000000"
  "min_delegation lp_env lp_pool = Inr 1000" "get_max_delegation lp_env lp_pool 44 = Inr 8000000"
  by (simp_all add: quantize_number_def rep_value_def money_is_zero_def money_is_close_def unfilled_capacity_def lp_pool_def
      min_delegation_def calc_amount_in_token_def lp_env_def RIAL_def get_max_delegation.simps [of _ _ 44] dec_eval)

definition lp_row :: user_delegation where
  "lp_row = \<lparr>ud_id = 1, ud_pool = 1, ud_user = 22, ud_balance = 0, ud_created_at = 2000, ud_closed_at = None, ud_total_profit = 0\<rparr>"

lemma lp_posts:
  "\<exists>tx d'. create_delegation_transaction lp_env lp_pool lp_row 1000000 2 ''DelegationSrc'' ''DelegationDst'' oe_db = Inr (tx, d')"
proof -
  define w d1 where "w = \<lparr>w_id = 9, w_user = 50, w_currency = 2, w_type = WSpot, w_balance = 0, w_blocked = 0, w_active = True\<rparr>"
    and "d1 = oe_db\<lparr>wallets := [oe_wallet, w], next_wallet_id := 10\<rparr>"
  have f: "wallet_for (wallets oe_db) 50 2 WSpot = None" "wallet_for (wallets oe_db) 22 2 WSpot = Some oe_wallet"
    by (simp_all add: wallet_for_def oe_db_def oe_wallet_def)
  have src: "pool_wallet lp_env 22 2 oe_db = (oe_wallet, oe_db)" by (simp add: pool_wallet_def get_user_wallet_def f)
  have "get_user_wallet D oe_db 50 2 WSpot True = (Some w, d1)" for D
    by (simp add: get_user_wallet_def f Let_def) (simp add: w_def d1_def oe_db_def)
  then have dst: "pool_wallet lp_env 50 2 oe_db = (w, d1)" by (simp add: pool_wallet_def)
  have q: "quantize ROUND_HALF_EVEN MAX_PRECISION (dneg 1000000) = Inr (- 1000000)" "quantize ROUND_HALF_EVEN MAX_PRECISION 1000000 = Inr 1000000"
    "0 \<le> dadd 5000000 (- 1000000)" "0 \<le> dadd 0 1000000"
    by (simp_all add: MAX_PRECISION_def dec_eval)
  obtain x where x: "create_transaction oe_wallet TxDelegate (dneg 1000000) 2000 None None False = Inr (Some x)"
    and xf: "tx_wallet x = 8" "tx_amount x = - 1000000"
    using q by (simp add: create_transaction_def is_balance_allowed_def check_transaction_def oe_wallet_def Let_def)
  obtain y where y: "create_transaction w TxDelegate 1000000 2000 None None False = Inr (Some y)"
    and yf: "tx_wallet y = 9" "tx_amount y = 1000000"
    using q by (simp add: create_transaction_def is_balance_allowed_def check_transaction_def w_def Let_def)
  have free: "\<not> ref_taken (transactions d1) (set_ref h (Some (''DelegationSrc'', 2)) x)" for h
    by (simp add: ref_taken_def set_ref_def d1_def oe_db_def)
  have rows: "find_wallet (wallets d1) 8 = Some oe_wallet" "find_wallet (wallets d1) 9 = Some w"
    by (simp_all add: find_wallet_def d1_def oe_wallet_def w_def)
  obtain d2 x' where c: "commit d1 (set_ref (ple_hash lp_env) (Some (''DelegationSrc'', 2)) x) False = Inr (d2, x')"
    using free rows xf by (simp add: commit_def Let_def oe_wallet_def)
  have row2: "find_wallet (wallets d2) 9 = Some w" using c rows xf by (auto simp: commit_Inr find_put_wallet)
  have codes: "map_of REF_MODULES ''DelegationSrc'' = Some 101" "map_of REF_MODULES ''DelegationDst'' = Some 102" by code_simp+
  have "transactions d2 = transactions oe_db @ [x']" "tx_ref_module x' = Some 101"
    using c by (auto simp: commit_Inr d1_def set_ref_def codes)
  then have "\<not> ref_taken (transactions d2) (set_ref h (Some (''DelegationDst'', 2)) y)" for h
    by (simp add: ref_taken_def set_ref_def oe_db_def codes)
  then obtain d3 y' where "commit d2 (set_ref (ple_hash lp_env) (Some (''DelegationDst'', 2)) y) False = Inr (d3, y')"
    using row2 yf by (simp add: commit_def Let_def w_def)
  with src dst x y c show ?thesis
    by (simp add: create_delegation_transaction_def commit_created_def lp_pool_def lp_row_def)
      (simp add: lp_env_def)
qed

lemma lp_delegates: "\<exists>k p' d'. create_delegation lp_env lp_pool lp_user 1000000 lp_tables oe_db = Inr (k, p', d')"
proof -
  obtain tx d' where t: "create_delegation_transaction lp_env lp_pool lp_row 1000000 2 ''DelegationSrc'' ''DelegationDst'' oe_db = Inr (tx, d')"
    using lp_posts by blast
  define p1 where "p1 = lp_tables\<lparr>pt_delegations := [lp_row], pt_next_id := 2\<rparr>"
  have g: "get_or_create_delegation lp_env 1 22 lp_tables = (lp_row, p1)"
    by (simp add: get_or_create_delegation_def new_delegation_def lp_tables_def p1_def lp_row_def lp_env_def Let_def numeral_2_eq_2)
  have "pool_wallet lp_env 22 2 oe_db = (oe_wallet, oe_db)"
    by (simp add: pool_wallet_def get_user_wallet_def) (simp add: wallet_for_def oe_db_def oe_wallet_def)
  moreover have "active_balance oe_db oe_wallet (ple_order_flags lp_env 22) = 5000000" using tf_active by (simp add: tf_env_def lp_env_def)
  moreover have "ctx 1000000 = 1000000" by (simp add: dec_eval)
  ultimately have cl: "clean_delegation lp_env lp_pool lp_row 1000000 oe_db = Inr oe_db"
    using lp_limits(2,3) by (simp add: clean_delegation_def) (simp add: lp_pool_def lp_row_def)
  obtain p2 where b: "update_balance lp_env 1 1000000 (p1\<lparr>pt_next_id := 3\<rparr>) = Inr p2"
    by (simp add: update_balance_def update_filled_capacity_def save_pool_def find_delegation_def find_pool_def put_delegation_def
        p1_def lp_row_def lp_tables_def lp_pool_def column_fits_def money_constants Let_def dec_eval)
  have f: "find_delegation p1 1 = Some lp_row" "find_pool p1 1 = Some lp_pool" "pt_next_id p1 = 2" "column_fits TRANSACTION_MAX_DIGITS 1000000"
    by (simp_all add: find_delegation_def find_pool_def p1_def lp_row_def lp_tables_def lp_pool_def column_fits_def money_constants dec_eval)
  have r: "\<exists>row p3. create_delegation_row lp_env 1 1000000 p1 oe_db = Inr (row, p3, d')"
    using cl b t f by (simp add: create_delegation_row_def Let_def) (simp add: lp_row_def Let_def)
  have "dadd 1000000 0 = 1000000" "\<not> has_unpaid_revoke 1 22 p1"
    by (simp_all add: has_unpaid_revoke_def p1_def lp_tables_def dec_eval)
  moreover have "pl_id lp_pool = 1" "pl_currency lp_pool = 2" "pl_is_private lp_pool = False" "pu_id lp_user = 22" "pu_type lp_user = 44"
    "ple_precision lp_env 2 = DecRep 1 0" "ud_balance lp_row = 0" "ud_id lp_row = 1"
    by (simp_all add: lp_pool_def lp_user_def lp_env_def lp_row_def)
  ultimately show ?thesis
    using lp_limits g r
    by (auto simp: create_delegation_def has_provider_access_def is_user_type_eligible_to_delegate_def USER_TYPE_LEVEL1_def min_def)
qed

theorem delegation_exact_witness:
  "\<exists>k p' d'. create_delegation lp_env lp_pool lp_user 1000000 lp_tables oe_db = Inr (k, p', d')
     \<and> spot_balance d' 22 2 = 4000000 \<and> spot_balance d' 50 2 = 1000000"
proof -
  obtain k p' d' where c: "create_delegation lp_env lp_pool lp_user 1000000 lp_tables oe_db = Inr (k, p', d')"
    using lp_delegates by blast
  have s: "find_pool lp_tables (pl_id lp_pool) = Some lp_pool" "pu_id lp_user \<noteq> pl_manager lp_pool" "ple_precision lp_env 2 = DecRep 1 0"
    "pl_currency lp_pool = 2" "pl_manager lp_pool = 50" "pu_id lp_user = 22"
    by (simp_all add: find_pool_def lp_tables_def lp_pool_def lp_user_def lp_env_def)
  have "spot_balance oe_db 22 2 = 5000000" "spot_balance oe_db 50 2 = 0"
    by (simp_all add: spot_balance_def wallet_for_def oe_db_def oe_wallet_def)
  with delegation_exact [OF c lp_inv lp_fine tf_ledger s(1,2)] c lp_limits(1) show ?thesis by (auto simp: s)
qed

theorem pool_books_sound_witness:
  "\<exists>p' d'. pool_step\<^sup>*\<^sup>* (lp_tables, oe_db) (p', d') \<and> pt_transactions p' \<noteq> []
     \<and> (\<forall>pl \<in> set (pt_pools p'). pl_filled_capacity pl = total_filled p' (pl_id pl))"
proof -
  obtain k p' d' where c: "create_delegation lp_env lp_pool lp_user 1000000 lp_tables oe_db = Inr (k, p', d')"
    using lp_delegates by blast
  have "py_decimal ''1000000'' = Some (Finite 1000000)"
    using py_decimal_plain_number [of "''1000000''" "[]"] by (simp add: plain_number_def is_digit_def digit_value_def pow10_def)
  then have "parse_money True False None (PStr ''1000000'') = Inr (Some 1000000)"
    by (simp add: parse_money_def isfinite_def dec_eval)
  with c have "pool_delegate_post lp_env lp_user 1 (PStr ''1000000'') lp_tables oe_db = Inr (k, p', d')"
    by (simp add: pool_delegate_post_def find_pool_def) (simp add: lp_tables_def lp_pool_def)
  from pool_step.delegate [OF this lp_fine] have run: "pool_step\<^sup>*\<^sup>* (lp_tables, oe_db) (p', d')" by simp
  have "pt_transactions p' \<noteq> []" using c by (auto elim!: create_delegation_Inr create_delegation_row_Inr)
  with pool_books_sound [OF run lp_inv] run show ?thesis by blast
qed

subsection \<open>A blocked pool\<close>

text \<open>The first user has asked back all of a delegation of 5000, and then for 0.4 of a rial.\<close>

definition bl_delegation :: "nat \<Rightarrow> nat \<Rightarrow> rat \<Rightarrow> datetime option \<Rightarrow> user_delegation" where
  "bl_delegation i user balance closed_at = \<lparr>ud_id = i, ud_pool = 1, ud_user = user, ud_balance = balance, ud_created_at = 0,
     ud_closed_at = closed_at, ud_total_profit = 0\<rparr>"

definition bl_transaction :: "nat \<Rightarrow> nat \<Rightarrow> rat \<Rightarrow> delegation_transaction" where
  "bl_transaction i ud amount = \<lparr>dt_id = i, dt_user_delegation = ud, dt_amount = amount, dt_created_at = 0, dt_transaction = Some i\<rparr>"

definition bl_request :: "nat \<Rightarrow> rat \<Rightarrow> revoke_status \<Rightarrow> nat \<Rightarrow> revoke_request" where
  "bl_request i amount status ud = \<lparr>rv_id = i, rv_amount = amount, rv_created_at = int i, rv_status = status,
     rv_delegation_transaction = None, rv_user_delegation = ud\<rparr>"

definition bl_before :: pool_tables where
  "bl_before = \<lparr>pt_pools = [lp_pool\<lparr>pl_filled_capacity := 8000, pl_revoked_capacity := 5000\<rparr>], pt_accesses = [],
     pt_delegations = [bl_delegation 1 22 5000 None, bl_delegation 2 23 3000 None],
     pt_transactions = [bl_transaction 3 1 5000, bl_transaction 4 2 3000],
     pt_revokes = [bl_request 5 5000 RevokeNew 1], pt_next_id = 6\<rparr>"

text \<open>The first request has been paid, and the second user has asked back 3000.\<close>

definition bl_after :: pool_tables where
  "bl_after = \<lparr>pt_pools = [lp_pool\<lparr>pl_filled_capacity := 3000, pl_revoked_capacity := 3000\<rparr>], pt_accesses = [],
     pt_delegations = [bl_delegation 1 22 0 (Some 9), bl_delegation 2 23 3000 None],
     pt_transactions = [bl_transaction 3 1 5000, bl_transaction 4 2 3000, bl_transaction 7 1 (- 5000)],
     pt_revokes = [bl_request 5 5000 RevokePaid 1, bl_request 6 0 RevokeNew 1, bl_request 8 3000 RevokeNew 2], pt_next_id = 9\<rparr>"

lemmas bl_defs = bl_before_def bl_after_def bl_delegation_def bl_transaction_def bl_request_def lp_pool_def

lemma bl_inv: "pool_inv bl_after"
proof -
  have "balance_field 0" "balance_field 3000" "ctx 3000 = 3000" "on_grid MAX_PRECISION 3000"
    "ctx 5000 = 5000" "on_grid MAX_PRECISION 5000"
    by (simp_all add: balance_field_def fits_def money_constants MAX_PRECISION_def on_grid_def dec_eval)
  then show ?thesis
    by (simp add: pool_inv_def pool_ids_def delegation_ok_def capacity_ok_def request_ok_def total_filled_def total_revoked_def
        delegated_def open_revokes_def pool_of_delegation_def find_delegation_def find_pool_def bl_defs)
qed

lemma bl_accepted:
  "\<exists>r p'. create_delegation_revoke_request lp_env (lp_pool\<lparr>pl_filled_capacity := 8000, pl_revoked_capacity := 5000\<rparr>)
      (bl_delegation 1 22 5000 None) (4 / 10) bl_before = Inr (r, p') \<and> rv_amount r = 0 \<and> rv_status r = RevokeNew"
proof (rule empty_request_accepted)
  show "maximum_withdrawal_amount bl_before (bl_delegation 1 22 5000 None) = 0"
    by (simp add: maximum_withdrawal_amount_def open_revokes_def bl_defs dec_eval)
  show "min_delegation lp_env (lp_pool\<lparr>pl_filled_capacity := 8000, pl_revoked_capacity := 5000\<rparr>) = Inr 1000"
    by (simp add: min_delegation_def calc_amount_in_token_def lp_env_def lp_pool_def RIAL_def)
  show "capacity_ok bl_before (lp_pool\<lparr>pl_filled_capacity := 8000, pl_revoked_capacity := 5000\<rparr>)"
    by (simp add: capacity_ok_def total_filled_def total_revoked_def pool_of_delegation_def find_delegation_def bl_defs)
qed (simp_all add: find_pool_def bl_defs lp_env_def column_fits_def money_constants dec_eval)

theorem empty_revoke_blocks_pool_witness:
  "(\<exists>r p'. create_delegation_revoke_request lp_env (lp_pool\<lparr>pl_filled_capacity := 8000, pl_revoked_capacity := 5000\<rparr>)
      (bl_delegation 1 22 5000 None) (4 / 10) bl_before = Inr (r, p') \<and> rv_amount r = 0)
   \<and> (\<exists>p' d'. check_delegation_revoke_request lp_env None bl_after oe_db = (p', d') \<and> bl_request 8 3000 RevokeNew 2 \<in> set (pt_revokes p'))"
proof -
  obtain p' d' where c: "check_delegation_revoke_request lp_env None bl_after oe_db = (p', d')" by (rule prod.exhaust)
  have "new_requests None bl_after = [bl_request 6 0 RevokeNew 1, bl_request 8 3000 RevokeNew 2]"
    by (simp add: new_requests_def bl_defs insort_key.simps)
  then have first: "filter (\<lambda>x. pool_of_delegation bl_after (rv_user_delegation x) = Some 1) (new_requests None bl_after)
      = bl_request 6 0 RevokeNew 1 # [bl_request 8 3000 RevokeNew 2]"
    by (simp add: pool_of_delegation_def find_delegation_def) (simp add: bl_defs)
  have z: "money_is_zero (rv_amount (bl_request 6 0 RevokeNew 1))" by (simp add: bl_request_def money_is_zero_nonpos)
  have x: "bl_request 8 3000 RevokeNew 2 \<in> set (pt_revokes bl_after)"
    "pool_of_delegation bl_after (rv_user_delegation (bl_request 8 3000 RevokeNew 2)) = Some 1"
    by (simp_all add: pool_of_delegation_def find_delegation_def bl_defs)
  from empty_revoke_blocks_pool [OF c bl_inv first z x] c bl_accepted show ?thesis by blast
qed

subsection \<open>Scores\<close>

text \<open>The second example of the documentation: days one to nine, with the factor one tenth.\<close>

definition sc_env :: profit_env where
  "sc_env = \<lparr>fe_factor = 1 / 10, fe_day = (\<lambda>t. t), fe_DST_CURRENCIES = [2, 13], fe_hash = (\<lambda>_. 0), fe_now = 10\<rparr>"

definition sc_transaction :: "int \<Rightarrow> rat \<Rightarrow> delegation_transaction" where
  "sc_transaction day amount = \<lparr>dt_id = 0, dt_user_delegation = 1, dt_amount = amount, dt_created_at = day, dt_transaction = Some 1\<rparr>"

definition sc_tables :: pool_tables where
  "sc_tables = \<lparr>pt_pools = [], pt_accesses = [], pt_delegations = [],
     pt_transactions = [sc_transaction 1 4, sc_transaction 2 (- 1), sc_transaction 3 1, sc_transaction 4 (- 2), sc_transaction 5 1,
       sc_transaction 6 (- 1 / 2), sc_transaction 8 (3 / 2)], pt_revokes = [], pt_next_id = 1\<rparr>"

lemma documented_score:
  "calculate_user_score sc_env ((bl_delegation 1 22 4 None)\<lparr>ud_created_at := 1\<rparr>) 1 9 sc_tables
     = Inr (3 / 2 * effective_days sc_env 2 + 1 / 2 * effective_days sc_env 5 + 2 * effective_days sc_env 9)"
  by (simp add: calculate_user_score_def period_transactions_def overtime_balance_def sc_tables_def sc_transaction_def sc_env_def
      bl_delegation_def effective_days_def day_in_row_factor_def Let_def dec_eval)

subsection \<open>Profits\<close>

text \<open>A profit of 100 rials for two users with the scores 1 and 2.\<close>

definition pf_row :: "nat \<Rightarrow> rat \<Rightarrow> rat option \<Rightarrow> user_profit" where
  "pf_row i score amount = \<lparr>up_id = i, up_delegation = i, up_transaction = None, up_from_date = 1, up_to_date = 30, up_score = score,
     up_amount = amount\<rparr>"

definition pf_tables :: "rat option \<Rightarrow> rat option \<Rightarrow> profit_tables" where
  "pf_tables a b = \<lparr>ft_users = [pf_row 1 1 a, pf_row 2 2 b],
     ft_pools = [\<lparr>pp_id = 1, pp_pool = 1, pp_currency = 2, pp_orders = [], pp_transaction = None, pp_from_date = 1, pp_to_date = 30,
                  pp_position_profit = 100, pp_rial_value = Some 100\<rparr>], ft_next_id = 3\<rparr>"

lemma pf_pools: "pool_of_delegation bl_before 1 = Some 1" "pool_of_delegation bl_before 2 = Some 1"
  by (simp_all add: pool_of_delegation_def find_delegation_def bl_defs)

lemma pf_sums: "total_score 1 1 bl_before (pf_tables a b) = 3" "current_profit 1 1 (pf_tables a b) = Some (Some 100)"
  using pf_pools by (simp_all add: total_score_def current_profit_def pf_tables_def pf_row_def List.map_filter_simps)

lemma pf_shares: "profit_share 3 (Some (Some 100)) 1 = Inr 33" "profit_share 3 (Some (Some 100)) 2 = Inr 66"
  by (simp_all add: profit_share_def quantize_number_def rep_value_def round_int.simps dec_eval)

lemma pf_populate: "\<exists>f'. populate_users_profit 1 [1] bl_before (pf_tables None None) = Inr f'"
proof -
  have u: "unshared 1 [1] bl_before (pf_tables None None) = [pf_row 1 1 None, pf_row 2 2 None]"
    using pf_pools by (simp add: unshared_def target_row_def) (simp add: pf_tables_def pf_row_def pf_pools)
  have n: "num_batches 2 = Suc 0" by (simp add: num_batches_def BATCH_SIZE_def)
  have s: "share_of (\<lambda>i. total_score 1 i bl_before (pf_tables None None)) (\<lambda>i. current_profit 1 i (pf_tables None None)) bl_before (pf_row 1 1 None) = Inr 33"
    "share_of (\<lambda>i. total_score 1 i bl_before (pf_tables None None)) (\<lambda>i. current_profit 1 i (pf_tables None None)) bl_before (pf_row 2 2 None) = Inr 66"
    using pf_pools pf_sums pf_shares by (simp_all add: share_of_def pf_row_def)
  show ?thesis by (simp add: populate_users_profit_def u n share_batch_def s BATCH_SIZE_def numeral_2_eq_2 [symmetric] del: One_nat_def)
qed

lemma shares_written_once_example:
  "\<exists>f'. populate_users_profit 1 [1] bl_before (pf_tables None None) = Inr f' \<and> unshared 1 [1] bl_before f' = []"
proof -
  obtain f' where c: "populate_users_profit 1 [1] bl_before (pf_tables None None) = Inr f'" using pf_populate by blast
  have "distinct (map up_id (ft_users (pf_tables None None)))" by (simp add: pf_tables_def pf_row_def)
  from shares_written_once [OF c this] c show ?thesis by blast
qed

theorem shares_within_profit_witness:
  "\<exists>f'. populate_users_profit 1 [1] bl_before (pf_tables None None) = Inr f' \<and> due_profit 1 [1] bl_before f' 1 \<le> 100"
proof -
  obtain f' where c: "populate_users_profit 1 [1] bl_before (pf_tables None None) = Inr f'" using pf_populate by blast
  have f: "distinct (map up_id (ft_users (pf_tables None None)))"
    "\<forall>x \<in> set (ft_users (pf_tables None None)). target_row 1 [1] bl_before x \<longrightarrow> up_amount x = None"
    "\<forall>x \<in> set (ft_users (pf_tables None None)). 0 \<le> up_score x" "(1 :: nat) \<in> set [1]" "on_grid 0 (100 :: rat)"
    by (simp_all add: pf_tables_def pf_row_def on_grid_def pow10_def)
  from shares_within_profit [OF c f(1,4,2,3) pf_sums(2) _ f(5)] c show ?thesis by auto
qed

definition pf_wallet :: wallet where
  "pf_wallet = \<lparr>w_id = 5, w_user = 988, w_currency = 2, w_type = WSpot, w_balance = 5000, w_blocked = 0, w_active = True\<rparr>"

definition pf_db :: mdb where
  "pf_db = oe_db\<lparr>wallets := [pf_wallet, oe_wallet],
     transactions := transactions oe_db @ [\<lparr>tx_id = 6, tx_wallet = 5, tx_tp = TxDeposit, tx_amount = 5000, tx_balance = 5000,
                      tx_created_at = 0, tx_ref_module = None, tx_ref_id = None\<rparr>]\<rparr>"

lemma pf_ledger: "ledger_inv pf_db"
  by (simp add: ledger_inv_def refs_unique_def update_balance_from_transactions_def tx_ref_def pf_db_def pf_wallet_def oe_db_def oe_wallet_def)

lemma one_charge:
  assumes w: "wallet_for (wallets d) u 2 WSpot = Some v" "w_id w = w_id v" "w_active w" "33 \<le> w_balance w" "find_wallet (wallets d) (w_id v) = Some v"
    "33 \<le> w_balance v" "\<forall>t \<in> set (transactions d). tx_ref_module t = None"
  shows "\<exists>i d1. charge_chunks sc_env pk w 33 None d = Some (Inr (Some i, d1)) \<and> (\<forall>t \<in> set (transactions d1). tx_ref_module t \<noteq> Some 106)
    \<and> wallets d1 = put_wallet (\<lambda>x. x\<lparr>w_balance := w_balance v - 33\<rparr>) (w_id v) (wallets d)"
proof -
  have q: "min 33 TRANSACTION_MAX = 33" "quantize ROUND_HALF_EVEN MAX_PRECISION (dneg 33) = Inr (- 33)" "dsub 33 33 = 0"
    by (simp_all add: TRANSACTION_MAX_eq MAX_PRECISION_def min_def dec_eval)
  have "0 \<le> dadd (w_balance w) (- 33)" using w(4) by (simp add: dadd_def ctx.rv_nonneg)
  then obtain t where t: "create_transaction w TxDelegate (dneg 33) 10 None None False = Inr (Some t)" and tf: "tx_wallet t = w_id v" "tx_amount t = - 33"
    using w(2,3) q(2) by (simp add: create_transaction_def is_balance_allowed_def check_transaction_def Let_def)
  have code: "map_of REF_MODULES ''DelegationProfitSrc'' = Some 105" by code_simp
  define t' where "t' = set_ref (fe_hash sc_env) (Some (''DelegationProfitSrc'', pk)) t"
  have "\<not> ref_taken (transactions d) t'" using w(7) by (auto simp: ref_taken_def t'_def set_ref_def code list_ex_iff)
  then obtain d1 t1 where c: "commit d t' False = Inr (d1, t1)"
    using w(5,6) tf by (simp add: commit_def Let_def t'_def)
  have "charge_chunks sc_env pk w 33 None d = Some (Inr (Some (tx_id t1), d1))"
    using t c by (subst charge_chunks.simps) (simp add: Let_def q(1,3) sc_env_def t'_def charge_chunks.simps)
  moreover have "\<forall>t \<in> set (transactions d1). tx_ref_module t \<noteq> Some 106"
    "wallets d1 = put_wallet (\<lambda>x. x\<lparr>w_balance := w_balance v - 33\<rparr>) (w_id v) (wallets d)"
    using c w(5,7) tf by (auto simp: commit_Inr t'_def set_ref_def code)
  ultimately show ?thesis by blast
qed

lemma one_credit:
  assumes w: "wallet_for (wallets d) user 2 WSpot = Some v" "w_active v" "find_wallet (wallets d) (w_id v) = Some v"
    "\<forall>t \<in> set (transactions d). tx_ref_module t \<noteq> Some 106"
  shows "\<exists>i d1. credit_chunks sc_env pk user 33 None d = Some (Inr (Some i, d1))"
proof -
  have q: "min 33 TRANSACTION_MAX = 33" "quantize ROUND_HALF_EVEN MAX_PRECISION 33 = Inr 33" "dsub 33 33 = 0"
    by (simp_all add: TRANSACTION_MAX_eq MAX_PRECISION_def min_def dec_eval)
  have g: "get_user_wallet D d user RIAL WSpot True = (Some v, d)" for D by (simp add: get_user_wallet_def w(1) RIAL_def)
  obtain t where t: "create_transaction v TxDelegate 33 10 None None True = Inr (Some t)" and tf: "tx_wallet t = w_id v"
    using w(2) q(2) by (simp add: create_transaction_def is_balance_allowed_def check_transaction_def Let_def)
  have code: "map_of REF_MODULES ''DelegationProfitDst'' = Some 106" by code_simp
  define t' where "t' = set_ref (fe_hash sc_env) (Some (''DelegationProfitDst'', pk)) t"
  have "\<not> ref_taken (transactions d) t'" using w(4) by (auto simp: ref_taken_def t'_def set_ref_def code list_ex_iff)
  then obtain d1 t1 where c: "commit d t' True = Inr (d1, t1)" using w(3) tf by (simp add: commit_def Let_def t'_def)
  have "credit_chunks sc_env pk user 33 None d = Some (Inr (Some (tx_id t1), d1))"
    using t c by (subst credit_chunks.simps) (simp add: Let_def q(1,3) g commit_created_def sc_env_def t'_def credit_chunks.simps)
  then show ?thesis by blast
qed

text \<open>The due profit of the pool is 33, of one user.\<close>

lemma pf_due: "due_profit 1 [1] bl_before (pf_tables (Some 33) (Some 0)) 1 = 33"
  "unpaid_pools 1 [1] (pf_tables (Some 33) (Some 0)) = ft_pools (pf_tables None None)"
  "unpaid_users 1 [1] bl_before (pf_tables (Some 33) (Some 0)) = [pf_row 1 1 (Some 33), pf_row 2 2 (Some 0)]"
  using pf_pools by (simp_all add: due_profit_def unpaid_pools_def unpaid_users_def target_row_def pf_tables_def pf_row_def amount_or_0_def RIAL_def)

lemma pf_distribute:
  "\<exists>p' f' d'. distribute_user_profit sc_env 1 [1] bl_before (pf_tables (Some 33) (Some 0)) pf_db = Some (Inr (), p', f', d')"
proof -
  let ?f = "pf_tables (Some 33) (Some 0)"
  have f: "wallet_for (wallets pf_db) 988 2 WSpot = Some pf_wallet" "find_wallet (wallets pf_db) (w_id pf_wallet) = Some pf_wallet"
    "w_active pf_wallet" "33 \<le> w_balance pf_wallet" "\<forall>t \<in> set (transactions pf_db). tx_ref_module t = None"
    by (simp_all add: wallet_for_def find_wallet_def pf_db_def pf_wallet_def oe_db_def)
  obtain i d1 where ch: "charge_chunks sc_env 1 pf_wallet 33 None pf_db = Some (Inr (Some i, d1))"
    and d1: "\<forall>t \<in> set (transactions d1). tx_ref_module t \<noteq> Some 106"
      "wallets d1 = put_wallet (\<lambda>x. x\<lparr>w_balance := w_balance pf_wallet - 33\<rparr>) (w_id pf_wallet) (wallets pf_db)"
    using one_charge [OF f(1) refl f(3,4,2,4,5)] by blast
  have g: "get_user_wallet D pf_db 988 2 WSpot True = (Some pf_wallet, pf_db)" for D by (simp add: get_user_wallet_def f(1))
  define x where "x = hd (ft_pools (pf_tables None None))"
  have x: "ft_pools (pf_tables None None) = [x]" "pp_pool x = 1" "pp_id x = 1" "pp_transaction x = None" by (simp_all add: x_def pf_tables_def)
  obtain f1 where cp: "charge_pools sc_env (due_profit 1 [1] bl_before ?f) [x] ?f pf_db = Some (Inr (f1, d1))" and f1: "ft_users f1 = ft_users ?f"
    using ch by (simp add: charge_pool_def x pf_due(1) g SYSTEM_POOL_PROFIT_def RIAL_def del: One_nat_def)
  have uw: "wallet_for (wallets d1) 22 2 WSpot = Some oe_wallet" "find_wallet (wallets d1) (w_id oe_wallet) = Some oe_wallet" "w_active oe_wallet"
    by (simp_all add: d1 put_wallet_def wallet_for_def find_wallet_def pf_db_def pf_wallet_def oe_wallet_def)
  obtain j d2 where cr: "credit_chunks sc_env 1 22 33 None d1 = Some (Inr (Some j, d2))" using one_credit [OF uw(1,3,2) d1(1)] by blast
  have v: "find_delegation bl_before 1 = Some (bl_delegation 1 22 5000 None)" by (simp add: find_delegation_def bl_defs)
  have "unpaid_users 1 [1] bl_before f1 = [pf_row 1 1 (Some 33), pf_row 2 2 (Some 0)]"
    using pf_due(3) by (simp add: unpaid_users_def f1)
  moreover obtain p2 f2 where "pay_user sc_env (pf_row 1 1 (Some 33)) bl_before f1 d1 = Some (Inr (p2, f2, d2))"
    using cr v by (simp add: pay_user_def pf_row_def bl_delegation_def)
  then have "pay_users sc_env [pf_row 1 1 (Some 33), pf_row 2 2 (Some 0)] bl_before f1 d1 = Some (Inr (), p2, f2, d2)"
    unfolding pay_users.simps by (simp add: pay_user_def pf_row_def)
  moreover have "\<not> list_ex (\<lambda>x. target_row 1 [1] bl_before x \<and> up_amount x = None) (ft_users ?f)" by (simp add: pf_tables_def pf_row_def)
  ultimately show ?thesis
    using cp by (simp add: distribute_user_profit_def pf_due(2) x(1) del: One_nat_def pay_users.simps charge_pools.simps)
qed

theorem distribution_exact_witness:
  "\<exists>p' f' d'. distribute_user_profit sc_env 1 [1] bl_before (pf_tables (Some 33) (Some 0)) pf_db = Some (Inr (), p', f', d')
     \<and> total_of 2 d' = total_of 2 pf_db"
proof -
  obtain p' f' d' where c: "distribute_user_profit sc_env 1 [1] bl_before (pf_tables (Some 33) (Some 0)) pf_db = Some (Inr (), p', f', d')"
    using pf_distribute by blast
  have b: "whole_field 33" "whole_field 0" by (simp_all add: whole_field_def balance_field_def fits_def money_constants on_grid_def dec_eval)
  have rows: "\<forall>x \<in> set (ft_users (pf_tables (Some 33) (Some 0))). \<forall>a. up_amount x = Some a \<longrightarrow> whole_field a"
    "distinct (map up_id (ft_users (pf_tables (Some 33) (Some 0))))"
    "\<forall>x \<in> set (ft_users (pf_tables (Some 33) (Some 0))). target_row 1 [1] bl_before x \<longrightarrow> up_transaction x = None"
    using b by (simp_all add: pf_tables_def pf_row_def)
  have pools: "distinct (map pp_pool (unpaid_pools 1 [1] (pf_tables (Some 33) (Some 0))))"
    "\<forall>x \<in> set (unpaid_pools 1 [1] (pf_tables (Some 33) (Some 0))). pp_pool x = 1" "pp_pool ` set (unpaid_pools 1 [1] (pf_tables (Some 33) (Some 0))) = {1}"
    unfolding pf_due(2) by (simp_all add: pf_tables_def)
  have own: "pool_of_delegation bl_before (up_delegation x) = Some 1" if "x \<in> set (ft_users (pf_tables (Some 33) (Some 0)))" for x
    using that pf_pools by (auto simp: pf_tables_def pf_row_def)
  have due: "\<forall>x \<in> set (unpaid_pools 1 [1] (pf_tables (Some 33) (Some 0))).
      whole_field (due_profit 1 [1] bl_before (pf_tables (Some 33) (Some 0)) (pp_pool x))"
    using pools(2) b(1) pf_due(1) by simp
  have "total_of 2 d' = total_of 2 pf_db"
    using distribution_exact [OF pf_ledger rows(2,1) due, of sc_env] c rows(3) pools own by auto
  with c show ?thesis by blast
qed

end
