(* ===== verification/Withdraws_Ledger.thy ===== *)
theory Withdraws_Ledger
  imports Withdraws_Claims Matcher_Steps
begin

section \<open>Withdraw requests and the ledger\<close>

text \<open>
  Every operation on withdraw requests keeps the wallets what the matcher needs them to
  be: balances are sums of transactions, never negative, multiples of the money precision,
  and the rows that block balances are those of the table of requests. Orders are not
  touched.
\<close>

definition wd_ok :: "'a wdb_scheme \<Rightarrow> bool" where
  "wd_ok d \<longleftrightarrow> ledger_inv d \<and> solvent d \<and> db_grid d \<and> withdraws d = map to_row (wd_table d)"

definition wd_step :: "'a wdb_scheme \<Rightarrow> 'a wdb_scheme \<Rightarrow> bool" where
  "wd_step d d' \<longleftrightarrow> (wd_ok d \<longrightarrow> wd_ok d') \<and> orders d' = orders d"

lemma wd_step_refl [simp, intro]: "wd_step d d"
  by (simp add: wd_step_def)

lemma wd_step_trans: "wd_step a b \<Longrightarrow> wd_step b c \<Longrightarrow> wd_step a c"
  by (simp add: wd_step_def)

lemma fold_copy_amount:
  "wd_amount (fold (copy_field rq) fs row) = (if FAmount \<in> set fs then wd_amount rq else wd_amount row)"
proof (induction fs arbitrary: row)
  case (Cons f fs)
  then show ?case by (cases f) simp_all
qed simp

lemma table_step:
  assumes "\<forall>w \<in> set ws. on_grid MAX_PRECISION (wd_amount w) \<or> w \<in> set (wd_table d)"
  shows "wd_step d (set_wd_table ws d)"
proof -
  have "list_all (\<lambda>r. on_grid MAX_PRECISION (wr_amount r)) (map to_row ws)" if "wd_ok d"
    using that assms by (auto simp: wd_ok_def db_grid_def list_all_iff to_row_def)
  then show ?thesis
    by (auto simp: wd_step_def wd_ok_def set_wd_table_def ledger_inv_def solvent_def update_balance_from_transactions_def
        db_grid_def)
qed

lemma write_step:
  assumes "FAmount \<notin> set fs \<or> on_grid MAX_PRECISION (wd_amount rq)"
  shows "wd_step d (write_fields fs rq d)"
proof (cases "wd_ok d")
  case True
  then have "\<forall>w \<in> set (wd_table d). on_grid MAX_PRECISION (wd_amount w)"
    by (auto simp: wd_ok_def db_grid_def list_all_iff to_row_def)
  with assms show ?thesis unfolding write_fields_def by (intro table_step) (auto simp: fold_copy_amount)
qed (simp add: wd_step_def write_fields_def set_wd_table_def)

lemma commit_step:
  assumes "commit d tx False = Inr (d', tx')" "on_grid MAX_PRECISION (tx_amount tx)"
  shows "wd_step d d'"
  using assms commit_keeps_ledger_inv [OF _ assms(1)] commit_keeps_solvent [OF _ assms(1)] commit_grid [OF _ assms]
  by (auto simp: wd_step_def wd_ok_def commit_Inr)

lemma reject_step: "system_reject_request rq d = (rq', d') \<Longrightarrow> wd_step d d'"
  by (auto simp: system_reject_request_def Let_def intro: write_step)

lemma recheck_step:
  assumes "recheck_request env rq d = Inr (rq', d')"
  shows "wd_step d d'"
  using assms reject_step [of rq d]
  by (auto simp: recheck_request_def Let_def intro: write_step split: if_splits option.split_asm)

lemma withdraw_tx_step:
  assumes "create_withdraw_transaction env rq d = Inr (rq', d')"
  shows "wd_step d d'"
proof (cases "wd_transaction rq")
  case None
  obtain w where w: "find_wallet (wallets d) (wd_wallet rq) = Some w"
    using assms None by (auto simp: create_withdraw_transaction_def split: option.split_asm)
  obtain t where t: "create_transaction w (if wd_tp rq = WTGateway then TxGateway else TxWithdraw)
      (dneg (wd_amount rq)) (we_now env) None None False = Inr t"
    using assms None w by (auto simp: create_withdraw_transaction_def rbind_eq_Inr_iff)
  show ?thesis
  proof (cases t)
    case None
    with assms w t \<open>wd_transaction rq = None\<close> reject_step show ?thesis
      by (simp add: create_withdraw_transaction_def) blast
  next
    case (Some tx)
    define tx1 where "tx1 = tx\<lparr>tx_ref_module := ref_code ''WithdrawRequest'', tx_ref_id := Some (wd_id rq)\<rparr>"
    from assms w t Some None obtain d1 tx2 where c: "commit d tx1 False = Inr (d1, tx2)"
      and r: "recheck_request env (rq\<lparr>wd_transaction := Some (tx_id tx2)\<rparr>)
          (write_fields [FTransaction] (rq\<lparr>wd_transaction := Some (tx_id tx2)\<rparr>) d1) = Inr (rq', d')"
      by (auto simp: create_withdraw_transaction_def rbind_eq_Inr_iff tx1_def Let_def)
    have "on_grid MAX_PRECISION (tx_amount tx1)"
      using create_transaction_Some [OF t [unfolded Some]] quantize_on_grid by (auto simp: tx1_def)
    then have "wd_step d d1" by (rule commit_step [OF c])
    moreover have "wd_step d1 (write_fields [FTransaction] (rq\<lparr>wd_transaction := Some (tx_id tx2)\<rparr>) d1)"
      by (rule write_step) simp
    ultimately show ?thesis using recheck_step [OF r] wd_step_trans by blast
  qed
qed (use assms in \<open>simp add: create_withdraw_transaction_def\<close>)

lemma refund_step:
  assumes "refund env i t d = Inr (r, d')"
  shows "wd_step d d'"
proof -
  obtain w where w: "find_wallet (wallets d) i = Some w" using assms by (auto simp: refund_def split: option.split_asm)
  obtain x where x: "create_transaction w TxRefund (dneg (tx_amount t)) (we_now env) None None False = Inr x"
    using assms w by (auto simp: refund_def rbind_eq_Inr_iff)
  show ?thesis
  proof (cases x)
    case (Some tx)
    have "on_grid MAX_PRECISION (tx_amount (tx\<lparr>tx_ref_module := m, tx_ref_id := j\<rparr>))" for m j
      using create_transaction_Some [OF x [unfolded Some]] quantize_on_grid by auto
    moreover obtain tx' where "commit d (tx\<lparr>tx_ref_module := ref_code ''ReverseTransaction'', tx_ref_id := Some (tx_id t)\<rparr>) False
        = Inr (d', tx')"
      using assms w x Some by (auto simp: refund_def rbind_eq_Inr_iff)
    ultimately show ?thesis using commit_step by blast
  qed (use assms w x in \<open>simp add: refund_def\<close>)
qed

lemma reverse_step:
  assumes "create_reverse_transaction env rq d = Inr (r, d')"
  shows "wd_step d d'"
proof -
  have two: "wd_step d d'" if "rbind (refund env a t d) (\<lambda>(r, d). if r = None then Inr (None, d) else refund env b u d) = Inr (r, d')"
    for a t b u
    using that refund_step wd_step_trans by (auto simp: rbind_eq_Inr_iff split: if_splits) blast+
  from assms consider "d' = d" | a t where "refund env a t d = Inr (r, d')"
    | a t b u where "rbind (refund env a t d) (\<lambda>(r, d). if r = None then Inr (None, d) else refund env b u d) = Inr (r, d')"
    by (auto simp: create_reverse_transaction_def split: option.split_asm)
  then show ?thesis using two refund_step by cases auto
qed

subsection \<open>The operations\<close>

lemma after_save_step:
  assumes "after_save env rq d = Inr (rq', d')"
  shows "wd_step d d'"
proof -
  from assms obtain o1 d1 where r: "recheck_request env rq d = Inr (o1, d1)"
    and c: "(if wd_status o1 \<in> set STATUSES_COMMITED then create_withdraw_transaction env o1 d1 else Inr (o1, d1)) = Inr (rq', d')"
    by (auto simp: after_save_def rbind_eq_Inr_iff)
  have "wd_step d1 d'" using c withdraw_tx_step by (auto split: if_splits)
  with recheck_step [OF r] show ?thesis by (rule wd_step_trans)
qed

lemma save_step:
  assumes "save_withdraw env fs rq d = Inr (rq', d')" "FAmount \<notin> set fs \<or> on_grid MAX_PRECISION (wd_amount rq)"
  shows "wd_step d d'"
proof -
  define old where "old = map_option wd_status (find_wd d (wd_id rq))"
  define o1 where "o1 = (if check_status_transition old (wd_status rq) then rq
      else rq\<lparr>wd_status := (case old of None \<Rightarrow> WNew | Some s \<Rightarrow> s)\<rparr>)"
  have "after_save env o1 (write_fields fs o1 d) = Inr (rq', d')"
    using assms(1) by (simp only: save_withdraw_def Let_def old_def [symmetric] o1_def [symmetric])
  then have "wd_step (write_fields fs o1 d) d'" by (rule after_save_step)
  moreover have "wd_step d (write_fields fs o1 d)" by (rule write_step) (use assms(2) in \<open>simp add: o1_def\<close>)
  ultimately show ?thesis using wd_step_trans by blast
qed

lemma next_wd_step: "wd_step d e \<Longrightarrow> wd_step d (e\<lparr>next_wd_id := n\<rparr>)"
proof -
  have "wd_ok (e\<lparr>next_wd_id := n\<rparr>) = wd_ok e"
    by (simp add: wd_ok_def ledger_inv_def solvent_def db_grid_def update_balance_from_transactions_def)
  then show "wd_step d e \<Longrightarrow> wd_step d (e\<lparr>next_wd_id := n\<rparr>)" by (simp add: wd_step_def)
qed

lemma insert_step:
  assumes "insert_withdraw env rq d = Inr (rq', d')" "on_grid MAX_PRECISION (wd_amount rq)"
  shows "wd_step d d'"
proof -
  define o1 where "o1 = rq\<lparr>wd_id := next_wd_id d\<rparr>"
  define d1 where "d1 = (set_wd_table (wd_table d @ [o1]) d)\<lparr>next_wd_id := Suc (next_wd_id d)\<rparr>"
  have "wd_step d (set_wd_table (wd_table d @ [o1]) d)" by (rule table_step) (use assms(2) in \<open>simp add: o1_def\<close>)
  then have "wd_step d d1" unfolding d1_def by (rule next_wd_step)
  moreover have "after_save env o1 d1 = Inr (rq', d')" using assms(1) by (simp add: insert_withdraw_def o1_def d1_def Let_def)
  ultimately show ?thesis using after_save_step wd_step_trans by blast
qed

lemma int_on_money_grid: "on_grid MAX_PRECISION (of_int x)"
proof -
  have "on_grid 0 (of_int x)" by (simp add: on_grid_def pow10_def)
  then show ?thesis by (rule on_grid_coarser) (simp add: MAX_PRECISION_def)
qed

lemma parts_step:
  assumes "fold_result (create_part env rq) d xs = Inr d'"
  shows "wd_step d d'"
proof (rule fold_result_invariant [OF assms, of "wd_step d"])
  fix e x e'
  assume e: "wd_step d e" "create_part env rq e x = Inr e'"
  then obtain o1 o2 where i: "insert_withdraw env o1 e = Inr (o2, e')" "wd_amount o1 = of_int x"
    by (fastforce simp: create_part_def rbind_eq_Inr_iff)
  have "wd_step e e'" by (rule insert_step [OF i(1)]) (simp add: i(2) int_on_money_grid)
  with e(1) show "wd_step d e'" by (rule wd_step_trans)
qed simp

lemma split_step:
  assumes "split_if_needed env rq d = Inr (rq', d')"
  shows "wd_step d d'"
proof -
  define tot where "tot = (if 0 \<le> wd_amount rq then \<lfloor>wd_amount rq\<rfloor> else \<lceil>wd_amount rq\<rceil>)"
  define parts where "parts = split_amounts (max_amount env rq) tot"
  define o1 where "o1 = rq\<lparr>wd_fee := Some (of_int (max_fee env rq)), wd_amount := of_int (hd parts),
      wd_rial_value := Some (of_int (hd parts))\<rparr>"
  obtain rial where r: "is_rial d rq = Inr rial" using assms by (auto simp: split_if_needed_def rbind_eq_Inr_iff)
  note split = assms [unfolded split_if_needed_def Let_def r rbind_Inr, folded tot_def, folded parts_def, folded o1_def]
  show ?thesis
  proof (cases "rial \<and> \<not> tot \<le> max_amount env rq")
    case True
    with split obtain o2 d1 where s: "save_withdraw env [FAmount, FRialValue, FFee] o1 d = Inr (o2, d1)"
      and p: "fold_result (create_part env o2) d1 (tl parts) = Inr d'"
      by (auto simp: rbind_eq_Inr_iff)
    have "wd_step d d1" by (rule save_step [OF s]) (simp add: o1_def int_on_money_grid)
    then show ?thesis using parts_step [OF p] by (rule wd_step_trans)
  next
    case False
    with split have "d' = d \<or> (\<exists>o2. save_withdraw env [FFee] o2 d = Inr (rq', d'))" by (auto split: if_splits)
    then show ?thesis by (auto intro: save_step)
  qed
qed

lemma verify_step:
  assumes "do_verify env rq d = Inr (rq', d')"
  shows "wd_step d d'"
proof (cases "wd_status rq = WNew")
  case True
  define m where "m = (if WITHDRAW_CREATE_TX_VERIFY env
      then (case find_wd d (wd_id rq) of None \<Rightarrow> Inl DoesNotExist | Some row \<Rightarrow> create_withdraw_transaction env row d)
      else Inr (rq, d))"
  from assms True obtain o1 d1 where m1: "m = Inr (o1, d1)"
    and k: "(if WITHDRAW_CREATE_TX_VERIFY env \<and> wd_transaction o1 = None then Inr (o1, d1)
           else rbind (save_withdraw env [FStatus] (o1\<lparr>wd_status := WVerified\<rparr>) d1) (\<lambda>(rq, d). split_if_needed env rq d))
         = Inr (rq', d')"
    unfolding do_verify_def m_def [symmetric] by (auto simp: rbind_eq_Inr_iff)
  have "wd_step d d1" using m1 withdraw_tx_step by (auto simp: m_def split: if_splits option.split_asm)
  moreover have "wd_step d1 d'"
  proof (cases "WITHDRAW_CREATE_TX_VERIFY env \<and> wd_transaction o1 = None")
    case False
    with k obtain o2 d2 where s: "save_withdraw env [FStatus] (o1\<lparr>wd_status := WVerified\<rparr>) d1 = Inr (o2, d2)"
      and p: "split_if_needed env o2 d2 = Inr (rq', d')"
      by (auto simp: rbind_eq_Inr_iff)
    have "wd_step d1 d2" by (rule save_step [OF s]) simp
    then show ?thesis using split_step [OF p] by (rule wd_step_trans)
  qed (use k in simp)
  ultimately show ?thesis by (rule wd_step_trans)
qed (use assms in \<open>simp add: do_verify_def\<close>)

lemma cancel_step_ok:
  assumes "cancel_request env rq d = Inr (ok, rq', d')"
  shows "wd_step d d'"
proof -
  from assms obtain ok1 where ok1: "is_cancelable env d rq = Inr ok1" by (auto simp: cancel_request_def rbind_eq_Inr_iff)
  show ?thesis
  proof (cases ok1)
    case True
    with assms ok1 obtain o1 d1 where s: "save_withdraw env [FStatus] (rq\<lparr>wd_status := WCanceled\<rparr>) d = Inr (o1, d1)"
      and k: "(if WITHDRAW_CREATE_TX_VERIFY env \<and> wd_transaction o1 \<noteq> None
         then rbind (create_reverse_transaction env o1 d1) (\<lambda>(t, d). Inr (t \<noteq> None, o1, d))
         else Inr (True, o1, d1)) = Inr (ok, rq', d')"
      by (auto simp: cancel_request_def rbind_eq_Inr_iff)
    have "wd_step d d1" by (rule save_step [OF s]) simp
    moreover have "wd_step d1 d'" using k reverse_step by (auto simp: rbind_eq_Inr_iff split: if_splits)
    ultimately show ?thesis by (rule wd_step_trans)
  qed (use assms ok1 in \<open>simp add: cancel_request_def\<close>)
qed

end
