(* ===== verification/Exchange.thy ===== *)
theory Exchange
  imports TradeProcessor_Claims Order_Api_Example Transfers_Example Pools_Ledger Order_Cancel Withdraws_Ledger Divider
begin

section \<open>The exchange as one system\<close>

text \<open>
  The components share the tables of one database. A state of the exchange is that
  database with the table of withdraw requests, the tables of the pools and the trades the
  processor has filled but not yet saved. Each handler of the components is a step: placing and cancelling orders, transfers, delegating to pools and taking back,
  a round of the concurrent matcher, a round of the trade processor, saving its trades, and
  the operations on withdraw requests. A handler that raises runs in a transaction that is
  rolled back, except the processor's, which keeps the deposits it has made.

  The theorem says that every state the exchange can reach from a sound one is sound.
\<close>

record exchange =
  xc_db :: mdb
  xc_requests :: "withdraw list"
  xc_next_request :: nat
  xc_filled :: "trade list"
  xc_pools :: pool_tables

text \<open>The view of the withdraw requests on the shared tables, and back.\<close>

definition as_wdb :: "exchange \<Rightarrow> wdb" where
  "as_wdb x = db.extend (db.truncate (xc_db x)) (wdb.fields (xc_requests x) (xc_next_request x))"

definition from_wdb :: "wdb \<Rightarrow> exchange \<Rightarrow> exchange" where
  "from_wdb w x = x\<lparr>xc_db := db.extend (db.truncate w) (db.more (xc_db x)),
     xc_requests := wd_table w, xc_next_request := next_wd_id w\<rparr>"

definition as_tp :: "exchange \<Rightarrow> tp_state" where
  "as_tp x = \<lparr>tp_db = xc_db x, tp_trades = xc_filled x\<rparr>"

definition from_tp :: "tp_state \<Rightarrow> exchange \<Rightarrow> exchange" where
  "from_tp st x = x\<lparr>xc_db := tp_db st, xc_filled := tp_trades st\<rparr>"

inductive exchange_step :: "exchange \<Rightarrow> exchange \<Rightarrow> bool" where
  place: "create_order env i rq (xc_db x) = (r, d') \<Longrightarrow> i \<notin> o_id ` set (orders (xc_db x)) \<Longrightarrow> valid_request env rq
    \<Longrightarrow> sane_markets env \<Longrightarrow> exchange_step x (x\<lparr>xc_db := d'\<rparr>)"
| add_order: "order_create_post aenv user pro client ua od ids (xc_db x) = (rsp, d') \<Longrightarrow> fresh_ids ids (xc_db x)
    \<Longrightarrow> sane_markets (ae_oe aenv) \<Longrightarrow> exchange_step x (x\<lparr>xc_db := d'\<rparr>)"
| add_orders: "order_batch_create_post aenvs user pro client ua ods idss (xc_db x) = (rsps, d') \<Longrightarrow> fresh_batch idss (xc_db x)
    \<Longrightarrow> (\<And>k. sane_markets (ae_oe (aenvs k))) \<Longrightarrow> exchange_step x (x\<lparr>xc_db := d'\<rparr>)"
| transfer: "transfer_balance_post aenv tenv user cur am src dst (xc_db x) = Inr (r, d') \<Longrightarrow> exchange_step x (x\<lparr>xc_db := d'\<rparr>)"
| transfer_bulk: "bulk_transfer_post aenv tenv user src dst items (xc_db x) = Inr (y, d') \<Longrightarrow> exchange_step x (x\<lparr>xc_db := d'\<rparr>)"
| pool: "pool_step (xc_pools x, xc_db x) (p', d') \<Longrightarrow> exchange_step x (x\<lparr>xc_db := d', xc_pools := p'\<rparr>)"
| update: "orders_update_status user i c st (xc_db x) = Inr (r, d') \<Longrightarrow> exchange_step x (x\<lparr>xc_db := d'\<rparr>)"
| cancel: "orders_cancel_batch user ids (xc_db x) = (a, d') \<Longrightarrow> exchange_step x (x\<lparr>xc_db := d'\<rparr>)"
| cancel_old: "exchange_step x (x\<lparr>xc_db := orders_cancel_old now user src dst hours ex tt (xc_db x)\<rparr>)"
| match: "do_matching_round menv async_stop ts mark rc (xc_db x) = Inr rr
    \<Longrightarrow> MAX_PRECISION \<le> the (amount_precision menv) \<Longrightarrow> exchange_step x (x\<lparr>xc_db := mdb (rr_state rr)\<rparr>)"
| settle: "do_round menv is_disabled n now DST market_dst positions cached last_id (as_tp x) = (rp, st')
    \<Longrightarrow> exchange_step x (from_tp st' x)"
| save_trades: "exchange_step x (from_tp (bulk_update_trades (as_tp x)) x)"
| request: "insert_withdraw wenv wd (as_wdb x) = Inr (wd', w') \<Longrightarrow> on_grid MAX_PRECISION (wd_amount wd)
    \<Longrightarrow> exchange_step x (from_wdb w' x)"
| save_request: "save_withdraw wenv fs wd (as_wdb x) = Inr (wd', w') \<Longrightarrow> on_grid MAX_PRECISION (wd_amount wd)
    \<Longrightarrow> exchange_step x (from_wdb w' x)"
| verify: "do_verify wenv wd (as_wdb x) = Inr (wd', w') \<Longrightarrow> exchange_step x (from_wdb w' x)"
| cancel_request: "cancel_request wenv wd (as_wdb x) = Inr (ok, wd', w') \<Longrightarrow> exchange_step x (from_wdb w' x)"

definition exchange_inv :: "exchange \<Rightarrow> bool" where
  "exchange_inv x \<longleftrightarrow> sound_db (xc_db x) \<and> withdraws (xc_db x) = map to_row (xc_requests x) \<and> pool_inv (xc_pools x)"

subsection \<open>Deposits\<close>

text \<open>What the processor may do to the tables.\<close>

definition tp_keeps :: "mdb \<Rightarrow> mdb \<Rightarrow> bool" where
  "tp_keeps d d' \<longleftrightarrow> (sound_db d \<longrightarrow> sound_db d') \<and> withdraws d' = withdraws d"

lemma tp_keeps_refl [simp, intro]: "tp_keeps d d"
  by (simp add: tp_keeps_def)

lemma tp_keeps_trans: "tp_keeps a b \<Longrightarrow> tp_keeps b c \<Longrightarrow> tp_keeps a c"
  by (simp add: tp_keeps_def)

lemma fold_tp: "(\<And>x d. tp_keeps d (f x d)) \<Longrightarrow> tp_keeps d (fold f xs d)"
proof (induction xs arbitrary: d)
  case (Cons x xs)
  have "tp_keeps d (f x d)" "tp_keeps (f x d) (fold f xs (f x d))" using Cons by blast+
  then show ?case using tp_keeps_trans by simp
qed simp

lemma get_user_wallet_tp: "get_user_wallet D d u c tp cr = (w, d') \<Longrightarrow> tp_keeps d d'"
  unfolding tp_keeps_def
  using get_user_wallet_keeps_sound get_user_wallet_db(3) by blast

lemma create_wallet_tp: "tp_keeps d (create_wallet k d)"
proof -
  obtain u c tp where k: "k = (u, c, tp)" by (rule prod_cases3)
  have "create_wallet k d = snd (get_user_wallet [c] d u c tp True)"
    by (auto simp: k create_wallet_def get_user_wallet_def Let_def split: option.split)
  then show ?thesis using get_user_wallet_tp [of "[c]" d u c tp True] by (metis prod.collapse)
qed

lemma deposit_wallet_tp: "deposit_wallet env d o1 c w = Inr (x, d') \<Longrightarrow> tp_keeps d d'"
  using get_providing_wallet_cases [of env d o1 c] get_user_wallet_tp
  by (fastforce simp: deposit_wallet_def split: option.split_asm prod.split_asm)

lemma deposit_grid:
  assumes "deposit_tx d w a m i c = Inr (x, d')"
  shows "(db_grid d \<longrightarrow> db_grid d') \<and> withdraws d' = withdraws d"
proof -
  from assms obtain tx where tx: "create_transaction w TxBuy a c (Some m) (Some i) True = Inr tx"
    and k: "(case tx of None \<Rightarrow> Inr (None, d) | Some tx \<Rightarrow> rbind (commit d tx True) (\<lambda>(d', tx'). Inr (Some tx', d'))) = Inr (x, d')"
    by (auto simp: deposit_tx_def rbind_eq_Inr_iff)
  show ?thesis
  proof (cases tx)
    case (Some y)
    then obtain tx' where c: "commit d y True = Inr (d', tx')" using k by (auto simp: rbind_eq_Inr_iff)
    have "on_grid MAX_PRECISION (tx_amount y)"
      using create_transaction_Some [OF tx [unfolded Some]] quantize_on_grid by blast
    with commit_grid [OF _ c] c show ?thesis by (auto simp: commit_Inr)
  qed (use k in simp)
qed

lemma deposit_tp:
  assumes "deposit_tx d w a m i c = Inr (x, d')"
  shows "tp_keeps d d'"
  using assms
proof (cases rule: deposit_tx_cases)
  case (made q tx)
  then show ?thesis using deposit_grid [OF assms] trades_more [of d' d] by (simp add: tp_keeps_def sound_db_def)
qed simp

lemma deposit_transactions_tp:
  "create_sell_deposit_transaction d w t c = Inr (x, d') \<Longrightarrow> tp_keeps d d'"
  "create_buy_deposit_transaction d w t c = Inr (x, d') \<Longrightarrow> tp_keeps d d'"
  using deposit_tp by (auto simp: deposits_as_deposit_tx split: option.split_asm)

lemma fill_tp:
  assumes f: "fill_trade_transactions env now so bo sw bw ids t d = (r, d')"
  shows "tp_keeps d d'"
proof -
  consider "d' = d" | w1 d1 where "deposit_wallet env d so (o_dst so) sw = Inr (w1, d1)" "d' = d1"
    | w1 d1 x1 d2 where "deposit_wallet env d so (o_dst so) sw = Inr (w1, d1)"
        "create_sell_deposit_transaction d1 w1 t now = Inr (x1, d2)" "d' = d2"
    | w1 d1 x1 d2 w2 d3 where "deposit_wallet env d so (o_dst so) sw = Inr (w1, d1)"
        "create_sell_deposit_transaction d1 w1 t now = Inr (x1, d2)" "deposit_wallet env d2 bo (o_src bo) bw = Inr (w2, d3)" "d' = d3"
    | w1 d1 x1 d2 w2 d3 x2 where "deposit_wallet env d so (o_dst so) sw = Inr (w1, d1)"
        "create_sell_deposit_transaction d1 w1 t now = Inr (x1, d2)" "deposit_wallet env d2 bo (o_src bo) bw = Inr (w2, d3)"
        "create_buy_deposit_transaction d3 w2 t now = Inr (x2, d')"
    using f unfolding fill_trade_transactions_def
    by (auto split: list.split_asm sum.split_asm prod.split_asm)
  then show ?thesis
    by cases (metis deposit_wallet_tp deposit_transactions_tp tp_keeps_trans tp_keeps_refl)+
qed

lemma trade_pairs_save: "trade_pairs (trades (save_trade_ids t d)) = trade_pairs (trades d)"
  by (simp add: trade_pairs_def save_trade_ids_def comp_def)

lemma save_ids_tp: "tp_keeps d (save_trade_ids t d)"
proof -
  have "db_grid (save_trade_ids t d) = db_grid d" "withdraws (save_trade_ids t d) = withdraws d"
    by (simp_all add: db_grid_def save_trade_ids_def)
  then show ?thesis by (simp add: tp_keeps_def sound_db_def trade_pairs_save)
qed

lemma process_trade_tp:
  assumes "process_trade env saves now so bo sw bw ids t st = (ok, st')"
  shows "tp_keeps (tp_db st) (tp_db st')"
proof -
  obtain r d where f: "fill_trade_transactions env now so bo sw bw ids t (tp_db st) = (r, d)" by (rule prod.exhaust)
  with assms fill_tp [OF f] save_ids_tp [of d] tp_keeps_trans show ?thesis
    by (cases r) (auto simp: process_trade_def split: if_splits)
qed

lemma run_trades_tp:
  assumes "run_trades env now ws prov cached ts st = (r, st')"
  shows "tp_keeps (tp_db st) (tp_db st')"
  using assms
proof (induction ts arbitrary: st r)
  case (Cons t ts)
  show ?case
  proof (cases "trade_orders (tp_db st) t")
    case (Some ob)
    obtain so bo where ob: "ob = (so, bo)" by (rule prod.exhaust)
    show ?thesis
    proof (cases "get_deposit_wallets ws prov so bo")
      case (Inr wb)
      obtain sw bw where wb: "wb = (sw, bw)" by (rule prod.exhaust)
      obtain ok st1 where p: "process_trade env False now so bo sw bw (cached_tx_ids cached t) t st = (ok, st1)" by (rule prod.exhaust)
      obtain r2 st2 where q: "run_trades env now ws prov cached ts st1 = (r2, st2)" by (rule prod.exhaust)
      have "st' = st2" using Cons.prems Some ob Inr wb p q by (auto split: sum.split_asm)
      with process_trade_tp [OF p] Cons.IH [of st1 r2] q show ?thesis using tp_keeps_trans by blast
    qed (use Cons.prems Some ob in auto)
  qed (use Cons.prems in auto)
qed simp

lemma do_round_tp:
  assumes "do_round env is_disabled n now DST market_dst positions cached last_id st = (rp, st')"
  shows "tp_keeps (tp_db st) (tp_db st')"
proof -
  have pre: "tp_keeps d d1" if "preload_wallets env positions os d = Inr ((ws, prov), d1)" for os d ws prov d1
    using that fold_tp [of create_wallet, OF create_wallet_tp] by (auto simp: preload_wallets_def rbind_eq_Inr_iff Let_def)
  have "tp_keeps (tp_db st) (tp_db st')"
    if "preload_wallets env positions os (tp_db st) = Inr ((ws, prov), d1)"
      "run_trades env now ws prov cached batch (st\<lparr>tp_db := d1\<rparr>) = (r, st')" for os ws prov d1 batch r
    using pre [OF that(1)] run_trades_tp [OF that(2)] tp_keeps_trans by simp
  with assms show ?thesis
    by (auto simp: do_round_def Let_def split: if_splits sum.split_asm prod.split_asm)
qed

subsection \<open>The matcher and the requests\<close>

lemma trade_effect_withdraws:
  assumes "trade_effect env sell buy amount price maker sf bf s t s'"
  shows "withdraws (mdb s') = withdraws (mdb s)"
proof -
  from assms obtain v d1 tx1 tx2 d2 d3 tx1' tx2' os where
    ins: "insert_trade (mdb s) (new_trade env (the_order s sell) (the_order s buy) amount price maker
             sf bf (estimate_rial_value env v)) = Inr (d1, t)"
    and c: "commit d1 tx1 False = Inr (d2, tx1')" "commit d2 tx2 False = Inr (d3, tx2')"
    and s': "mdb s' = d3\<lparr>orders := os\<rparr>"
    unfolding trade_effect_def by blast
  have "withdraws d1 = withdraws (mdb s)" using ins by (auto simp: insert_trade_Inr)
  moreover have "withdraws d2 = withdraws d1" using c(1) by (auto simp: commit_Inr)
  moreover have "withdraws d3 = withdraws d2" using c(2) by (auto simp: commit_Inr)
  ultimately show ?thesis by (simp add: s')
qed

lemma step_withdraws:
  assumes "mstep env s s'"
  shows "withdraws (mdb s') = withdraws (mdb s)"
  using assms
proof cases
  case (step_trade sell buy amount price fees m)
  show ?thesis
    using step_trade(3)
  proof (cases rule: try_trade_cases)
    case (made u s1)
    have r: "sell < length (objs s)" "buy < length (objs s)" "sell \<noteq> buy"
      using step_trade(1) sell_ref_ne_buy_ref by (auto simp: trade_ready_def Let_def sell_ref_def buy_ref_def)
    from trade_effect_withdraws [OF create_exchange_transactions_Inr [OF made(3) r]] show ?thesis by (simp add: made(2))
  qed simp
next
  case (step_load r w)
  then show ?thesis by (auto dest!: load_wallet_cases get_providing_wallet_cases get_user_wallet_db(3))
next
  case (step_expand b q)
  then have "mdb s' = mdb s"
    by (auto simp: get_market_orders_with_expansion_def load_orders_def split: prod.split_asm
        dest!: get_orders_for_expansion_objs)
  then show ?thesis by simp
qed (auto simp: cancel_order_def Let_def count_match_def split: if_splits)

lemma steps_withdraws: "msteps env s s' \<Longrightarrow> withdraws (mdb s') = withdraws (mdb s)"
  by (induction rule: rtranclp_induct) (auto dest: step_withdraws)

lemma book_withdraws: "get_market_orders env s = (sells, buys, s') \<Longrightarrow> mdb s' = mdb s"
  by (auto simp: get_market_orders_def load_orders_def Let_def split: prod.split_asm if_splits)

lemma round_withdraws:
  assumes "do_matching_round env async_stop ts mark rc d = Inr r" "sound_db d"
  shows "withdraws (mdb (rr_state r)) = withdraws d"
proof -
  have post: "withdraws (snd (post_processing_matcher_round env ts mark x e)) = withdraws e" for x e
    by (auto simp: post_processing_matcher_round_def update_oco_positions_def Let_def split: option.split prod.split)
  have proc: "withdraws (mdb s') = withdraws d" if p: "process_market_orders env rc (init_state env d) = Inr (rc', s')" for rc' s'
    using p assms(2)
  proof (rule process_steps)
    fix sells buys s sells' buys' s2
    assume "get_market_orders env (init_state env d) = (sells, buys, s)" "msteps env s s2"
      "s' = post_process_orders env buys' sells' (save_bulk_pending_orders s2)"
    then show ?thesis
      using book_withdraws steps_withdraws
      by (simp add: post_process_orders_def save_bulk_pending_orders_def post_process_updated_margin_orders_def Let_def init_state_def)
  qed
  from assms(1) show ?thesis
    by (auto simp: do_matching_round_def rbind_eq_Inr_iff Let_def post proc split: if_splits)
qed

subsection \<open>The views on the tables\<close>

lemma as_wdb_sel [simp]:
  "wallets (as_wdb x) = wallets (xc_db x)" "transactions (as_wdb x) = transactions (xc_db x)"
  "next_tx_id (as_wdb x) = next_tx_id (xc_db x)" "next_wallet_id (as_wdb x) = next_wallet_id (xc_db x)"
  "orders (as_wdb x) = orders (xc_db x)" "withdraws (as_wdb x) = withdraws (xc_db x)"
  "position_rows (as_wdb x) = position_rows (xc_db x)" "wd_table (as_wdb x) = xc_requests x"
  by (cases "xc_db x"; simp add: as_wdb_def db.defs wdb.defs)+

lemma from_wdb_sel [simp]:
  "wallets (xc_db (from_wdb w x)) = wallets w" "transactions (xc_db (from_wdb w x)) = transactions w"
  "next_tx_id (xc_db (from_wdb w x)) = next_tx_id w" "next_wallet_id (xc_db (from_wdb w x)) = next_wallet_id w"
  "orders (xc_db (from_wdb w x)) = orders w" "withdraws (xc_db (from_wdb w x)) = withdraws w"
  "position_rows (xc_db (from_wdb w x)) = position_rows w" "xc_requests (from_wdb w x) = wd_table w"
  "xc_pools (from_wdb w x) = xc_pools x"
  "trades (xc_db (from_wdb w x)) = trades (xc_db x)"
  by (cases "xc_db x"; cases w; simp add: from_wdb_def db.defs)+

lemma ledger_views:
  "ledger_inv (as_wdb x) = ledger_inv (xc_db x)" "solvent (as_wdb x) = solvent (xc_db x)" "db_grid (as_wdb x) = db_grid (xc_db x)"
  "ledger_inv (xc_db (from_wdb w x)) = ledger_inv w" "solvent (xc_db (from_wdb w x)) = solvent w"
  "db_grid (xc_db (from_wdb w x)) = db_grid w"
  by (simp_all add: ledger_inv_def solvent_def db_grid_def update_balance_from_transactions_def)

lemma request_step_inv:
  assumes "wd_step (as_wdb x) w" "exchange_inv x"
  shows "exchange_inv (from_wdb w x)"
proof -
  have "wd_ok (as_wdb x)" using assms(2) by (simp add: exchange_inv_def sound_db_def wd_ok_def ledger_views)
  with assms(1) have "wd_ok w" "orders w = orders (xc_db x)" by (auto simp: wd_step_def)
  then show ?thesis using assms(2) by (simp add: exchange_inv_def sound_db_def wd_ok_def ledger_views)
qed

lemma tp_step_inv: "tp_keeps (xc_db x) (tp_db st) \<Longrightarrow> exchange_inv x \<Longrightarrow> exchange_inv (from_tp st x)"
  by (simp add: exchange_inv_def from_tp_def tp_keeps_def)

lemma order_step_inv:
  "sound_db d' \<Longrightarrow> withdraws d' = withdraws (xc_db x) \<Longrightarrow> exchange_inv x \<Longrightarrow> exchange_inv (x\<lparr>xc_db := d'\<rparr>)"
  by (simp add: exchange_inv_def)

lemma cancel_orders_withdraws:
  assumes "cancel_orders ids user d = (rows, cids, d')" "sound_db d"
  shows "withdraws d' = withdraws d"
  using cancel_orders_table(4) [OF _ assms(1)] assms(2) by (auto simp: sound_db_def elim: ssubst)

lemma cancel_batch_inv:
  assumes "orders_cancel_batch user ids d = (a, d')" "sound_db d"
  shows "sound_db d' \<and> withdraws d' = withdraws d"
proof -
  obtain rows cids d1 where c: "cancel_orders (remdups ids) (Some user) d = (rows, cids, d1)" by (rule prod_cases3)
  then have "d' = d \<or> d' = d1"
    using assms(1) by (auto simp: orders_cancel_batch_def cancel_batch_of_orders_def Let_def split: if_splits)
  with cancel_orders_keeps_sound [OF c assms(2)] cancel_orders_withdraws [OF c assms(2)] assms(2) show ?thesis by auto
qed

lemma cancel_old_inv:
  assumes "sound_db d"
  shows "sound_db (orders_cancel_old now user src dst hours ex tt d)
     \<and> withdraws (orders_cancel_old now user src dst hours ex tt d) = withdraws d"
proof -
  obtain rows cids d' where c: "cancel_orders (old_orders now user src dst hours ex tt (orders d)) (Some user) d = (rows, cids, d')"
    by (rule prod_cases3)
  then have "orders_cancel_old now user src dst hours ex tt d = d'"
    by (simp add: orders_cancel_old_def cancel_batch_of_orders_def)
  with cancel_orders_keeps_sound [OF c assms] cancel_orders_withdraws [OF c assms] show ?thesis by simp
qed

lemma create_order_inv:
  assumes c: "create_order env i rq d = (r, d')" and s: "sound_db d" "i \<notin> o_id ` set (orders d)" "valid_request env rq" "sane_markets env"
  shows "sound_db d'"
proof (cases r)
  case (Inl e)
  from create_order_refused_keeps [OF c [unfolded Inl] s(1)] show ?thesis .
next
  case (Inr o1)
  from create_order_keeps [OF c [unfolded Inr] s(1-3)] s(4) show ?thesis by (simp add: sane_markets_def)
qed

text \<open>One step keeps the invariant.\<close>

lemma exchange_step_keeps:
  assumes "exchange_step x y" "exchange_inv x"
  shows "exchange_inv y"
proof -
  have s: "sound_db (xc_db x)" using assms(2) by (simp add: exchange_inv_def)
  show ?thesis
    using assms(1)
  proof cases
    case (place env i rq r d')
    from create_order_inv [OF place(2) s place(3-5)] create_order_withdraws [OF place(2)] place(1) assms(2) show ?thesis
      by (auto intro: order_step_inv)
  next
    case (add_order aenv user pro client ua od ids rsp d')
    from order_create_post_keeps [OF add_order(2) s add_order(3,4)] add_order(1) assms(2) show ?thesis
      by (auto intro: order_step_inv)
  next
    case (add_orders aenvs user pro client ua ods idss rsps d')
    from order_batch_keeps [OF add_orders(2) s add_orders(3,4)] add_orders(1) assms(2) show ?thesis
      by (auto intro: order_step_inv)
  next
    case (transfer aenv tenv user cur am src dst r d')
    from transfer_post_keeps [OF transfer(2) s] transfer(1) assms(2) show ?thesis by (auto intro: order_step_inv)
  next
    case (transfer_bulk aenv tenv user src dst items y d')
    from bulk_post_keeps [OF transfer_bulk(2) s] transfer_bulk(1) assms(2) show ?thesis by (auto intro: order_step_inv)
  next
    case (pool p' d')
    from pool_step_keeps [OF pool(2)] pool_step_sound [OF pool(2)] s assms(2) show ?thesis
      by (simp add: pool(1) exchange_inv_def)
  next
    case (update user i c st r d')
    from orders_update_status_keeps_sound [OF update(2) s] update(1) assms(2) show ?thesis by (auto intro: order_step_inv)
  next
    case (cancel user ids a d')
    from cancel_batch_inv [OF cancel(2) s] cancel(1) assms(2) show ?thesis by (auto intro: order_step_inv)
  next
    case (cancel_old now user src dst hours ex tt)
    from cancel_old_inv [OF s] cancel_old assms(2) show ?thesis by (auto intro: order_step_inv)
  next
    case (match menv async_stop ts mark rc rr)
    from round_sound [OF match(2) s match(3)] round_withdraws [OF match(2) s] match(1) assms(2) show ?thesis
      by (auto intro: order_step_inv)
  next
    case (settle menv is_disabled n now DST market_dst positions cached last_id rp st')
    from do_round_tp [OF settle(2)] show ?thesis unfolding settle(1) by (intro tp_step_inv assms(2)) (simp add: as_tp_def)
  next
    case save_trades
    show ?thesis unfolding save_trades
      by (intro tp_step_inv assms(2)) (simp add: as_tp_def bulk_update_trades_def fold_tp [of save_trade_ids, OF save_ids_tp])
  next
    case (request wenv wd wd' w')
    from insert_step [OF request(2,3)] show ?thesis unfolding request(1) by (rule request_step_inv [OF _ assms(2)])
  next
    case (save_request wenv fs wd wd' w')
    from save_step [OF save_request(2)] save_request(3) show ?thesis unfolding save_request(1)
      by (intro request_step_inv [OF _ assms(2)]) blast
  next
    case (verify wenv wd wd' w')
    from verify_step [OF verify(2)] show ?thesis unfolding verify(1) by (rule request_step_inv [OF _ assms(2)])
  next
    case (cancel_request wenv wd ok wd' w')
    from cancel_step_ok [OF cancel_request(2)] show ?thesis unfolding cancel_request(1) by (rule request_step_inv [OF _ assms(2)])
  qed
qed

interpretation exchange_machine: invariant_machine exchange_step exchange_inv
  by unfold_locales (rule exchange_step_keeps)

text \<open>What the invariant says of the tables.\<close>

lemma exchange_inv_tables:
  assumes "exchange_inv x"
  shows "list_all (\<lambda>w. w_balance w = update_balance_from_transactions (xc_db x) (w_id w) \<and> 0 \<le> w_balance w) (wallets (xc_db x))
     \<and> list_all (\<lambda>z. 0 \<le> o_matched_amount z \<and> o_matched_amount z \<le> o_amount z) (orders (xc_db x))
     \<and> distinct (trade_pairs (trades (xc_db x))) \<and> refs_unique (transactions (xc_db x))
     \<and> list_all (capacity_ok (xc_pools x)) (pt_pools (xc_pools x))"
  using assms by (auto simp: exchange_inv_def pool_inv_def sound_db_def ledger_inv_def solvent_def order_inv_def list_all_iff)

end
