(* ===== verification/Spec2Isabelle.thy ===== *)
theory Spec2Isabelle
  imports Matcher_Claims TradeProcessor_Claims Divider Positions_Example Parsers Order_Api_Example Withdraws_Example
    Order_Cancel Pools_Example Exchange Conservation
begin

text \<open>
  \<^bold>\<open>A verified model of the core of the Nobitex exchange.\<close>

  The repository holds a cryptocurrency exchange: a Django application under
  \<^verbatim>\<open>src/core/exchange\<close>, its API front ends, clients of blockchains, a block explorer and some
  cryptographic tools. This development models the part that moves money: wallets and their
  ledger, fees, orders, the matching engine, the asynchronous settlement of trades, margin
  positions, withdraw requests, transfers and the liquidity pools behind margin trading.

  \<^bold>\<open>The parts and how they interact.\<close> A user places an order: the endpoint
  parses and cleans the values of the request and calls \<open>MarketManager.create_order\<close>, which
  inserts the row, unfilled, when the free balance of the wallet covers it. The concurrent
  matcher divides the markets among workers and runs a round per market (\<open>do_matching_round\<close>):
  it loads the book, matches crossing orders in price and time priority, and for each match
  inserts a trade, takes the two sides of it out of the wallets and fills the orders, in one
  nested transaction; at the end of the round it activates stop orders. The trade processor
  (\<open>do_round\<close> of \<^verbatim>\<open>tradeprocessor.py\<close>) finds the trades without deposits and credits both sides
  less the fees. Orders are cancelled by their owners, by the matcher or with their pair.
  Margin orders belong to positions, which settle their result against collateral. Withdraw
  requests take their amount through the same ledger and give it back when cancelled. Users move
  money between their own wallets, and delegate coins to the pool of a currency, whose manager
  lends them to margin traders; they ask for them back with revoke requests, paid in their order
  when the pool can pay, and share the profit of a month by their scores. All of
  them share the tables of one database.

  \<^bold>\<open>Theories.\<close>

  \<^item> \<open>Prelude\<close>: exceptions as values (\<open>py_error\<close>, \<open>result\<close>, \<open>rbind\<close>), loops that may raise,
    dictionaries, and the locale \<open>invariant_machine\<close> of a step relation with an invariant.
  \<^item> \<open>Decimals\<close>, \<open>Money\<close>: Python's \<open>decimal\<close> with 28 digits and half-even rounding (\<open>ctx\<close>, \<open>dadd\<close>,
    \<open>dmul\<close>, \<open>ddiv\<close>, \<open>quantize\<close>), and \<^verbatim>\<open>base/money.py\<close>. The locales \<open>integer_rounding\<close> and
    \<open>value_rounding\<close> carry the lemmas that hold of every rounding mode.
  \<^item> \<open>Parsers\<close>: \<^verbatim>\<open>base/parsers.py\<close>, from the values of a request to integers, decimals and choices, and
    the printing of decimals in \<^verbatim>\<open>base/serializers.py\<close>.
  \<^item> \<open>Fees\<close>: the fee tables of \<^verbatim>\<open>settings.py\<close>, VIP levels of \<^verbatim>\<open>accounts/userstats.py\<close>, the fee of a trade.
  \<^item> \<open>Orders\<close>: the \<open>Order\<close> model of \<^verbatim>\<open>market/models.py\<close>, with its status changes; the cancelling of a
    pair is a terminating recursion on the table.
  \<^item> \<open>Wallets\<close>: \<open>Wallet\<close> and \<open>Transaction\<close> of \<^verbatim>\<open>wallet/models.py\<close>: blocking, creating and committing
    transactions. The locales \<open>ledger\<close> and \<open>guarded_ledger\<close> state what clients rely on; \<open>commit\<close>
    interprets them here and again, for deposits, in \<open>TradeProcessor\<close>.
  \<^item> \<open>Trades\<close>: \<open>OrderMatching\<close> with its four transactions and the filling of orders.
  \<^item> \<open>Matcher\<close>, \<open>Matcher_Steps\<close>, \<open>Matcher_Round\<close>, \<open>Matcher_Example\<close>, \<open>Matcher_Claims\<close>:
    \<^verbatim>\<open>matcher/matcher.py\<close>. The state \<open>mstate\<close> has a heap of order objects beside the database, as
    the code keeps objects whose wallets and pairs are shared. The loops are shown to be runs of
    small steps (\<open>mstep\<close>), and the invariants are proved for the steps.
  \<^item> \<open>TradeProcessor\<close>, \<open>TradeProcessor_Claims\<close>: \<^verbatim>\<open>matcher/tradeprocessor.py\<close> and the repair job
    \<open>create_missing_transaction\<close> of \<^verbatim>\<open>market/functions.py\<close>.
  \<^item> \<open>Divider\<close>: \<^verbatim>\<open>matcher/divider.py\<close> and the rounds of the command \<^verbatim>\<open>concurrent_matcher.py\<close>.
  \<^item> \<open>Positions\<close>, \<open>Positions_Settlement\<close>, \<open>Positions_Example\<close>: \<^verbatim>\<open>margin/models.py\<close> and
    \<^verbatim>\<open>margin/services/margincalculator.py\<close>.
  \<^item> \<open>Order_Entry\<close>, \<open>Order_Entry_Example\<close>: \<open>create_order\<close> of \<^verbatim>\<open>market/marketmanager.py\<close>.
  \<^item> \<open>Order_Api\<close>, \<open>Order_Api_Example\<close>: \<open>OrderCreateMixin\<close> and its views in \<^verbatim>\<open>market/views.py\<close>, from the
    values of a request to the response.
  \<^item> \<open>Order_Cancel\<close>: \<^verbatim>\<open>market/order_cancel.py\<close> and the views of \<^verbatim>\<open>market/views.py\<close> that cancel.
  \<^item> \<open>Withdraws\<close>, \<open>Withdraws_Claims\<close>, \<open>Withdraws_Ledger\<close>, \<open>Withdraws_Example\<close>: \<open>WithdrawRequest\<close> of
    \<^verbatim>\<open>wallet/models.py\<close>.
  \<^item> \<open>Transfers\<close>, \<open>Transfers_Example\<close>: transfers between the wallets of a user, one and in bulk, of
    \<^verbatim>\<open>wallet/functions.py\<close> with their views, and the posting of many transactions at once of
    \<^verbatim>\<open>wallet/wallet_manager.py\<close>.
  \<^item> \<open>Pools\<close>, \<open>Pools_Ledger\<close>, \<open>Pools_Claims\<close>: the delegations and revoke requests of \<^verbatim>\<open>pool/models.py\<close>,
    \<^verbatim>\<open>pool/poolmanager.py\<close> and \<^verbatim>\<open>pool/views.py\<close> (record \<open>pool_tables\<close>), the invariant \<open>pool_inv\<close> of their books
    with the steps of the handlers (\<open>pool_step\<close>), and what a delegation moves.
  \<^item> \<open>Pool_Profits\<close>, \<open>Pool_Profits_Claims\<close>, \<open>Pools_Example\<close>: scores, shares and payment of the profit of a
    month in \<^verbatim>\<open>pool/functions.py\<close>, with the paying of \<open>PoolProfit\<close> and \<open>UserDelegationProfit\<close>, and the
    concrete pools that the theorems are applied to.
  \<^item> \<open>Exchange\<close>, \<open>Conservation\<close> and this theory: the composition of the components.

  \<^bold>\<open>What the theorems show.\<close> A round of the matcher, of the concurrent matcher, of the processor,
  an order that is placed or cancelled, and a step of a withdraw request each keep the tables
  sound: balances are the sums of their transactions, never negative, references are unique,
  no order is overfilled and no two orders trade twice; \<open>exchange_sound\<close> puts them together for
  every interleaving of handlers. No request, whatever its values, breaks the tables; the
  response of the order endpoint is true to them, and a pair of orders is placed as a whole
  or not at all. Amounts are read back as they are printed and fit their columns. Trades respect the limits of both orders and a failing match
  changes nothing. Wallets move by exactly the amounts of the trade, and no currency gains
  from a trade and its settlement (\<open>trade_creates_no_money\<close>) nor from a transfer whose amount has at
  most 28 digits (\<open>transfer_exact\<close>). The capacities of a pool are the sums of its delegations and
  unpaid requests (\<open>pool_books_sound\<close>), a delegation moves exactly its amount, the shares of a month
  add up to at most the profit of the pool, and a distribution pays what was not paid before and
  charges what was not charged before (\<open>distribution_exact\<close>). A trade is credited at most once,
  and the pointer of the processor passes no recent trade it has not tried. Book priority, stop
  orders, the partition of the markets, order limits, pairs, the statuses of positions and
  requests, splitting, verification and cancelling of withdraws, fees of positions and their
  settlement have their own theorems, each branch of the code, errors included, being a branch
  of its definition.

  Some theorems show behaviour that looks unintended, and say so: a trade whose second deposit
  failed stays half paid until the repair job runs, the repair job may loop on a full batch it
  cannot complete, the guard against the last price is overwritten by the one on the mark
  price (for most coins), a revoke request that rounds to nothing is never paid and blocks the requests of its pool
  behind it, a repeated request with a price finer than the market's is not found to be a
  duplicate, a transfer of an amount of 31 digits creates money; and where transactions are made
  when a withdraw is verified (\<open>WITHDRAW_CREATE_TX_VERIFY\<close>, which is off in production), a stale object
  lets a sent withdraw be refunded, and the parts of a split withdraw share one transaction and
  each can be refunded in full.

  \<^bold>\<open>Parameters.\<close> The package \<open>exchange.config\<close> is not part of the repository: precisions, the list
  of quote currencies, limits and fees it holds are fields of the environments \<open>menv\<close>, \<open>oenv\<close>,
  \<open>penv\<close>, \<open>wenv\<close>, \<open>transfer_env\<close>, \<open>pool_env\<close>, \<open>profit_env\<close>. So are the clock, caches, settings rows and
  the estimators of prices. The hypothesis on the environment that recurs is that amounts are kept with at most ten decimal
  places (\<open>MAX_PRECISION \<le> the (amount_precision env)\<close>), the precision of the money columns.
  \<open>deterministic_hash\<close> is a parameter of \<open>set_ref\<close>.

  \<^bold>\<open>Bounds.\<close> There is no fuel. Loops recurse on the lists they run over, with measures where they
  re-enter the book; the repair job, which need not end, is a partial function into option. So are
  the loops that pay a profit in transactions of at most \<open>TRANSACTION_MAX\<close>: they end on every value a
  column holds (\<open>charge_chunks_returns\<close>, \<open>credit_chunks_returns\<close>). Profits are scored and shared
  in batches of a thousand rows.
  Decimal columns keep ten places, the database rounding ties away from zero and a
  \<open>RoundedDecimalField\<close> half to even; that a value overflows its column is
  modelled where an order or a revoke request is inserted and where the books of a pool change
  (\<open>DataError\<close>), and left out elsewhere.

  \<^bold>\<open>Database and concurrency.\<close> A handler that raises inside \<open>transaction.atomic\<close> is rolled back: its
  error has no new database. Handlers outside of a transaction return the database they leave
  behind together with the error; requests of the site run in one transaction
  (\<open>ATOMIC_REQUESTS\<close>). Workers that run at once, like the partitions of the matcher, run one after
  the other in the model; \<open>concurrent_partitions_disjoint\<close> shows that they share no market. Threads
  and processes are sequences of steps of handlers on the shared tables, which row locks enforce in
  the code; the locks are inputs.

  \<^bold>\<open>Not modelled.\<close> Logs, metrics, notifications and websocket messages; the SQL of
  \<open>_get_db_based_pending_markets\<close>; the synchronous commit mode of the matcher and dry runs; the
  blacklists of withdraw requests and the search for an internal target wallet (an input);
  addresses and deposits, whose truth is on the chains; the parsers of dates, floats and UUIDs;
  the views that only read; reports and statistics; of the pools, the profit of their positions and
  its conversion to rials, the annual rate, alerts, and the task of the exchange's own delegator. Outside of
  \<^verbatim>\<open>src/core\<close>: the API front ends, the blockchain clients, the explorer and the code in other
  languages.
\<close>

section \<open>The exchange\<close>

text \<open>C1: whatever handlers run, in whatever order and with whatever inputs, on a sound database: every
  balance is the sum of its transactions and not negative, no order is filled beyond its
  amount, no two orders trade twice, no reference is used twice, the balances blocked by
  withdraw requests are those of the requests, and the capacities of the pools are the sums of
  their delegations and unpaid revoke requests.\<close>

theorem exchange_sound:
  assumes "exchange_step\<^sup>*\<^sup>* x y" "exchange_inv x"
  shows "exchange_inv y
     \<and> list_all (\<lambda>w. w_balance w = update_balance_from_transactions (xc_db y) (w_id w) \<and> 0 \<le> w_balance w) (wallets (xc_db y))
     \<and> list_all (\<lambda>z. 0 \<le> o_matched_amount z \<and> o_matched_amount z \<le> o_amount z) (orders (xc_db y))
     \<and> distinct (trade_pairs (trades (xc_db y))) \<and> refs_unique (transactions (xc_db y))
     \<and> list_all (capacity_ok (xc_pools y)) (pt_pools (xc_pools y))"
  using exchange_machine.run_keeps [OF assms] exchange_inv_tables by blast

text \<open>A matching round that trades, and a round of the processor after it.\<close>

definition xc_start :: exchange where
  "xc_start = \<lparr>xc_db = ex_db, xc_requests = [], xc_next_request = 1, xc_filled = [],
     xc_pools = \<lparr>pt_pools = [], pt_accesses = [], pt_delegations = [], pt_transactions = [], pt_revokes = [], pt_next_id = 1\<rparr>\<rparr>"

definition xc_matched :: exchange where "xc_matched = xc_start\<lparr>xc_db := mdb (rr_state ex_result)\<rparr>"

definition xc_settled :: exchange where
  "xc_settled = from_tp (snd (do_round ex_env False 100 3000 [2] (\<lambda>_. 2) (\<lambda>_. None) [2 \<mapsto> [7, 8]] None (as_tp xc_matched))) xc_matched"

theorem exchange_sound_witness:
  "exchange_step\<^sup>*\<^sup>* xc_start xc_settled \<and> exchange_inv xc_settled \<and> trades (xc_db xc_matched) \<noteq> []"
proof -
  have m: "exchange_step xc_start xc_matched"
    unfolding xc_matched_def
    by (rule exchange_step.match [where menv = ex_env]) (use ex_round in \<open>simp_all add: xc_start_def MAX_PRECISION_def\<close>)
  have s: "exchange_step xc_matched xc_settled"
    unfolding xc_settled_def by (rule exchange_step.settle, rule prod.collapse [symmetric])
  have i: "exchange_inv xc_start"
    using ex_sound by (simp add: exchange_inv_def xc_start_def pool_inv_def pool_ids_def) (simp add: ex_db_def)
  have run: "exchange_step\<^sup>*\<^sup>* xc_start xc_settled" using m s by (rule converse_rtranclp_into_rtranclp [OF _ r_into_rtranclp])
  have "trades (xc_db xc_matched) \<noteq> []"
    by (simp add: xc_matched_def ex_result_def ex_s4_def ex_db4_def ex_db3_def ex_db2_def ex_db1_def)
  with exchange_sound [OF run i] run show ?thesis by blast
qed

end
